(* ===== verification/Prelude.thy ===== *)
theory Prelude
  imports Complex_Main "HOL-Library.AList" "HOL-Library.Multiset"
begin

text \<open>
  Shared vocabulary of the development: Python values as JSON trees, insertion-ordered
  dictionaries, exceptions as values, a state-and-exception effect type for code that talks to
  containers and RPC endpoints, and the string helpers the sources use.

  Conventions used by every theory:
  \<^item> a Python \<open>str\<close> is a list of characters, an \<open>int\<close> is \<open>int\<close>, a \<open>float\<close> is a rational number
    (the rounding of binary floating point is modelled in \<open>Floats\<close> and used where it decides a count);
  \<^item> a \<open>dict\<close> is an association list in insertion order, with distinct keys;
  \<^item> \<open>raise\<close> is a value: \<open>Inl\<close> of an exception, \<open>Inr\<close> of the returned value;
  \<^item> \<open>print\<close> and \<open>sleep\<close> change nothing that the code reads back and have no counterpart, except
    where the elapsed time decides a branch: there the clock is an explicit argument.
\<close>

section \<open>Automation\<close>

named_theorems io_simps
  \<open>unfolding of the effect combinators\<close>
named_theorems model_simps
  \<open>executable facts about the model that are safe to rewrite with\<close>

section \<open>Results and exceptions\<close>

text \<open>
  The exception classes the sources raise or distinguish when they catch. \<open>KDiverged\<close> is no Python
  exception: it stands for a call that does not return (a loop or recursion out of fuel, a
  deadlock), and no handler of the sources catches it.
\<close>

datatype exn_kind =
    KException | KRuntimeError | KValueError | KTypeError | KKeyError | KAttributeError
  | KTimeoutError | KRpcError | KStartupError | KServiceState | KConflict | KHttpTimeout
  | KConnection | KFileNotFound | KKeyboardInterrupt | KSystemExit int | KQuota | KOSError
  | KIndexError | KZeroDivision | KApi int | KProcess | KNameError | KDiverged

datatype exn = Exn (exn_class: exn_kind) (exn_msg: string)

fun ebind :: "'e + 'a \<Rightarrow> ('a \<Rightarrow> 'e + 'b) \<Rightarrow> 'e + 'b" where
  "ebind (Inl e) f = Inl e"
| "ebind (Inr x) f = f x"

fun traverse :: "('a \<Rightarrow> 'e + 'b) \<Rightarrow> 'a list \<Rightarrow> 'e + 'b list" where
  "traverse f [] = Inr []"
| "traverse f (x # xs) = ebind (f x) (\<lambda>y. ebind (traverse f xs) (\<lambda>ys. Inr (y # ys)))"

lemma ebind_Inr_iff: "ebind m f = Inr y \<longleftrightarrow> (\<exists>x. m = Inr x \<and> f x = Inr y)"
  by (cases m) auto

lemma ebind_Inl_iff: "ebind m f = Inl e \<longleftrightarrow> m = Inl e \<or> (\<exists>x. m = Inr x \<and> f x = Inl e)"
  by (cases m) auto

lemma ebind_cong [fundef_cong]:
  "m = m' \<Longrightarrow> (\<And>x. m' = Inr x \<Longrightarrow> f x = f' x) \<Longrightarrow> ebind m f = ebind m' f'"
  by (cases m') auto

lemma traverse_Inr_iff:
  "traverse f xs = Inr ys \<longleftrightarrow> list_all2 (\<lambda>x y. f x = Inr y) xs ys"
  by (induction xs arbitrary: ys) (auto simp: ebind_Inr_iff list_all2_Cons1)

lemma traverse_length: "traverse f xs = Inr ys \<Longrightarrow> length ys = length xs"
  by (auto simp: traverse_Inr_iff dest: list_all2_lengthD)

lemma traverse_map_inverse:
  "(\<And>x. x \<in> set xs \<Longrightarrow> f (g x) = Inr x) \<Longrightarrow> traverse f (map g xs) = Inr xs"
  by (induction xs) auto

lemma list_all2_Inr_set:
  "list_all2 (\<lambda>x y. f x = Inr y) xs ys \<Longrightarrow> y \<in> set ys \<Longrightarrow> \<exists>x\<in>set xs. f x = Inr y"
  by (induction rule: list_all2_induct) auto

section \<open>JSON values and Python dictionaries\<close>

datatype json =
    JNull | JBool bool | JInt int | JFloat rat | JStr string
  | JList "json list" | JDict "(string \<times> json) list"

type_synonym dict = "(string \<times> json) list"

text \<open>\<open>d.get(k)\<close>, \<open>d.get(k, default)\<close> and \<open>d[k] = v\<close>, which keeps the place of an existing key.\<close>

definition dget :: "dict \<Rightarrow> string \<Rightarrow> json" where
  "dget d k = (case map_of d k of None \<Rightarrow> JNull | Some v \<Rightarrow> v)"

definition dget_default :: "dict \<Rightarrow> string \<Rightarrow> json \<Rightarrow> json" where
  "dget_default d k v = (case map_of d k of None \<Rightarrow> v | Some x \<Rightarrow> x)"

definition dset :: "dict \<Rightarrow> string \<Rightarrow> json \<Rightarrow> dict" where
  "dset d k v = AList.update k v d"

definition dsetdefault :: "dict \<Rightarrow> string \<Rightarrow> json \<Rightarrow> dict" where
  "dsetdefault d k v = (if k \<in> fst ` set d then d else dset d k v)"

text \<open>Python truth value, \<open>a or b\<close>, and the two \<open>isinstance\<close> tests: a \<open>bool\<close> is an \<open>int\<close>.\<close>

fun truthy :: "json \<Rightarrow> bool" where
  "truthy JNull = False"
| "truthy (JBool b) = b"
| "truthy (JInt n) = (n \<noteq> 0)"
| "truthy (JFloat x) = (x \<noteq> 0)"
| "truthy (JStr s) = (s \<noteq> [])"
| "truthy (JList xs) = (xs \<noteq> [])"
| "truthy (JDict d) = (d \<noteq> [])"

definition py_or :: "json \<Rightarrow> json \<Rightarrow> json" where
  "py_or a b = (if truthy a then a else b)"

fun is_int :: "json \<Rightarrow> bool" where
  "is_int (JInt _) = True"
| "is_int (JBool _) = True"
| "is_int _ = False"

fun is_bool :: "json \<Rightarrow> bool" where
  "is_bool (JBool _) = True"
| "is_bool _ = False"

text \<open>The number behind an \<open>int\<close>, \<open>bool\<close> or \<open>float\<close>; Python compares these across types.\<close>

fun num_of :: "json \<Rightarrow> rat option" where
  "num_of (JInt n) = Some (of_int n)"
| "num_of (JBool b) = Some (if b then 1 else 0)"
| "num_of (JFloat x) = Some x"
| "num_of _ = None"

text \<open>\<open>iter(x)\<close>: lists give elements, strings characters, dictionaries keys; the rest is a TypeError.\<close>

fun py_iter :: "json \<Rightarrow> (json list) option" where
  "py_iter (JList xs) = Some xs"
| "py_iter (JStr s) = Some (map (\<lambda>c. JStr [c]) s)"
| "py_iter (JDict d) = Some (map (\<lambda>kv. JStr (fst kv)) d)"
| "py_iter _ = None"

lemma dget_Nil [simp]: "dget [] k = JNull"
  by (simp add: dget_def)

lemma dget_Cons [simp]: "dget ((k, v) # d) k' = (if k = k' then v else dget d k')"
  by (simp add: dget_def)

lemma dget_dset [simp]: "dget (dset d k v) k' = (if k' = k then v else dget d k')"
  by (simp add: dget_def dset_def update_conv)

lemma map_of_dset: "map_of (dset d k v) = (map_of d)(k \<mapsto> v)"
  by (simp add: dset_def update_conv')

lemma keys_dset: "fst ` set (dset d k v) = insert k (fst ` set d)"
  by (simp add: dset_def dom_update)

lemma dget_dsetdefault [simp]:
  "dget (dsetdefault d k v) k' =
     (if k' = k \<and> k \<notin> fst ` set d then v else dget d k')"
  by (simp add: dsetdefault_def)

lemma dset_idem: "map_of d k = Some v \<Longrightarrow> dset d k v = d"
  unfolding dset_def by (induction d) auto

lemma dset_dset [simp]: "dset (dset d k v) k w = dset d k w"
  unfolding dset_def by (induction d) auto

lemma dset_swap:
  "k \<in> fst ` set d \<Longrightarrow> k \<noteq> k' \<Longrightarrow> dset (dset d k' w) k v = dset (dset d k v) k' w"
  unfolding dset_def by (induction d) auto

lemma dset_dset_same: "dset (dset d k v) k v = dset d k v"
  by (rule dset_idem) (simp add: map_of_dset)

lemma dget_SomeI: "map_of d k = Some v \<Longrightarrow> dget d k = v"
  by (simp add: dget_def)

lemma map_of_dget: "dget d k \<noteq> JNull \<Longrightarrow> map_of d k = Some (dget d k)"
  by (auto simp: dget_def split: option.splits)

section \<open>Effects\<close>

text \<open>
  An effectful call reads and changes a world \<open>'w\<close> (containers, wallets, files, the clock) and
  either raises or returns. The world and its primitive calls are parameters of the definitions
  that use them.
\<close>

type_synonym ('w, 'a) io = "'w \<Rightarrow> (exn + 'a) \<times> 'w"

definition io_ret :: "'a \<Rightarrow> ('w, 'a) io" where
  "io_ret x = (\<lambda>w. (Inr x, w))"

definition io_raise :: "exn \<Rightarrow> ('w, 'a) io" where
  "io_raise e = (\<lambda>w. (Inl e, w))"

definition io_lift :: "exn + 'a \<Rightarrow> ('s, 'a) io" where
  "io_lift r = (\<lambda>s. (r, s))"

definition io_bind :: "('w, 'a) io \<Rightarrow> ('a \<Rightarrow> ('w, 'b) io) \<Rightarrow> ('w, 'b) io" where
  "io_bind m f = (\<lambda>w. case m w of (Inl e, w') \<Rightarrow> (Inl e, w') | (Inr x, w') \<Rightarrow> f x w')"

definition io_seq :: "('w, 'a) io \<Rightarrow> ('w, 'b) io \<Rightarrow> ('w, 'b) io" where
  "io_seq m n = io_bind m (\<lambda>_. n)"

text \<open>\<open>try: m except Exception as e: h e\<close> with the handled classes given by \<open>p\<close>.\<close>

definition io_catch :: "('w, 'a) io \<Rightarrow> (exn \<Rightarrow> bool) \<Rightarrow> (exn \<Rightarrow> ('w, 'a) io) \<Rightarrow> ('w, 'a) io" where
  "io_catch m p h =
     (\<lambda>w. case m w of (Inl e, w') \<Rightarrow> if p e then h e w' else (Inl e, w') | (Inr x, w') \<Rightarrow> (Inr x, w'))"

text \<open>\<open>try: m finally: f\<close>: an exception of \<open>f\<close> replaces the outcome of \<open>m\<close>.\<close>

definition io_finally :: "('w, 'a) io \<Rightarrow> ('w, 'b) io \<Rightarrow> ('w, 'a) io" where
  "io_finally m f =
     (\<lambda>w. case m w of (r, w') \<Rightarrow> (case f w' of (Inl e, w'') \<Rightarrow> (Inl e, w'') | (Inr _, w'') \<Rightarrow> (r, w'')))"

fun io_for :: "('a \<Rightarrow> ('w, 'b) io) \<Rightarrow> 'a list \<Rightarrow> ('w, unit) io" where
  "io_for f [] = io_ret ()"
| "io_for f (x # xs) = io_bind (f x) (\<lambda>_. io_for f xs)"

text \<open>
  \<open>ThreadPool().map(f, xs)\<close>: every task is run, and the error of a task is raised when all are done.
  The tasks are taken one after the other; when several fail, the error of the first is raised.
\<close>

fun io_pool :: "('a \<Rightarrow> ('w, 'b) io) \<Rightarrow> 'a list \<Rightarrow> ('w, unit) io" where
  "io_pool f [] = io_ret ()"
| "io_pool f (x # xs) =
     (\<lambda>w. case f x w of (r, w') \<Rightarrow> (case io_pool f xs w' of (q, w'') \<Rightarrow>
        ((case r of Inl e \<Rightarrow> Inl e | Inr _ \<Rightarrow> q), w'')))"

fun io_traverse :: "('a \<Rightarrow> ('w, 'b) io) \<Rightarrow> 'a list \<Rightarrow> ('w, 'b list) io" where
  "io_traverse f [] = io_ret []"
| "io_traverse f (x # xs) =
     io_bind (f x) (\<lambda>y. io_bind (io_traverse f xs) (\<lambda>ys. io_ret (y # ys)))"

lemma io_bind_Inr_iff:
  "io_bind m f w = (Inr y, w') \<longleftrightarrow> (\<exists>x v. m w = (Inr x, v) \<and> f x v = (Inr y, w'))"
  by (auto simp: io_bind_def split: prod.splits sum.splits)

lemma io_ret_Inr_iff: "io_ret x w = (Inr y, w') \<longleftrightarrow> y = x \<and> w' = w"
  by (auto simp: io_ret_def)

lemma io_traverse_Inr:
  "io_traverse f xs w = (Inr ys, w') \<Longrightarrow> list_all2 (\<lambda>x y. \<exists>v v'. f x v = (Inr y, v')) xs ys"
proof (induction xs arbitrary: w ys)
  case (Cons x xs)
  obtain q w1 where q: "f x w = (q, w1)" by fastforce
  obtain qs w2 where qs: "io_traverse f xs w1 = (qs, w2)" by fastforce
  show ?case using Cons q qs
    by (cases q; cases qs) (auto simp: io_bind_def io_ret_def)
qed (simp add: io_ret_def)

declare io_ret_def [io_simps] io_raise_def [io_simps] io_bind_def [io_simps]
  io_seq_def [io_simps] io_catch_def [io_simps] io_finally_def [io_simps]

text \<open>\<open>except Exception\<close> lets the two interpreter-exit exceptions through.\<close>

fun is_exception :: "exn \<Rightarrow> bool" where
  "is_exception (Exn KKeyboardInterrupt _) = False"
| "is_exception (Exn (KSystemExit _) _) = False"
| "is_exception (Exn KDiverged _) = False"
| "is_exception _ = True"

definition diverge :: "('w, 'a) io" where
  "diverge = io_raise (Exn KDiverged [])"

definition diverged :: "exn + 'a \<Rightarrow> bool" where
  "diverged r = (case r of Inl e \<Rightarrow> exn_class e = KDiverged | Inr _ \<Rightarrow> False)"

lemma diverged_simps [simp]:
  "\<not> diverged (Inr x)"
  "diverged (Inl e) \<longleftrightarrow> exn_class e = KDiverged"
  by (simp_all add: diverged_def)

lemma not_diverged_exception: "is_exception e \<Longrightarrow> exn_class e \<noteq> KDiverged"
  by (cases e rule: is_exception.cases) auto

text \<open>
  \<open>while go: try: return body() except Exception: pause\<close>, then \<open>final\<close>. One unit of fuel per
  turn; the lemma below gives the fuel that is enough when each pause moves the clock on.
\<close>

fun retry_while ::
    "nat \<Rightarrow> ('w \<Rightarrow> bool) \<Rightarrow> ('w, 'a) io \<Rightarrow> ('w \<Rightarrow> 'w) \<Rightarrow> ('w, 'a) io \<Rightarrow> ('w, 'a) io" where
  "retry_while 0 go body pause final = diverge"
| "retry_while (Suc n) go body pause final =
     (\<lambda>w. if go w
          then (case body w of
                  (Inr x, w') \<Rightarrow> (Inr x, w')
                | (Inl e, w') \<Rightarrow> if is_exception e then retry_while n go body pause final (pause w')
                                else (Inl e, w'))
          else final w)"

lemma retry_while_returns:
  fixes clock :: "'w \<Rightarrow> rat"
  assumes body: "\<And>w. \<not> diverged (fst (body w))" "\<And>w. clock w \<le> clock (snd (body w))"
    and pause: "\<And>w. clock w + d \<le> clock (pause w)"
    and go: "\<And>w. go w \<Longrightarrow> clock w < limit"
    and final: "\<And>w. \<not> diverged (fst (final w))"
  shows "limit \<le> clock w + d * of_nat n \<Longrightarrow> \<not> diverged (fst (retry_while (Suc n) go body pause final w))"
proof (induction n arbitrary: w)
  case 0
  then have "\<not> go w" using go [of w] by auto
  then show ?case using final by simp
next
  case (Suc n)
  obtain r w' where b: "body w = (r, w')" by fastforce
  have nd: "\<not> diverged r" and le: "clock w \<le> clock w'"
    using body [of w] by (simp_all add: b)
  show ?case
  proof (cases "go w")
    case False
    then show ?thesis using final by simp
  next
    case True
    show ?thesis
    proof (cases r)
      case (Inr x)
      then show ?thesis using True by (simp add: b)
    next
      case (Inl e)
      have "limit \<le> clock (pause w') + d * of_nat n"
        using Suc.prems le pause [of w'] by (simp add: algebra_simps)
      then have "\<not> diverged (fst (retry_while (Suc n) go body pause final (pause w')))"
        by (rule Suc.IH)
      then show ?thesis
        using True Inl nd by (simp add: b del: retry_while.simps add: retry_while.simps(2) [of "Suc n"])
    qed
  qed
qed

text \<open>Calls that return and never turn the clock back.\<close>

definition timely :: "('w \<Rightarrow> rat) \<Rightarrow> ('w, 'a) io \<Rightarrow> bool" where
  "timely clock m = (\<forall>w. \<not> diverged (fst (m w)) \<and> clock w \<le> clock (snd (m w)))"

lemma timelyI: "(\<And>w r w'. m w = (r, w') \<Longrightarrow> \<not> diverged r \<and> clock w \<le> clock w') \<Longrightarrow> timely clock m"
  unfolding timely_def by (metis prod.collapse)

lemma timelyD: "timely clock m \<Longrightarrow> m w = (r, w') \<Longrightarrow> \<not> diverged r \<and> clock w \<le> clock w'"
  unfolding timely_def by (metis fst_conv snd_conv)

lemma timely_ret: "timely clock (io_ret x)"
  by (simp add: timely_def io_ret_def)

lemma timely_raise: "exn_class e \<noteq> KDiverged \<Longrightarrow> timely clock (io_raise e)"
  by (simp add: timely_def io_raise_def)

lemma timely_bind:
  assumes "timely clock m" "\<And>x. timely clock (f x)"
  shows "timely clock (io_bind m f)"
proof (rule timelyI)
  fix w r w'
  assume run: "io_bind m f w = (r, w')"
  obtain r1 w1 where m: "m w = (r1, w1)" by fastforce
  note 1 = timelyD [OF assms(1) m]
  show "\<not> diverged r \<and> clock w \<le> clock w'"
  proof (cases r1)
    case (Inl e)
    then show ?thesis using run m 1 by (auto simp: io_bind_def diverged_def)
  next
    case (Inr x)
    then have "f x w1 = (r, w')" using run m by (simp add: io_bind_def)
    then show ?thesis using timelyD [OF assms(2)] 1 by (meson order_trans)
  qed
qed

lemma timely_seq: "timely clock m \<Longrightarrow> timely clock n \<Longrightarrow> timely clock (io_seq m n)"
  unfolding io_seq_def by (rule timely_bind)

lemma timely_catch:
  assumes "timely clock m" "\<And>e. p e \<Longrightarrow> exn_class e \<noteq> KDiverged \<Longrightarrow> timely clock (h e)"
  shows "timely clock (io_catch m p h)"
proof (rule timelyI)
  fix w r w'
  assume run: "io_catch m p h w = (r, w')"
  obtain r1 w1 where m: "m w = (r1, w1)" by fastforce
  note 1 = timelyD [OF assms(1) m]
  show "\<not> diverged r \<and> clock w \<le> clock w'"
  proof (cases "\<exists>e. r1 = Inl e \<and> p e")
    case True
    then obtain e where e: "r1 = Inl e" "p e" by blast
    then have "h e w1 = (r, w')" using run m by (simp add: io_catch_def)
    moreover have "exn_class e \<noteq> KDiverged" using 1 e by simp
    ultimately show ?thesis using timelyD [OF assms(2) [OF e(2)]] 1 by (meson order_trans)
  next
    case False
    then show ?thesis using run m 1 by (cases r1) (auto simp: io_catch_def)
  qed
qed

lemma timely_if: "(b \<Longrightarrow> timely clock m) \<Longrightarrow> (\<not> b \<Longrightarrow> timely clock n) \<Longrightarrow> timely clock (if b then m else n)"
  by simp

lemma timely_value: "\<not> diverged r \<Longrightarrow> timely clock (\<lambda>w. (r, w))"
  by (simp add: timely_def)

lemma timely_lift: "\<not> diverged r \<Longrightarrow> timely clock (io_lift r)"
  by (simp add: timely_def io_lift_def)

lemmas timely_intros = timely_if timely_ret timely_raise timely_bind timely_seq timely_catch timely_value timely_lift

text \<open>
  \<open>while now < deadline: step; sleep\<close>, then \<open>final\<close>. A step goes on with a new local state
  (\<open>Inl\<close>) or returns (\<open>Inr\<close>). One unit of fuel per turn.
\<close>

fun poll_while ::
    "nat \<Rightarrow> ('w \<Rightarrow> bool) \<Rightarrow> ('s \<Rightarrow> ('w, 's + 'a) io) \<Rightarrow> ('w \<Rightarrow> 'w) \<Rightarrow> ('s \<Rightarrow> ('w, 'a) io) \<Rightarrow> 's \<Rightarrow> ('w, 'a) io" where
  "poll_while 0 go step pause final s = diverge"
| "poll_while (Suc n) go step pause final s =
     (\<lambda>w. if go w
          then (case step s w of
                  (Inl e, w') \<Rightarrow> (Inl e, w')
                | (Inr (Inl s'), w') \<Rightarrow> poll_while n go step pause final s' (pause w')
                | (Inr (Inr x), w') \<Rightarrow> (Inr x, w'))
          else final s w)"

lemma poll_while_result:
  "poll_while n go step pause final s w = (Inr x, w') \<Longrightarrow>
     (\<exists>s0 w0. go w0 \<and> step s0 w0 = (Inr (Inr x), w')) \<or> (\<exists>s0 w0. \<not> go w0 \<and> final s0 w0 = (Inr x, w'))"
proof (induction n arbitrary: s w)
  case 0
  then show ?case by (simp add: diverge_def io_raise_def)
next
  case (Suc n)
  show ?case
  proof (cases "go w")
    case False
    then show ?thesis using Suc.prems by auto
  next
    case True
    obtain q w1 where q: "step s w = (q, w1)" by fastforce
    then show ?thesis using True Suc.prems Suc.IH by (auto split: sum.splits)
  qed
qed

lemma poll_while_returns:
  assumes step: "\<And>s. timely clock (step s)"
    and final: "\<And>s. timely clock (final s)"
    and pause: "\<And>w. clock w + d \<le> clock (pause w)"
    and go: "\<And>w. go w \<Longrightarrow> clock w < limit"
  shows "limit \<le> clock w + d * of_nat n \<Longrightarrow> 0 \<le> d \<Longrightarrow>
     poll_while (Suc n) go step pause final s w = (r, w') \<Longrightarrow> \<not> diverged r \<and> clock w \<le> clock w'"
proof (induction n arbitrary: w s)
  case (0 w s)
  then have "\<not> go w" using go [of w] by auto
  then show ?case using 0 timelyD [OF final] by simp
next
  case (Suc n)
  show ?case
  proof (cases "go w")
    case False
    then show ?thesis using Suc.prems timelyD [OF final] by simp
  next
    case True
    obtain q w1 where q: "step s w = (q, w1)" by fastforce
    note 1 = timelyD [OF step q]
    show ?thesis
    proof (cases "\<exists>s'. q = Inr (Inl s')")
      case True
      then obtain s' where s': "q = Inr (Inl s')" by blast
      have "poll_while (Suc n) go step pause final s' (pause w1) = (r, w')"
        using Suc.prems(3) \<open>go w\<close> q s' by simp
      moreover have "limit \<le> clock (pause w1) + d * of_nat n"
        using Suc.prems(1) 1 pause [of w1] by (simp add: algebra_simps)
      ultimately have "\<not> diverged r \<and> clock (pause w1) \<le> clock w'"
        using Suc.IH Suc.prems(2) by blast
      then show ?thesis using 1 pause [of w1] Suc.prems(2) by linarith
    next
      case False
      then show ?thesis
        using Suc.prems(3) \<open>go w\<close> q 1
        by (auto split: sum.splits simp: diverged_def)
    qed
  qed
qed

text \<open>
  \<open>while True: step; sleep\<close>: a loop that only its step ends. The step gives up once the clock has
  passed the limit.
\<close>

definition poll_until ::
    "nat \<Rightarrow> ('s \<Rightarrow> ('w, 's + 'a) io) \<Rightarrow> ('w \<Rightarrow> 'w) \<Rightarrow> 's \<Rightarrow> ('w, 'a) io" where
  "poll_until n step pause s = poll_while n (\<lambda>_. True) step pause (\<lambda>_. diverge) s"

lemma poll_until_Suc:
  "poll_until (Suc n) step pause s w = (case step s w of
      (Inl e, w') \<Rightarrow> (Inl e, w')
    | (Inr (Inl s'), w') \<Rightarrow> poll_until n step pause s' (pause w')
    | (Inr (Inr x), w') \<Rightarrow> (Inr x, w'))"
  by (simp add: poll_until_def cong: sum.case_cong prod.case_cong split: prod.split sum.split)

lemma poll_until_result: "poll_until n step pause s w = (Inr x, w') \<Longrightarrow> \<exists>s0 w0. step s0 w0 = (Inr (Inr x), w')"
  unfolding poll_until_def using poll_while_result [of n "\<lambda>_. True" step] by fastforce

lemma poll_until_returns:
  assumes step: "\<And>s. timely clock (step s)"
    and give_up: "\<And>s w s' w'. step s w = (Inr (Inl s'), w') \<Longrightarrow> clock w' < limit"
    and pause: "\<And>w. clock w + d \<le> clock (pause w)" and "0 \<le> d"
  shows "limit \<le> clock w + d * of_nat n \<Longrightarrow>
     poll_until (Suc n) step pause s w = (r, w') \<Longrightarrow> \<not> diverged r \<and> clock w \<le> clock w'"
proof (induction n arbitrary: w s)
  case (0 w s)
  obtain q w1 where q: "step s w = (q, w1)" by fastforce
  note 1 = timelyD [OF step q]
  have "q \<noteq> Inr (Inl s')" for s' using give_up [of s w s' w1] q 1 0 by auto
  then show ?case using 0 q 1 by (auto simp: poll_until_Suc split: sum.splits)
next
  case (Suc n)
  obtain q w1 where q: "step s w = (q, w1)" by fastforce
  note 1 = timelyD [OF step q]
  show ?case
  proof (cases "\<exists>s'. q = Inr (Inl s')")
    case True
    then obtain s' where s': "q = Inr (Inl s')" by blast
    have "poll_until (Suc n) step pause s' (pause w1) = (r, w')"
      using Suc.prems(2) q s' by (simp add: poll_until_Suc [of "Suc n"])
    moreover have "limit \<le> clock (pause w1) + d * of_nat n"
      using Suc.prems(1) 1 pause [of w1] by (simp add: algebra_simps)
    ultimately have "\<not> diverged r \<and> clock (pause w1) \<le> clock w'" using Suc.IH by blast
    then show ?thesis using 1 pause [of w1] \<open>0 \<le> d\<close> by linarith
  next
    case False
    then show ?thesis using Suc.prems q 1 by (auto simp: poll_until_Suc [of "Suc n"] split: sum.splits)
  qed
qed

section \<open>Strings\<close>

text \<open>\<open>sub in s\<close>, \<open>s.startswith(p)\<close>, \<open>s.split(c)\<close> and \<open>c.join(xs)\<close>.\<close>

fun starts_with :: "'a list \<Rightarrow> 'a list \<Rightarrow> bool" where
  "starts_with [] _ = True"
| "starts_with (p # ps) [] = False"
| "starts_with (p # ps) (x # xs) = (p = x \<and> starts_with ps xs)"

fun contains :: "'a list \<Rightarrow> 'a list \<Rightarrow> bool" where
  "contains p [] = (p = [])"
| "contains p (x # xs) = (starts_with p (x # xs) \<or> contains p xs)"

fun split_on :: "'a \<Rightarrow> 'a list \<Rightarrow> 'a list list" where
  "split_on c [] = [[]]"
| "split_on c (x # xs) =
     (if x = c then [] # split_on c xs
      else (case split_on c xs of [] \<Rightarrow> [[x]] | y # ys \<Rightarrow> (x # y) # ys))"

fun join_with :: "'a list \<Rightarrow> 'a list list \<Rightarrow> 'a list" where
  "join_with sep [] = []"
| "join_with sep [x] = x"
| "join_with sep (x # y # ys) = x @ sep @ join_with sep (y # ys)"

text \<open>\<open>s.lower()\<close> on ASCII letters, and \<open>os.path.join\<close> of two parts.\<close>

definition lower_char :: "char \<Rightarrow> char" where
  "lower_char c = (let n = (of_char c :: nat) in if 65 \<le> n \<and> n \<le> 90 then char_of (n + 32) else c)"

definition lower :: "string \<Rightarrow> string" where
  "lower = map lower_char"

definition path_join :: "string \<Rightarrow> string \<Rightarrow> string" where
  "path_join dir name =
     (if starts_with ''/'' name then name
      else if dir = [] \<or> last dir = CHR ''/'' then dir @ name
      else dir @ ''/'' @ name)"

lemma starts_with_iff: "starts_with p xs \<longleftrightarrow> (\<exists>ys. xs = p @ ys)"
  by (induction p xs rule: starts_with.induct) auto

lemma split_on_nonempty [simp]: "split_on c xs \<noteq> []"
  by (induction xs) (auto split: list.splits)

lemma split_on_no_sep: "\<forall>y\<in>set (split_on c xs). c \<notin> set y"
  by (induction xs) (auto split: list.splits)

lemma join_split_on: "join_with [c] (split_on c xs) = xs"
proof (induction xs)
  case (Cons x xs)
  obtain y ys where y: "split_on c xs = y # ys"
    using split_on_nonempty by (metis neq_Nil_conv)
  then have "join_with [c] (y # ys) = xs" using Cons.IH by simp
  with y show ?case by (cases ys) auto
qed simp

lemma split_on_id: "c \<notin> set xs \<Longrightarrow> split_on c xs = [xs]"
  by (induction xs) auto

text \<open>White space as \<open>str.isspace\<close> sees it for code points below 256, and \<open>str.strip\<close>.\<close>

definition is_space :: "char \<Rightarrow> bool" where
  "is_space c = (let n = (of_char c :: nat) in
     (9 \<le> n \<and> n \<le> 13) \<or> (28 \<le> n \<and> n \<le> 32) \<or> n = 133 \<or> n = 160)"

definition strip :: "string \<Rightarrow> string" where
  "strip s = rev (dropWhile is_space (rev (dropWhile is_space s)))"

definition is_digit :: "char \<Rightarrow> bool" where
  "is_digit c = (let n = (of_char c :: nat) in 48 \<le> n \<and> n \<le> 57)"

definition digit_val :: "char \<Rightarrow> int" where
  "digit_val c = int (of_char c) - 48"

definition digits_val :: "string \<Rightarrow> int" where
  "digits_val s = foldl (\<lambda>a c. 10 * a + digit_val c) 0 s"

text \<open>
  \<open>int(s)\<close> on a string: surrounding white space, a sign, and decimal digits with single
  underscores between them; \<open>None\<close> is the ValueError.
\<close>

fun valid_digits :: "string \<Rightarrow> bool" where
  "valid_digits [] = False"
| "valid_digits [c] = is_digit c"
| "valid_digits (c # d # s) =
     (is_digit c \<and> (if d = CHR ''_'' then valid_digits s else valid_digits (d # s)))"

definition parse_int :: "string \<Rightarrow> int option" where
  "parse_int s = (let t = strip s;
      neg = (t \<noteq> [] \<and> hd t = CHR ''-'');
      u = (if t \<noteq> [] \<and> (hd t = CHR ''-'' \<or> hd t = CHR ''+'') then tl t else t)
    in if valid_digits u
       then Some (if neg then - digits_val (filter is_digit u) else digits_val (filter is_digit u))
       else None)"

text \<open>\<open>float(s)\<close> on a plain decimal string: a sign, digits, and optionally a point and digits.\<close>

definition parse_decimal :: "string \<Rightarrow> rat option" where
  "parse_decimal s = (let t = strip s;
      neg = (t \<noteq> [] \<and> hd t = CHR ''-'');
      u = (if t \<noteq> [] \<and> (hd t = CHR ''-'' \<or> hd t = CHR ''+'') then tl t else t);
      whole = takeWhile (\<lambda>c. c \<noteq> CHR ''.'') u;
      frac = drop 1 (dropWhile (\<lambda>c. c \<noteq> CHR ''.'') u);
      v = of_int (digits_val (whole @ frac)) / 10 ^ length frac
    in if whole @ frac \<noteq> [] \<and> list_all is_digit (whole @ frac)
       then Some (if neg then - v else v) else None)"

text \<open>\<open>int(x)\<close> on a number cuts the fraction off.\<close>

definition truncate_rat :: "rat \<Rightarrow> int" where
  "truncate_rat x = (if 0 \<le> x then \<lfloor>x\<rfloor> else \<lceil>x\<rceil>)"

text \<open>Decimal rendering of a natural number, as \<open>str(n)\<close> and f-strings produce it.\<close>

definition digit_char :: "nat \<Rightarrow> char" where
  "digit_char d = char_of (48 + d)"

fun str_nat :: "nat \<Rightarrow> string" where
  "str_nat n = (if n < 10 then [digit_char n] else str_nat (n div 10) @ [digit_char (n mod 10)])"

declare str_nat.simps [simp del]

definition str_int :: "int \<Rightarrow> string" where
  "str_int n = (if n < 0 then CHR ''-'' # str_nat (nat (- n)) else str_nat (nat n))"

lemma digit_val_digit_char: "d < 10 \<Longrightarrow> digit_val (digit_char d) = int d"
  by (simp add: digit_val_def digit_char_def)

lemma digits_val_snoc: "digits_val (s @ [c]) = 10 * digits_val s + digit_val c"
  by (simp add: digits_val_def)

lemma digits_val_str_nat: "digits_val (str_nat n) = int n"
proof (induction n rule: str_nat.induct)
  case (1 n)
  show ?case
  proof (cases "n < 10")
    case True
    then show ?thesis
      by (simp add: str_nat.simps [of n] digits_val_def digit_val_digit_char)
  next
    case False
    have "10 * int (n div 10) + int (n mod 10) = int n"
      by (simp add: zdiv_int zmod_int)
    with False 1 show ?thesis
      by (simp add: str_nat.simps [of n] digits_val_snoc digit_val_digit_char)
  qed
qed

lemma str_nat_inj: "str_nat m = str_nat n \<Longrightarrow> m = n"
  by (metis digits_val_str_nat of_nat_eq_iff)

lemma digit_char_is_digit: "d < 10 \<Longrightarrow> is_digit (digit_char d)"
  by (simp add: is_digit_def digit_char_def)

lemma digit_facts: "is_digit ch \<Longrightarrow> \<not> is_space ch \<and> ch \<noteq> CHR ''-'' \<and> ch \<noteq> CHR ''+'' \<and> ch \<noteq> CHR ''_''"
  by (auto simp: is_digit_def is_space_def Let_def)

lemma str_nat_digits: "str_nat n \<noteq> [] \<and> list_all is_digit (str_nat n)"
  by (induction n rule: str_nat.induct) (subst (1 2) str_nat.simps, auto simp: digit_char_is_digit)

lemma valid_digits_all: "list_all is_digit s \<Longrightarrow> s \<noteq> [] \<Longrightarrow> valid_digits s"
  by (induction s rule: valid_digits.induct) (auto simp: digit_facts)

lemma dropWhile_digits: "list_all is_digit s \<Longrightarrow> dropWhile is_space s = s"
  by (cases s) (auto simp: digit_facts)

lemma strip_digits: "list_all is_digit s \<Longrightarrow> strip s = s"
  using dropWhile_digits [of s] dropWhile_digits [of "rev s"] by (simp add: strip_def)

lemma parse_int_str_nat: "parse_int (str_nat n) = Some (int n)"
proof -
  note d = str_nat_digits [of n, THEN conjunct1] str_nat_digits [of n, THEN conjunct2]
  have "is_digit (hd (str_nat n))" using d by (simp add: list_all_iff)
  then have "hd (str_nat n) \<noteq> CHR ''-''" "hd (str_nat n) \<noteq> CHR ''+''" using digit_facts by auto
  moreover have "filter is_digit (str_nat n) = str_nat n" using d(2) by (simp add: list_all_iff filter_id_conv)
  ultimately show ?thesis
    using d by (simp add: parse_int_def strip_digits valid_digits_all digits_val_str_nat Let_def)
qed

lemma str_nat_zero: "str_nat n = ''0'' \<longleftrightarrow> n = 0"
proof -
  have "str_nat 0 = ''0''" by code_simp
  then show ?thesis using str_nat_inj by metis
qed

section \<open>Lists\<close>

text \<open>Sums of an integer attribute over a list: \<open>sum(map(f, xs))\<close>.\<close>

definition sum_list_by :: "('a \<Rightarrow> int) \<Rightarrow> 'a list \<Rightarrow> int" where
  "sum_list_by f xs = sum_list (map f xs)"

lemma sum_list_by_simps [simp]:
  "sum_list_by f [] = 0"
  "sum_list_by f (x # xs) = f x + sum_list_by f xs"
  "sum_list_by f (xs @ ys) = sum_list_by f xs + sum_list_by f ys"
  by (simp_all add: sum_list_by_def)

lemma sum_list_by_mset: "mset xs = mset ys \<Longrightarrow> sum_list_by f xs = sum_list_by f ys"
  unfolding sum_list_by_def by (metis mset_map sum_mset_sum_list)

lemma sum_list_by_remove1:
  "x \<in> set xs \<Longrightarrow> sum_list_by f xs = f x + sum_list_by f (remove1 x xs)"
  by (induction xs) auto

lemma sum_list_by_nonneg: "(\<And>x. x \<in> set xs \<Longrightarrow> 0 \<le> f x) \<Longrightarrow> 0 \<le> sum_list_by f xs"
  by (induction xs) auto

text \<open>\<open>d.setdefault(k, []).append(c)\<close>: the groups stay in order of first appearance.\<close>

fun group_insert :: "('k \<times> 'c list) list \<Rightarrow> 'k \<Rightarrow> 'c \<Rightarrow> ('k \<times> 'c list) list" where
  "group_insert [] m c = [(m, [c])]"
| "group_insert ((k, cs) # g) m c =
     (if k = m then (k, cs @ [c]) # g else (k, cs) # group_insert g m c)"

definition group_of :: "('k \<times> 'c list) list \<Rightarrow> 'k \<Rightarrow> 'c list" where
  "group_of g m = (case map_of g m of None \<Rightarrow> [] | Some cs \<Rightarrow> cs)"

definition wf_groups :: "('k \<times> 'c list) list \<Rightarrow> bool" where
  "wf_groups g = (distinct (map fst g) \<and> (\<forall>(m, cs)\<in>set g. cs \<noteq> []))"

lemma keys_group_insert: "fst ` set (group_insert g m c) = insert m (fst ` set g)"
  by (induction g m c rule: group_insert.induct) auto

lemma wf_group_insert: "wf_groups g \<Longrightarrow> wf_groups (group_insert g m c)"
proof (induction g m c rule: group_insert.induct)
  case (2 k cs g m c)
  then show ?case
    using keys_group_insert [of g m c] by (auto simp: wf_groups_def)
qed (simp add: wf_groups_def)

lemma group_of_group_insert:
  "group_of (group_insert g m c) k = (if k = m then group_of g k @ [c] else group_of g k)"
  by (induction g m c rule: group_insert.induct) (auto simp: group_of_def)

lemma group_of_mem: "wf_groups g \<Longrightarrow> (m, cs) \<in> set g \<longleftrightarrow> cs \<noteq> [] \<and> group_of g m = cs"
proof -
  assume wf: "wf_groups g"
  then have "(m, cs) \<in> set g \<longleftrightarrow> map_of g m = Some cs"
    by (simp add: wf_groups_def)
  moreover have "map_of g m = Some cs \<Longrightarrow> cs \<noteq> []"
    using wf map_of_SomeD by (fastforce simp: wf_groups_def)
  ultimately show ?thesis by (auto simp: group_of_def split: option.splits)
qed

end
