(* ===== verification/Config.thy ===== *)
theory Config
  imports Prelude
begin

text \<open>
  The scenario model of \<open>manager/engine/configuration.py\<close>: the dataclasses, the parser of a
  scenario file (\<open>from_json_config\<close> after \<open>json.load\<close>), the engine-dependent validation and the
  serialisation \<open>to_dict\<close>. Fields the parser does not check keep the JSON value they were given,
  as the dataclasses do at run time; \<open>None\<close> is \<open>JNull\<close> there.
\<close>

section \<open>The dataclasses\<close>

datatype role = MAKER | TAKER

fun role_value :: "role \<Rightarrow> string" where
  "role_value MAKER = ''maker''"
| "role_value TAKER = ''taker''"

record fund_config =
  fund_value :: json
  fund_delay_blocks :: json
  fund_delay_rounds :: json

text \<open>A fund entry is an object or whatever else the list held (integers in a sensible file).\<close>

datatype fund = FundPlain json | FundObject fund_config

record postmix_config =
  pm_value :: "int option"
  pm_all :: bool
  pm_delay_blocks :: "int option"
  pm_delay_rounds :: "int option"
  pm_min_anon :: json
  pm_selection :: string

record wasabi_config =
  wc_anon_score_target :: json
  wc_redcoin_isolation :: json
  wc_skip_rounds :: json
  wc_postmix :: "postmix_config list option"

record joinmarket_config =
  jc_role :: "role option"
  jc_offers :: json
  jc_tumbler_options :: json
  jc_time_between_rounds :: json
  jc_timeout_blocks :: "int option"
  jc_fidelity_bond :: json
  jc_max_coinjoins :: json
  jc_postmix :: "postmix_config list option"

record wallet_config =
  w_funds :: "fund list"
  w_delay_blocks :: json
  w_delay_rounds :: json
  w_stop_blocks :: json
  w_stop_rounds :: json
  w_version :: json
  w_wasabi :: "wasabi_config option"
  w_joinmarket :: "joinmarket_config option"

record scenario_config =
  sc_name :: json
  sc_rounds :: json
  sc_blocks :: json
  sc_default_version :: json
  sc_wallets :: "wallet_config list"
  sc_description :: json
  sc_category :: json
  sc_distributor_version :: json
  sc_default_anon :: json
  sc_default_redcoin :: json
  sc_backend :: json

section \<open>Errors\<close>

text \<open>
  One constructor per \<open>raise\<close> of the module, and one each for the interpreter errors a malformed
  file runs into: \<open>.get\<close> on something that is no object, iteration over something that is no
  sequence, a missing mandatory key and an ordering comparison with a non-number.
\<close>

datatype config_error =
    NotAnObject | NotIterable | MissingKey string | NotComparable
  | BadDescription | BadCategory | FlatWasabi | FlatJoinMarket
  | SpendsNotList | SpendNotObject nat | SpendUnknownFields nat "string list"
  | SpendAllNotBool nat | SpendBadValue nat | SpendNotExactlyOne nat | SpendBadDelay nat string
  | SpendBadMinAnon nat | SpendHasNoScore nat | SpendBadSelection nat
  | BadTimeoutBlocks | BadRole json
  | WasabiSettingsIgnored "nat list" | RolesMissing "nat list" | TumblerNeedsBlocks

section \<open>Helpers\<close>

fun is_integer :: "json \<Rightarrow> bool" where
  "is_integer (JInt _) = True"
| "is_integer _ = False"

fun int_of :: "json \<Rightarrow> int option" where
  "int_of (JInt n) = Some n"
| "int_of _ = None"

fun json_of_int :: "int option \<Rightarrow> json" where
  "json_of_int None = JNull"
| "json_of_int (Some n) = JInt n"

fun obj_of :: "json \<Rightarrow> config_error + dict" where
  "obj_of (JDict d) = Inr d"
| "obj_of _ = Inl NotAnObject"

definition iter_of :: "json \<Rightarrow> config_error + json list" where
  "iter_of j = (case py_iter j of None \<Rightarrow> Inl NotIterable | Some xs \<Rightarrow> Inr xs)"

definition key_of :: "dict \<Rightarrow> string \<Rightarrow> config_error + json" where
  "key_of d k = (case map_of d k of None \<Rightarrow> Inl (MissingKey k) | Some v \<Rightarrow> Inr v)"

definition raise_if :: "bool \<Rightarrow> config_error \<Rightarrow> (config_error + 'a) \<Rightarrow> config_error + 'a" where
  "raise_if b e k = (if b then Inl e else k)"

fun traverse_from :: "nat \<Rightarrow> (nat \<Rightarrow> 'a \<Rightarrow> 'e + 'b) \<Rightarrow> 'a list \<Rightarrow> 'e + 'b list" where
  "traverse_from i f [] = Inr []"
| "traverse_from i f (x # xs) =
     ebind (f i x) (\<lambda>y. ebind (traverse_from (Suc i) f xs) (\<lambda>ys. Inr (y # ys)))"

lemma raise_if_Inr_iff [simp]: "raise_if b e k = Inr y \<longleftrightarrow> \<not> b \<and> k = Inr y"
  by (simp add: raise_if_def)

lemma traverse_from_set:
  "traverse_from i f xs = Inr ys \<Longrightarrow> y \<in> set ys \<Longrightarrow> \<exists>j x. f j x = Inr y"
proof (induction xs arbitrary: i ys)
  case (Cons x xs)
  then show ?case by (fastforce simp: ebind_Inr_iff)
qed simp

lemma traverse_from_inverse:
  "(\<And>j x. x \<in> set xs \<Longrightarrow> f j (g x) = Inr x) \<Longrightarrow> traverse_from i f (map g xs) = Inr xs"
  by (induction xs arbitrary: i) auto

lemma json_of_int_of: "is_integer j \<or> j = JNull \<Longrightarrow> json_of_int (int_of j) = j"
  by (cases j) auto

lemma int_of_json_of_int [simp]: "int_of (json_of_int x) = x"
  by (cases x) auto

lemma is_integer_json_of_int [simp]: "is_integer (json_of_int x) \<longleftrightarrow> x \<noteq> None"
  by (cases x) auto

lemma json_of_int_null [simp]: "json_of_int x = JNull \<longleftrightarrow> x = None"
  by (cases x) auto

text \<open>
  \<open>x or 0\<close> for the numeric settings. The parser does not check them; a setting that is neither
  absent nor an integer is outside the model and stands for the TypeError of its first comparison.
\<close>

definition int_setting :: "json \<Rightarrow> exn + int" where
  "int_setting j = (case py_or j (JInt 0) of JInt n \<Rightarrow> Inr n | JBool True \<Rightarrow> Inr 1
     | _ \<Rightarrow> Inl (Exn KTypeError ''int''))"

section \<open>Postmix spends\<close>

definition coin_selections :: "string list" where
  "coin_selections = [''anon_score'', ''amount'']"

definition joinmarket_coin_selections :: "string list" where
  "joinmarket_coin_selections = [''amount'']"

definition postmix_keys :: "string list" where
  "postmix_keys = [''value'', ''all'', ''delay_blocks'', ''delay_rounds'', ''min_anon_score'', ''coin_selection'']"

text \<open>\<open>isinstance(v, (int, float)) and not bool and v > 0\<close>.\<close>

fun positive_number :: "json \<Rightarrow> bool" where
  "positive_number (JInt n) = (0 < n)"
| "positive_number (JFloat x) = (0 < x)"
| "positive_number _ = False"

definition bad_delay :: "json \<Rightarrow> bool" where
  "bad_delay j = (j \<noteq> JNull \<and> (case int_of j of None \<Rightarrow> True | Some n \<Rightarrow> n < 0))"

definition bad_value :: "json \<Rightarrow> bool" where
  "bad_value j = (j \<noteq> JNull \<and> (case int_of j of None \<Rightarrow> True | Some n \<Rightarrow> n \<le> 0))"

fun str_in :: "json \<Rightarrow> string list \<Rightarrow> string option" where
  "str_in (JStr s) xs = (if s \<in> set xs then Some s else None)"
| "str_in _ xs = None"

definition selections_for :: "string \<Rightarrow> string list" where
  "selections_for eng =
     (if eng = ''JoinMarket'' then joinmarket_coin_selections else coin_selections)"

definition parse_postmix_dict :: "string \<Rightarrow> nat \<Rightarrow> dict \<Rightarrow> config_error + postmix_config" where
  "parse_postmix_dict eng i d =
    (let unknown = filter (\<lambda>k. k \<notin> set postmix_keys) (map fst d);
         value = dget d ''value'';
         spend_all = dget_default d ''all'' (JBool False);
         min_anon = dget d ''min_anon_score'';
         selection = dget_default d ''coin_selection'' (JStr (hd (selections_for eng)))
     in raise_if (unknown \<noteq> []) (SpendUnknownFields i unknown)
       (raise_if (\<not> is_bool spend_all) (SpendAllNotBool i)
       (raise_if (bad_value value) (SpendBadValue i)
       (raise_if ((value \<noteq> JNull) = truthy spend_all) (SpendNotExactlyOne i)
       (raise_if (bad_delay (dget d ''delay_blocks'')) (SpendBadDelay i ''delay_blocks'')
       (raise_if (bad_delay (dget d ''delay_rounds'')) (SpendBadDelay i ''delay_rounds'')
       (raise_if (min_anon \<noteq> JNull \<and> \<not> positive_number min_anon) (SpendBadMinAnon i)
       (raise_if (eng = ''JoinMarket'' \<and> min_anon \<noteq> JNull) (SpendHasNoScore i)
       (case str_in selection (selections_for eng) of
          None \<Rightarrow> Inl (SpendBadSelection i)
        | Some s \<Rightarrow> Inr \<lparr>pm_value = int_of value, pm_all = truthy spend_all,
            pm_delay_blocks = int_of (dget d ''delay_blocks''),
            pm_delay_rounds = int_of (dget d ''delay_rounds''),
            pm_min_anon = min_anon, pm_selection = s\<rparr>)))))))))"

fun parse_postmix_spend :: "string \<Rightarrow> nat \<Rightarrow> json \<Rightarrow> config_error + postmix_config" where
  "parse_postmix_spend eng i (JDict d) = parse_postmix_dict eng i d"
| "parse_postmix_spend eng i _ = Inl (SpendNotObject i)"

fun parse_postmix_spends :: "string \<Rightarrow> json \<Rightarrow> config_error + postmix_config list" where
  "parse_postmix_spends eng (JList xs) = traverse_from 0 (parse_postmix_spend eng) xs"
| "parse_postmix_spends eng _ = Inl SpendsNotList"

text \<open>\<open>None if x is None else cls._parse_postmix_spends(x, engine)\<close>.\<close>

definition parse_opt_spends :: "string \<Rightarrow> json \<Rightarrow> config_error + postmix_config list option" where
  "parse_opt_spends eng j =
     (if j = JNull then Inr None else ebind (parse_postmix_spends eng j) (\<lambda>ps. Inr (Some ps)))"

section \<open>Wallets\<close>

fun parse_fund :: "json \<Rightarrow> config_error + fund" where
  "parse_fund (JDict d) =
     ebind (key_of d ''value'') (\<lambda>v. Inr (FundObject
       \<lparr>fund_value = v, fund_delay_blocks = dget d ''delay_blocks'',
        fund_delay_rounds = dget d ''delay_rounds''\<rparr>))"
| "parse_fund j = Inr (FundPlain j)"

definition legacy_wasabi_fields :: "string list" where
  "legacy_wasabi_fields = [''anon_score_target'', ''redcoin_isolation'', ''skip_rounds'']"

definition legacy_joinmarket_fields :: "string list" where
  "legacy_joinmarket_fields =
     [''type'', ''offers'', ''tumbler_options'', ''time_between_rounds'', ''coinjoin_timeout_blocks'',
      ''fidelity_bond'', ''max_coinjoins'']"

definition has_key_of :: "string list \<Rightarrow> dict \<Rightarrow> bool" where
  "has_key_of ks d = (\<exists>k\<in>set ks. k \<in> fst ` set d)"

definition parse_wasabi :: "dict \<Rightarrow> config_error + wasabi_config option" where
  "parse_wasabi w =
     ebind (obj_of (py_or (dget w ''wasabi'') (JDict []))) (\<lambda>n.
     ebind (parse_opt_spends ''Wasabi'' (dget n ''postmix_spends'')) (\<lambda>ps.
     Inr (if dget n ''anon_score_target'' = JNull \<and> dget n ''redcoin_isolation'' = JNull
             \<and> dget n ''skip_rounds'' = JNull \<and> ps = None
          then None
          else Some \<lparr>wc_anon_score_target = dget n ''anon_score_target'',
                     wc_redcoin_isolation = dget n ''redcoin_isolation'',
                     wc_skip_rounds = dget n ''skip_rounds'', wc_postmix = ps\<rparr>)))"

text \<open>\<open>JoinMarketRole(str(role_value))\<close>: only the two strings name a role.\<close>

definition parse_role :: "json \<Rightarrow> config_error + role option" where
  "parse_role j =
     (if j = JNull then Inr None
      else if j = JStr ''maker'' then Inr (Some MAKER)
      else if j = JStr ''taker'' then Inr (Some TAKER)
      else Inl (BadRole j))"

definition parse_joinmarket :: "dict \<Rightarrow> config_error + joinmarket_config option" where
  "parse_joinmarket w =
     ebind (obj_of (py_or (dget w ''joinmarket'') (JDict []))) (\<lambda>n.
     ebind (parse_opt_spends ''JoinMarket'' (dget n ''postmix_spends'')) (\<lambda>ps.
     raise_if (bad_value (dget n ''coinjoin_timeout_blocks'')) BadTimeoutBlocks
     (if dget n ''role'' = JNull \<and> dget n ''offers'' = JNull \<and> dget n ''tumbler_options'' = JNull
         \<and> dget n ''time_between_rounds'' = JNull \<and> dget n ''coinjoin_timeout_blocks'' = JNull
         \<and> dget n ''fidelity_bond'' = JNull \<and> dget n ''max_coinjoins'' = JNull \<and> ps = None
      then Inr None
      else ebind (parse_role (dget n ''role'')) (\<lambda>r.
        Inr (Some \<lparr>jc_role = r, jc_offers = dget n ''offers'',
          jc_tumbler_options = dget n ''tumbler_options'',
          jc_time_between_rounds = dget n ''time_between_rounds'',
          jc_timeout_blocks = int_of (dget n ''coinjoin_timeout_blocks''),
          jc_fidelity_bond = dget n ''fidelity_bond'',
          jc_max_coinjoins = dget n ''max_coinjoins'', jc_postmix = ps\<rparr>)))))"

definition parse_wallet_dict :: "dict \<Rightarrow> config_error + wallet_config" where
  "parse_wallet_dict w =
     ebind (ebind (iter_of (dget_default w ''funds'' (JList []))) (traverse parse_fund)) (\<lambda>funds.
     raise_if (has_key_of legacy_wasabi_fields w) FlatWasabi
     (ebind (parse_wasabi w) (\<lambda>wasabi.
     raise_if (has_key_of legacy_joinmarket_fields w) FlatJoinMarket
     (ebind (parse_joinmarket w) (\<lambda>joinmarket.
     Inr \<lparr>w_funds = funds, w_delay_blocks = dget w ''delay_blocks'',
          w_delay_rounds = dget w ''delay_rounds'', w_stop_blocks = dget w ''stop_blocks'',
          w_stop_rounds = dget w ''stop_rounds'', w_version = dget w ''version'',
          w_wasabi = wasabi, w_joinmarket = joinmarket\<rparr>)))))"

text \<open>
  A wallet entry that is no object fails at its first \<open>.get\<close>.
\<close>

definition parse_wallet :: "json \<Rightarrow> config_error + wallet_config" where
  "parse_wallet j = ebind (obj_of j) parse_wallet_dict"

section \<open>Scenarios\<close>

fun str_or_null :: "json \<Rightarrow> bool" where
  "str_or_null JNull = True"
| "str_or_null (JStr _) = True"
| "str_or_null _ = False"

fun category_ok :: "json \<Rightarrow> bool" where
  "category_ok JNull = True"
| "category_ok (JStr s) = (strip s \<noteq> [])"
| "category_ok _ = False"

definition parse_scenario_dict :: "dict \<Rightarrow> config_error + scenario_config" where
  "parse_scenario_dict d =
     raise_if (\<not> str_or_null (dget d ''description'')) BadDescription
     (raise_if (\<not> category_ok (dget d ''category'')) BadCategory
     (ebind (ebind (iter_of (dget_default d ''wallets'' (JList []))) (traverse parse_wallet)) (\<lambda>wallets.
      ebind (key_of d ''name'') (\<lambda>name.
      ebind (key_of d ''rounds'') (\<lambda>rounds.
      ebind (key_of d ''blocks'') (\<lambda>blocks.
      ebind (key_of d ''default_version'') (\<lambda>version.
      Inr \<lparr>sc_name = name, sc_rounds = rounds, sc_blocks = blocks, sc_default_version = version,
           sc_wallets = wallets, sc_description = dget d ''description'',
           sc_category = dget d ''category'',
           sc_distributor_version = dget d ''distributor_version'',
           sc_default_anon = dget d ''default_anon_score_target'',
           sc_default_redcoin = dget d ''default_redcoin_isolation'',
           sc_backend = dget d ''backend''\<rparr>)))))))"

definition from_json_config :: "json \<Rightarrow> config_error + scenario_config" where
  "from_json_config j = ebind (obj_of j) parse_scenario_dict"

section \<open>Validation for an engine\<close>

text \<open>\<open>x > 0\<close> on a JSON value, a TypeError for a non-number, and \<open>x == 0\<close>.\<close>

definition gt_zero :: "json \<Rightarrow> config_error + bool" where
  "gt_zero j = (case num_of j of None \<Rightarrow> Inl NotComparable | Some x \<Rightarrow> Inr (0 < x))"

definition eq_zero :: "json \<Rightarrow> bool" where
  "eq_zero j = (num_of j = Some 0)"

definition is_tumbler :: "wallet_config \<Rightarrow> bool" where
  "is_tumbler w = (case w_joinmarket w of None \<Rightarrow> False
     | Some jm \<Rightarrow> jc_role jm = Some TAKER \<and> truthy (jc_tumbler_options jm))"

definition role_missing :: "wallet_config \<Rightarrow> bool" where
  "role_missing w = (case w_joinmarket w of None \<Rightarrow> True | Some jm \<Rightarrow> jc_role jm = None)"

definition indexes_where :: "('a \<Rightarrow> bool) \<Rightarrow> 'a list \<Rightarrow> nat list" where
  "indexes_where p xs = map fst (filter (\<lambda>(i, x). p x) (enumerate 0 xs))"

definition validate_for_engine :: "scenario_config \<Rightarrow> string \<Rightarrow> config_error + unit" where
  "validate_for_engine s eng =
     (if eng \<noteq> ''joinmarket'' then Inr ()
      else let wasabi = indexes_where (\<lambda>w. w_wasabi w \<noteq> None) (sc_wallets s);
               missing = indexes_where role_missing (sc_wallets s)
        in raise_if (wasabi \<noteq> []) (WasabiSettingsIgnored wasabi)
          (raise_if (missing \<noteq> []) (RolesMissing missing)
          (ebind (gt_zero (sc_rounds s)) (\<lambda>limited.
             raise_if (limited \<and> eq_zero (sc_blocks s) \<and> list_ex is_tumbler (sc_wallets s))
               TumblerNeedsBlocks (Inr ())))))"

section \<open>Serialisation\<close>

fun fund_to_json :: "fund \<Rightarrow> json" where
  "fund_to_json (FundPlain j) = j"
| "fund_to_json (FundObject f) =
     JDict [(''value'', fund_value f), (''delay_blocks'', fund_delay_blocks f),
            (''delay_rounds'', fund_delay_rounds f)]"

definition postmix_to_json :: "postmix_config \<Rightarrow> json" where
  "postmix_to_json p =
     JDict [(''value'', json_of_int (pm_value p)), (''all'', JBool (pm_all p)),
            (''delay_blocks'', json_of_int (pm_delay_blocks p)),
            (''delay_rounds'', json_of_int (pm_delay_rounds p)),
            (''min_anon_score'', pm_min_anon p), (''coin_selection'', JStr (pm_selection p))]"

fun spends_to_json :: "postmix_config list option \<Rightarrow> json" where
  "spends_to_json None = JNull"
| "spends_to_json (Some ps) = JList (map postmix_to_json ps)"

definition wasabi_to_json :: "wasabi_config \<Rightarrow> json" where
  "wasabi_to_json c =
     JDict [(''anon_score_target'', wc_anon_score_target c),
            (''redcoin_isolation'', wc_redcoin_isolation c),
            (''skip_rounds'', wc_skip_rounds c), (''postmix_spends'', spends_to_json (wc_postmix c))]"

definition joinmarket_to_json :: "joinmarket_config \<Rightarrow> json" where
  "joinmarket_to_json c =
     JDict [(''role'', case jc_role c of None \<Rightarrow> JNull | Some r \<Rightarrow> JStr (role_value r)),
            (''offers'', jc_offers c), (''tumbler_options'', jc_tumbler_options c),
            (''time_between_rounds'', jc_time_between_rounds c),
            (''coinjoin_timeout_blocks'', json_of_int (jc_timeout_blocks c)),
            (''fidelity_bond'', jc_fidelity_bond c), (''max_coinjoins'', jc_max_coinjoins c),
            (''postmix_spends'', spends_to_json (jc_postmix c))]"

definition wallet_to_json :: "wallet_config \<Rightarrow> json" where
  "wallet_to_json w =
     JDict [(''funds'', JList (map fund_to_json (w_funds w))),
            (''delay_blocks'', w_delay_blocks w), (''delay_rounds'', w_delay_rounds w),
            (''stop_blocks'', w_stop_blocks w), (''stop_rounds'', w_stop_rounds w),
            (''version'', w_version w),
            (''wasabi'', case w_wasabi w of None \<Rightarrow> JNull | Some c \<Rightarrow> wasabi_to_json c),
            (''joinmarket'', case w_joinmarket w of None \<Rightarrow> JNull | Some c \<Rightarrow> joinmarket_to_json c)]"

definition to_dict :: "scenario_config \<Rightarrow> json" where
  "to_dict s =
     JDict [(''name'', sc_name s), (''rounds'', sc_rounds s), (''blocks'', sc_blocks s),
            (''default_version'', sc_default_version s),
            (''wallets'', JList (map wallet_to_json (sc_wallets s))),
            (''description'', sc_description s), (''category'', sc_category s),
            (''distributor_version'', sc_distributor_version s),
            (''default_anon_score_target'', sc_default_anon s),
            (''default_redcoin_isolation'', sc_default_redcoin s), (''backend'', sc_backend s)]"

section \<open>The codec interface\<close>

text \<open>
  What the scenario file, its wallets and its funds share: a serialiser and a parser such that
  everything the parser returns is well-formed and everything well-formed survives a round trip.
\<close>

locale json_codec =
  fixes enc :: "'a \<Rightarrow> json"
    and dec :: "json \<Rightarrow> 'e + 'a"
    and wf :: "'a \<Rightarrow> bool"
  assumes dec_wf: "dec j = Inr x \<Longrightarrow> wf x"
    and dec_enc: "wf x \<Longrightarrow> dec (enc x) = Inr x"
begin

lemma reparse: "dec j = Inr x \<Longrightarrow> dec (enc x) = Inr x"
  by (rule dec_enc) (rule dec_wf)

lemma dec_enc_iff: "dec (enc x) = Inr x \<longleftrightarrow> wf x"
  using dec_wf dec_enc by blast

lemma traverse_wf: "traverse dec js = Inr xs \<Longrightarrow> list_all wf xs"
  by (auto simp: traverse_Inr_iff list_all_iff dest: list_all2_Inr_set dec_wf)

lemma traverse_enc: "list_all wf xs \<Longrightarrow> traverse dec (map enc xs) = Inr xs"
  by (rule traverse_map_inverse) (simp add: list_all_iff dec_enc)

end

section \<open>Well-formed configurations\<close>

definition wf_delay :: "int option \<Rightarrow> bool" where
  "wf_delay x = (case x of None \<Rightarrow> True | Some n \<Rightarrow> 0 \<le> n)"

definition wf_spend :: "string \<Rightarrow> postmix_config \<Rightarrow> bool" where
  "wf_spend eng p =
     ((case pm_value p of None \<Rightarrow> pm_all p | Some n \<Rightarrow> 0 < n \<and> \<not> pm_all p)
      \<and> wf_delay (pm_delay_blocks p) \<and> wf_delay (pm_delay_rounds p)
      \<and> (pm_min_anon p = JNull \<or> positive_number (pm_min_anon p) \<and> eng \<noteq> ''JoinMarket'')
      \<and> pm_selection p \<in> set (selections_for eng))"

fun wf_fund :: "fund \<Rightarrow> bool" where
  "wf_fund (FundPlain (JDict _)) = False"
| "wf_fund _ = True"

definition wf_spends :: "string \<Rightarrow> postmix_config list option \<Rightarrow> bool" where
  "wf_spends eng ps = (case ps of None \<Rightarrow> True | Some qs \<Rightarrow> list_all (wf_spend eng) qs)"

definition wf_wasabi :: "wasabi_config \<Rightarrow> bool" where
  "wf_wasabi c =
     (wf_spends ''Wasabi'' (wc_postmix c)
      \<and> \<not> (wc_anon_score_target c = JNull \<and> wc_redcoin_isolation c = JNull
           \<and> wc_skip_rounds c = JNull \<and> wc_postmix c = None))"

definition wf_joinmarket :: "joinmarket_config \<Rightarrow> bool" where
  "wf_joinmarket c =
     (wf_spends ''JoinMarket'' (jc_postmix c)
      \<and> (case jc_timeout_blocks c of None \<Rightarrow> True | Some n \<Rightarrow> 0 < n)
      \<and> \<not> (jc_role c = None \<and> jc_offers c = JNull \<and> jc_tumbler_options c = JNull
           \<and> jc_time_between_rounds c = JNull \<and> jc_timeout_blocks c = None
           \<and> jc_fidelity_bond c = JNull \<and> jc_max_coinjoins c = JNull \<and> jc_postmix c = None))"

definition wf_wallet :: "wallet_config \<Rightarrow> bool" where
  "wf_wallet w =
     (list_all wf_fund (w_funds w) \<and> pred_option wf_wasabi (w_wasabi w)
      \<and> pred_option wf_joinmarket (w_joinmarket w))"

definition wf_scenario :: "scenario_config \<Rightarrow> bool" where
  "wf_scenario s =
     (str_or_null (sc_description s) \<and> category_ok (sc_category s)
      \<and> list_all wf_wallet (sc_wallets s))"

section \<open>Postmix spends: what the parser accepts\<close>

lemma bad_value_iff: "\<not> bad_value j \<longleftrightarrow> j = JNull \<or> (\<exists>n. j = JInt n \<and> 0 < n)"
  by (cases j) (auto simp: bad_value_def)

lemma bad_delay_iff: "\<not> bad_delay j \<longleftrightarrow> j = JNull \<or> (\<exists>n. j = JInt n \<and> 0 \<le> n)"
  by (cases j) (auto simp: bad_delay_def)

lemma str_in_Some: "str_in j xs = Some s \<longleftrightarrow> j = JStr s \<and> s \<in> set xs"
  by (cases j) auto

lemma positive_number_not_null [simp]: "\<not> positive_number JNull"
  by simp

lemma not_bad_delay_wf: "\<not> bad_delay j \<Longrightarrow> wf_delay (int_of j)"
  by (auto simp: bad_delay_iff wf_delay_def)

lemma not_bad_value_pos:
  "\<not> bad_value j \<Longrightarrow> case int_of j of None \<Rightarrow> j = JNull | Some n \<Rightarrow> 0 < n \<and> j = JInt n"
  by (auto simp: bad_value_iff)

lemma parse_postmix_dict_wf:
  assumes "parse_postmix_dict eng i d = Inr p"
  shows "wf_spend eng p"
proof -
  let ?v = "dget d ''value''" and ?a = "dget_default d ''all'' (JBool False)"
    and ?m = "dget d ''min_anon_score''"
  from assms have ok: "\<not> bad_value ?v" "(?v \<noteq> JNull) \<noteq> truthy ?a"
      "\<not> bad_delay (dget d ''delay_blocks'')" "\<not> bad_delay (dget d ''delay_rounds'')"
      "?m = JNull \<or> positive_number ?m" "eng = ''JoinMarket'' \<longrightarrow> ?m = JNull"
    unfolding parse_postmix_dict_def Let_def raise_if_Inr_iff by metis+
  from assms obtain s where s: "s \<in> set (selections_for eng)"
    and p: "p = \<lparr>pm_value = int_of ?v, pm_all = truthy ?a,
              pm_delay_blocks = int_of (dget d ''delay_blocks''),
              pm_delay_rounds = int_of (dget d ''delay_rounds''),
              pm_min_anon = ?m, pm_selection = s\<rparr>"
    unfolding parse_postmix_dict_def Let_def raise_if_Inr_iff
    by (fastforce simp: str_in_Some split: option.splits)
  have "case int_of ?v of None \<Rightarrow> truthy ?a | Some n \<Rightarrow> 0 < n \<and> \<not> truthy ?a"
    using not_bad_value_pos [OF ok(1)] ok(2) by (auto split: option.splits)
  then show ?thesis
    using ok(5,6) s
    by (auto simp: p wf_spend_def not_bad_delay_wf [OF ok(3)] not_bad_delay_wf [OF ok(4)]
        split: option.splits)
qed

lemma parse_postmix_wf: "parse_postmix_spend eng i j = Inr p \<Longrightarrow> wf_spend eng p"
  by (cases j) (auto dest: parse_postmix_dict_wf)

lemma bad_value_json_of_int [simp]:
  "bad_value (json_of_int x) = (case x of None \<Rightarrow> False | Some n \<Rightarrow> n \<le> 0)"
  by (cases x) (auto simp: bad_value_def)

lemma bad_delay_json_of_int [simp]: "bad_delay (json_of_int x) = (\<not> wf_delay x)"
  by (cases x) (auto simp: bad_delay_def wf_delay_def)

lemma postmix_no_unknown_keys:
  "postmix_to_json p = JDict d \<Longrightarrow> filter (\<lambda>k. k \<notin> set postmix_keys) (map fst d) = []"
  by (auto simp: postmix_to_json_def postmix_keys_def)

lemma parse_postmix_enc:
  assumes wf: "wf_spend eng p"
  shows "parse_postmix_spend eng i (postmix_to_json p) = Inr p"
proof -
  obtain d where d: "postmix_to_json p = JDict d"
    by (simp add: postmix_to_json_def)
  then have f: "dget d ''value'' = json_of_int (pm_value p)"
    "dget_default d ''all'' (JBool False) = JBool (pm_all p)"
    "dget d ''delay_blocks'' = json_of_int (pm_delay_blocks p)"
    "dget d ''delay_rounds'' = json_of_int (pm_delay_rounds p)"
    "dget d ''min_anon_score'' = pm_min_anon p"
    "\<And>x. dget_default d ''coin_selection'' x = JStr (pm_selection p)"
    by (auto simp: postmix_to_json_def dget_default_def)
  show ?thesis
    using wf postmix_no_unknown_keys [OF d]
    by (auto simp: d parse_postmix_dict_def Let_def f wf_spend_def raise_if_def
        split: option.splits)
qed

text \<open>The conditions of the parser on the raw object, field by field.\<close>

lemma value_accepted:
  "\<not> bad_value j \<and> int_of j = v \<longleftrightarrow> j = json_of_int v \<and> pred_option (\<lambda>n. 0 < n) v"
  by (cases v) (auto simp: bad_value_iff)

lemma delay_accepted:
  "\<not> bad_delay j \<and> int_of j = v \<longleftrightarrow> j = json_of_int v \<and> pred_option (\<lambda>n. 0 \<le> n) v"
  by (cases v) (auto simp: bad_delay_iff)

lemma bool_accepted:
  "is_bool (dget_default d k (JBool False)) \<and> truthy (dget_default d k (JBool False)) = b \<longleftrightarrow>
     map_of d k = Some (JBool b) \<or> k \<notin> fst ` set d \<and> \<not> b"
proof (cases "map_of d k")
  case None
  then have "k \<notin> fst ` set d" by (metis map_of_eq_None_iff)
  with None show ?thesis by (auto simp: dget_default_def)
next
  case (Some j)
  then have "k \<in> fst ` set d" by (metis map_of_eq_None_iff option.simps(3))
  with Some show ?thesis by (cases j) (auto simp: dget_default_def)
qed

lemma selection_accepted:
  "str_in (dget_default d k (JStr (hd (selections_for eng)))) (selections_for eng) = Some s \<longleftrightarrow>
     (map_of d k = Some (JStr s) \<or> k \<notin> fst ` set d \<and> s = (if eng = ''JoinMarket'' then ''amount'' else ''anon_score''))
     \<and> (s = ''amount'' \<or> eng \<noteq> ''JoinMarket'' \<and> s = ''anon_score'')"
proof (cases "map_of d k")
  case None
  then have "k \<notin> fst ` set d" by (metis map_of_eq_None_iff)
  with None show ?thesis
    by (auto simp: dget_default_def str_in_Some selections_for_def joinmarket_coin_selections_def
        coin_selections_def)
next
  case (Some j)
  then have "k \<in> fst ` set d" by (metis map_of_eq_None_iff option.simps(3))
  with Some show ?thesis
    by (auto simp: dget_default_def str_in_Some selections_for_def joinmarket_coin_selections_def
        coin_selections_def)
qed

lemma positive_number_iff:
  "positive_number j \<longleftrightarrow> (\<exists>n>0. j = JInt n) \<or> (\<exists>x>0. j = JFloat x)"
  by (cases j) auto

lemma parse_postmix_dict_Inr:
  "parse_postmix_dict eng i d = Inr p \<longleftrightarrow>
     (fst ` set d \<subseteq> {''value'', ''all'', ''delay_blocks'', ''delay_rounds'', ''min_anon_score'', ''coin_selection''}
      \<and> dget d ''value'' = json_of_int (pm_value p) \<and> pred_option (\<lambda>n. 0 < n) (pm_value p)
      \<and> (map_of d ''all'' = Some (JBool (pm_all p)) \<or> ''all'' \<notin> fst ` set d \<and> \<not> pm_all p)
      \<and> (pm_all p \<longleftrightarrow> pm_value p = None)
      \<and> dget d ''delay_blocks'' = json_of_int (pm_delay_blocks p)
      \<and> pred_option (\<lambda>n. 0 \<le> n) (pm_delay_blocks p)
      \<and> dget d ''delay_rounds'' = json_of_int (pm_delay_rounds p)
      \<and> pred_option (\<lambda>n. 0 \<le> n) (pm_delay_rounds p)
      \<and> dget d ''min_anon_score'' = pm_min_anon p
      \<and> (pm_min_anon p = JNull \<or> eng \<noteq> ''JoinMarket'' \<and>
           ((\<exists>n>0. pm_min_anon p = JInt n) \<or> (\<exists>x>0. pm_min_anon p = JFloat x)))
      \<and> (map_of d ''coin_selection'' = Some (JStr (pm_selection p)) \<or> ''coin_selection'' \<notin> fst ` set d
           \<and> pm_selection p = (if eng = ''JoinMarket'' then ''amount'' else ''anon_score''))
      \<and> (pm_selection p = ''amount'' \<or> eng \<noteq> ''JoinMarket'' \<and> pm_selection p = ''anon_score''))"
proof -
  have keys: "filter (\<lambda>k. k \<notin> set postmix_keys) (map fst d) = [] \<longleftrightarrow>
      fst ` set d \<subseteq> {''value'', ''all'', ''delay_blocks'', ''delay_rounds'', ''min_anon_score'', ''coin_selection''}"
    by (auto simp: filter_empty_conv postmix_keys_def)
  let ?a = "dget_default d ''all'' (JBool False)"
  have fields: "parse_postmix_dict eng i d = Inr p \<longleftrightarrow>
      filter (\<lambda>k. k \<notin> set postmix_keys) (map fst d) = []
      \<and> (is_bool ?a \<and> truthy ?a = pm_all p)
      \<and> (\<not> bad_value (dget d ''value'') \<and> int_of (dget d ''value'') = pm_value p)
      \<and> (dget d ''value'' \<noteq> JNull) \<noteq> pm_all p
      \<and> (\<not> bad_delay (dget d ''delay_blocks'') \<and> int_of (dget d ''delay_blocks'') = pm_delay_blocks p)
      \<and> (\<not> bad_delay (dget d ''delay_rounds'') \<and> int_of (dget d ''delay_rounds'') = pm_delay_rounds p)
      \<and> dget d ''min_anon_score'' = pm_min_anon p
      \<and> (pm_min_anon p = JNull \<or> eng \<noteq> ''JoinMarket'' \<and> positive_number (pm_min_anon p))
      \<and> str_in (dget_default d ''coin_selection'' (JStr (hd (selections_for eng)))) (selections_for eng)
          = Some (pm_selection p)"
    by (cases p) (auto simp: parse_postmix_dict_def Let_def raise_if_Inr_iff split: option.splits)
  have n1: "pm_all p \<longleftrightarrow> pm_value p = None"
    if "dget d ''value'' = json_of_int (pm_value p)" "(dget d ''value'' \<noteq> JNull) \<noteq> pm_all p"
    using that by auto
  have n2: "(dget d ''value'' \<noteq> JNull) \<noteq> pm_all p"
    if "dget d ''value'' = json_of_int (pm_value p)" "pm_all p \<longleftrightarrow> pm_value p = None"
    using that by auto
  show ?thesis
    unfolding fields keys bool_accepted value_accepted delay_accepted selection_accepted positive_number_iff
    by (rule iffI; elim conjE; intro conjI; (assumption | rule n1, assumption, assumption | rule n2, assumption, assumption))
qed

lemma parse_postmix_spend_Inr:
  "parse_postmix_spend eng i j = Inr p \<longleftrightarrow>
     (\<exists>d. j = JDict d
      \<and> fst ` set d \<subseteq> {''value'', ''all'', ''delay_blocks'', ''delay_rounds'', ''min_anon_score'', ''coin_selection''}
      \<and> dget d ''value'' = json_of_int (pm_value p) \<and> pred_option (\<lambda>n. 0 < n) (pm_value p)
      \<and> (map_of d ''all'' = Some (JBool (pm_all p)) \<or> ''all'' \<notin> fst ` set d \<and> \<not> pm_all p)
      \<and> (pm_all p \<longleftrightarrow> pm_value p = None)
      \<and> dget d ''delay_blocks'' = json_of_int (pm_delay_blocks p)
      \<and> pred_option (\<lambda>n. 0 \<le> n) (pm_delay_blocks p)
      \<and> dget d ''delay_rounds'' = json_of_int (pm_delay_rounds p)
      \<and> pred_option (\<lambda>n. 0 \<le> n) (pm_delay_rounds p)
      \<and> dget d ''min_anon_score'' = pm_min_anon p
      \<and> (pm_min_anon p = JNull \<or> eng \<noteq> ''JoinMarket'' \<and>
           ((\<exists>n>0. pm_min_anon p = JInt n) \<or> (\<exists>x>0. pm_min_anon p = JFloat x)))
      \<and> (map_of d ''coin_selection'' = Some (JStr (pm_selection p)) \<or> ''coin_selection'' \<notin> fst ` set d
           \<and> pm_selection p = (if eng = ''JoinMarket'' then ''amount'' else ''anon_score''))
      \<and> (pm_selection p = ''amount'' \<or> eng \<noteq> ''JoinMarket'' \<and> pm_selection p = ''anon_score''))"
  by (cases j) (simp_all only: parse_postmix_spend.simps parse_postmix_dict_Inr json.inject json.distinct
      simp_thms sum.distinct ex_simps)

interpretation wasabi_spend: json_codec postmix_to_json "parse_postmix_spend ''Wasabi'' i" "wf_spend ''Wasabi''"
  for i by unfold_locales (rule parse_postmix_wf parse_postmix_enc; assumption)+

lemma parse_spends_wf: "parse_postmix_spends eng j = Inr ps \<Longrightarrow> list_all (wf_spend eng) ps"
  by (cases j) (auto simp: list_all_iff dest!: traverse_from_set intro: parse_postmix_wf)

lemma parse_opt_spends_wf: "parse_opt_spends eng j = Inr ps \<Longrightarrow> wf_spends eng ps"
  by (auto simp: parse_opt_spends_def wf_spends_def ebind_Inr_iff
      intro: parse_spends_wf split: if_splits)

lemma parse_opt_spends_enc: "wf_spends eng ps \<Longrightarrow> parse_opt_spends eng (spends_to_json ps) = Inr ps"
proof (cases ps)
  case (Some qs)
  assume "wf_spends eng ps"
  then have "traverse_from 0 (parse_postmix_spend eng) (map postmix_to_json qs) = Inr qs"
    by (auto simp: Some wf_spends_def list_all_iff intro!: traverse_from_inverse parse_postmix_enc)
  then show ?thesis by (simp add: Some parse_opt_spends_def)
qed (simp add: parse_opt_spends_def)

section \<open>Wallets and scenarios: parsing after serialising\<close>

lemma parse_fund_wf: "parse_fund j = Inr f \<Longrightarrow> wf_fund f"
  by (cases j) (auto simp: ebind_Inr_iff)

lemma parse_fund_enc: "wf_fund f \<Longrightarrow> parse_fund (fund_to_json f) = Inr f"
  by (cases f rule: wf_fund.cases) (auto simp: key_of_def)

interpretation fund: json_codec fund_to_json parse_fund wf_fund
  by unfold_locales (rule parse_fund_wf parse_fund_enc; assumption)+

lemma parse_wasabi_wf: "parse_wasabi w = Inr (Some c) \<Longrightarrow> wf_wasabi c"
  by (auto simp: parse_wasabi_def wf_wasabi_def ebind_Inr_iff dest: parse_opt_spends_wf
      split: if_splits)

lemma parse_wasabi_enc:
  assumes "dget w ''wasabi'' = (case oc of None \<Rightarrow> JNull | Some c \<Rightarrow> wasabi_to_json c)"
    and "pred_option wf_wasabi oc"
  shows "parse_wasabi w = Inr oc"
proof (cases oc)
  case None
  with assms show ?thesis
    by (simp add: parse_wasabi_def py_or_def parse_opt_spends_def)
next
  case (Some c)
  with assms have "wf_wasabi c" by simp
  then show ?thesis
    by (auto simp: parse_wasabi_def py_or_def assms(1) Some wasabi_to_json_def wf_wasabi_def
        parse_opt_spends_enc)
qed

lemma parse_role_enc: "parse_role (case r of None \<Rightarrow> JNull | Some x \<Rightarrow> JStr (role_value x)) = Inr r"
  by (cases r; cases "the r") (auto simp: parse_role_def)

lemma role_json_null [simp]:
  "(case r of None \<Rightarrow> JNull | Some x \<Rightarrow> JStr (role_value x)) = JNull \<longleftrightarrow> r = None"
  by (cases r) auto

lemma parse_role_None: "parse_role j = Inr None \<longleftrightarrow> j = JNull"
  by (auto simp: parse_role_def)

lemma parse_joinmarket_wf: "parse_joinmarket w = Inr (Some c) \<Longrightarrow> wf_joinmarket c"
  by (auto simp: parse_joinmarket_def wf_joinmarket_def ebind_Inr_iff parse_role_None bad_value_iff
      dest: parse_opt_spends_wf split: if_splits)

lemma parse_joinmarket_enc:
  assumes "dget w ''joinmarket'' = (case oc of None \<Rightarrow> JNull | Some c \<Rightarrow> joinmarket_to_json c)"
    and "pred_option wf_joinmarket oc"
  shows "parse_joinmarket w = Inr oc"
proof (cases oc)
  case None
  with assms show ?thesis
    by (simp add: parse_joinmarket_def py_or_def parse_opt_spends_def bad_value_def raise_if_def)
next
  case (Some c)
  with assms have wf: "wf_joinmarket c" by simp
  obtain n where n: "joinmarket_to_json c = JDict n" and ne: "n \<noteq> []"
    by (simp add: joinmarket_to_json_def)
  have f: "dget n ''role'' = (case jc_role c of None \<Rightarrow> JNull | Some r \<Rightarrow> JStr (role_value r))"
    "dget n ''offers'' = jc_offers c" "dget n ''tumbler_options'' = jc_tumbler_options c"
    "dget n ''time_between_rounds'' = jc_time_between_rounds c"
    "dget n ''coinjoin_timeout_blocks'' = json_of_int (jc_timeout_blocks c)"
    "dget n ''fidelity_bond'' = jc_fidelity_bond c"
    "dget n ''max_coinjoins'' = jc_max_coinjoins c"
    "dget n ''postmix_spends'' = spends_to_json (jc_postmix c)"
    using n by (auto simp: joinmarket_to_json_def)
  have spends: "parse_opt_spends ''JoinMarket'' (spends_to_json (jc_postmix c)) = Inr (jc_postmix c)"
    using wf by (intro parse_opt_spends_enc) (simp add: wf_joinmarket_def)
  have timeout: "\<not> bad_value (json_of_int (jc_timeout_blocks c))"
    using wf by (auto simp: wf_joinmarket_def split: option.splits)
  show ?thesis
    using wf timeout
    by (simp add: parse_joinmarket_def py_or_def assms(1) Some n ne f spends raise_if_def
        parse_role_enc wf_joinmarket_def)
qed

lemma parse_wallet_wf: "parse_wallet j = Inr w \<Longrightarrow> wf_wallet w"
  by (auto simp: parse_wallet_def parse_wallet_dict_def wf_wallet_def ebind_Inr_iff
      option.pred_set dest: fund.traverse_wf parse_wasabi_wf parse_joinmarket_wf)

lemma parse_wallet_enc:
  assumes wf: "wf_wallet w"
  shows "parse_wallet (wallet_to_json w) = Inr w"
proof -
  obtain d where d: "wallet_to_json w = JDict d"
    by (simp add: wallet_to_json_def)
  have f: "dget_default d ''funds'' (JList []) = JList (map fund_to_json (w_funds w))"
    "dget d ''delay_blocks'' = w_delay_blocks w" "dget d ''delay_rounds'' = w_delay_rounds w"
    "dget d ''stop_blocks'' = w_stop_blocks w" "dget d ''stop_rounds'' = w_stop_rounds w"
    "dget d ''version'' = w_version w"
    "dget d ''wasabi'' = (case w_wasabi w of None \<Rightarrow> JNull | Some c \<Rightarrow> wasabi_to_json c)"
    "dget d ''joinmarket'' = (case w_joinmarket w of None \<Rightarrow> JNull | Some c \<Rightarrow> joinmarket_to_json c)"
    using d by (auto simp: wallet_to_json_def dget_default_def)
  have keys: "\<not> has_key_of legacy_wasabi_fields d" "\<not> has_key_of legacy_joinmarket_fields d"
    using d by (auto simp: wallet_to_json_def has_key_of_def legacy_wasabi_fields_def
        legacy_joinmarket_fields_def)
  have sub: "parse_wasabi d = Inr (w_wasabi w)" "parse_joinmarket d = Inr (w_joinmarket w)"
    using wf by (auto simp: wf_wallet_def intro!: parse_wasabi_enc parse_joinmarket_enc f)
  have "traverse parse_fund (map fund_to_json (w_funds w)) = Inr (w_funds w)"
    using wf by (intro fund.traverse_enc) (simp add: wf_wallet_def)
  then show ?thesis
    by (simp add: parse_wallet_def d parse_wallet_dict_def f keys sub iter_of_def raise_if_def)
qed

interpretation wallet: json_codec wallet_to_json parse_wallet wf_wallet
  by unfold_locales (rule parse_wallet_wf parse_wallet_enc; assumption)+

lemma from_json_wf: "from_json_config j = Inr s \<Longrightarrow> wf_scenario s"
  by (auto simp: from_json_config_def parse_scenario_dict_def wf_scenario_def ebind_Inr_iff
      dest: wallet.traverse_wf)

lemma from_json_enc:
  assumes wf: "wf_scenario s"
  shows "from_json_config (to_dict s) = Inr s"
proof -
  obtain d where d: "to_dict s = JDict d"
    by (simp add: to_dict_def)
  have f: "dget d ''description'' = sc_description s" "dget d ''category'' = sc_category s"
    "dget_default d ''wallets'' (JList []) = JList (map wallet_to_json (sc_wallets s))"
    "key_of d ''name'' = Inr (sc_name s)" "key_of d ''rounds'' = Inr (sc_rounds s)"
    "key_of d ''blocks'' = Inr (sc_blocks s)"
    "key_of d ''default_version'' = Inr (sc_default_version s)"
    "dget d ''distributor_version'' = sc_distributor_version s"
    "dget d ''default_anon_score_target'' = sc_default_anon s"
    "dget d ''default_redcoin_isolation'' = sc_default_redcoin s" "dget d ''backend'' = sc_backend s"
    using d by (auto simp: to_dict_def dget_default_def key_of_def)
  have "traverse parse_wallet (map wallet_to_json (sc_wallets s)) = Inr (sc_wallets s)"
    using wf by (intro wallet.traverse_enc) (simp add: wf_scenario_def)
  with wf show ?thesis
    by (simp add: from_json_config_def d parse_scenario_dict_def f iter_of_def raise_if_def
        wf_scenario_def)
qed

interpretation scenario: json_codec to_dict from_json_config wf_scenario
  by unfold_locales (rule from_json_wf from_json_enc; assumption)+

section \<open>Validation\<close>

lemma indexes_where_set: "set (indexes_where p xs) = {i. i < length xs \<and> p (xs ! i)}"
  by (force simp: indexes_where_def in_set_enumerate_eq image_iff)

lemma indexes_where_Nil: "indexes_where p xs = [] \<longleftrightarrow> (\<forall>x\<in>set xs. \<not> p x)"
proof -
  have "indexes_where p xs = [] \<longleftrightarrow> {i. i < length xs \<and> p (xs ! i)} = {}"
    by (simp flip: indexes_where_set)
  then show ?thesis by (auto simp: all_set_conv_all_nth)
qed


section \<open>Properties\<close>

text \<open>
  Claim C12. A scenario that parses survives being written out: the dictionary stored beside a run
  parses back to the very scenario that ran, with all its wallets, funds and postmix spends.
\<close>

theorem stored_scenario_reparses:
  "from_json_config j = Inr s \<Longrightarrow> from_json_config (to_dict s) = Inr s"
  by (rule scenario.reparse)

definition example_scenario :: json where
  "example_scenario = JDict
    [(''name'', JStr ''s''), (''rounds'', JInt 5), (''blocks'', JInt 0), (''default_version'', JStr ''2.0.4''),
     (''wallets'', JList [JDict [(''funds'', JList [JInt 200000, JDict [(''value'', JInt 7)]]),
        (''joinmarket'', JDict [(''role'', JStr ''taker''),
           (''postmix_spends'', JList [JDict [(''value'', JInt 5000), (''delay_blocks'', JInt 3)]])])]])]"

lemma example_scenario_parses:
  "from_json_config example_scenario = Inr (projr (from_json_config example_scenario))"
  by code_simp

theorem stored_scenario_reparses_witness:
  "from_json_config (to_dict (projr (from_json_config example_scenario))) =
     Inr (projr (from_json_config example_scenario))"
  by (rule stored_scenario_reparses [OF example_scenario_parses])

text \<open>
  Claim C13. A JSON value is accepted as a postmix spend, and parsed to \<open>p\<close>, exactly when it is an
  object with no field but the six known ones, a positive integer value or \<open>true\<close> for the whole
  balance but not both, delays that are absent, null or non-negative integers, a score threshold
  that is absent, null or, for Wasabi only, a positive number that is no boolean, and a selection
  the wallet knows; \<open>p\<close> then holds those values, with the default of the engine for a missing
  selection.
\<close>

theorem postmix_spend_accepted_iff:
  "parse_postmix_spend eng i j = Inr p \<longleftrightarrow>
     (\<exists>d. j = JDict d
      \<and> fst ` set d \<subseteq> {''value'', ''all'', ''delay_blocks'', ''delay_rounds'', ''min_anon_score'', ''coin_selection''}
      \<and> dget d ''value'' = json_of_int (pm_value p) \<and> pred_option (\<lambda>n. 0 < n) (pm_value p)
      \<and> (map_of d ''all'' = Some (JBool (pm_all p)) \<or> ''all'' \<notin> fst ` set d \<and> \<not> pm_all p)
      \<and> (pm_all p \<longleftrightarrow> pm_value p = None)
      \<and> dget d ''delay_blocks'' = json_of_int (pm_delay_blocks p)
      \<and> pred_option (\<lambda>n. 0 \<le> n) (pm_delay_blocks p)
      \<and> dget d ''delay_rounds'' = json_of_int (pm_delay_rounds p)
      \<and> pred_option (\<lambda>n. 0 \<le> n) (pm_delay_rounds p)
      \<and> dget d ''min_anon_score'' = pm_min_anon p
      \<and> (pm_min_anon p = JNull \<or> eng \<noteq> ''JoinMarket'' \<and>
           ((\<exists>n>0. pm_min_anon p = JInt n) \<or> (\<exists>x>0. pm_min_anon p = JFloat x)))
      \<and> (map_of d ''coin_selection'' = Some (JStr (pm_selection p)) \<or> ''coin_selection'' \<notin> fst ` set d
           \<and> pm_selection p = (if eng = ''JoinMarket'' then ''amount'' else ''anon_score''))
      \<and> (pm_selection p = ''amount'' \<or> eng \<noteq> ''JoinMarket'' \<and> pm_selection p = ''anon_score''))"
  by (rule parse_postmix_spend_Inr)

text \<open>The parser and the serialiser agree on which spends are well-formed.\<close>

theorem spend_serialises_iff:
  "parse_postmix_spend eng i (postmix_to_json p) = Inr p \<longleftrightarrow> wf_spend eng p"
  using parse_postmix_wf parse_postmix_enc by blast

text \<open>
  A scenario is accepted for JoinMarket exactly when no wallet carries Wasabi settings,
  every wallet has a role, and a tumbler does not have to run against a bare round limit, which
  its rounds never reach.
\<close>

theorem validate_ok_iff:
  "validate_for_engine s ''joinmarket'' = Inr () \<longleftrightarrow>
     (\<forall>w\<in>set (sc_wallets s). w_wasabi w = None \<and> \<not> role_missing w) \<and>
     (\<exists>limited. gt_zero (sc_rounds s) = Inr limited \<and>
        \<not> (limited \<and> eq_zero (sc_blocks s) \<and> list_ex is_tumbler (sc_wallets s)))"
  by (auto simp: validate_for_engine_def Let_def indexes_where_Nil ebind_Inr_iff)
theorem validate_ok_iff_witness:
  "validate_for_engine (projr (from_json_config example_scenario)) ''joinmarket'' = Inr () \<longleftrightarrow>
     (\<forall>w\<in>set (sc_wallets (projr (from_json_config example_scenario))). w_wasabi w = None \<and> \<not> role_missing w) \<and>
     (\<exists>limited. gt_zero (sc_rounds (projr (from_json_config example_scenario))) = Inr limited \<and>
        \<not> (limited \<and> eq_zero (sc_blocks (projr (from_json_config example_scenario)))
            \<and> list_ex is_tumbler (sc_wallets (projr (from_json_config example_scenario)))))"
  by (rule validate_ok_iff)

end
