(* ===== verification/Postmix.thy ===== *)
theory Postmix
  imports Config
begin

text \<open>
  The schedule of postmix spends, \<open>manager/engine/postmix_spends.py\<close>: which spend is due, what one
  attempt calls on the wallet and the node and in which order, how its outcome is recorded, and
  what is stored for it. The wallet, the node and the clock are the world \<open>'w\<close>; the calls
  \<open>SpendingClient\<close> and \<open>FundingNode\<close> declare are the fields of \<open>spend_ops\<close>, a client being named
  by its position in \<open>self.clients\<close>. The node's \<open>is_unspent\<close>, which the code only hands on to the
  client, is part of the client's operations here.
\<close>

section \<open>State\<close>

datatype spend_status = NotDue | SpendFailed | SpendSent

fun status_str :: "spend_status \<Rightarrow> string" where
  "status_str NotDue = ''not_due''"
| "status_str SpendFailed = ''failed''"
| "status_str SpendSent = ''sent''"

record postmix_spend =
  sp_wallet :: string
  sp_wallet_index :: nat
  sp_value :: "int option"
  sp_all :: bool
  sp_delay_blocks :: int
  sp_delay_rounds :: int
  sp_min_anon :: json
  sp_selection :: string
  sp_status :: spend_status
  sp_attempts :: nat
  sp_last_error :: "string option"
  sp_next_attempt :: rat
  sp_sent :: dict

record 'w spend_ops =
  op_check :: "nat \<Rightarrow> int option \<Rightarrow> json \<Rightarrow> ('w, unit) io"
  op_stop :: "nat \<Rightarrow> ('w, unit) io"
  op_new_address :: "('w, string) io"
  op_send :: "nat \<Rightarrow> string \<Rightarrow> int option \<Rightarrow> json \<Rightarrow> string \<Rightarrow> ('w, dict) io"
  op_time :: "'w \<Rightarrow> rat"

definition postmix_retry_seconds :: rat where
  "postmix_retry_seconds = 30"

section \<open>Scheduling\<close>

definition int_or_zero :: "int option \<Rightarrow> int" where
  "int_or_zero x = (case x of None \<Rightarrow> 0 | Some n \<Rightarrow> n)"

definition from_config :: "string \<Rightarrow> nat \<Rightarrow> postmix_config \<Rightarrow> postmix_spend" where
  "from_config wallet i c =
     \<lparr>sp_wallet = wallet, sp_wallet_index = i, sp_value = pm_value c, sp_all = pm_all c,
      sp_delay_blocks = int_or_zero (pm_delay_blocks c),
      sp_delay_rounds = int_or_zero (pm_delay_rounds c),
      sp_min_anon = pm_min_anon c, sp_selection = pm_selection c,
      sp_status = NotDue, sp_attempts = 0, sp_last_error = None, sp_next_attempt = 0,
      sp_sent = []\<rparr>"

text \<open>The spends of the engine in use; the settings of the other engine are ignored.\<close>

definition wallet_postmix_spends :: "wallet_config \<Rightarrow> string \<Rightarrow> postmix_config list" where
  "wallet_postmix_spends w eng =
     (let spends = (if eng = ''joinmarket'' then Option.bind (w_joinmarket w) jc_postmix
                    else Option.bind (w_wasabi w) wc_postmix)
      in case spends of None \<Rightarrow> [] | Some ps \<Rightarrow> ps)"

definition schedule :: "string list \<Rightarrow> wallet_config list \<Rightarrow> string \<Rightarrow> postmix_spend list" where
  "schedule client_names wallets eng =
     concat (map (\<lambda>(i, name, w). map (from_config name i) (wallet_postmix_spends w eng))
       (enumerate 0 (zip client_names wallets)))"

definition due :: "rat \<Rightarrow> int \<Rightarrow> int \<Rightarrow> postmix_spend \<Rightarrow> bool" where
  "due now block rnd sp =
     (sp_status sp \<noteq> SpendSent \<and> sp_delay_blocks sp \<le> block \<and> sp_delay_rounds sp \<le> rnd
      \<and> sp_next_attempt sp \<le> now)"

definition mark_failed :: "rat \<Rightarrow> string \<Rightarrow> postmix_spend \<Rightarrow> postmix_spend" where
  "mark_failed now err sp =
     sp\<lparr>sp_status := SpendFailed, sp_last_error := Some err,
        sp_next_attempt := now + postmix_retry_seconds\<rparr>"

definition mark_sent :: "dict \<Rightarrow> postmix_spend \<Rightarrow> postmix_spend" where
  "mark_sent result sp =
     sp\<lparr>sp_status := SpendSent, sp_last_error := None, sp_sent := result\<rparr>"

section \<open>One attempt\<close>

text \<open>\<open>a | b\<close> on dictionaries.\<close>

definition dict_union :: "dict \<Rightarrow> dict \<Rightarrow> dict" where
  "dict_union a b = foldl (\<lambda>d (k, v). dset d k v) a b"

definition pay_out :: "'w spend_ops \<Rightarrow> postmix_spend \<Rightarrow> ('w, dict) io" where
  "pay_out ops sp =
     (let c = sp_wallet_index sp;
          value = (if sp_all sp then None else sp_value sp)
      in io_seq (op_check ops c value (sp_min_anon sp))
           (io_seq (op_stop ops c)
             (io_bind (op_new_address ops) (\<lambda>destination.
               io_bind (op_send ops c destination value (sp_min_anon sp) (sp_selection sp)) (\<lambda>result.
                 io_ret (dset result ''destination'' (JStr destination)))))))"

text \<open>
  \<open>_send\<close>: every \<open>Exception\<close> is recorded as a failed attempt. What escapes \<open>except Exception\<close>
  (an interrupt of the interpreter) leaves the attempt counted and stops the pass; it is the
  first component of the result.
\<close>

definition send_spend ::
    "'w spend_ops \<Rightarrow> int \<Rightarrow> int \<Rightarrow> postmix_spend \<Rightarrow> 'w \<Rightarrow> exn option \<times> postmix_spend \<times> 'w" where
  "send_spend ops block rnd sp w =
     (let sp' = sp\<lparr>sp_attempts := Suc (sp_attempts sp)\<rparr>
      in case pay_out ops sp' w of
           (Inl e, w') \<Rightarrow>
             if is_exception e then (None, mark_failed (op_time ops w') (exn_msg e) sp', w')
             else (Some e, sp', w')
         | (Inr result, w') \<Rightarrow>
             (None, mark_sent (dict_union result [(''round'', JInt rnd), (''block'', JInt block)]) sp', w'))"

fun update_spends ::
    "'w spend_ops \<Rightarrow> int \<Rightarrow> int \<Rightarrow> postmix_spend list \<Rightarrow> 'w \<Rightarrow> exn option \<times> postmix_spend list \<times> 'w"
where
  "update_spends ops block rnd [] w = (None, [], w)"
| "update_spends ops block rnd (sp # sps) w =
     (if due (op_time ops w) block rnd sp
      then (case send_spend ops block rnd sp w of
              (Some e, sp', w') \<Rightarrow> (Some e, sp' # sps, w')
            | (None, sp', w') \<Rightarrow>
                (case update_spends ops block rnd sps w' of (r, sps', w'') \<Rightarrow> (r, sp' # sps', w'')))
      else (case update_spends ops block rnd sps w of (r, sps', w'') \<Rightarrow> (r, sp # sps', w'')))"

section \<open>The stored form\<close>

fun json_of_str :: "string option \<Rightarrow> json" where
  "json_of_str None = JNull"
| "json_of_str (Some s) = JStr s"

definition spend_record :: "postmix_spend \<Rightarrow> dict" where
  "spend_record sp =
     dict_union
       [(''wallet'', JStr (sp_wallet sp)), (''wallet_index'', JInt (int (sp_wallet_index sp))),
        (''value'', json_of_int (sp_value sp)), (''all'', JBool (sp_all sp)),
        (''delay_blocks'', JInt (sp_delay_blocks sp)), (''delay_rounds'', JInt (sp_delay_rounds sp)),
        (''min_anon_score'', sp_min_anon sp), (''coin_selection'', JStr (sp_selection sp)),
        (''status'', JStr (status_str (sp_status sp))), (''attempts'', JInt (int (sp_attempts sp))),
        (''last_error'', json_of_str (sp_last_error sp))]
       (sp_sent sp)"

definition store :: "postmix_spend list \<Rightarrow> json" where
  "store sps =
     JDict [(''schema_version'', JStr ''1.0''), (''spends'', JList (map (\<lambda>sp. JDict (spend_record sp)) sps))]"

section \<open>One pass over the schedule\<close>

lemma send_spend_cases:
  assumes "send_spend ops block rnd sp w = (r, sp', w')"
  obtains (failed) e where "r = None" "is_exception e"
      "sp' = mark_failed (op_time ops w') (exn_msg e) (sp\<lparr>sp_attempts := Suc (sp_attempts sp)\<rparr>)"
      "pay_out ops (sp\<lparr>sp_attempts := Suc (sp_attempts sp)\<rparr>) w = (Inl e, w')"
    | (escaped) e where "r = Some e" "\<not> is_exception e"
      "sp' = sp\<lparr>sp_attempts := Suc (sp_attempts sp)\<rparr>"
    | (sent) result where "r = None"
      "sp' = mark_sent (dict_union result [(''round'', JInt rnd), (''block'', JInt block)])
               (sp\<lparr>sp_attempts := Suc (sp_attempts sp)\<rparr>)"
      "pay_out ops (sp\<lparr>sp_attempts := Suc (sp_attempts sp)\<rparr>) w = (Inr result, w')"
  using assms by (fastforce simp: send_spend_def Let_def split: prod.splits sum.splits if_splits)

text \<open>
  Position by position, a pass leaves a spend alone or makes one attempt at it, and an attempt is
  only made at a spend that was due in the world of its turn.
\<close>

definition attempted ::
    "'w spend_ops \<Rightarrow> int \<Rightarrow> int \<Rightarrow> postmix_spend \<Rightarrow> postmix_spend \<Rightarrow> bool" where
  "attempted ops block rnd sp sp' =
     (\<exists>w r w'. due (op_time ops w) block rnd sp \<and> send_spend ops block rnd sp w = (r, sp', w'))"

lemma update_spends_pointwise:
  "update_spends ops block rnd sps w = (r, sps', w') \<Longrightarrow>
     list_all2 (\<lambda>sp sp'. sp' = sp \<or> attempted ops block rnd sp sp') sps sps'"
proof (induction sps arbitrary: w r sps' w')
  case (Cons sp sps)
  show ?case
  proof (cases "due (op_time ops w) block rnd sp")
    case False
    with Cons show ?thesis by (auto split: prod.splits)
  next
    case True
    obtain r1 sp1 w1 where s: "send_spend ops block rnd sp w = (r1, sp1, w1)"
      by (metis prod_cases3)
    then have a: "attempted ops block rnd sp sp1"
      using True by (auto simp: attempted_def)
    show ?thesis
    proof (cases r1)
      case None
      with Cons True s a show ?thesis by (auto split: prod.splits)
    next
      case (Some e)
      with Cons True s a show ?thesis
        by (auto intro: list_all2_refl)
    qed
  qed
qed simp

lemma update_spends_length:
  "update_spends ops block rnd sps w = (r, sps', w') \<Longrightarrow> length sps' = length sps"
  by (drule update_spends_pointwise) (simp add: list_all2_lengthD)

lemma attempted_due: "attempted ops block rnd sp sp' \<Longrightarrow>
    sp_status sp \<noteq> SpendSent \<and> sp_delay_blocks sp \<le> block \<and> sp_delay_rounds sp \<le> rnd"
  by (auto simp: attempted_def due_def)

section \<open>What a spend keeps\<close>

text \<open>The schedule fields of a spend never change, and its outcome fields agree with its status.\<close>

definition same_plan :: "postmix_spend \<Rightarrow> postmix_spend \<Rightarrow> bool" where
  "same_plan a b =
     (sp_wallet a = sp_wallet b \<and> sp_wallet_index a = sp_wallet_index b \<and> sp_value a = sp_value b
      \<and> sp_all a = sp_all b \<and> sp_delay_blocks a = sp_delay_blocks b
      \<and> sp_delay_rounds a = sp_delay_rounds b \<and> sp_min_anon a = sp_min_anon b
      \<and> sp_selection a = sp_selection b)"

definition spend_ok :: "postmix_spend \<Rightarrow> bool" where
  "spend_ok sp =
     (case sp_status sp of
        NotDue \<Rightarrow> sp_last_error sp = None \<and> sp_sent sp = []
      | SpendFailed \<Rightarrow> sp_last_error sp \<noteq> None \<and> sp_sent sp = [] \<and> 0 < sp_attempts sp
      | SpendSent \<Rightarrow> sp_last_error sp = None \<and> 0 < sp_attempts sp
          \<and> {''destination'', ''round'', ''block''} \<subseteq> fst ` set (sp_sent sp))"

lemma keys_dict_union: "fst ` set (dict_union a b) = fst ` set a \<union> fst ` set b"
proof (induction b arbitrary: a)
  case (Cons kv b)
  obtain k v where kv: "kv = (k, v)" by (cases kv)
  have "dict_union a (kv # b) = dict_union (dset a k v) b"
    by (simp add: dict_union_def kv)
  with Cons.IH show ?case by (simp add: keys_dset kv)
qed (simp add: dict_union_def)

lemma pay_out_destination:
  "pay_out ops sp w = (Inr result, w') \<Longrightarrow> ''destination'' \<in> fst ` set result"
  by (auto simp: pay_out_def Let_def io_simps keys_dset split: prod.splits sum.splits)

lemma attempted_ok:
  assumes "attempted ops block rnd sp sp'" and ok: "spend_ok sp"
  shows "spend_ok sp' \<and> same_plan sp sp' \<and> sp_attempts sp' = Suc (sp_attempts sp)"
proof -
  from assms(1) obtain w r w' where s: "send_spend ops block rnd sp w = (r, sp', w')"
      and unsent: "sp_status sp \<noteq> SpendSent"
    by (auto simp: attempted_def due_def)
  from s show ?thesis
  proof (cases rule: send_spend_cases)
    case (sent result)
    then show ?thesis
      using pay_out_destination [OF sent(3)] keys_dict_union
      by (auto simp: spend_ok_def same_plan_def mark_sent_def keys_dict_union)
  qed (use ok unsent in \<open>auto simp: spend_ok_def same_plan_def mark_failed_def
         split: spend_status.splits\<close>)
qed

lemma from_config_ok: "spend_ok (from_config name i c)"
  by (simp add: spend_ok_def from_config_def)

lemma schedule_ok: "list_all spend_ok (schedule names wallets eng)"
  by (auto simp: schedule_def list_all_iff from_config_ok)

text \<open>
  A run of the schedule is any number of passes, each with its own block, round and world; the
  operations may answer anything.
\<close>

inductive schedule_run :: "'w spend_ops \<Rightarrow> postmix_spend list \<Rightarrow> postmix_spend list \<Rightarrow> bool"
  for ops where
  run_start: "schedule_run ops sps sps"
| run_pass: "schedule_run ops sps sps' \<Longrightarrow> update_spends ops block rnd sps' w = (r, sps'', w') \<Longrightarrow>
    schedule_run ops sps sps''"

section \<open>The order of the calls of one attempt\<close>

text \<open>
  The same operations with a log of the calls made, to state in which order an attempt makes them.
\<close>

datatype spend_call = CallCheck nat | CallStop nat | CallNewAddress | CallSend nat string

definition logged :: "'c \<Rightarrow> ('w, 'a) io \<Rightarrow> ('w \<times> 'c list, 'a) io" where
  "logged c m = (\<lambda>(w, l). case m w of (r, w') \<Rightarrow> (r, w', l @ [c]))"

definition traced :: "'w spend_ops \<Rightarrow> ('w \<times> spend_call list) spend_ops" where
  "traced ops = \<lparr>op_check = (\<lambda>c v m. logged (CallCheck c) (op_check ops c v m)),
     op_stop = (\<lambda>c. logged (CallStop c) (op_stop ops c)),
     op_new_address = logged CallNewAddress (op_new_address ops),
     op_send = (\<lambda>c d v m s. logged (CallSend c d) (op_send ops c d v m s)),
     op_time = (\<lambda>(w, l). op_time ops w)\<rparr>"

definition attempt_calls :: "nat \<Rightarrow> string \<Rightarrow> spend_call list" where
  "attempt_calls c d = [CallCheck c, CallStop c, CallNewAddress, CallSend c d]"

lemma pay_out_calls:
  assumes "pay_out (traced ops) sp (w, l) = (r, w', l')"
  obtains n d where "1 \<le> n" "n \<le> 4" "l' = l @ take n (attempt_calls (sp_wallet_index sp) d)"
    "(\<exists>x. r = Inr x) \<longrightarrow> n = 4"
    "n = 1 \<longleftrightarrow> (\<exists>e. fst (op_check ops (sp_wallet_index sp)
        (if sp_all sp then None else sp_value sp) (sp_min_anon sp) w) = Inl e)"
proof -
  let ?c = "sp_wallet_index sp" and ?v = "if sp_all sp then None else sp_value sp"
  obtain r1 w1 where 1: "op_check ops ?c ?v (sp_min_anon sp) w = (r1, w1)" by fastforce
  obtain r2 w2 where 2: "op_stop ops ?c w1 = (r2, w2)" by fastforce
  obtain r3 w3 where 3: "op_new_address ops w2 = (r3, w3)" by fastforce
  note defs = pay_out_def traced_def logged_def Let_def io_simps 1 2 3 attempt_calls_def
  consider e where "r1 = Inl e" | e where "\<exists>x. r1 = Inr x" "r2 = Inl e"
    | e where "\<exists>x. r1 = Inr x" "\<exists>x. r2 = Inr x" "r3 = Inl e"
    | d where "\<exists>x. r1 = Inr x" "\<exists>x. r2 = Inr x" "r3 = Inr d"
    by (cases r1; cases r2; cases r3) auto
  then show thesis
  proof cases
    case 1
    then show thesis using assms that [of 1 "[]"] by (auto simp: defs)
  next
    case 2
    then show thesis using assms that [of 2 "[]"] by (auto simp: defs)
  next
    case 3
    then show thesis using assms that [of 3 "[]"] by (auto simp: defs)
  next
    case (4 d)
    then show thesis
      using assms that [of 4 d] by (auto simp: defs split: prod.splits sum.splits)
  qed
qed

section \<open>Properties\<close>

text \<open>
  Claim C7. Over any number of passes, with wallets and nodes that answer anything: the list keeps
  its length and its plan, attempts are only counted up, the outcome fields of every spend agree
  with its status, and a spend that was sent is never touched again, so nothing is paid twice.
\<close>

theorem sent_spends_are_final:
  assumes "schedule_run ops sps sps'" and "list_all spend_ok sps"
  shows "list_all2 (\<lambda>sp sp'. spend_ok sp' \<and> same_plan sp sp' \<and> sp_attempts sp \<le> sp_attempts sp'
           \<and> (sp_status sp = SpendSent \<longrightarrow> sp' = sp)) sps sps'"
  using assms
proof (induction rule: schedule_run.induct)
  case (run_start sps)
  then show ?case
    by (auto simp: list_all2_same list_all_iff same_plan_def)
next
  case (run_pass sps sps' block rnd w r sps'' w')
  show ?case
  proof (rule list_all2_trans [OF _ run_pass.IH [OF run_pass.prems]
        update_spends_pointwise [OF run_pass.hyps(2)]])
    fix a b c
    assume ab: "spend_ok b \<and> same_plan a b \<and> sp_attempts a \<le> sp_attempts b
        \<and> (sp_status a = SpendSent \<longrightarrow> b = a)"
      and bc: "c = b \<or> attempted ops block rnd b c"
    from bc show "spend_ok c \<and> same_plan a c \<and> sp_attempts a \<le> sp_attempts c
        \<and> (sp_status a = SpendSent \<longrightarrow> c = a)"
    proof
      assume c: "attempted ops block rnd b c"
      then have "spend_ok c \<and> same_plan b c \<and> sp_attempts c = Suc (sp_attempts b)"
        using attempted_ok ab by blast
      then show ?thesis
        using ab attempted_due [OF c] by (auto simp: same_plan_def)
    qed (use ab in blast)
  qed
qed

definition example_ops :: "unit spend_ops" where
  "example_ops = \<lparr>op_check = (\<lambda>c v m. io_ret ()), op_stop = (\<lambda>c. io_ret ()),
     op_new_address = io_ret ''addr'', op_send = (\<lambda>c d v m s. io_ret [(''txid'', JStr ''x'')]),
     op_time = (\<lambda>w. 0)\<rparr>"

definition example_spend :: postmix_spend where
  "example_spend = from_config ''w'' 0 \<lparr>pm_value = Some 5000, pm_all = False, pm_delay_blocks = None,
     pm_delay_rounds = None, pm_min_anon = JNull, pm_selection = ''amount''\<rparr>"

definition example_after :: "postmix_spend list" where
  "example_after = fst (snd (update_spends example_ops 9 2 [example_spend] ()))"

lemma example_run: "schedule_run example_ops [example_spend] example_after"
  unfolding example_after_def
  by (rule run_pass [OF run_start]) (rule prod_eqI, simp, rule prod_eqI, simp_all)

theorem sent_spends_are_final_witness:
  "list_all2 (\<lambda>sp sp'. spend_ok sp' \<and> same_plan sp sp' \<and> sp_attempts sp \<le> sp_attempts sp'
     \<and> (sp_status sp = SpendSent \<longrightarrow> sp' = sp)) [example_spend] example_after
   \<and> sp_status (hd example_after) = SpendSent"
proof
  have "list_all spend_ok [example_spend]"
    by (simp add: example_spend_def from_config_ok)
  from sent_spends_are_final [OF example_run this]
  show "list_all2 (\<lambda>sp sp'. spend_ok sp' \<and> same_plan sp sp' \<and> sp_attempts sp \<le> sp_attempts sp'
     \<and> (sp_status sp = SpendSent \<longrightarrow> sp' = sp)) [example_spend] example_after" .
  show "sp_status (hd example_after) = SpendSent" by code_simp
qed

text \<open>
  One attempt asks the wallet first whether it can pay, and only then stops its coinjoin,
  takes one fresh address from the node and sends to it, in that order; a failure ends the attempt
  where it happens, and an attempt that succeeds made all four calls.
\<close>

theorem attempt_call_order:
  assumes "pay_out (traced ops) sp (w, l) = (r, w', l')"
  shows "\<exists>n d. 1 \<le> n \<and> n \<le> 4 \<and> l' = l @ take n (attempt_calls (sp_wallet_index sp) d)
    \<and> ((\<exists>x. r = Inr x) \<longrightarrow> n = 4)
    \<and> (n = 1 \<longleftrightarrow> (\<exists>e. fst (op_check ops (sp_wallet_index sp)
         (if sp_all sp then None else sp_value sp) (sp_min_anon sp) w) = Inl e))"
proof (rule pay_out_calls [OF assms])
  fix n d
  assume "1 \<le> n" "n \<le> 4" "l' = l @ take n (attempt_calls (sp_wallet_index sp) d)"
    "(\<exists>x. r = Inr x) \<longrightarrow> n = 4"
    "n = 1 \<longleftrightarrow> (\<exists>e. fst (op_check ops (sp_wallet_index sp)
        (if sp_all sp then None else sp_value sp) (sp_min_anon sp) w) = Inl e)"
  then show ?thesis by (intro exI [of _ n] exI [of _ d] conjI)
qed

theorem attempt_call_order_witness:
  "\<exists>n d. 1 \<le> n \<and> n \<le> 4 \<and> attempt_calls 0 ''addr'' = [] @ take n (attempt_calls 0 d)"
proof -
  have run: "pay_out (traced example_ops) example_spend ((), []) =
      (Inr [(''txid'', JStr ''x''), (''destination'', JStr ''addr'')], (), attempt_calls 0 ''addr'')"
    by code_simp
  have "sp_wallet_index example_spend = 0" by code_simp
  with attempt_call_order [OF run] show ?thesis by (simp only:) blast
qed

text \<open>
  A failed attempt is not repeated before thirty seconds have passed, and nothing is
  attempted before its block and its round.
\<close>

theorem retry_waits:
  assumes "send_spend ops block rnd sp w = (r, sp', w')" "due now' block' rnd' sp'"
  shows "sp_delay_blocks sp \<le> block' \<and> sp_delay_rounds sp \<le> rnd'
    \<and> (sp_status sp' = SpendFailed \<and> r = None \<longrightarrow> op_time ops w' + 30 \<le> now')"
  using assms(1)
proof (cases rule: send_spend_cases)
  case (failed e)
  then show ?thesis
    using assms(2) by (auto simp: due_def mark_failed_def postmix_retry_seconds_def)
next
  case (escaped e)
  then show ?thesis using assms(2) by (auto simp: due_def)
next
  case (sent result)
  then show ?thesis using assms(2) by (auto simp: due_def mark_sent_def)
qed

definition broken_ops :: "unit spend_ops" where
  "broken_ops = example_ops\<lparr>op_check := (\<lambda>c v m. io_raise (Exn KRuntimeError ''none''))\<rparr>"

theorem retry_waits_witness:
  "op_time broken_ops () + 30 \<le> (31 :: rat)"
proof -
  have run: "send_spend broken_ops 9 2 example_spend () =
      (None, mark_failed 0 ''none'' (example_spend\<lparr>sp_attempts := Suc 0\<rparr>), ())"
    by code_simp
  have due: "due 31 9 2 (mark_failed 0 ''none'' (example_spend\<lparr>sp_attempts := Suc 0\<rparr>))"
    by code_simp
  show ?thesis
    using retry_waits [OF run due] by (simp add: mark_failed_def)
qed

end
