(* ===== verification/Coins.thy ===== *)
theory Coins
  imports Prelude
begin

text \<open>
  Coin selection: the interface every selection strategy satisfies, with what a caller may rely on,
  and the strategies of the two wallets. \<open>_select_coins_by_anon_score\<close>, \<open>_select_coins_by_amount\<close>
  and \<open>_select_mixed_coins\<close> are from \<open>manager/wasabi_clients/wasabi_client_base.py\<close>,
  \<open>_select_by_amount\<close> from \<open>manager/engine/joinmarket/postmix.py\<close>.
\<close>

section \<open>The interface\<close>

text \<open>
  A strategy returns a sub-multiset of the candidates with its exact sum; it stops as soon as the
  value is covered and gives up only with every candidate taken.
\<close>

locale coin_selector =
  fixes select :: "'c list \<Rightarrow> int \<Rightarrow> 'c list \<times> int"
    and amount :: "'c \<Rightarrow> int"
  assumes total_sum: "select cs v = (sel, t) \<Longrightarrow> t = sum_list_by amount sel"
    and from_candidates: "select cs v = (sel, t) \<Longrightarrow> mset sel \<subseteq># mset cs"
    and enough_or_all: "select cs v = (sel, t) \<Longrightarrow> v \<le> t \<or> mset sel = mset cs"
    and stops_when_covered:
      "select cs v = (sel, t) \<Longrightarrow> sel \<noteq> [] \<Longrightarrow> sum_list_by amount (butlast sel) < v"
begin

lemma total_le_candidates:
  assumes "select cs v = (sel, t)" and nn: "\<And>c. c \<in> set cs \<Longrightarrow> 0 \<le> amount c"
  shows "t \<le> sum_list_by amount cs"
proof -
  obtain rest where rest: "mset cs = mset sel + rest"
    using from_candidates [OF assms(1)] by (metis mset_subset_eq_exists_conv)
  obtain ys where ys: "rest = mset ys" by (metis ex_mset)
  have "sum_list_by amount cs = sum_list_by amount (sel @ ys)"
    by (rule sum_list_by_mset) (simp add: rest ys)
  moreover have "set ys \<subseteq> set cs"
    using rest ys by (metis mset_eq_setD mset_append set_append Un_upper2)
  then have "0 \<le> sum_list_by amount ys" using nn by (auto intro: sum_list_by_nonneg)
  ultimately show ?thesis using total_sum [OF assms(1)] by simp
qed

lemma covers_iff:
  assumes "select cs v = (sel, t)" and "\<And>c. c \<in> set cs \<Longrightarrow> 0 \<le> amount c"
  shows "v \<le> t \<longleftrightarrow> v \<le> sum_list_by amount cs"
  using total_le_candidates [OF assms] enough_or_all [OF assms(1)] total_sum [OF assms(1)]
    sum_list_by_mset [of sel cs amount] by auto

lemma short_takes_all:
  "select cs v = (sel, t) \<Longrightarrow> t < v \<Longrightarrow> t = sum_list_by amount cs"
  using enough_or_all total_sum sum_list_by_mset by (metis linorder_not_le)

lemma overshoot_bound:
  assumes "select cs v = (sel, t)" and "sel \<noteq> []"
  shows "t - v < amount (last sel)"
proof -
  have "t = sum_list_by amount (butlast sel @ [last sel])"
    using total_sum [OF assms(1)] assms(2) by simp
  then show ?thesis using stops_when_covered [OF assms] by simp
qed

lemma nonempty_when_positive:
  "select cs v = (sel, t) \<Longrightarrow> 0 < v \<Longrightarrow> v \<le> t \<Longrightarrow> sel \<noteq> []"
  using total_sum by fastforce

end

section \<open>Wasabi coins\<close>

text \<open>
  The \<open>listunspentcoins\<close> fields the selection reads. \<open>None\<close> for the score is a coin without
  \<open>anonymityScore\<close>; \<open>co_confirmed\<close> is the truth value of \<open>coin.get("confirmed")\<close>.
\<close>

record wasabi_coin =
  co_txid :: string
  co_index :: int
  co_amount :: int
  co_score :: "rat option"
  co_confirmed :: bool

text \<open>\<open>_select_coins_by_anon_score\<close>: the loop over the candidates, most private first.\<close>

fun take_until_covered ::
    "wasabi_coin list \<Rightarrow> int \<Rightarrow> wasabi_coin list \<Rightarrow> int \<Rightarrow> wasabi_coin list \<times> int" where
  "take_until_covered [] v selected tot = (selected, tot)"
| "take_until_covered (c # cs) v selected tot =
     (if v \<le> tot then (selected, tot)
      else take_until_covered cs v (selected @ [c]) (tot + co_amount c))"

definition select_coins_by_anon_score :: "wasabi_coin list \<Rightarrow> int \<Rightarrow> wasabi_coin list \<times> int" where
  "select_coins_by_anon_score candidates v = take_until_covered candidates v [] 0"

text \<open>
  \<open>_select_coins_by_amount\<close>: while the value is not covered, the smallest coin that covers what is
  left, or the largest coin when none does. \<open>remaining\<close> is sorted by amount.
\<close>

definition next_by_amount :: "('c \<Rightarrow> int) \<Rightarrow> 'c list \<Rightarrow> int \<Rightarrow> 'c" where
  "next_by_amount amount remaining missing =
     (let covering = filter (\<lambda>c. missing \<le> amount c) remaining
      in if covering \<noteq> [] then hd covering else last remaining)"

lemma next_by_amount_in: "remaining \<noteq> [] \<Longrightarrow> next_by_amount amount remaining m \<in> set remaining"
  unfolding next_by_amount_def Let_def by (metis filter_is_subset hd_in_set last_in_set subsetD)

function amount_loop ::
    "wasabi_coin list \<Rightarrow> int \<Rightarrow> wasabi_coin list \<Rightarrow> int \<Rightarrow> wasabi_coin list \<times> int" where
  "amount_loop remaining v selected tot =
     (if remaining \<noteq> [] \<and> tot < v
      then (let c = next_by_amount co_amount remaining (v - tot)
            in amount_loop (remove1 c remaining) v (selected @ [c]) (tot + co_amount c))
      else (selected, tot))"
  by pat_completeness auto
termination
  by (relation "measure (\<lambda>(remaining, v, selected, tot). length remaining)")
    (auto simp: length_remove1 next_by_amount_in)

declare amount_loop.simps [simp del]

definition select_coins_by_amount :: "wasabi_coin list \<Rightarrow> int \<Rightarrow> wasabi_coin list \<times> int" where
  "select_coins_by_amount candidates v = amount_loop (sort_key co_amount candidates) v [] 0"

section \<open>The strategies satisfy the interface\<close>

text \<open>
  Both loops, seen as loops: the invariant says that the running total is the sum of what is
  selected, that selected and remaining coins make up the candidates, and that nothing was taken
  once the value was covered.
\<close>

definition loop_inv :: "('c \<Rightarrow> int) \<Rightarrow> 'c multiset \<Rightarrow> int \<Rightarrow> 'c list \<Rightarrow> 'c list \<Rightarrow> int \<Rightarrow> bool" where
  "loop_inv amount M v remaining selected tot =
     (tot = sum_list_by amount selected \<and> mset selected + mset remaining = M
      \<and> (selected \<noteq> [] \<longrightarrow> sum_list_by amount (butlast selected) < v))"

definition loop_post :: "('c \<Rightarrow> int) \<Rightarrow> 'c multiset \<Rightarrow> int \<Rightarrow> 'c list \<times> int \<Rightarrow> bool" where
  "loop_post amount M v r =
     (case r of (sel, t) \<Rightarrow> t = sum_list_by amount sel \<and> mset sel \<subseteq># M \<and> (v \<le> t \<or> mset sel = M)
        \<and> (sel \<noteq> [] \<longrightarrow> sum_list_by amount (butlast sel) < v))"

lemma loop_inv_start: "loop_inv amount (mset cs) v cs [] 0"
  by (simp add: loop_inv_def)

lemma loop_inv_take:
  "loop_inv amount M v remaining selected tot \<Longrightarrow> c \<in> set remaining \<Longrightarrow> tot < v \<Longrightarrow>
     loop_inv amount M v (remove1 c remaining) (selected @ [c]) (tot + amount c)"
  by (auto simp: loop_inv_def)

lemma loop_inv_done:
  "loop_inv amount M v remaining selected tot \<Longrightarrow> remaining = [] \<or> v \<le> tot \<Longrightarrow>
     loop_post amount M v (selected, tot)"
  by (auto simp: loop_inv_def loop_post_def)

lemma take_until_covered_post:
  "loop_inv co_amount M v cs selected tot \<Longrightarrow>
     loop_post co_amount M v (take_until_covered cs v selected tot)"
proof (induction cs v selected tot rule: take_until_covered.induct)
  case (2 c cs v selected tot)
  then show ?case
    using loop_inv_take [of co_amount M v "c # cs" selected tot c]
    by (auto intro: loop_inv_done)
qed (auto intro: loop_inv_done)

lemma amount_loop_post:
  "loop_inv co_amount M v remaining selected tot \<Longrightarrow>
     loop_post co_amount M v (amount_loop remaining v selected tot)"
proof (induction remaining v selected tot rule: amount_loop.induct)
  case (1 remaining v selected tot)
  show ?case
  proof (cases "remaining \<noteq> [] \<and> tot < v")
    case True
    let ?c = "next_by_amount co_amount remaining (v - tot)"
    have "?c \<in> set remaining" using True by (simp add: next_by_amount_in)
    then have "loop_inv co_amount M v (remove1 ?c remaining) (selected @ [?c]) (tot + co_amount ?c)"
      using True by (auto intro: loop_inv_take [OF "1.prems"])
    with "1.IH" [OF True refl] show ?thesis
      using True by (simp add: amount_loop.simps [of remaining] Let_def)
  next
    case False
    then show ?thesis
      using loop_inv_done [OF "1.prems"] by (auto simp: amount_loop.simps [of remaining])
  qed
qed

lemma coin_selectorI:
  assumes "\<And>cs v. loop_post amount (mset cs) v (select cs v)"
  shows "coin_selector select amount"
proof
  fix cs v sel t
  assume "select cs v = (sel, t)"
  with assms [of cs v] have *: "loop_post amount (mset cs) v (sel, t)" by simp
  then show "t = sum_list_by amount sel" by (simp add: loop_post_def)
  from * show "mset sel \<subseteq># mset cs" by (simp add: loop_post_def)
  from * show "v \<le> t \<or> mset sel = mset cs" by (auto simp: loop_post_def)
  assume "sel \<noteq> []"
  with * show "sum_list_by amount (butlast sel) < v" by (simp add: loop_post_def)
qed

interpretation by_score: coin_selector select_coins_by_anon_score co_amount
  by (rule coin_selectorI)
    (simp add: select_coins_by_anon_score_def take_until_covered_post loop_inv_start)

interpretation by_amount: coin_selector select_coins_by_amount co_amount
proof (rule coin_selectorI)
  fix cs :: "wasabi_coin list" and v
  have "loop_inv co_amount (mset cs) v (sort_key co_amount cs) [] 0"
    by (simp add: loop_inv_def)
  then show "loop_post co_amount (mset cs) v (select_coins_by_amount cs v)"
    unfolding select_coins_by_amount_def by (rule amount_loop_post)
qed

section \<open>The smallest covering coin\<close>

lemma hd_filter_sorted:
  assumes "sorted (map f xs)" and "x \<in> set xs" and "P x"
  shows "f (hd (filter P xs)) \<le> f x"
  using assms by (induction xs) auto

lemma next_by_amount_covering:
  assumes "sorted (map amount xs)" and "x \<in> set xs" and "m \<le> amount x"
  shows "m \<le> amount (next_by_amount amount xs m) \<and> amount (next_by_amount amount xs m) \<le> amount x"
proof -
  have ne: "filter (\<lambda>c. m \<le> amount c) xs \<noteq> []"
    using assms(2,3) by (auto simp: filter_empty_conv)
  then have "hd (filter (\<lambda>c. m \<le> amount c) xs) \<in> set (filter (\<lambda>c. m \<le> amount c) xs)"
    by (rule hd_in_set)
  then show ?thesis
    using ne hd_filter_sorted [OF assms(1,2), of "\<lambda>c. m \<le> amount c"] assms(3)
    by (simp add: next_by_amount_def)
qed

lemma select_by_amount_single:
  assumes "c \<in> set cs" and "v \<le> co_amount c" and "0 < v"
  obtains b where "select_coins_by_amount cs v = ([b], co_amount b)" "b \<in> set cs"
    "v \<le> co_amount b" "\<And>x. x \<in> set cs \<Longrightarrow> v \<le> co_amount x \<Longrightarrow> co_amount b \<le> co_amount x"
proof -
  let ?xs = "sort_key co_amount cs"
  let ?b = "next_by_amount co_amount ?xs v"
  have s: "sorted (map co_amount ?xs)" and mem: "set ?xs = set cs" by simp_all
  have cov: "v \<le> co_amount ?b" and least: "\<And>x. x \<in> set cs \<Longrightarrow> v \<le> co_amount x \<Longrightarrow> co_amount ?b \<le> co_amount x"
    using next_by_amount_covering [OF s] assms(1,2) mem by blast+
  have ne: "?xs \<noteq> []" using assms(1) by (metis mem empty_iff set_empty)
  have "select_coins_by_amount cs v = ([?b], co_amount ?b)"
    using ne cov assms(3)
    by (simp add: select_coins_by_amount_def amount_loop.simps [of ?xs] Let_def
        amount_loop.simps [of "remove1 ?b ?xs"])
  with that cov least next_by_amount_in [OF ne] mem show thesis by metis
qed

section \<open>Mixed coins of a Wasabi wallet\<close>

definition is_mixed :: "rat option \<Rightarrow> wasabi_coin \<Rightarrow> bool" where
  "is_mixed min_anon c =
     (let score = (case co_score c of None \<Rightarrow> 0 | Some s \<Rightarrow> s)
      in case min_anon of None \<Rightarrow> 1 < score | Some m \<Rightarrow> m \<le> score)"

text \<open>
  The generator over the unspent coins: the node is asked about a coin only when it is confirmed
  and mixed, and an error of the node ends the selection.
\<close>

fun mixed_candidates ::
    "rat option \<Rightarrow> (string \<Rightarrow> int \<Rightarrow> exn + bool) option \<Rightarrow> wasabi_coin list \<Rightarrow> exn + wasabi_coin list"
where
  "mixed_candidates m unspent [] = Inr []"
| "mixed_candidates m unspent (c # cs) =
     (if co_confirmed c \<and> is_mixed m c
      then ebind (case unspent of None \<Rightarrow> Inr True | Some u \<Rightarrow> u (co_txid c) (co_index c)) (\<lambda>ok.
           ebind (mixed_candidates m unspent cs) (\<lambda>rest. Inr (if ok then c # rest else rest)))
      else mixed_candidates m unspent cs)"

definition most_private_first :: "wasabi_coin list \<Rightarrow> exn + wasabi_coin list" where
  "most_private_first cs =
     (if \<exists>c\<in>set cs. co_score c = None then Inl (Exn KKeyError ''anonymityScore'')
      else Inr (sort_key (\<lambda>c. - the (co_score c)) cs))"

definition select_mixed_coins ::
    "string \<Rightarrow> wasabi_coin list \<Rightarrow> int option \<Rightarrow> rat option \<Rightarrow> (string \<Rightarrow> int \<Rightarrow> exn + bool) option
       \<Rightarrow> string \<Rightarrow> exn + wasabi_coin list \<times> int" where
  "select_mixed_coins name coins v min_anon unspent selection =
     ebind (mixed_candidates min_anon unspent coins) (\<lambda>cs.
     ebind (most_private_first cs) (\<lambda>candidates.
     ebind (case v of
              None \<Rightarrow> Inr (candidates, sum_list_by co_amount candidates)
            | Some n \<Rightarrow>
                if selection = ''amount'' then Inr (select_coins_by_amount candidates n)
                else if selection = ''anon_score'' then Inr (select_coins_by_anon_score candidates n)
                else Inl (Exn KValueError (''unsupported coin selection: '' @ selection)))
       (\<lambda>(selected, tot).
          if selected = [] \<or> (case v of None \<Rightarrow> False | Some n \<Rightarrow> tot < n)
          then Inl (Exn KRuntimeError (name @ '' has '' @ str_int tot @ '' sats of mixed coins, ''
                 @ (case v of None \<Rightarrow> ''any'' | Some n \<Rightarrow> if n = 0 then ''any'' else str_int n)
                 @ '' sats requested''))
          else Inr (selected, tot))))"

section \<open>Properties\<close>

text \<open>
  What both selections of a Wasabi wallet guarantee: the coins are the wallet's own, each
  used once, the total is their sum, the value is covered whenever the candidates can cover it, and
  what is paid above the value is less than the last coin taken.
\<close>

theorem selection_covers_without_waste:
  assumes "select \<in> {select_coins_by_amount, select_coins_by_anon_score}"
    and "select cs v = (sel, t)" and "\<forall>c\<in>set cs. 0 \<le> co_amount c"
  shows "mset sel \<subseteq># mset cs \<and> t = sum_list_by co_amount sel
    \<and> (v \<le> t \<longleftrightarrow> v \<le> sum_list_by co_amount cs)
    \<and> (sel \<noteq> [] \<longrightarrow> t - v < co_amount (last sel))"
proof -
  from assms(1) consider "select = select_coins_by_amount" | "select = select_coins_by_anon_score"
    by blast
  then show ?thesis
  proof cases
    case 1
    note run = assms(2) [unfolded 1]
    show ?thesis
      using by_amount.from_candidates [OF run] by_amount.total_sum [OF run]
        by_amount.covers_iff [OF run] by_amount.overshoot_bound [OF run] assms(3) by auto
  next
    case 2
    note run = assms(2) [unfolded 2]
    show ?thesis
      using by_score.from_candidates [OF run] by_score.total_sum [OF run]
        by_score.covers_iff [OF run] by_score.overshoot_bound [OF run] assms(3) by auto
  qed
qed

definition example_coin :: "string \<Rightarrow> int \<Rightarrow> rat \<Rightarrow> wasabi_coin" where
  "example_coin txid a score =
     \<lparr>co_txid = txid, co_index = 0, co_amount = a, co_score = Some score, co_confirmed = True\<rparr>"

definition example_coins :: "wasabi_coin list" where
  "example_coins = [example_coin ''a'' 50 3, example_coin ''b'' 20 9, example_coin ''c'' 30 1]"

theorem selection_covers_without_waste_witness:
  "snd (select_coins_by_amount example_coins 60) - 60
     < co_amount (last (fst (select_coins_by_amount example_coins 60)))"
proof -
  have nn: "\<forall>c\<in>set example_coins. 0 \<le> co_amount c" by code_simp
  have ne: "fst (select_coins_by_amount example_coins 60) \<noteq> []" by code_simp
  show ?thesis
    using selection_covers_without_waste [OF insertI1 prod.collapse [symmetric] nn, of 60] ne by blast
qed

text \<open>
  Selecting by amount spends a single coin whenever one covers the value, and then the
  smallest such coin.
\<close>

theorem smallest_covering_coin:
  assumes "c \<in> set cs" "v \<le> co_amount c" "0 < v"
  shows "\<exists>b\<in>set cs. select_coins_by_amount cs v = ([b], co_amount b) \<and> v \<le> co_amount b
    \<and> (\<forall>x\<in>set cs. v \<le> co_amount x \<longrightarrow> co_amount b \<le> co_amount x)"
  using select_by_amount_single [OF assms] by metis

theorem smallest_covering_coin_witness:
  "\<exists>b\<in>set example_coins. select_coins_by_amount example_coins 25 = ([b], co_amount b)"
proof -
  have "example_coin ''a'' 50 3 \<in> set example_coins" "25 \<le> co_amount (example_coin ''a'' 50 3)"
    by code_simp+
  from smallest_covering_coin [OF this] show ?thesis by auto
qed

text \<open>
  Claim C11. A request for a positive value fails exactly when the confirmed mixed coins the node
  still knows as unspent do not cover it.
\<close>

theorem mixed_selection_fails_iff:
  assumes "mixed_candidates min_anon unspent coins = Inr cs"
    and "\<forall>c\<in>set cs. co_score c \<noteq> None \<and> 0 \<le> co_amount c"
    and "0 < n" "selection \<in> {''amount'', ''anon_score''}"
  shows "(\<exists>e. select_mixed_coins name coins (Some n) min_anon unspent selection = Inl e) \<longleftrightarrow>
    sum_list_by co_amount cs < n"
proof -
  let ?sorted = "sort_key (\<lambda>c. - the (co_score c)) cs"
  let ?select = "if selection = ''amount'' then select_coins_by_amount else select_coins_by_anon_score"
  obtain sel t where s: "?select ?sorted n = (sel, t)" by fastforce
  have mp: "most_private_first cs = Inr ?sorted"
    using assms(2) by (auto simp: most_private_first_def)
  have "mset ?sorted = mset cs" by simp
  then have sum: "sum_list_by co_amount ?sorted = sum_list_by co_amount cs"
    by (rule sum_list_by_mset)
  have nn: "c \<in> set ?sorted \<Longrightarrow> 0 \<le> co_amount c" for c using assms(2) by simp
  have cov: "n \<le> t \<longleftrightarrow> n \<le> sum_list_by co_amount cs"
    using s by_amount.covers_iff [of ?sorted n sel t] by_score.covers_iff [of ?sorted n sel t] nn sum
    by (auto split: if_splits)
  have "n \<le> t \<Longrightarrow> sel \<noteq> []"
    using s by_amount.nonempty_when_positive [of ?sorted n sel t] assms(3)
      by_score.nonempty_when_positive [of ?sorted n sel t]
    by (auto split: if_splits)
  then have "(\<exists>e. select_mixed_coins name coins (Some n) min_anon unspent selection = Inl e) \<longleftrightarrow> t < n"
    using s assms(1,4) mp 
    by (cases "n \<le> t") (auto simp: select_mixed_coins_def split: if_splits)
  with cov show ?thesis by auto
qed

theorem mixed_selection_fails_iff_witness:
  "(\<exists>e. select_mixed_coins ''w'' example_coins (Some 71) None None ''amount'' = Inl e) \<longleftrightarrow>
     sum_list_by co_amount [example_coin ''a'' 50 3, example_coin ''b'' 20 9] < 71"
proof (rule mixed_selection_fails_iff)
  show "mixed_candidates None None example_coins = Inr [example_coin ''a'' 50 3, example_coin ''b'' 20 9]"
    by code_simp
  show "\<forall>c\<in>set [example_coin ''a'' 50 3, example_coin ''b'' 20 9]. co_score c \<noteq> None \<and> 0 \<le> co_amount c"
    by code_simp
qed simp_all

end
