(* ===== verification/JmPostmix.thy ===== *)
theory JmPostmix
  imports Coins
begin

text \<open>
  Postmix spends of a JoinMarket wallet, \<open>manager/engine/joinmarket/postmix.py\<close>: which coins of
  which mixdepth pay, and how a sweep freezes the other coins of the mixdepth and releases them
  again. The wallet daemon is the world \<open>'w\<close>; the calls of the \<open>JoinMarketWallet\<close> protocol and
  the monotonic clock are the fields of \<open>jm_ops\<close>.
\<close>

section \<open>Coins and the daemon's calls\<close>

record jm_coin =
  ju_utxo :: string
  ju_value :: int
  ju_mixdepth :: int
  ju_confirmations :: int
  ju_frozen :: bool

record tx_info =
  ti_txid :: "string option"
  ti_inputs :: "string list"

record swept_coin =
  sw_txid :: string
  sw_index :: int
  sw_amount :: int
  sw_mixdepth :: int

record sweep =
  sweep_txid :: "string option"
  sweep_amount :: int
  sweep_coins :: "swept_coin list"

text \<open>A session answer is the pair of truth values of \<open>maker_running\<close> and \<open>coinjoin_in_process\<close>.\<close>

record 'w jm_ops =
  jm_session :: "('w, (bool \<times> bool) option) io"
  jm_stop_maker :: "('w, unit) io"
  jm_list_utxos :: "('w, jm_coin list) io"
  jm_freeze :: "string \<Rightarrow> bool \<Rightarrow> ('w, unit) io"
  jm_sweep :: "string \<Rightarrow> int \<Rightarrow> ('w, tx_info) io"
  jm_clock :: "'w \<Rightarrow> rat"
  jm_sleep :: "rat \<Rightarrow> 'w \<Rightarrow> 'w"

definition outpoint :: "string \<Rightarrow> exn + string \<times> int" where
  "outpoint utxo =
     (case split_on (CHR '':'') utxo of
        [txid, index] \<Rightarrow>
          (case parse_int index of None \<Rightarrow> Inl (Exn KValueError index) | Some i \<Rightarrow> Inr (txid, i))
      | _ \<Rightarrow> Inl (Exn KValueError utxo))"

section \<open>Selection by amount\<close>

function jm_amount_loop ::
    "jm_coin list \<Rightarrow> int \<Rightarrow> jm_coin list \<Rightarrow> int \<Rightarrow> jm_coin list \<times> int" where
  "jm_amount_loop remaining v selected tot =
     (if remaining \<noteq> [] \<and> tot < v
      then (let covering = filter (\<lambda>c. v - tot \<le> ju_value c) remaining;
                c = (if covering \<noteq> [] then hd covering else last remaining)
            in jm_amount_loop (remove1 c remaining) v (selected @ [c]) (tot + ju_value c))
      else (selected, tot))"
  by pat_completeness auto
termination
proof (relation "measure (\<lambda>(remaining, v, selected, tot). length remaining)", simp)
  fix remaining :: "jm_coin list" and v tot :: int and selected covering c
  assume a: "remaining \<noteq> [] \<and> tot < v"
    and cov: "covering = filter (\<lambda>c. v - tot \<le> ju_value c) remaining"
    and c: "c = (if covering \<noteq> [] then hd covering else last remaining)"
  have "c = next_by_amount ju_value remaining (v - tot)"
    by (simp add: c cov next_by_amount_def)
  then have "c \<in> set remaining" using a next_by_amount_in by blast
  then show "((remove1 c remaining, v, selected @ [c], tot + ju_value c), remaining, v, selected, tot)
      \<in> measure (\<lambda>(remaining, v, selected, tot). length remaining)"
    using a by (simp add: length_remove1)
qed

declare jm_amount_loop.simps [simp del]

definition jm_select_by_amount :: "jm_coin list \<Rightarrow> int \<Rightarrow> jm_coin list \<times> int" where
  "jm_select_by_amount candidates v = jm_amount_loop (sort_key ju_value candidates) v [] 0"

lemma jm_amount_loop_step:
  "jm_amount_loop remaining v selected tot =
     (if remaining \<noteq> [] \<and> tot < v
      then (let c = next_by_amount ju_value remaining (v - tot)
            in jm_amount_loop (remove1 c remaining) v (selected @ [c]) (tot + ju_value c))
      else (selected, tot))"
  by (simp add: jm_amount_loop.simps [of remaining] next_by_amount_def Let_def)

lemma jm_amount_loop_post:
  "loop_inv ju_value M v remaining selected tot \<Longrightarrow>
     loop_post ju_value M v (jm_amount_loop remaining v selected tot)"
proof (induction remaining v selected tot rule: jm_amount_loop.induct)
  case (1 remaining v selected tot)
  show ?case
  proof (cases "remaining \<noteq> [] \<and> tot < v")
    case True
    let ?c = "next_by_amount ju_value remaining (v - tot)"
    have "?c \<in> set remaining" using True by (simp add: next_by_amount_in)
    then have "loop_inv ju_value M v (remove1 ?c remaining) (selected @ [?c]) (tot + ju_value ?c)"
      using True by (auto intro: loop_inv_take [OF "1.prems"])
    with "1.IH" [OF True refl refl] show ?thesis
      using True by (simp add: jm_amount_loop_step [of remaining] next_by_amount_def Let_def)
  next
    case False
    then show ?thesis
      using loop_inv_done [OF "1.prems"] by (auto simp: jm_amount_loop.simps [of remaining])
  qed
qed

interpretation jm_by_amount: coin_selector jm_select_by_amount ju_value
proof (rule coin_selectorI)
  fix cs :: "jm_coin list" and v
  have "loop_inv ju_value (mset cs) v (sort_key ju_value cs) [] 0"
    by (simp add: loop_inv_def)
  then show "loop_post ju_value (mset cs) v (jm_select_by_amount cs v)"
    unfolding jm_select_by_amount_def by (rule jm_amount_loop_post)
qed

section \<open>Selection of mixed coins\<close>

fun group_mixed ::
    "string set \<Rightarrow> (string \<Rightarrow> int \<Rightarrow> exn + bool) option \<Rightarrow> jm_coin list
      \<Rightarrow> (int \<times> jm_coin list) list \<Rightarrow> exn + (int \<times> jm_coin list) list" where
  "group_mixed coinjoins unspent [] g = Inr g"
| "group_mixed coinjoins unspent (c # cs) g =
     ebind (outpoint (ju_utxo c)) (\<lambda>(txid, index).
       if 0 < ju_confirmations c \<and> \<not> ju_frozen c \<and> txid \<in> coinjoins
       then ebind (case unspent of None \<Rightarrow> Inr True | Some u \<Rightarrow> u txid index) (\<lambda>ok.
              group_mixed coinjoins unspent cs (if ok then group_insert g (ju_mixdepth c) c else g))
       else group_mixed coinjoins unspent cs g)"

text \<open>\<open>min(covering, key=...)\<close>: the first of the least elements.\<close>

fun first_min :: "('a \<Rightarrow> 'a \<Rightarrow> bool) \<Rightarrow> 'a \<Rightarrow> 'a list \<Rightarrow> 'a" where
  "first_min lt x [] = x"
| "first_min lt x (y # ys) = first_min lt (if lt y x then y else x) ys"

definition total_mixdepth_less ::
    "int \<times> int \<times> jm_coin list \<Rightarrow> int \<times> int \<times> jm_coin list \<Rightarrow> bool" where
  "total_mixdepth_less a b = (fst a < fst b \<or> fst a = fst b \<and> fst (snd a) < fst (snd b))"

definition covering_groups ::
    "(int \<times> jm_coin list) list \<Rightarrow> int \<Rightarrow> (int \<times> int \<times> jm_coin list) list" where
  "covering_groups g v =
     filter (\<lambda>(t, m, sel). v \<le> t)
       (map (\<lambda>(m, cs). let (sel, t) = jm_select_by_amount cs v in (t, m, sel)) g)"

definition best_mixdepth_sum :: "(int \<times> jm_coin list) list \<Rightarrow> int" where
  "best_mixdepth_sum g =
     (case map (\<lambda>(m, cs). sum_list_by ju_value cs) g of [] \<Rightarrow> 0 | s # ss \<Rightarrow> foldl max s ss)"

definition select_mixdepths ::
    "string \<Rightarrow> string set \<Rightarrow> jm_coin list \<Rightarrow> int option \<Rightarrow> (string \<Rightarrow> int \<Rightarrow> exn + bool) option
       \<Rightarrow> exn + (int \<times> jm_coin list) list" where
  "select_mixdepths name coinjoins coins v unspent =
     ebind (group_mixed coinjoins unspent coins []) (\<lambda>g.
     case v of
       None \<Rightarrow> (if g = [] then Inl (Exn KRuntimeError (name @ '' has no mixed coins'')) else Inr g)
     | Some n \<Rightarrow>
         (case covering_groups g n of
            [] \<Rightarrow> Inl (Exn KRuntimeError (name @ '' has at most '' @ str_int (best_mixdepth_sum g)
                   @ '' sats of mixed coins in one mixdepth, '' @ str_int n @ '' sats requested''))
          | x # xs \<Rightarrow> (case first_min total_mixdepth_less x xs of (t, m, sel) \<Rightarrow> Inr [(m, sel)])))"

section \<open>Sweeping one mixdepth\<close>

definition others_of :: "jm_coin list \<Rightarrow> jm_coin list \<Rightarrow> int \<Rightarrow> string list" where
  "others_of coins selected mixdepth =
     map ju_utxo (filter (\<lambda>c. ju_mixdepth c = mixdepth \<and> ju_utxo c \<notin> ju_utxo ` set selected
        \<and> \<not> ju_frozen c) coins)"

definition swept_record :: "int \<Rightarrow> jm_coin \<Rightarrow> exn + swept_coin" where
  "swept_record mixdepth c =
     ebind (outpoint (ju_utxo c)) (\<lambda>(txid, index).
       Inr \<lparr>sw_txid = txid, sw_index = index, sw_amount = ju_value c, sw_mixdepth = mixdepth\<rparr>)"

definition describe_sweep :: "jm_coin list \<Rightarrow> int \<Rightarrow> tx_info \<Rightarrow> exn + sweep" where
  "describe_sweep coins mixdepth info =
     (let swept = filter (\<lambda>c. ju_utxo c \<in> set (ti_inputs info)) coins
      in ebind (traverse (swept_record mixdepth) swept) (\<lambda>rs.
         Inr \<lparr>sweep_txid = ti_txid info, sweep_amount = sum_list_by ju_value swept, sweep_coins = rs\<rparr>))"

definition sweep_one ::
    "'w jm_ops \<Rightarrow> jm_coin list \<Rightarrow> jm_coin list \<Rightarrow> string \<Rightarrow> int \<Rightarrow> ('w, sweep) io" where
  "sweep_one ops coins selected destination mixdepth =
     (let frozen = others_of coins selected mixdepth
      in io_bind
           (io_finally
              (io_seq (io_for (\<lambda>u. jm_freeze ops u True) frozen) (jm_sweep ops destination mixdepth))
              (io_for (\<lambda>u. jm_freeze ops u False) frozen))
           (\<lambda>info. io_lift (describe_sweep coins mixdepth info)))"

section \<open>The spending client\<close>

definition jm_check_mixed_coins ::
    "'w jm_ops \<Rightarrow> string \<Rightarrow> ('w \<Rightarrow> string set) \<Rightarrow> int option \<Rightarrow> ('w \<Rightarrow> (string \<Rightarrow> int \<Rightarrow> exn + bool) option)
       \<Rightarrow> ('w, unit) io" where
  "jm_check_mixed_coins ops name coinjoin_txids v unspent =
     io_bind (jm_list_utxos ops) (\<lambda>coins w.
       io_bind (io_lift (select_mixdepths name (coinjoin_txids w) coins v (unspent w))) (\<lambda>_. io_ret ()) w)"

record sent_summary =
  ss_txid :: "string option"
  ss_txids :: "string option list"
  ss_amount :: int
  ss_coins :: "swept_coin list"

definition summary_of :: "sweep list \<Rightarrow> sent_summary" where
  "summary_of ts = \<lparr>ss_txid = sweep_txid (hd ts), ss_txids = map sweep_txid ts,
     ss_amount = sum_list_by sweep_amount ts, ss_coins = concat (map sweep_coins ts)\<rparr>"

definition jm_send_mixed_coins ::
    "'w jm_ops \<Rightarrow> string \<Rightarrow> ('w \<Rightarrow> string set) \<Rightarrow> string \<Rightarrow> int option
       \<Rightarrow> ('w \<Rightarrow> (string \<Rightarrow> int \<Rightarrow> exn + bool) option) \<Rightarrow> string \<Rightarrow> ('w, sent_summary) io" where
  "jm_send_mixed_coins ops name coinjoin_txids destination v unspent selection =
     (if selection \<noteq> ''amount''
      then io_raise (Exn KValueError (''unsupported JoinMarket coin selection: '' @ selection))
      else io_bind (jm_list_utxos ops) (\<lambda>coins w.
        io_bind (io_lift (select_mixdepths name (coinjoin_txids w) coins v (unspent w))) (\<lambda>g.
        io_bind (io_traverse (\<lambda>(m, selected). sweep_one ops coins selected destination m)
                   (sort_key fst g)) (\<lambda>ts. io_ret (summary_of ts))) w))"

text \<open>
  \<open>stop_coinjoin\<close>: the polling loop spends one unit of fuel per session request; \<open>None\<close> is fuel
  run out, which \<open>stop_wait_returns\<close> below excludes.
\<close>

definition stop_timeout_seconds :: rat where "stop_timeout_seconds = 30"
definition stop_poll_seconds :: rat where "stop_poll_seconds = 2"

fun stop_wait ::
    "nat \<Rightarrow> 'w jm_ops \<Rightarrow> string \<Rightarrow> bool \<Rightarrow> rat \<Rightarrow> 'w \<Rightarrow> ((exn + unit) \<times> 'w) option" where
  "stop_wait 0 ops name maker deadline w = None"
| "stop_wait (Suc n) ops name maker deadline w =
     (case jm_session ops w of
        (Inl e, w1) \<Rightarrow> Some (Inl e, w1)
      | (Inr None, w1) \<Rightarrow> Some (Inl (Exn KRuntimeError (name @ '' did not report its service state'')), w1)
      | (Inr (Some (maker_running, in_process)), w1) \<Rightarrow>
          if \<not> maker_running \<and> \<not> in_process then Some (Inr (), w1)
          else if \<not> maker then Some (Inl (Exn KRuntimeError (name @ '' is in a coinjoin'')), w1)
          else if deadline \<le> jm_clock ops w1
               then Some (Inl (Exn KRuntimeError (name @ '' maker did not stop within 30 s'')), w1)
          else stop_wait n ops name maker deadline (jm_sleep ops stop_poll_seconds w1))"

definition jm_stop_coinjoin ::
    "nat \<Rightarrow> 'w jm_ops \<Rightarrow> string \<Rightarrow> bool \<Rightarrow> 'w \<Rightarrow> ((exn + unit) \<times> 'w) option" where
  "jm_stop_coinjoin fuel ops name maker w =
     (if maker
      then (case jm_stop_maker ops w of
              (Inl e, w1) \<Rightarrow> Some (Inl e, w1)
            | (Inr _, w1) \<Rightarrow> stop_wait fuel ops name maker (jm_clock ops w1 + stop_timeout_seconds) w1)
      else stop_wait fuel ops name maker (jm_clock ops w + stop_timeout_seconds) w)"

section \<open>The two amount selections agree\<close>

lemma insort_key_map: "insort_key f (g x) (map g xs) = map g (insort_key (\<lambda>a. f (g a)) x xs)"
  by (induction xs) auto

lemma sort_key_map: "sort_key f (map g xs) = map g (sort_key (\<lambda>a. f (g a)) xs)"
  by (induction xs) (simp_all add: insort_key_map)

lemma remove1_map_inj: "inj f \<Longrightarrow> remove1 (f c) (map f xs) = map f (remove1 c xs)"
  by (induction xs) (auto dest: injD)

lemma next_by_amount_map:
  "xs \<noteq> [] \<Longrightarrow> next_by_amount a (map f xs) m = f (next_by_amount (\<lambda>c. a (f c)) xs m)"
  by (auto simp: next_by_amount_def Let_def filter_map o_def hd_map last_map)

lemma amount_loop_map:
  assumes "inj f" and amt: "\<And>c. co_amount (f c) = ju_value c"
  shows "amount_loop (map f remaining) v (map f selected) tot =
    (case jm_amount_loop remaining v selected tot of (s, t) \<Rightarrow> (map f s, t))"
proof (induction remaining v selected tot rule: jm_amount_loop.induct)
  case (1 remaining v selected tot)
  show ?case
  proof (cases "remaining \<noteq> [] \<and> tot < v")
    case True
    let ?c = "next_by_amount ju_value remaining (v - tot)"
    have c: "next_by_amount co_amount (map f remaining) (v - tot) = f ?c"
      using True by (simp add: next_by_amount_map amt)
    have "amount_loop (map f (remove1 ?c remaining)) v (map f (selected @ [?c])) (tot + ju_value ?c) =
        (case jm_amount_loop (remove1 ?c remaining) v (selected @ [?c]) (tot + ju_value ?c)
         of (s, t) \<Rightarrow> (map f s, t))"
      using "1.IH" [OF True refl refl] by (simp add: next_by_amount_def Let_def)
    then show ?thesis
      using True
      by (simp add: amount_loop.simps [of "map f remaining"] jm_amount_loop_step [of remaining]
          Let_def c amt remove1_map_inj [OF \<open>inj f\<close>])
  next
    case False
    then show ?thesis
      by (auto simp: amount_loop.simps [of "map f remaining"] jm_amount_loop.simps [of remaining])
  qed
qed

section \<open>What the selection returns\<close>

text \<open>The four conditions on a coin, for an answer of the node that is no error.\<close>

definition eligible :: "string set \<Rightarrow> (string \<Rightarrow> int \<Rightarrow> exn + bool) option \<Rightarrow> jm_coin \<Rightarrow> bool" where
  "eligible coinjoins unspent c =
     (case outpoint (ju_utxo c) of
        Inl _ \<Rightarrow> False
      | Inr (txid, index) \<Rightarrow> 0 < ju_confirmations c \<and> \<not> ju_frozen c \<and> txid \<in> coinjoins
          \<and> (case unspent of None \<Rightarrow> True | Some u \<Rightarrow> u txid index = Inr True))"

lemma group_mixed_spec:
  "group_mixed coinjoins unspent cs g0 = Inr g \<Longrightarrow> wf_groups g0 \<Longrightarrow>
     wf_groups g \<and> (\<forall>m. group_of g m =
       group_of g0 m @ filter (\<lambda>c. eligible coinjoins unspent c \<and> ju_mixdepth c = m) cs)"
proof (induction cs arbitrary: g0)
  case (Cons c cs)
  obtain txid i where o: "outpoint (ju_utxo c) = Inr (txid, i)"
    using Cons.prems(1) by (cases "outpoint (ju_utxo c)") auto
  show ?case
  proof (cases "0 < ju_confirmations c \<and> \<not> ju_frozen c \<and> txid \<in> coinjoins")
    case False
    then have "\<not> eligible coinjoins unspent c" by (auto simp: eligible_def o)
    moreover have "group_mixed coinjoins unspent cs g0 = Inr g"
      using Cons.prems(1) False by (simp only: group_mixed.simps o ebind.simps prod.case if_False)
    ultimately show ?thesis using Cons.IH Cons.prems(2) by simp
  next
    case True
    obtain ok where ok: "(case unspent of None \<Rightarrow> Inr True | Some u \<Rightarrow> u txid i) = Inr ok"
      using Cons.prems(1) True by (auto simp: o ebind_Inr_iff)
    have e: "eligible coinjoins unspent c = ok"
      using True ok by (auto simp: eligible_def o split: option.splits)
    have "group_mixed coinjoins unspent cs (if ok then group_insert g0 (ju_mixdepth c) c else g0) = Inr g"
      using Cons.prems(1) True ok by (simp add: o)
    from Cons.IH [OF this] Cons.prems(2) show ?thesis
      by (auto simp: e wf_group_insert group_of_group_insert)
  qed
qed simp

lemma first_min_mem: "first_min lt x xs \<in> set (x # xs)"
  by (induction lt x xs rule: first_min.induct) auto

definition total_mixdepth_le ::
    "int \<times> int \<times> jm_coin list \<Rightarrow> int \<times> int \<times> jm_coin list \<Rightarrow> bool" where
  "total_mixdepth_le a b = (fst a < fst b \<or> fst a = fst b \<and> fst (snd a) \<le> fst (snd b))"

lemma first_min_le:
  "y \<in> set (x # xs) \<Longrightarrow> total_mixdepth_le (first_min total_mixdepth_less x xs) y"
proof (induction xs arbitrary: x y)
  case (Cons z xs)
  define x' where "x' = (if total_mixdepth_less z x then z else x)"
  have less: "total_mixdepth_le x' x" "total_mixdepth_le x' z"
    by (auto simp: x'_def total_mixdepth_less_def total_mixdepth_le_def)
  have trans: "total_mixdepth_le a c" if "total_mixdepth_le a b" "total_mixdepth_le b c" for a b c
    using that by (auto simp: total_mixdepth_le_def)
  have head: "total_mixdepth_le (first_min total_mixdepth_less x' xs) x'"
    by (rule Cons.IH) simp
  have tail: "total_mixdepth_le (first_min total_mixdepth_less x' xs) u" if "u \<in> set xs" for u
    using that by (intro Cons.IH) simp
  from Cons.prems consider "y = x" | "y = z" | "y \<in> set xs" by auto
  then have "total_mixdepth_le (first_min total_mixdepth_less x' xs) y"
    using head tail [of y] less trans by cases blast+
  then show ?case by (simp add: x'_def)
qed (simp add: total_mixdepth_le_def)

lemma covering_groups_mem:
  "(t, m, sel) \<in> set (covering_groups g v) \<longleftrightarrow>
     (\<exists>cs. (m, cs) \<in> set g \<and> jm_select_by_amount cs v = (sel, t) \<and> v \<le> t)"
  by (force simp: covering_groups_def Let_def split: prod.splits)

text \<open>The eligible coins of one mixdepth, the candidates of its selection.\<close>

definition mixdepth_candidates ::
    "string set \<Rightarrow> (string \<Rightarrow> int \<Rightarrow> exn + bool) option \<Rightarrow> jm_coin list \<Rightarrow> int \<Rightarrow> jm_coin list" where
  "mixdepth_candidates coinjoins unspent coins m =
     filter (\<lambda>c. eligible coinjoins unspent c \<and> ju_mixdepth c = m) coins"

lemma group_mixed_mem:
  assumes "group_mixed coinjoins unspent coins [] = Inr g"
  shows "(m, cs) \<in> set g \<longleftrightarrow> cs \<noteq> [] \<and> mixdepth_candidates coinjoins unspent coins m = cs"
  using group_mixed_spec [OF assms] group_of_mem [of g m cs]
  by (simp add: wf_groups_def group_of_def mixdepth_candidates_def)

lemma select_mixdepths_value:
  assumes "select_mixdepths name coinjoins coins (Some v) unspent = Inr r" and "0 < v"
  obtains m sel t where "r = [(m, sel)]" "v \<le> t" "t = sum_list_by ju_value sel"
    "jm_select_by_amount (mixdepth_candidates coinjoins unspent coins m) v = (sel, t)"
    "mset sel \<subseteq># mset (mixdepth_candidates coinjoins unspent coins m)"
    "\<And>m' sel' t'. jm_select_by_amount (mixdepth_candidates coinjoins unspent coins m') v = (sel', t')
       \<Longrightarrow> v \<le> t' \<Longrightarrow> t < t' \<or> t = t' \<and> m \<le> m'"
proof -
  from assms(1) obtain g where g: "group_mixed coinjoins unspent coins [] = Inr g"
    by (auto simp: select_mixdepths_def ebind_Inr_iff)
  from assms(1) obtain x xs t m sel where cg: "covering_groups g v = x # xs"
    and best: "first_min total_mixdepth_less x xs = (t, m, sel)" and r: "r = [(m, sel)]"
    by (auto simp: select_mixdepths_def g split: list.splits prod.splits)
  have "(t, m, sel) \<in> set (covering_groups g v)"
    using first_min_mem [of total_mixdepth_less x xs] by (simp add: cg best)
  then obtain cs where mem: "(m, cs) \<in> set g" and s: "jm_select_by_amount cs v = (sel, t)"
      and vt: "v \<le> t"
    by (auto simp: covering_groups_mem)
  have cs: "cs = mixdepth_candidates coinjoins unspent coins m"
    using mem by (simp add: group_mixed_mem [OF g])
  have t: "t = sum_list_by ju_value sel" by (rule jm_by_amount.total_sum [OF s])
  have least: "t < t' \<or> t = t' \<and> m \<le> m'"
    if s': "jm_select_by_amount (mixdepth_candidates coinjoins unspent coins m') v = (sel', t')"
      and "v \<le> t'" for m' sel' t'
  proof -
    have "sel' \<noteq> []" using jm_by_amount.nonempty_when_positive [OF s' assms(2) \<open>v \<le> t'\<close>] .
    then have "mixdepth_candidates coinjoins unspent coins m' \<noteq> []"
      using jm_by_amount.from_candidates [OF s'] by auto
    then have "(m', mixdepth_candidates coinjoins unspent coins m') \<in> set g"
      by (simp add: group_mixed_mem [OF g])
    then have "(t', m', sel') \<in> set (x # xs)"
      using s' \<open>v \<le> t'\<close> covering_groups_mem [of t' m' sel' g v] by (auto simp: cg)
    then show ?thesis using first_min_le [of "(t', m', sel')" x xs] by (simp add: best total_mixdepth_le_def)
  qed
  show thesis
    by (rule that [OF r vt t _ _ least]) (use s jm_by_amount.from_candidates [OF s] cs in auto)
qed

lemma select_mixdepths_fails_iff:
  assumes g: "group_mixed coinjoins unspent coins [] = Inr g" and "0 < v"
    and nn: "\<And>c. c \<in> set coins \<Longrightarrow> 0 \<le> ju_value c"
  shows "(\<exists>e. select_mixdepths name coinjoins coins (Some v) unspent = Inl e) \<longleftrightarrow>
     (\<forall>m. sum_list_by ju_value (mixdepth_candidates coinjoins unspent coins m) < v)"
proof -
  have "(\<exists>e. select_mixdepths name coinjoins coins (Some v) unspent = Inl e) \<longleftrightarrow> covering_groups g v = []"
    by (auto simp: select_mixdepths_def g split: list.splits prod.splits)
  also have "\<dots> \<longleftrightarrow> (\<forall>t m sel. (t, m, sel) \<notin> set (covering_groups g v))"
    by (metis list.set_intros(1) list.exhaust prod_cases3 empty_iff empty_set)
  also have "\<dots> \<longleftrightarrow> (\<forall>m. sum_list_by ju_value (mixdepth_candidates coinjoins unspent coins m) < v)"
    (is "?l \<longleftrightarrow> ?r")
  proof
    assume l: ?l
    show ?r
    proof (rule allI, rule ccontr)
      fix m
      let ?cs = "mixdepth_candidates coinjoins unspent coins m"
      assume "\<not> sum_list_by ju_value ?cs < v"
      then have sum: "v \<le> sum_list_by ju_value ?cs" by simp
      obtain sel t where s: "jm_select_by_amount ?cs v = (sel, t)" by fastforce
      have "v \<le> t"
        using jm_by_amount.covers_iff [OF s] sum nn by (auto simp: mixdepth_candidates_def)
      moreover have "?cs \<noteq> []" using sum assms(2) by auto
      ultimately show False
        using l s by (auto simp: covering_groups_mem group_mixed_mem [OF g])
    qed
  next
    assume r: ?r
    show ?l
    proof (intro allI notI)
      fix t m sel
      assume "(t, m, sel) \<in> set (covering_groups g v)"
      then obtain cs where "cs = mixdepth_candidates coinjoins unspent coins m"
          and s: "jm_select_by_amount cs v = (sel, t)" and "v \<le> t"
        by (auto simp: covering_groups_mem group_mixed_mem [OF g])
      moreover from this have "(v \<le> t) = (v \<le> sum_list_by ju_value cs)"
        by (intro jm_by_amount.covers_iff [OF s]) (auto simp: mixdepth_candidates_def intro: nn)
      ultimately show False using r by (auto simp: not_less [symmetric])
    qed
  qed
  finally show ?thesis .
qed

section \<open>Freezing and releasing\<close>

text \<open>
  What a sweep relies on from jmwalletd: a call that freezes or releases a coin and returns has
  done so, one that raises may or may not have, neither touches another coin, and a direct send
  freezes nothing. Every call may fail. \<open>frozen_of\<close> reads the daemon's frozen coins.
\<close>

definition freeze_laws :: "'w jm_ops \<Rightarrow> ('w \<Rightarrow> string set) \<Rightarrow> bool" where
  "freeze_laws ops frozen_of =
     ((\<forall>u w. case jm_freeze ops u True w of
          (Inr _, w') \<Rightarrow> frozen_of w' = insert u (frozen_of w)
        | (Inl _, w') \<Rightarrow> frozen_of w' \<in> {frozen_of w, insert u (frozen_of w)})
      \<and> (\<forall>u w. case jm_freeze ops u False w of
          (Inr _, w') \<Rightarrow> frozen_of w' = frozen_of w - {u}
        | (Inl _, w') \<Rightarrow> frozen_of w' \<in> {frozen_of w, frozen_of w - {u}})
      \<and> (\<forall>d m w. frozen_of (snd (jm_sweep ops d m w)) = frozen_of w))"

lemma freeze_all:
  assumes "freeze_laws ops frozen_of"
    and "io_for (\<lambda>u. jm_freeze ops u True) us w = (r, w')"
  shows "(\<exists>x. r = Inr x) \<longrightarrow> frozen_of w' = frozen_of w \<union> set us"
    and "frozen_of w \<subseteq> frozen_of w' \<and> frozen_of w' \<subseteq> frozen_of w \<union> set us"
proof -
  have "((\<exists>x. r = Inr x) \<longrightarrow> frozen_of w' = frozen_of w \<union> set us) \<and>
      frozen_of w \<subseteq> frozen_of w' \<and> frozen_of w' \<subseteq> frozen_of w \<union> set us"
    using assms(2)
  proof (induction us arbitrary: w)
    case (Cons u us)
    obtain r1 w1 where f: "jm_freeze ops u True w = (r1, w1)" by fastforce
    have "case jm_freeze ops u True w of (Inr _, w') \<Rightarrow> frozen_of w' = insert u (frozen_of w)
        | (Inl _, w') \<Rightarrow> frozen_of w' \<in> {frozen_of w, insert u (frozen_of w)}"
      using assms(1) by (simp only: freeze_laws_def)
    then have law: "case r1 of Inr _ \<Rightarrow> frozen_of w1 = insert u (frozen_of w)
        | Inl _ \<Rightarrow> frozen_of w1 \<in> {frozen_of w, insert u (frozen_of w)}"
      by (simp add: f)
    show ?case
    proof (cases r1)
      case (Inl e)
      with Cons.prems f law show ?thesis by (auto simp: io_simps)
    next
      case (Inr x)
      with Cons.prems f have "io_for (\<lambda>u. jm_freeze ops u True) us w1 = (r, w')"
        by (simp add: io_simps)
      from Cons.IH [OF this] law Inr show ?thesis by auto
    qed
  qed (auto simp: io_simps)
  then show "(\<exists>x. r = Inr x) \<longrightarrow> frozen_of w' = frozen_of w \<union> set us"
    and "frozen_of w \<subseteq> frozen_of w' \<and> frozen_of w' \<subseteq> frozen_of w \<union> set us" by blast+
qed

text \<open>
  Releasing stops at the first call that raises; the coins before it are released, those after it
  are not.
\<close>

lemma unfreeze_prefix:
  assumes "freeze_laws ops frozen_of"
    and "io_for (\<lambda>u. jm_freeze ops u False) us w = (r, w')"
  shows "\<exists>k. frozen_of w - set us \<subseteq> frozen_of w' \<and> frozen_of w' \<subseteq> frozen_of w - set (take k us)
    \<and> (k = length us \<and> r = Inr ()
       \<or> k < length us \<and> (\<exists>e v v'. jm_freeze ops (us ! k) False v = (Inl e, v') \<and> r = Inl e))"
  using assms(2)
proof (induction us arbitrary: w)
  case (Cons u us)
  obtain r1 w1 where f: "jm_freeze ops u False w = (r1, w1)" by fastforce
  have "case jm_freeze ops u False w of (Inr _, w') \<Rightarrow> frozen_of w' = frozen_of w - {u}
      | (Inl _, w') \<Rightarrow> frozen_of w' \<in> {frozen_of w, frozen_of w - {u}}"
    using assms(1) by (simp only: freeze_laws_def)
  then have law: "case r1 of Inr _ \<Rightarrow> frozen_of w1 = frozen_of w - {u}
      | Inl _ \<Rightarrow> frozen_of w1 \<in> {frozen_of w, frozen_of w - {u}}"
    by (simp add: f)
  show ?case
  proof (cases r1)
    case (Inl e)
    then have run: "r = Inl e" "w' = w1" using Cons.prems f by (simp_all add: io_simps)
    then have "frozen_of w - set (u # us) \<subseteq> frozen_of w'" "frozen_of w' \<subseteq> frozen_of w - set (take 0 (u # us))"
      using law Inl by auto
    moreover have "jm_freeze ops ((u # us) ! 0) False w = (Inl e, w1)" using f Inl by simp
    ultimately show ?thesis using run by (intro exI [of _ 0]) auto
  next
    case (Inr x)
    with Cons.prems f have "io_for (\<lambda>u. jm_freeze ops u False) us w1 = (r, w')"
      by (simp add: io_simps)
    from Cons.IH [OF this] obtain k where k: "frozen_of w1 - set us \<subseteq> frozen_of w'"
      "frozen_of w' \<subseteq> frozen_of w1 - set (take k us)"
      "k = length us \<and> r = Inr ()
       \<or> k < length us \<and> (\<exists>e v v'. jm_freeze ops (us ! k) False v = (Inl e, v') \<and> r = Inl e)"
      by blast
    have w1: "frozen_of w1 = frozen_of w - {u}" using law Inr by simp
    have "frozen_of w - set (u # us) \<subseteq> frozen_of w'"
      "frozen_of w' \<subseteq> frozen_of w - set (take (Suc k) (u # us))"
      using k(1,2) w1 by auto
    then show ?thesis using k(3) by (intro exI [of _ "Suc k"]) simp
  qed
qed (auto simp: io_simps)

lemma sweep_one_releases:
  assumes laws: "freeze_laws ops frozen_of"
    and listed: "\<And>c. c \<in> set coins \<Longrightarrow> ju_frozen c \<longleftrightarrow> ju_utxo c \<in> frozen_of w"
    and run: "sweep_one ops coins selected destination mixdepth w = (r, w')"
    and us: "us = others_of coins selected mixdepth"
  shows "\<exists>k. frozen_of w \<subseteq> frozen_of w' \<and> frozen_of w' \<subseteq> frozen_of w \<union> (set us - set (take k us))
    \<and> (k = length us
       \<or> k < length us \<and> (\<exists>e v v'. jm_freeze ops (us ! k) False v = (Inl e, v') \<and> r = Inl e))"
proof -
  obtain r1 w1 where 1: "io_for (\<lambda>u. jm_freeze ops u True) us w = (r1, w1)" by fastforce
  obtain r2 w2 where 2: "jm_sweep ops destination mixdepth w1 = (r2, w2)" by fastforce
  have disj: "set us \<inter> frozen_of w = {}"
    using listed by (auto simp: others_of_def us)
  define wm where "wm = (if \<exists>x. r1 = Inr x then w2 else w1)"
  have "frozen_of (snd (jm_sweep ops destination mixdepth w1)) = frozen_of w1"
    using laws by (simp add: freeze_laws_def)
  then have "frozen_of w2 = frozen_of w1" by (simp add: 2)
  then have mid: "frozen_of w \<subseteq> frozen_of wm" "frozen_of wm \<subseteq> frozen_of w \<union> set us"
    using freeze_all(2) [OF laws 1] by (simp_all add: wm_def)
  obtain r3 w3 where 3: "io_for (\<lambda>u. jm_freeze ops u False) us wm = (r3, w3)" by fastforce
  from unfreeze_prefix [OF laws 3] obtain k where k: "frozen_of wm - set us \<subseteq> frozen_of w3"
      "frozen_of w3 \<subseteq> frozen_of wm - set (take k us)"
      "k = length us \<and> r3 = Inr ()
       \<or> k < length us \<and> (\<exists>e v v'. jm_freeze ops (us ! k) False v = (Inl e, v') \<and> r3 = Inl e)"
    by blast
  have "w' = w3" and r: "\<And>e. r3 = Inl e \<Longrightarrow> r = Inl e"
    using run 1 2 3
    by (cases r1; cases r2; cases r3; auto simp: sweep_one_def Let_def io_simps io_lift_def wm_def us)+
  moreover have "frozen_of w \<subseteq> frozen_of w3" "frozen_of w3 \<subseteq> frozen_of w \<union> (set us - set (take k us))"
    using k(1,2) mid disj by auto
  ultimately show ?thesis using k(3) by blast
qed

text \<open>
  The world in which the send happens: exactly the chosen coins of the mixdepth are not frozen.
\<close>

lemma sweep_one_sends:
  assumes laws: "freeze_laws ops frozen_of"
    and listed: "\<And>c. c \<in> set coins \<Longrightarrow> ju_frozen c \<longleftrightarrow> ju_utxo c \<in> frozen_of w"
    and run: "sweep_one ops coins selected destination mixdepth w = (Inr s, w')"
  obtains w1 info w2 where "jm_sweep ops destination mixdepth w1 = (Inr info, w2)"
    "describe_sweep coins mixdepth info = Inr s"
    "\<And>c. c \<in> set coins \<Longrightarrow> ju_mixdepth c = mixdepth \<Longrightarrow>
       ju_utxo c \<notin> frozen_of w1 \<longleftrightarrow> \<not> ju_frozen c \<and> ju_utxo c \<in> ju_utxo ` set selected"
proof -
  let ?us = "others_of coins selected mixdepth"
  obtain r1 w1 where 1: "io_for (\<lambda>u. jm_freeze ops u True) ?us w = (r1, w1)" by fastforce
  obtain r2 w2 where 2: "jm_sweep ops destination mixdepth w1 = (r2, w2)" by fastforce
  from run 1 2 obtain info where "r1 = Inr ()" "r2 = Inr info" "describe_sweep coins mixdepth info = Inr s"
    by (cases r1; cases r2)
      (auto simp: sweep_one_def Let_def io_simps io_lift_def split: sum.splits prod.splits)
  moreover have "frozen_of w1 = frozen_of w \<union> set ?us"
    using freeze_all(1) [OF laws 1] \<open>r1 = Inr ()\<close> by blast
  moreover from this have "ju_utxo c \<notin> frozen_of w1 \<longleftrightarrow> \<not> ju_frozen c \<and> ju_utxo c \<in> ju_utxo ` set selected"
    if "c \<in> set coins" "ju_mixdepth c = mixdepth" for c
    using that listed [of c] by (auto simp: others_of_def)
  ultimately show thesis using that 2 by blast
qed

section \<open>Stopping returns\<close>

text \<open>
  Fuel: when a pause moves the clock on by its length and requests do not move it back, the wait
  ends within sixteen pauses of two seconds, hence within seventeen session requests.
\<close>

definition clock_laws :: "'w jm_ops \<Rightarrow> bool" where
  "clock_laws ops =
     ((\<forall>w. jm_clock ops w \<le> jm_clock ops (snd (jm_session ops w)))
      \<and> (\<forall>d w. jm_clock ops w + d \<le> jm_clock ops (jm_sleep ops d w)))"

lemma stop_wait_returns:
  assumes laws: "clock_laws ops"
  shows "deadline \<le> jm_clock ops w + 2 * of_nat n \<Longrightarrow>
    \<exists>res. stop_wait (Suc n) ops name maker deadline w = Some res"
proof (induction n arbitrary: w)
  case 0
  obtain r w1 where s: "jm_session ops w = (r, w1)" by fastforce
  have "jm_clock ops w \<le> jm_clock ops (snd (jm_session ops w))"
    using laws by (simp add: clock_laws_def)
  with 0 s show ?case by (auto split: sum.splits option.splits)
next
  case (Suc n)
  obtain r w1 where s: "jm_session ops w = (r, w1)" by fastforce
  have "jm_clock ops w + 2 \<le> jm_clock ops (jm_sleep ops stop_poll_seconds w1)"
  proof -
    have "jm_clock ops w \<le> jm_clock ops (snd (jm_session ops w))"
      "jm_clock ops w1 + 2 \<le> jm_clock ops (jm_sleep ops 2 w1)"
      using laws by (auto simp: clock_laws_def)
    then show ?thesis by (simp add: s stop_poll_seconds_def)
  qed
  with Suc.prems have "deadline \<le> jm_clock ops (jm_sleep ops stop_poll_seconds w1) + 2 * of_nat n"
    by (simp add: algebra_simps)
  from Suc.IH [OF this] obtain res where
    res: "stop_wait (Suc n) ops name maker deadline (jm_sleep ops stop_poll_seconds w1) = Some res"
    by blast
  show ?case
    unfolding stop_wait.simps(2) [of "Suc n"] s prod.case res
    by (auto split: sum.splits option.splits)
qed

section \<open>Properties\<close>

text \<open>
  Claim C10. A JoinMarket spend of a value selects within every mixdepth by the same greedy rule
  over the eligible coins of that mixdepth, and spends the mixdepth whose greedy selection covers
  the value with the least total, the lowest mixdepth when totals tie. (The least is over these
  greedy totals, not over all subsets of coins.)
\<close>

theorem chosen_mixdepth_is_best:
  assumes "select_mixdepths name coinjoins coins (Some v) unspent = Inr r" "0 < v"
  shows "\<exists>m sel t. r = [(m, sel)] \<and> v \<le> t \<and> t = sum_list_by ju_value sel
    \<and> jm_select_by_amount (mixdepth_candidates coinjoins unspent coins m) v = (sel, t)
    \<and> mset sel \<subseteq># mset (mixdepth_candidates coinjoins unspent coins m)
    \<and> (\<forall>m' sel' t'. jm_select_by_amount (mixdepth_candidates coinjoins unspent coins m') v = (sel', t')
         \<and> v \<le> t' \<longrightarrow> t < t' \<or> t = t' \<and> m \<le> m')"
  by (rule select_mixdepths_value [OF assms], intro exI conjI) blast+

definition example_utxo :: "string \<Rightarrow> int \<Rightarrow> int \<Rightarrow> jm_coin" where
  "example_utxo txid a m = \<lparr>ju_utxo = txid @ '':0'', ju_value = a, ju_mixdepth = m,
     ju_confirmations = 1, ju_frozen = False\<rparr>"

definition example_utxos :: "jm_coin list" where
  "example_utxos = [example_utxo ''a'' 50 0, example_utxo ''b'' 40 1, example_utxo ''c'' 10 1]"

theorem chosen_mixdepth_is_best_witness:
  "\<exists>m sel t. [(1, [example_utxo ''b'' 40 1])] = [(m, sel)] \<and> 30 \<le> t \<and> t = sum_list_by ju_value sel"
proof -
  have run: "select_mixdepths ''w'' {''a'', ''b''} example_utxos (Some 30) None =
      Inr [(1, [example_utxo ''b'' 40 1])]"
    by code_simp
  from chosen_mixdepth_is_best [OF run zero_less_numeral] show ?thesis by blast
qed

text \<open>
  The greedy total is not the least overshoot a mixdepth could offer, which the docstring of
  \<open>_select\<close> promises: for 35 the coins 10 and 25 of mixdepth 1 would do exactly, but the coin of
  50 in mixdepth 0 is spent, because the greedy rule looks at 60 in mixdepth 1.
\<close>

theorem overshoot_is_not_the_least:
  "select_mixdepths ''w'' {''a'', ''b'', ''c'', ''d''}
     [example_utxo ''a'' 50 0, example_utxo ''b'' 10 1, example_utxo ''c'' 25 1, example_utxo ''d'' 60 1]
     (Some 35) None = Inr [(0, [example_utxo ''a'' 50 0])]
   \<and> sum_list_by ju_value [example_utxo ''b'' 10 1, example_utxo ''c'' 25 1] = 35"
  by (intro conjI; code_simp)

text \<open>
  A JoinMarket spend of a value fails exactly when no mixdepth holds enough confirmed,
  unfrozen coins of a coinjoin; the value is never gathered across mixdepths.
\<close>

theorem mixdepth_selection_fails_iff:
  assumes "group_mixed coinjoins unspent coins [] = Inr g" "0 < v"
    and "\<forall>c\<in>set coins. 0 \<le> ju_value c"
  shows "(\<exists>e. select_mixdepths name coinjoins coins (Some v) unspent = Inl e) \<longleftrightarrow>
     (\<forall>m. sum_list_by ju_value (mixdepth_candidates coinjoins unspent coins m) < v)"
  using select_mixdepths_fails_iff [OF assms(1,2)] assms(3) by blast

theorem mixdepth_selection_fails_iff_witness:
  "(\<exists>e. select_mixdepths ''w'' {''a'', ''b''} example_utxos (Some 60) None = Inl e) \<longleftrightarrow>
     (\<forall>m. sum_list_by ju_value (mixdepth_candidates {''a'', ''b''} None example_utxos m) < 60)"
proof (rule mixdepth_selection_fails_iff)
  show "group_mixed {''a'', ''b''} None example_utxos [] =
      Inr [(0, [example_utxo ''a'' 50 0]), (1, [example_utxo ''b'' 40 1])]"
    by code_simp
  show "\<forall>c\<in>set example_utxos. 0 \<le> ju_value c" by code_simp
qed simp

text \<open>
  The two wallets select by amount alike: renaming JoinMarket's coins injectively into
  Wasabi's turns the one selection into the other.
\<close>

theorem amount_selections_agree:
  assumes "inj f" "\<forall>c. co_amount (f c) = ju_value c"
  shows "select_coins_by_amount (map f cs) v =
    (case jm_select_by_amount cs v of (s, t) \<Rightarrow> (map f s, t))"
  using amount_loop_map [OF assms(1), of "sort_key ju_value cs" v "[]" 0] assms(2)
  by (simp add: select_coins_by_amount_def jm_select_by_amount_def sort_key_map)

text \<open>A renaming that keeps every field in the transaction identifier and the index.\<close>

definition coin_as_wasabi :: "jm_coin \<Rightarrow> wasabi_coin" where
  "coin_as_wasabi c = \<lparr>co_txid = ju_utxo c, co_index = ju_mixdepth c, co_amount = ju_value c,
     co_score = Some (of_int (ju_confirmations c)), co_confirmed = ju_frozen c\<rparr>"

theorem amount_selections_agree_witness:
  "select_coins_by_amount (map coin_as_wasabi example_utxos) 45 =
    (case jm_select_by_amount example_utxos 45 of (s, t) \<Rightarrow> (map coin_as_wasabi s, t))"
  by (rule amount_selections_agree) (auto simp: inj_def coin_as_wasabi_def)

text \<open>
  Claim C8. A sweep never releases a coin it found frozen and freezes no coin outside the other
  coins of its mixdepth; when it ends, whether the send succeeded, failed, or a freeze failed half
  way, the frozen coins are as it found them, unless the call that releases one of its own coins
  raised. Then that error is what the sweep raises, the coins released before it are free, and
  only the coins from it on may stay frozen.
\<close>

theorem sweep_releases_frozen_coins:
  assumes "freeze_laws ops frozen_of"
    and "\<forall>c\<in>set coins. ju_frozen c \<longleftrightarrow> ju_utxo c \<in> frozen_of w"
    and "sweep_one ops coins selected destination mixdepth w = (r, w')"
    and "us = others_of coins selected mixdepth"
  shows "\<exists>k. frozen_of w \<subseteq> frozen_of w' \<and> frozen_of w' \<subseteq> frozen_of w \<union> (set us - set (take k us))
    \<and> (k = length us
       \<or> k < length us \<and> (\<exists>e v v'. jm_freeze ops (us ! k) False v = (Inl e, v') \<and> r = Inl e))"
  using sweep_one_releases [OF assms(1) _ assms(3,4)] assms(2) by blast

text \<open>A daemon whose only state is the set of frozen coins, and whose sends fail when told to.\<close>

definition example_daemon :: "bool \<Rightarrow> string set jm_ops" where
  "example_daemon fails = \<lparr>jm_session = (\<lambda>w. (Inr (Some (False, False)), w)),
     jm_stop_maker = io_ret (), jm_list_utxos = io_ret example_utxos,
     jm_freeze = (\<lambda>u freeze w. (Inr (), if freeze then insert u w else w - {u})),
     jm_sweep = (\<lambda>d m. if fails then io_raise (Exn KException []) else io_ret \<lparr>ti_txid = Some ''t'', ti_inputs = [''b:0'']\<rparr>),
     jm_clock = (\<lambda>w. 0), jm_sleep = (\<lambda>d w. w)\<rparr>"

lemma example_daemon_laws: "freeze_laws (example_daemon fails) (\<lambda>w. w)"
  by (simp add: freeze_laws_def example_daemon_def io_simps)

lemma example_freeze:
  "jm_freeze (example_daemon fails) u freeze w = (Inr (), if freeze then insert u w else w - {u})"
  by (simp add: example_daemon_def)

lemma example_others: "others_of example_utxos [example_utxo ''b'' 40 1] 1 = [''c:0'']"
  by code_simp

theorem sweep_releases_frozen_coins_witness:
  "snd (sweep_one (example_daemon True) example_utxos [example_utxo ''b'' 40 1] ''d'' 1 {}) = {}"
proof -
  have "\<forall>c\<in>set example_utxos. ju_frozen c \<longleftrightarrow> ju_utxo c \<in> {}" by code_simp
  from sweep_releases_frozen_coins [OF example_daemon_laws this prod.collapse [symmetric]
      example_others [symmetric]]
  show ?thesis by (auto simp: example_freeze)
qed

text \<open>
  A release that fails ends the \<open>finally\<close> loop: the coins after it stay frozen although their own
  release would have worked, and the next spend no longer sees them as eligible.
\<close>

definition failing_release_daemon :: "string set jm_ops" where
  "failing_release_daemon = (example_daemon False)\<lparr>jm_freeze := (\<lambda>u freeze w.
     if \<not> freeze \<and> u = ''a:0'' then (Inl (Exn KException ''busy''), w)
     else (Inr (), if freeze then insert u w else w - {u}))\<rparr>"

theorem failed_release_leaves_the_rest_frozen:
  "sweep_one failing_release_daemon
     [example_utxo ''a'' 50 1, example_utxo ''b'' 40 1, example_utxo ''c'' 10 1]
     [example_utxo ''b'' 40 1] ''d'' 1 {} = (Inl (Exn KException ''busy''), {''a:0'', ''c:0''})"
  by code_simp

text \<open>
  Claim C9. When a sweep succeeds, the send happened in a world where exactly the chosen coins of
  the mixdepth were unfrozen, and what it reports is described from the transaction's own inputs.
\<close>

theorem sweep_spends_only_chosen_coins:
  assumes "freeze_laws ops frozen_of"
    and "\<forall>c\<in>set coins. ju_frozen c \<longleftrightarrow> ju_utxo c \<in> frozen_of w"
    and "sweep_one ops coins selected destination mixdepth w = (Inr s, w')"
  shows "\<exists>w1 info w2. jm_sweep ops destination mixdepth w1 = (Inr info, w2)
    \<and> describe_sweep coins mixdepth info = Inr s
    \<and> (\<forall>c\<in>set coins. ju_mixdepth c = mixdepth \<longrightarrow>
         (ju_utxo c \<notin> frozen_of w1 \<longleftrightarrow> \<not> ju_frozen c \<and> ju_utxo c \<in> ju_utxo ` set selected))"
proof (rule sweep_one_sends [OF assms(1) _ assms(3)])
  fix w1 info w2
  assume "jm_sweep ops destination mixdepth w1 = (Inr info, w2)" "describe_sweep coins mixdepth info = Inr s"
    "\<And>c. c \<in> set coins \<Longrightarrow> ju_mixdepth c = mixdepth \<Longrightarrow>
       ju_utxo c \<notin> frozen_of w1 \<longleftrightarrow> \<not> ju_frozen c \<and> ju_utxo c \<in> ju_utxo ` set selected"
  then show ?thesis by (intro exI conjI ballI impI)
qed (use assms(2) in blast)

lemma example_sweep:
  "sweep_one (example_daemon False) example_utxos [example_utxo ''b'' 40 1] ''d'' 1 {} =
     (Inr \<lparr>sweep_txid = Some ''t'', sweep_amount = 40, sweep_coins =
        [\<lparr>sw_txid = ''b'', sw_index = 0, sw_amount = 40, sw_mixdepth = 1\<rparr>]\<rparr>, {})"
  by code_simp

theorem sweep_spends_only_chosen_coins_witness:
  "\<exists>w1 info w2. jm_sweep (example_daemon False) ''d'' 1 w1 = (Inr info, w2)
    \<and> describe_sweep example_utxos 1 info = Inr \<lparr>sweep_txid = Some ''t'', sweep_amount = 40, sweep_coins =
        [\<lparr>sw_txid = ''b'', sw_index = 0, sw_amount = 40, sw_mixdepth = 1\<rparr>]\<rparr>"
proof -
  have "\<forall>c\<in>set example_utxos. ju_frozen c \<longleftrightarrow> ju_utxo c \<in> {}" by code_simp
  from sweep_spends_only_chosen_coins [OF example_daemon_laws this example_sweep] show ?thesis
    by blast
qed

text \<open>
  Stopping a wallet before a spend returns: when pauses move the clock on, seventeen
  session requests are enough for the thirty seconds it waits.
\<close>

theorem stopping_returns:
  assumes "clock_laws ops"
  shows "\<exists>res. jm_stop_coinjoin 17 ops name maker w = Some res"
proof -
  have wait: "\<exists>res. stop_wait 17 ops name maker (jm_clock ops w1 + stop_timeout_seconds) w1 = Some res" for w1
  proof -
    have "\<exists>res. stop_wait (Suc 16) ops name maker (jm_clock ops w1 + stop_timeout_seconds) w1 = Some res"
      by (rule stop_wait_returns [OF assms(1)]) (simp add: stop_timeout_seconds_def)
    moreover have "17 = Suc 16" by simp
    ultimately show ?thesis by (simp only:)
  qed
  obtain r w1 where "jm_stop_maker ops w = (r, w1)" by fastforce
  then show ?thesis
    using wait by (cases r) (simp_all only: jm_stop_coinjoin_def prod.case sum.case option.inject split: if_split, blast+)
qed

definition example_clock_daemon :: "rat jm_ops" where
  "example_clock_daemon = \<lparr>jm_session = (\<lambda>w. (Inr (Some (True, True)), w)),
     jm_stop_maker = io_ret (), jm_list_utxos = io_ret [],
     jm_freeze = (\<lambda>u freeze. io_ret ()), jm_sweep = (\<lambda>d m. io_raise (Exn KException [])),
     jm_clock = (\<lambda>w. w), jm_sleep = (\<lambda>d w. w + d)\<rparr>"

theorem stopping_returns_witness:
  "\<exists>res. jm_stop_coinjoin 17 example_clock_daemon ''w'' True 0 = Some res"
  by (rule stopping_returns) (simp_all add: clock_laws_def example_clock_daemon_def io_simps)

end
