(* ===== verification/RoundEvents.thy ===== *)
theory RoundEvents
  imports Prelude "HOL-Library.Char_ord" "HOL-Library.List_Lexorder" "HOL-Library.Product_Lexorder"
begin

text \<open>
  JoinMarket round events: the serialized record of one attempt
  (\<open>manager/engine/joinmarket/round_event_record.py\<close>), the views of exported blocks
  (\<open>exported_block_record.py\<close> and the three records below it), the reconciliation of events with
  mined transactions and the evidence derived from it (\<open>events.py\<close>), and the confirmation of
  pending attempts during a run (\<open>round_confirmation.py\<close>).

  An event is a mutable dictionary the code updates in place; here the list of events is the state
  and an operation returns the list with the entries at the affected positions replaced. The
  events of one list are taken to be distinct objects, as the producers make them.
\<close>

section \<open>One event\<close>

type_synonym round_event = dict

definition str_field :: "dict \<Rightarrow> string \<Rightarrow> string option" where
  "str_field d k = (case dget d k of JStr s \<Rightarrow> Some s | _ \<Rightarrow> None)"

definition nonempty_str_field :: "dict \<Rightarrow> string \<Rightarrow> string option" where
  "nonempty_str_field d k = (case dget d k of JStr s \<Rightarrow> if s = [] then None else Some s | _ \<Rightarrow> None)"

definition destination_address :: "round_event \<Rightarrow> string option" where
  "destination_address e = nonempty_str_field e ''destination_address''"

definition ev_status :: "round_event \<Rightarrow> string option" where
  "ev_status e = str_field e ''status''"

definition export_round_id :: "round_event \<Rightarrow> exn + int" where
  "export_round_id e =
     (case map_of e ''export_round_id'' of
        None \<Rightarrow> Inl (Exn KKeyError ''export_round_id'')
      | Some (JInt n) \<Rightarrow> Inr n
      | Some _ \<Rightarrow> Inl (Exn KValueError ''export_round_id must be an integer''))"

text \<open>The producer's identifier: \<open>isinstance(value, int)\<close> also lets a \<open>bool\<close> through.\<close>

definition round_id :: "round_event \<Rightarrow> json option" where
  "round_id e = (let v = dget e ''round_id'' in if is_int v then Some v else None)"

definition ev_taker :: "round_event \<Rightarrow> string" where
  "ev_taker e = (case str_field e ''taker'' of Some s \<Rightarrow> s | None \<Rightarrow> [])"

definition preserve_execution_status :: "round_event \<Rightarrow> round_event" where
  "preserve_execution_status e =
     (case ev_status e of
        Some s \<Rightarrow> if s \<in> {''started'', ''failed''} then dsetdefault e ''execution_status'' (JStr s) else e
      | None \<Rightarrow> e)"

definition mark_duplicate_destination :: "round_event \<Rightarrow> round_event" where
  "mark_duplicate_destination e =
     dset (preserve_execution_status e) ''status'' (JStr ''duplicate_destination'')"

text \<open>
  A match is a transaction identifier and the height of its block, kept as JSON because the height
  of an exported block may be a \<open>bool\<close>; dictionaries compare such heights as numbers.
\<close>

type_synonym dest_match = "string \<times> json"

definition match_json :: "dest_match \<Rightarrow> json" where
  "match_json m = JDict [(''txid'', JStr (fst m)), (''block_height'', snd m)]"

fun parse_match :: "json \<Rightarrow> dest_match option" where
  "parse_match (JDict d) =
     (case nonempty_str_field d ''txid'' of
        None \<Rightarrow> None
      | Some t \<Rightarrow> (case dget d ''block_height'' of JInt h \<Rightarrow> Some (t, JInt h) | _ \<Rightarrow> None))"
| "parse_match _ = None"

definition same_match :: "dest_match \<Rightarrow> dest_match \<Rightarrow> bool" where
  "same_match a b = (fst a = fst b \<and> num_of (snd a) = num_of (snd b))"

definition store_matches :: "round_event \<Rightarrow> dest_match list \<Rightarrow> round_event" where
  "store_matches e ms = dset e ''destination_matches'' (JList (map match_json ms))"

definition destination_matches :: "round_event \<Rightarrow> dest_match list" where
  "destination_matches e =
     (case dget e ''destination_matches'' of JList xs \<Rightarrow> List.map_filter parse_match xs | _ \<Rightarrow> [])"

definition add_destination_match :: "string \<Rightarrow> json \<Rightarrow> round_event \<Rightarrow> round_event" where
  "add_destination_match txid h e =
     (let e1 = preserve_execution_status e;
          ms = destination_matches e1;
          ms' = (if list_ex (same_match (txid, h)) ms then ms else ms @ [(txid, h)]);
          e2 = dset (store_matches e1 ms') ''match_source'' (JStr ''destination_output'')
      in if ev_status e2 = Some ''duplicate_destination'' then e2
         else dset e2 ''status'' (JStr (if length ms' = 1 then ''confirmed'' else ''multiple_matches'')))"

text \<open>The lookup normalises the stored matches, so it returns the event as well.\<close>

definition confirmed_destination_txid :: "round_event \<Rightarrow> string option \<times> round_event" where
  "confirmed_destination_txid e =
     (let ms = destination_matches e
      in (if ev_status e \<noteq> Some ''confirmed'' \<or> length ms \<noteq> 1 then None else Some (fst (hd ms)),
          store_matches e ms))"

section \<open>Exported blocks\<close>

fun dict_or_empty :: "json \<Rightarrow> dict" where
  "dict_or_empty (JDict d) = d"
| "dict_or_empty _ = []"

fun list_of :: "json \<Rightarrow> json list" where
  "list_of (JList xs) = xs"
| "list_of _ = []"

definition script_address :: "json \<Rightarrow> string option" where
  "script_address s = nonempty_str_field (dict_or_empty s) ''address''"

definition output_address :: "dict \<Rightarrow> string option" where
  "output_address out = script_address (dget out ''scriptPubKey'')"

definition tx_txid :: "dict \<Rightarrow> string option" where
  "tx_txid tx = nonempty_str_field tx ''txid''"

definition tx_outputs :: "dict \<Rightarrow> dict list" where
  "tx_outputs tx = map dict_or_empty (list_of (dget tx ''vout''))"

definition block_height :: "dict \<Rightarrow> json option" where
  "block_height b = (let v = dget b ''height'' in if is_int v then Some v else None)"

definition block_transactions :: "dict \<Rightarrow> dict list" where
  "block_transactions b = map dict_or_empty (list_of (dget b ''tx''))"

section \<open>Reconciliation\<close>

definition collect_round_events :: "round_event list list \<Rightarrow> round_event list" where
  "collect_round_events groups =
     map (\<lambda>(i, e). dset e ''export_round_id'' (JInt (int i))) (enumerate 1 (concat groups))"

text \<open>\<open>events_by_destination\<close> keeps references to events; here their positions in the list.\<close>

type_synonym destinations = "(string \<times> nat list) list"

definition events_by_destination :: "round_event list \<Rightarrow> destinations" where
  "events_by_destination es =
     fold (\<lambda>(i, e) g. case destination_address e of None \<Rightarrow> g | Some a \<Rightarrow> group_insert g a i)
       (enumerate 0 es) []"

definition update_each :: "(round_event \<Rightarrow> round_event) \<Rightarrow> nat list \<Rightarrow> round_event list \<Rightarrow> round_event list"
where
  "update_each f is es = fold (\<lambda>i es. es[i := f (es ! i)]) is es"

definition mark_shared :: "destinations \<Rightarrow> round_event list \<Rightarrow> round_event list" where
  "mark_shared by es =
     fold (\<lambda>(a, is) es. if 1 < length is then update_each mark_duplicate_destination is es else es) by es"

definition match_output ::
    "destinations \<Rightarrow> string \<Rightarrow> json \<Rightarrow> dict \<Rightarrow> round_event list \<Rightarrow> round_event list" where
  "match_output by txid h out es =
     (case output_address out of
        None \<Rightarrow> es
      | Some a \<Rightarrow> update_each (add_destination_match txid h) (group_of by a) es)"

fun match_transactions ::
    "destinations \<Rightarrow> json \<Rightarrow> dict list \<Rightarrow> round_event list \<Rightarrow> exn option \<times> round_event list" where
  "match_transactions by h [] es = (None, es)"
| "match_transactions by h (tx # txs) es =
     (case tx_txid tx of
        None \<Rightarrow> (Some (Exn KValueError ''exported transaction txid must be a non-empty string''), es)
      | Some t \<Rightarrow> match_transactions by h txs (fold (match_output by t h) (tx_outputs tx) es))"

text \<open>
  The blocks are drawn from an iterator one by one; drawing the next may raise, and then the
  matches of the blocks before it stay recorded.
\<close>

type_synonym block_stream = "(exn + json \<times> dict) list"

fun match_blocks ::
    "destinations \<Rightarrow> block_stream \<Rightarrow> round_event list \<Rightarrow> exn option \<times> round_event list" where
  "match_blocks by [] es = (None, es)"
| "match_blocks by (Inl x # bs) es = (Some x, es)"
| "match_blocks by (Inr (h, b) # bs) es =
     (case match_transactions by h (block_transactions b) es of
        (Some x, es') \<Rightarrow> (Some x, es')
      | (None, es') \<Rightarrow> match_blocks by bs es')"

definition reconcile_round_event_destinations ::
    "round_event list \<Rightarrow> block_stream \<Rightarrow> exn option \<times> round_event list" where
  "reconcile_round_event_destinations es blocks =
     (let es1 = map preserve_execution_status es;
          by = events_by_destination es1
      in match_blocks by blocks (mark_shared by es1))"

definition indexed_blocks :: "dict list \<Rightarrow> block_stream" where
  "indexed_blocks blocks =
     map (\<lambda>b. case block_height b of
                None \<Rightarrow> Inl (Exn KValueError ''exported block height must be an integer'')
              | Some h \<Rightarrow> Inr (h, b)) blocks"

definition match_round_events_to_blocks ::
    "round_event list \<Rightarrow> dict list \<Rightarrow> exn + round_event list" where
  "match_round_events_to_blocks es blocks =
     (case reconcile_round_event_destinations es (indexed_blocks blocks) of
        (Some x, _) \<Rightarrow> Inl x
      | (None, es') \<Rightarrow>
          ebind (traverse (\<lambda>e. ebind (export_round_id e) (\<lambda>n. Inr ((n, ev_taker e), e))) es') (\<lambda>keyed.
            Inr (map snd (sort_key fst keyed))))"

section \<open>Evidence\<close>

fun str_json_int :: "json \<Rightarrow> string" where
  "str_json_int (JInt n) = str_int n"
| "str_json_int (JBool b) = (if b then ''True'' else ''False'')"
| "str_json_int _ = ''?''"

definition format_round_ids :: "round_event list \<Rightarrow> string" where
  "format_round_ids es =
     join_with '', '' (map (\<lambda>e. case round_id e of Some v \<Rightarrow> str_json_int v | None \<Rightarrow> ''?'') es)"

fun partition_destination_conflicts :: "round_event list \<Rightarrow> round_event list \<times> round_event list" where
  "partition_destination_conflicts [] = ([], [])"
| "partition_destination_conflicts (e # es) =
     (case partition_destination_conflicts es of (ds, ms) \<Rightarrow>
        if ev_status e = Some ''duplicate_destination'' then (e # ds, ms)
        else if ev_status e = Some ''multiple_matches'' then (ds, e # ms)
        else (ds, ms))"

record label_evidence =
  le_engine :: string
  le_complete :: bool
  le_reason :: "string option"
  le_positive_rule :: string
  le_positive_count :: nat
  le_sources :: "string list"

definition incomplete_reasons :: "round_event list \<Rightarrow> string list \<Rightarrow> string list" where
  "incomplete_reasons es unlabelled =
     (case partition_destination_conflicts es of (duplicates, multiple) \<Rightarrow>
      let missing = filter (\<lambda>e. destination_address e = None) es in
      (if unlabelled \<noteq> []
       then [''tumbler takers produce no per-round labels: '' @ join_with '', '' (sort unlabelled)] else [])
      @ (if missing \<noteq> [] then [''round events have no destination address: '' @ format_round_ids missing] else [])
      @ (if duplicates \<noteq> []
         then [''destination address is shared by several rounds: '' @ format_round_ids duplicates] else [])
      @ (if multiple \<noteq> []
         then [''destination output matches multiple exported transactions for rounds: ''
               @ format_round_ids multiple] else []))"

definition producer_label_evidence :: "round_event list \<Rightarrow> string list \<Rightarrow> label_evidence" where
  "producer_label_evidence es unlabelled =
     (let reasons = incomplete_reasons es unlabelled;
          txids = remdups (List.map_filter (\<lambda>e. fst (confirmed_destination_txid e)) es)
      in \<lparr>le_engine = ''joinmarket'', le_complete = (reasons = []),
          le_reason = (if reasons = [] then None else Some (join_with ''; '' reasons)),
          le_positive_rule =
            ''exported transaction is the sole destination match for a reconciled JoinMarket round event'',
          le_positive_count = length txids,
          le_sources = [''joinmarket_round_events.json'']\<rparr>)"

section \<open>Confirmation during a run\<close>

record block_source =
  bs_block_count :: "exn + int"
  bs_block_hash :: "int \<Rightarrow> exn + string"
  bs_block_info :: "string \<Rightarrow> exn + dict"

definition is_pending :: "round_event \<Rightarrow> bool" where
  "is_pending e = (dget e ''status'' = JStr ''started'')"

definition blocks_above :: "block_source \<Rightarrow> int \<Rightarrow> int \<Rightarrow> block_stream" where
  "blocks_above node scanned tip =
     map (\<lambda>h. ebind (bs_block_hash node h) (\<lambda>hash. ebind (bs_block_info node hash) (\<lambda>b. Inr (JInt h, b))))
       [scanned + 1 .. tip]"

text \<open>The events at the positions where \<open>p\<close> held, replaced in order.\<close>

fun put_back :: "('a \<Rightarrow> bool) \<Rightarrow> 'a list \<Rightarrow> 'a list \<Rightarrow> 'a list" where
  "put_back p [] ys = []"
| "put_back p (x # xs) [] = x # xs"
| "put_back p (x # xs) (y # ys) =
     (if p x then y # put_back p xs ys else x # put_back p xs (y # ys))"

definition confirm_rounds_in_blocks ::
    "round_event list \<Rightarrow> block_source \<Rightarrow> int \<Rightarrow> (exn + int) \<times> round_event list" where
  "confirm_rounds_in_blocks es node scanned =
     (case bs_block_count node of
        Inl x \<Rightarrow> (Inl x, es)
      | Inr tip \<Rightarrow>
          (case reconcile_round_event_destinations (filter is_pending es) (blocks_above node scanned tip) of
             (Some x, es') \<Rightarrow> (Inl x, put_back is_pending es es')
           | (None, es') \<Rightarrow> (Inr tip, put_back is_pending es es')))"

definition count_confirmed_rounds :: "round_event list \<Rightarrow> nat" where
  "count_confirmed_rounds es = length (filter (\<lambda>e. dget e ''status'' = JStr ''confirmed'') es)"

definition fail_event :: "string \<Rightarrow> int \<Rightarrow> round_event \<Rightarrow> round_event" where
  "fail_event reason stop_block e =
     (let e1 = dset e ''status'' (JStr ''failed'');
          e2 = (if dget_default e1 ''execution_status'' (JStr ''started'') = JStr ''started''
                then dset e1 ''execution_status'' (JStr ''failed'') else e1)
      in dset (dset e2 ''failure_reason'' (JStr reason)) ''stop_block'' (JInt stop_block))"

text \<open>The search runs over \<open>reversed(events)\<close>; the result is the event and the updated list.\<close>

fun mark_first_started_failed ::
    "round_event list \<Rightarrow> string \<Rightarrow> string \<Rightarrow> int \<Rightarrow> round_event option \<times> round_event list" where
  "mark_first_started_failed [] taker reason stop_block = (None, [])"
| "mark_first_started_failed (e # es) taker reason stop_block =
     (if dget e ''status'' = JStr ''started'' \<and> dget e ''taker'' = JStr taker
      then (let e' = fail_event reason stop_block e in (Some e', e' # es))
      else (case mark_first_started_failed es taker reason stop_block of (r, es') \<Rightarrow> (r, e # es')))"

definition mark_latest_started_round_failed ::
    "round_event list \<Rightarrow> string \<Rightarrow> string \<Rightarrow> int \<Rightarrow> round_event option \<times> round_event list" where
  "mark_latest_started_round_failed es taker reason stop_block =
     (case mark_first_started_failed (rev es) taker reason stop_block of (r, es') \<Rightarrow> (r, rev es'))"

section \<open>Facts about one event\<close>

lemma ev_status_dset [simp]:
  "ev_status (dset e ''status'' (JStr s)) = Some s"
  "k \<noteq> ''status'' \<Longrightarrow> ev_status (dset e k v) = ev_status e"
  by (simp_all add: ev_status_def str_field_def)

lemma ev_status_dget: "ev_status e = Some s \<longleftrightarrow> dget e ''status'' = JStr s"
  by (auto simp: ev_status_def str_field_def split: json.splits)

lemma ev_status_preserve [simp]: "ev_status (preserve_execution_status e) = ev_status e"
  by (auto simp: preserve_execution_status_def dsetdefault_def split: option.splits)

lemma preserve_keeps [simp]:
  "k \<noteq> ''execution_status'' \<Longrightarrow> dget (preserve_execution_status e) k = dget e k"
  by (auto simp: preserve_execution_status_def split: option.splits)

lemma destination_preserve [simp]:
  "destination_address (preserve_execution_status e) = destination_address e"
  by (simp add: destination_address_def nonempty_str_field_def)

lemma destination_mark [simp]:
  "destination_address (mark_duplicate_destination e) = destination_address e"
  by (simp add: destination_address_def nonempty_str_field_def mark_duplicate_destination_def)

lemma destination_add [simp]:
  "destination_address (add_destination_match t h e) = destination_address e"
  by (simp add: destination_address_def nonempty_str_field_def add_destination_match_def Let_def
      store_matches_def)

lemma preserve_id: "ev_status e \<notin> {Some ''started'', Some ''failed''} \<Longrightarrow> preserve_execution_status e = e"
  by (auto simp: preserve_execution_status_def split: option.splits)

lemma dsetdefault_idem: "dsetdefault (dsetdefault d k v) k v' = dsetdefault d k v"
  by (simp add: dsetdefault_def keys_dset)

lemma preserve_idem [simp]:
  "preserve_execution_status (preserve_execution_status e) = preserve_execution_status e"
proof -
  have "ev_status (dsetdefault e ''execution_status'' v) = ev_status e" for v
    by (simp add: dsetdefault_def)
  then show ?thesis
    by (auto simp: preserve_execution_status_def dsetdefault_idem split: option.splits)
qed

lemma mark_duplicate_idem [simp]:
  "mark_duplicate_destination (mark_duplicate_destination e) = mark_duplicate_destination e"
proof -
  have "preserve_execution_status (mark_duplicate_destination e) = mark_duplicate_destination e"
    by (rule preserve_id) (simp add: mark_duplicate_destination_def)
  then show ?thesis by (simp add: mark_duplicate_destination_def)
qed

text \<open>Matches that survive being stored and read back, and their accumulation.\<close>

definition valid_match :: "dest_match \<Rightarrow> bool" where
  "valid_match m = (fst m \<noteq> [] \<and> (\<exists>n. snd m = JInt n))"

definition merge_matches :: "dest_match list \<Rightarrow> dest_match list \<Rightarrow> dest_match list" where
  "merge_matches ms ps = fold (\<lambda>p ms. if p \<in> set ms then ms else ms @ [p]) ps ms"

lemma parse_match_json: "valid_match m \<Longrightarrow> parse_match (match_json m) = Some m"
  by (cases m) (auto simp: valid_match_def match_json_def nonempty_str_field_def)

lemma parse_match_valid: "parse_match j = Some m \<Longrightarrow> valid_match m"
  by (cases j) (auto simp: valid_match_def nonempty_str_field_def split: option.splits json.splits if_splits)

lemma map_filter_inverse:
  "(\<And>x. x \<in> set xs \<Longrightarrow> f (g x) = Some x) \<Longrightarrow> List.map_filter f (map g xs) = xs"
  by (induction xs) (simp_all add: List.map_filter_simps)

lemma set_map_filter_iff: "y \<in> set (List.map_filter f xs) \<longleftrightarrow> (\<exists>x\<in>set xs. f x = Some y)"
  by (induction xs) (auto simp: List.map_filter_simps split: option.splits)

lemma destination_matches_valid: "m \<in> set (destination_matches e) \<Longrightarrow> valid_match m"
  by (auto simp: destination_matches_def set_map_filter_iff split: json.splits dest: parse_match_valid)

lemma destination_matches_store:
  "\<forall>m\<in>set ms. valid_match m \<Longrightarrow> destination_matches (store_matches e ms) = ms"
  by (simp add: destination_matches_def store_matches_def map_filter_inverse parse_match_json)

lemma destination_matches_cong:
  "dget e ''destination_matches'' = dget e' ''destination_matches'' \<Longrightarrow>
     destination_matches e = destination_matches e'"
  by (simp add: destination_matches_def)

lemma same_match_valid: "valid_match a \<Longrightarrow> valid_match b \<Longrightarrow> same_match a b \<longleftrightarrow> a = b"
  by (cases a; cases b) (auto simp: valid_match_def same_match_def)

lemma list_ex_same_match:
  "valid_match p \<Longrightarrow> \<forall>m\<in>set ms. valid_match m \<Longrightarrow> list_ex (same_match p) ms \<longleftrightarrow> p \<in> set ms"
  by (auto simp: list_ex_iff same_match_valid)

lemma set_merge [simp]: "set (merge_matches ms ps) = set ms \<union> set ps"
  by (induction ps arbitrary: ms) (auto simp: merge_matches_def)

lemma merge_merge: "merge_matches (merge_matches ms ps) qs = merge_matches ms (ps @ qs)"
  by (simp add: merge_matches_def)

lemma merge_absorb: "set ps \<subseteq> set ms \<Longrightarrow> merge_matches ms ps = ms"
  by (induction ps) (auto simp: merge_matches_def)

lemma distinct_merge: "distinct ms \<Longrightarrow> distinct (merge_matches ms ps)"
  by (induction ps arbitrary: ms) (auto simp: merge_matches_def)

lemma length_merge: "length ms \<le> length (merge_matches ms ps)"
proof (induction ps arbitrary: ms)
  case (Cons p ps)
  from Cons.IH [of "ms @ [p]"] Cons.IH [of ms] show ?case
    by (simp add: merge_matches_def)
qed (simp add: merge_matches_def)

section \<open>The closed form of repeated matching\<close>

definition with_matches :: "round_event \<Rightarrow> dest_match list \<Rightarrow> round_event" where
  "with_matches e ms =
     (let e' = dset (store_matches e ms) ''match_source'' (JStr ''destination_output'')
      in if ev_status e = Some ''duplicate_destination'' then e'
         else dset e' ''status'' (JStr (if length ms = 1 then ''confirmed'' else ''multiple_matches'')))"

definition add_match :: "dest_match \<Rightarrow> round_event \<Rightarrow> round_event" where
  "add_match p = add_destination_match (fst p) (snd p)"

lemma add_match_closed:
  assumes "valid_match p"
  shows "add_match p e =
    with_matches (preserve_execution_status e) (merge_matches (destination_matches e) [p])"
proof -
  have "destination_matches (preserve_execution_status e) = destination_matches e"
    by (rule destination_matches_cong) simp
  moreover have "list_ex (same_match (fst p, snd p)) (destination_matches e) \<longleftrightarrow>
      p \<in> set (destination_matches e)"
    using assms list_ex_same_match destination_matches_valid by auto
  ultimately show ?thesis
    by (simp add: add_match_def add_destination_match_def with_matches_def merge_matches_def Let_def
        store_matches_def)
qed

lemma status_with_matches:
  "ev_status (with_matches e ms) =
     (if ev_status e = Some ''duplicate_destination'' then Some ''duplicate_destination''
      else if length ms = 1 then Some ''confirmed'' else Some ''multiple_matches'')"
  by (simp add: with_matches_def Let_def store_matches_def)

lemma matches_with_matches:
  "\<forall>m\<in>set ms. valid_match m \<Longrightarrow> destination_matches (with_matches e ms) = ms"
  by (subst destination_matches_store [of ms e, symmetric], assumption)
    (rule destination_matches_cong, simp add: with_matches_def Let_def store_matches_def)

lemma with_matches_twice: "with_matches (with_matches e ms) ms' = with_matches e ms'"
proof -
  let ?d = "\<lambda>ms. dset e ''destination_matches'' (JList (map match_json ms))"
  let ?s = "JStr ''destination_output''"
  have 1: "dset (dset (?d ms) ''match_source'' ?s) ''destination_matches'' v =
      dset (dset e ''destination_matches'' v) ''match_source'' ?s" for v
    by (subst dset_swap) (simp_all add: keys_dset)
  have 2: "dset (dset (dset (?d ms) ''match_source'' ?s) ''status'' st) ''destination_matches'' v =
      dset (dset (dset e ''destination_matches'' v) ''match_source'' ?s) ''status'' st" for v st
    by (subst dset_swap) (simp_all add: keys_dset 1)
  have 3: "dset (dset (dset d ''match_source'' ?s) ''status'' st) ''match_source'' ?s =
      dset (dset d ''match_source'' ?s) ''status'' st" for d st
    by (subst dset_swap) (simp_all add: keys_dset)
  show ?thesis
    by (simp add: with_matches_def Let_def store_matches_def 1 2 3)
qed

lemma fold_add_match_closed:
  assumes "ps \<noteq> []" and "\<forall>p\<in>set ps. valid_match p"
  shows "fold add_match ps e =
    with_matches (preserve_execution_status e) (merge_matches (destination_matches e) ps)"
  using assms
proof (induction ps rule: rev_nonempty_induct)
  case (single p)
  then show ?case by (simp add: add_match_closed)
next
  case (snoc p ps)
  let ?m = "merge_matches (destination_matches e) ps"
  let ?e = "with_matches (preserve_execution_status e) ?m"
  have "\<forall>m\<in>set ?m. valid_match m"
    using snoc.prems destination_matches_valid by auto
  then have "destination_matches ?e = ?m" by (rule matches_with_matches)
  moreover have "preserve_execution_status ?e = ?e"
    by (rule preserve_id) (simp add: status_with_matches)
  ultimately show ?case
    using snoc by (simp add: add_match_closed with_matches_twice merge_merge)
qed

section \<open>Reconciliation, event by event\<close>

text \<open>
  The reference: the outputs of the blocks before the first error, as pairs of an address and the
  match it gives, and what one event becomes of them.
\<close>

definition tx_paid :: "json \<Rightarrow> string \<Rightarrow> dict \<Rightarrow> (string \<times> dest_match) list" where
  "tx_paid h t tx =
     List.map_filter (\<lambda>out. map_option (\<lambda>a. (a, (t, h))) (output_address out)) (tx_outputs tx)"

fun txs_paid :: "json \<Rightarrow> dict list \<Rightarrow> exn option \<times> (string \<times> dest_match) list" where
  "txs_paid h [] = (None, [])"
| "txs_paid h (tx # txs) =
     (case tx_txid tx of
        None \<Rightarrow> (Some (Exn KValueError ''exported transaction txid must be a non-empty string''), [])
      | Some t \<Rightarrow> (case txs_paid h txs of (x, ps) \<Rightarrow> (x, tx_paid h t tx @ ps)))"

fun blocks_paid :: "block_stream \<Rightarrow> exn option \<times> (string \<times> dest_match) list" where
  "blocks_paid [] = (None, [])"
| "blocks_paid (Inl x # bs) = (Some x, [])"
| "blocks_paid (Inr (h, b) # bs) =
     (case txs_paid h (block_transactions b) of
        (Some x, ps) \<Rightarrow> (Some x, ps)
      | (None, ps) \<Rightarrow> (case blocks_paid bs of (x, qs) \<Rightarrow> (x, ps @ qs)))"

definition payments :: "block_stream \<Rightarrow> string \<Rightarrow> dest_match list" where
  "payments bs a = map snd (filter (\<lambda>(b, m). a = b) (snd (blocks_paid bs)))"

definition shared :: "round_event list \<Rightarrow> string \<Rightarrow> bool" where
  "shared es a = (1 < length (filter (\<lambda>e. destination_address e = Some a) es))"

definition reconciled_event :: "round_event list \<Rightarrow> block_stream \<Rightarrow> round_event \<Rightarrow> round_event" where
  "reconciled_event es bs e =
     (case destination_address e of
        None \<Rightarrow> preserve_execution_status e
      | Some a \<Rightarrow> fold add_match (payments bs a)
          (if shared es a then mark_duplicate_destination e else preserve_execution_status e))"

lemma length_update_each [simp]: "length (update_each f is es) = length es"
  by (induction "is" arbitrary: es) (simp_all add: update_each_def)

lemma update_each_nth:
  "distinct is \<Longrightarrow> i < length es \<Longrightarrow> update_each f is es ! i = (if i \<in> set is then f (es ! i) else es ! i)"
proof (induction "is" arbitrary: es)
  case (Cons j "is")
  then show ?case
    using Cons.IH [of "es[j := f (es ! j)]"]
    by (cases "i = j") (simp_all add: update_each_def nth_list_update)
qed (simp add: update_each_def)

lemma group_fold:
  assumes "wf_groups g0"
  defines "step \<equiv> \<lambda>(i, e) g. case destination_address e of None \<Rightarrow> g | Some a \<Rightarrow> group_insert g a i"
  shows "wf_groups (fold step xs g0) \<and> group_of (fold step xs g0) a =
    group_of g0 a @ map fst (filter (\<lambda>(i, e). destination_address e = Some a) xs)"
  using assms(1)
proof (induction xs arbitrary: g0)
  case (Cons x xs)
  obtain i e where x: "x = (i, e)" by (cases x)
  have "wf_groups (step x g0)" "group_of (step x g0) a =
      group_of g0 a @ (if destination_address e = Some a then [i] else [])"
    using Cons.prems
    by (auto simp: step_def x wf_group_insert group_of_group_insert split: option.splits)
  then show ?case using Cons.IH [of "step x g0"] by (auto simp: x)
qed simp

lemma destinations_wf: "wf_groups (events_by_destination es)"
  using group_fold [of "[]" "enumerate 0 es"] by (simp add: events_by_destination_def wf_groups_def)

lemma group_of_destinations:
  "group_of (events_by_destination es) a =
     map fst (filter (\<lambda>(i, e). destination_address e = Some a) (enumerate 0 es))"
  using group_fold [of "[]" "enumerate 0 es" a]
  by (simp add: events_by_destination_def wf_groups_def group_of_def)

lemma set_group_of_destinations:
  "set (group_of (events_by_destination es) a) = {i. i < length es \<and> destination_address (es ! i) = Some a}"
  unfolding group_of_destinations by (force simp: set_zip enumerate_eq_zip)

lemma distinct_group_of_destinations: "distinct (group_of (events_by_destination es) a)"
proof -
  have "distinct (map fst (filter P (enumerate 0 es)))" for P :: "nat \<times> round_event \<Rightarrow> bool"
    by (intro distinct_map_filter) (simp add: enumerate_eq_zip)
  then show ?thesis by (simp add: group_of_destinations)
qed

lemma length_group_of_destinations:
  "length (group_of (events_by_destination es) a) =
     length (filter (\<lambda>e. destination_address e = Some a) es)"
proof -
  have "length (filter (\<lambda>(i, e). P e) (enumerate n es)) = length (filter P es)" for n P
    by (induction es arbitrary: n) auto
  then show ?thesis by (simp add: group_of_destinations)
qed

text \<open>The shared destinations are marked, whatever the order of the groups.\<close>

lemma mark_shared_nth:
  "(\<forall>(a, is)\<in>set by. distinct is) \<Longrightarrow> i < length es \<Longrightarrow> mark_shared by es ! i =
     (if \<exists>(a, is)\<in>set by. i \<in> set is \<and> 1 < length is then mark_duplicate_destination (es ! i) else es ! i)"
proof (induction "by" arbitrary: es)
  case (Cons g "by")
  obtain a "is" where g: "g = (a, is)" by (cases g)
  let ?es = "if 1 < length is then update_each mark_duplicate_destination is es else es"
  have "mark_shared (g # by) es = mark_shared by ?es"
    by (simp add: mark_shared_def g)
  moreover have "?es ! i = (if i \<in> set is \<and> 1 < length is then mark_duplicate_destination (es ! i) else es ! i)"
    using Cons.prems by (simp add: g update_each_nth)
  ultimately show ?case
    using Cons.IH [of ?es] Cons.prems by (auto simp: g)
qed (simp add: mark_shared_def)

lemma length_mark_shared [simp]: "length (mark_shared by es) = length es"
  by (induction "by" arbitrary: es) (auto simp: mark_shared_def split: prod.splits)

lemma mark_shared_destinations:
  assumes "i < length es"
  shows "mark_shared (events_by_destination es) es ! i =
    (case destination_address (es ! i) of
       None \<Rightarrow> es ! i
     | Some a \<Rightarrow> if shared es a then mark_duplicate_destination (es ! i) else es ! i)"
proof -
  let ?by = "events_by_destination es"
  note mem = group_of_mem [OF destinations_wf [of es]]
  have "\<forall>(a, is)\<in>set ?by. distinct is"
    using mem distinct_group_of_destinations by fastforce
  moreover have "(\<exists>(a, is)\<in>set ?by. i \<in> set is \<and> 1 < length is) \<longleftrightarrow>
      (\<exists>a. i \<in> set (group_of ?by a) \<and> 1 < length (group_of ?by a))"
    unfolding Bex_def split_paired_Ex prod.case mem by (metis list.size(3) not_one_less_zero)
  moreover have "\<dots> \<longleftrightarrow> (\<exists>a. destination_address (es ! i) = Some a \<and> shared es a)"
    using assms by (auto simp: set_group_of_destinations length_group_of_destinations shared_def)
  ultimately show ?thesis
    using mark_shared_nth [of ?by i es] assms by (auto split: option.splits)
qed

lemma match_output_paid:
  "fold (match_output by t h) outs es =
     fold (\<lambda>(a, m). update_each (add_match m) (group_of by a))
       (List.map_filter (\<lambda>out. map_option (\<lambda>a. (a, (t, h))) (output_address out)) outs) es"
  by (induction outs arbitrary: es)
    (simp_all add: List.map_filter_simps match_output_def add_match_def split: option.splits)

lemma match_transactions_paid:
  "match_transactions by h txs es =
     (fst (txs_paid h txs),
      fold (\<lambda>(a, m). update_each (add_match m) (group_of by a)) (snd (txs_paid h txs)) es)"
  by (induction txs arbitrary: es)
    (simp_all add: match_output_paid tx_paid_def split: option.splits prod.splits)

lemma match_blocks_paid:
  "match_blocks by bs es =
     (fst (blocks_paid bs),
      fold (\<lambda>(a, m). update_each (add_match m) (group_of by a)) (snd (blocks_paid bs)) es)"
  by (induction bs arbitrary: es rule: blocks_paid.induct)
    (auto simp: match_transactions_paid split: option.splits prod.splits)

lemma fold_update_each_nth:
  "(\<And>a. distinct (g a)) \<Longrightarrow> i < length es \<Longrightarrow>
     fold (\<lambda>(a, m). update_each (f m) (g a)) ps es ! i =
     fold f (map snd (filter (\<lambda>(a, m). i \<in> set (g a)) ps)) (es ! i)"
  by (induction ps arbitrary: es) (auto simp: update_each_nth)

lemma length_fold_update_each:
  "length (fold (\<lambda>(a, m). update_each (f m) (g a)) ps es) = length es"
  by (induction ps arbitrary: es) auto

lemma shared_map:
  "(\<And>e. destination_address (f e) = destination_address e) \<Longrightarrow> shared (map f es) a = shared es a"
  by (simp add: shared_def filter_map o_def)

lemma mark_preserve [simp]:
  "mark_duplicate_destination (preserve_execution_status e) = mark_duplicate_destination e"
  by (simp add: mark_duplicate_destination_def)

lemma reconcile_eventwise:
  "reconcile_round_event_destinations es bs =
     (fst (blocks_paid bs), map (reconciled_event es bs) es)"
proof -
  let ?es1 = "map preserve_execution_status es"
  let ?by = "events_by_destination ?es1"
  let ?es2 = "fold (\<lambda>(a, m). update_each (add_match m) (group_of ?by a)) (snd (blocks_paid bs))
    (mark_shared ?by ?es1)"
  have "?es2 ! i = reconciled_event es bs (es ! i)" if "i < length es" for i
  proof -
    have "(i \<in> set (group_of ?by a)) = (destination_address (es ! i) = Some a)" for a
      using that by (simp add: set_group_of_destinations)
    then have "?es2 ! i =
        fold add_match (map snd (filter (\<lambda>(a, m). destination_address (es ! i) = Some a) (snd (blocks_paid bs))))
          (mark_shared ?by ?es1 ! i)"
      using that by (simp add: fold_update_each_nth distinct_group_of_destinations)
    moreover have "shared ?es1 a = shared es a" for a
      by (simp add: shared_map)
    ultimately show ?thesis
      using that
      by (cases "destination_address (es ! i)")
        (simp_all add: reconciled_event_def payments_def mark_shared_destinations)
  qed
  then have "?es2 = map (reconciled_event es bs) es"
    by (intro nth_equalityI) (simp_all add: length_fold_update_each)
  then show ?thesis
    by (simp add: reconcile_round_event_destinations_def Let_def match_blocks_paid)
qed

section \<open>What reconciliation establishes\<close>

definition heights_ok :: "block_stream \<Rightarrow> bool" where
  "heights_ok bs = (\<forall>x\<in>set bs. case x of Inl _ \<Rightarrow> True | Inr (h, b) \<Rightarrow> \<not> is_bool h \<and> is_int h)"

lemma tx_paid_valid:
  "(a, m) \<in> set (tx_paid h t tx) \<Longrightarrow> \<not> is_bool h \<Longrightarrow> is_int h \<Longrightarrow> t \<noteq> [] \<Longrightarrow> valid_match m"
  by (cases h) (auto simp: tx_paid_def set_map_filter_iff valid_match_def)

lemma txs_paid_valid:
  "(a, m) \<in> set (snd (txs_paid h txs)) \<Longrightarrow> \<not> is_bool h \<Longrightarrow> is_int h \<Longrightarrow> valid_match m"
proof (induction txs)
  case (Cons tx txs)
  then show ?case
    using tx_paid_valid [of a m h _ tx]
    by (auto simp: tx_txid_def nonempty_str_field_def split: option.splits prod.splits json.splits if_splits)
qed simp

lemma blocks_paid_valid:
  "(a, m) \<in> set (snd (blocks_paid bs)) \<Longrightarrow> heights_ok bs \<Longrightarrow> valid_match m"
proof (induction bs rule: blocks_paid.induct)
  case (3 h b bs)
  then show ?case
    using txs_paid_valid [of a m h "block_transactions b"]
    by (auto simp: heights_ok_def split: option.splits prod.splits)
qed simp_all

lemma payments_valid: "heights_ok bs \<Longrightarrow> \<forall>m\<in>set (payments bs a). valid_match m"
  by (auto simp: payments_def dest: blocks_paid_valid)

lemma status_reconciled:
  assumes "heights_ok bs"
  shows "ev_status (reconciled_event es bs e) =
    (case destination_address e of
       None \<Rightarrow> ev_status e
     | Some a \<Rightarrow>
         if shared es a then Some ''duplicate_destination''
         else if payments bs a = [] \<or> ev_status e = Some ''duplicate_destination'' then ev_status e
         else if length (merge_matches (destination_matches e) (payments bs a)) = 1
              then Some ''confirmed'' else Some ''multiple_matches'')"
proof (cases "destination_address e")
  case (Some a)
  let ?b = "if shared es a then mark_duplicate_destination e else preserve_execution_status e"
  have m: "destination_matches ?b = destination_matches e"
    by (rule destination_matches_cong) (simp add: mark_duplicate_destination_def)
  have st: "ev_status ?b = (if shared es a then Some ''duplicate_destination'' else ev_status e)"
    by (simp add: mark_duplicate_destination_def)
  show ?thesis
  proof (cases "payments bs a = []")
    case True
    then show ?thesis by (simp add: reconciled_event_def Some st del: if_split)
  next
    case False
    have "reconciled_event es bs e = with_matches (preserve_execution_status ?b)
        (merge_matches (destination_matches e) (payments bs a))"
      using fold_add_match_closed [OF False payments_valid [OF assms]] m
      by (simp add: reconciled_event_def Some)
    then show ?thesis by (simp add: status_with_matches st False Some del: if_split)
  qed
qed (simp add: reconciled_event_def)

lemma destination_fold_add [simp]:
  "destination_address (fold add_match ps e) = destination_address e"
  by (induction ps arbitrary: e) (simp_all add: add_match_def)

lemma destination_reconciled [simp]:
  "destination_address (reconciled_event es bs e) = destination_address e"
  by (simp add: reconciled_event_def split: option.splits)

section \<open>Interrupted and repeated scans\<close>

lemma blocks_paid_prefix:
  "\<exists>qs. snd (blocks_paid (bs @ bs')) = snd (blocks_paid (bs @ [Inl x])) @ qs"
proof (induction bs rule: blocks_paid.induct)
  case (3 h b bs)
  then show ?case by (auto split: option.splits prod.splits)
qed auto

lemma payments_prefix: "\<exists>qs. payments (bs @ bs') a = payments (bs @ [Inl x]) a @ qs"
  using blocks_paid_prefix [of bs bs' x] by (auto simp: payments_def)

lemma mark_duplicate_id:
  assumes "ev_status e = Some ''duplicate_destination''"
  shows "mark_duplicate_destination e = e"
proof -
  have "map_of e ''status'' = Some (JStr ''duplicate_destination'')"
    using assms map_of_dget [of e "''status''"] by (simp add: ev_status_dget)
  moreover have "preserve_execution_status e = e"
    by (rule preserve_id) (simp add: assms)
  ultimately show ?thesis by (simp add: mark_duplicate_destination_def dset_idem)
qed

lemma reconciled_again:
  assumes heights: "heights_ok full" "heights_ok part"
    and prefix: "\<And>a. \<exists>qs. payments full a = payments part a @ qs"
    and same: "\<And>a. shared es' a = shared es a"
  shows "reconciled_event es' full (reconciled_event es part e) = reconciled_event es full e"
proof (cases "destination_address e")
  case (Some a)
  let ?b = "if shared es a then mark_duplicate_destination e else preserve_execution_status e"
  let ?p = "payments part a"
  obtain qs where full: "payments full a = ?p @ qs" using prefix by blast
  have b: "(if shared es a then mark_duplicate_destination ?b else preserve_execution_status ?b) = ?b"
    by simp
  show ?thesis
  proof (cases "?p = []")
    case True
    then have "reconciled_event es part e = ?b" by (simp add: reconciled_event_def Some)
    moreover have "destination_address ?b = Some a" using Some by simp
    ultimately show ?thesis using b by (simp add: reconciled_event_def Some same)
  next
    case False
    let ?m = "merge_matches (destination_matches ?b) ?p"
    let ?e = "with_matches (preserve_execution_status ?b) ?m"
    note valid = payments_valid [OF heights(1), of a] payments_valid [OF heights(2), of a]
    have e: "reconciled_event es part e = ?e"
      using fold_add_match_closed [OF False valid(2)] by (simp add: reconciled_event_def Some)
    have dest: "destination_address ?e = Some a"
      using destination_reconciled [of es part e] Some by (simp only: e)
    have vm: "\<forall>m\<in>set ?m. valid_match m"
      using valid(2) destination_matches_valid by auto
    have keep: "preserve_execution_status ?e = ?e"
      by (rule preserve_id) (simp add: status_with_matches)
    have mark: "mark_duplicate_destination ?e = ?e" if "shared es a"
      using that by (intro mark_duplicate_id)
        (simp add: status_with_matches mark_duplicate_destination_def)
    have base: "(if shared es a then mark_duplicate_destination ?e else preserve_execution_status ?e) = ?e"
    proof (cases "shared es a")
      case True
      then show ?thesis using mark by simp
    next
      case False
      with keep show ?thesis by simp
    qed
    have "merge_matches ?m (?p @ qs) = merge_matches (merge_matches ?m ?p) qs"
      by (simp only: merge_merge append_assoc)
    also have "merge_matches ?m ?p = ?m" by (rule merge_absorb) simp
    also have "merge_matches ?m qs = merge_matches (destination_matches ?b) (?p @ qs)"
      by (simp only: merge_merge append_assoc)
    finally have "fold add_match (?p @ qs) ?e =
        with_matches (preserve_execution_status ?b) (merge_matches (destination_matches ?b) (?p @ qs))"
      using False valid(1) matches_with_matches [OF vm]
      by (subst fold_add_match_closed) (simp_all add: full keep with_matches_twice del: fold_append)
    also have "\<dots> = fold add_match (?p @ qs) ?b"
      using False valid(1) by (subst fold_add_match_closed) (simp_all add: full del: fold_append)
    finally show ?thesis
      unfolding e unfolding reconciled_event_def dest Some option.case same base full .
  qed
qed (simp add: reconciled_event_def)

section \<open>Confirmation of pending attempts\<close>

lemma put_back_map: "put_back p es (map f (filter p es)) = map (\<lambda>e. if p e then f e else e) es"
proof (induction es)
  case (Cons e es)
  show ?case
  proof (cases "p e")
    case False
    then show ?thesis using Cons by (cases "map f (filter p es)") (auto simp: map_idI filter_empty_conv)
  qed (use Cons in simp)
qed simp

lemma is_pending_status: "is_pending e \<longleftrightarrow> ev_status e = Some ''started''"
  by (simp add: is_pending_def ev_status_dget)

lemma count_confirmed_status:
  "count_confirmed_rounds es = length (filter (\<lambda>e. ev_status e = Some ''confirmed'') es)"
  by (simp add: count_confirmed_rounds_def ev_status_dget)

lemma confirm_eventwise:
  assumes "bs_block_count node = Inr tip"
  shows "confirm_rounds_in_blocks es node scanned =
    ((case fst (blocks_paid (blocks_above node scanned tip)) of None \<Rightarrow> Inr tip | Some x \<Rightarrow> Inl x),
     map (\<lambda>e. if is_pending e
              then reconciled_event (filter is_pending es) (blocks_above node scanned tip) e else e) es)"
  by (simp add: confirm_rounds_in_blocks_def assms reconcile_eventwise put_back_map split: option.splits)

lemma confirm_no_tip:
  "bs_block_count node = Inl x \<Longrightarrow> confirm_rounds_in_blocks es node scanned = (Inl x, es)"
  by (simp add: confirm_rounds_in_blocks_def)

lemma confirm_length: "confirm_rounds_in_blocks es node scanned = (r, es') \<Longrightarrow> length es' = length es"
  by (cases "bs_block_count node") (auto simp: confirm_no_tip confirm_eventwise)

lemma confirm_keeps_settled:
  assumes "confirm_rounds_in_blocks es node scanned = (r, es')" "i < length es" "\<not> is_pending (es ! i)"
  shows "es' ! i = es ! i"
proof (cases "bs_block_count node")
  case (Inl x)
  then show ?thesis using assms(1) by (simp add: confirm_no_tip)
next
  case (Inr tip)
  then show ?thesis using assms by (auto simp: confirm_eventwise [OF Inr])
qed

lemma filter_length_mono:
  "length xs = length ys \<Longrightarrow> (\<And>i. i < length xs \<Longrightarrow> P (xs ! i) \<Longrightarrow> P (ys ! i)) \<Longrightarrow>
     length (filter P xs) \<le> length (filter P ys)"
proof (induction xs ys rule: list_induct2)
  case (Cons x xs y ys)
  have "P x \<Longrightarrow> P y" using Cons.prems [of 0] by simp
  moreover have "length (filter P xs) \<le> length (filter P ys)"
    using Cons.prems by (intro Cons.IH) (metis Suc_less_eq length_Cons nth_Cons_Suc)
  ultimately show ?case by auto
qed simp

lemma heights_blocks_above: "heights_ok (blocks_above node scanned tip)"
  by (auto simp: heights_ok_def blocks_above_def ebind_Inr_iff split: sum.splits)

text \<open>A pending attempt without matches is confirmed exactly when one mined transaction pays it.\<close>

lemma card_merge_one:
  "length (merge_matches [] ps) = Suc 0 \<longleftrightarrow> (\<exists>m. set ps = {m})"
proof -
  have "distinct (merge_matches [] ps)" by (rule distinct_merge) simp
  then have "length (merge_matches [] ps) = card (set ps)"
    by (metis distinct_card set_merge sup_bot_left set_empty empty_set)
  then show ?thesis by (simp add: card_1_singleton_iff)
qed

section \<open>Failing the latest attempt\<close>

lemma mark_first_none:
  "(\<forall>e\<in>set es. \<not> (dget e ''status'' = JStr ''started'' \<and> dget e ''taker'' = JStr taker)) \<Longrightarrow>
     mark_first_started_failed (es @ es') taker reason stop =
       (case mark_first_started_failed es' taker reason stop of (r, es'') \<Rightarrow> (r, es @ es''))"
  by (induction es) (auto split: prod.splits)

lemma fail_event_facts [simp]:
  "ev_status (fail_event reason stop e) = Some ''failed''"
  "dget (fail_event reason stop e) ''failure_reason'' = JStr reason"
  "destination_address (fail_event reason stop e) = destination_address e"
  by (simp_all add: fail_event_def Let_def destination_address_def nonempty_str_field_def)

section \<open>Completeness of the evidence\<close>

lemma partition_filter:
  "partition_destination_conflicts es =
     (filter (\<lambda>e. ev_status e = Some ''duplicate_destination'') es,
      filter (\<lambda>e. ev_status e = Some ''multiple_matches'') es)"
  by (induction es) auto

lemma evidence_positive_count:
  "le_positive_count (producer_label_evidence es unlabelled) =
     card {t. \<exists>e\<in>set es. fst (confirmed_destination_txid e) = Some t}"
proof -
  have "set (List.map_filter (\<lambda>e. fst (confirmed_destination_txid e)) es) =
      {t. \<exists>e\<in>set es. fst (confirmed_destination_txid e) = Some t}"
    by (auto simp: set_map_filter_iff)
  then show ?thesis by (simp add: producer_label_evidence_def Let_def length_remdups_card_conv)
qed

section \<open>Properties\<close>

text \<open>
  Claim C5. What reconciliation makes of the status of every event, over any events and any blocks
  with integer heights, also when a block cannot be read or a transaction has no identifier: a
  shared destination is a conflict whatever was mined; otherwise the distinct payments to the
  destination decide between confirmed and ambiguous; without a payment nothing changes.
\<close>

theorem reconciled_status:
  assumes "reconcile_round_event_destinations es bs = (r, es')" "heights_ok bs" "i < length es"
  shows "length es' = length es \<and> ev_status (es' ! i) =
    (case destination_address (es ! i) of
       None \<Rightarrow> ev_status (es ! i)
     | Some a \<Rightarrow>
         if shared es a then Some ''duplicate_destination''
         else if payments bs a = [] \<or> ev_status (es ! i) = Some ''duplicate_destination''
              then ev_status (es ! i)
         else if length (merge_matches (destination_matches (es ! i)) (payments bs a)) = 1
              then Some ''confirmed'' else Some ''multiple_matches'')"
  using assms by (auto simp: reconcile_eventwise status_reconciled)

definition example_event :: "string \<Rightarrow> round_event" where
  "example_event a = [(''status'', JStr ''started''), (''taker'', JStr ''t''), (''destination_address'', JStr a)]"

definition example_block :: "string \<Rightarrow> string \<Rightarrow> dict" where
  "example_block txid a =
     [(''height'', JInt 7), (''tx'', JList [JDict [(''txid'', JStr txid),
        (''vout'', JList [JDict [(''scriptPubKey'', JDict [(''address'', JStr a)])]])]])]"

definition example_events :: "round_event list" where
  "example_events = [example_event ''a'', example_event ''b'']"

definition example_stream :: block_stream where
  "example_stream = [Inr (JInt 7, example_block ''x'' ''a''), Inl (Exn KRpcError [])]"

lemma example_heights: "heights_ok example_stream"
  by code_simp

lemma example_length: "0 < length example_events"
  by code_simp

theorem reconciled_status_witness:
  "ev_status (snd (reconcile_round_event_destinations example_events example_stream) ! 0) = Some ''confirmed''"
  by (simp only: conjunct2 [OF reconciled_status [OF prod.collapse [symmetric] example_heights example_length]])
    code_simp

text \<open>
  Claim C6. A scan that a node error interrupts at any block and that is run again from the start
  gives what one uninterrupted scan gives: nothing is matched twice and nothing is missed. With no
  blocks after the error it also says that scanning twice is scanning once.
\<close>

theorem interrupted_scan_repeats:
  assumes "heights_ok (bs @ bs')"
    and "reconcile_round_event_destinations es (bs @ [Inl x]) = (r, es')"
  shows "reconcile_round_event_destinations es' (bs @ bs') =
    reconcile_round_event_destinations es (bs @ bs')"
proof -
  have es': "es' = map (reconciled_event es (bs @ [Inl x])) es"
    using assms(2) by (simp add: reconcile_eventwise)
  have "heights_ok (bs @ [Inl x])" using assms(1) by (auto simp: heights_ok_def)
  moreover have "shared es' a = shared es a" for a
    by (simp add: es' shared_map)
  ultimately have "reconciled_event es' (bs @ bs') (reconciled_event es (bs @ [Inl x]) e) =
      reconciled_event es (bs @ bs') e" for e
    by (intro reconciled_again assms(1) payments_prefix)
  then show ?thesis by (simp add: reconcile_eventwise es')
qed

theorem interrupted_scan_repeats_witness:
  "reconcile_round_event_destinations
     (snd (reconcile_round_event_destinations example_events ([Inr (JInt 7, example_block ''x'' ''a'')] @ [Inl (Exn KRpcError [])])))
     ([Inr (JInt 7, example_block ''x'' ''a'')] @ [Inr (JInt 8, example_block ''y'' ''b'')]) =
   reconcile_round_event_destinations example_events
     ([Inr (JInt 7, example_block ''x'' ''a'')] @ [Inr (JInt 8, example_block ''y'' ''b'')])"
  by (rule interrupted_scan_repeats [OF _ prod.collapse [symmetric]]) code_simp

text \<open>
  During a run a pending attempt without matches becomes confirmed exactly when one
  transaction of the scanned blocks pays its destination and no other pending attempt shares it;
  paying it twice in that transaction is still one match.
\<close>

theorem pending_confirmed_iff:
  assumes tip: "bs_block_count node = Inr tip"
    and i: "i < length es" "is_pending (es ! i)" "destination_matches (es ! i) = []"
  shows "ev_status (snd (confirm_rounds_in_blocks es node scanned) ! i) = Some ''confirmed'' \<longleftrightarrow>
    (\<exists>a m. destination_address (es ! i) = Some a \<and> \<not> shared (filter is_pending es) a
       \<and> set (payments (blocks_above node scanned tip) a) = {m})"
  using i(1,2) i(2) [unfolded is_pending_status]
  by (auto simp: confirm_eventwise [OF tip] status_reconciled [OF heights_blocks_above] i(3)
      card_merge_one split: option.splits)

definition example_node :: block_source where
  "example_node = \<lparr>bs_block_count = Inr 7, bs_block_hash = (\<lambda>h. Inr ''h''),
     bs_block_info = (\<lambda>h. Inr (example_block ''x'' ''a''))\<rparr>"

theorem pending_confirmed_iff_witness:
  "ev_status (snd (confirm_rounds_in_blocks example_events example_node 6) ! 0) = Some ''confirmed'' \<longleftrightarrow>
    (\<exists>a m. destination_address (example_events ! 0) = Some a \<and> \<not> shared (filter is_pending example_events) a
       \<and> set (payments (blocks_above example_node 6 7) a) = {m})"
  by (rule pending_confirmed_iff) (code_simp+)

text \<open>
  Confirmation never takes a round back: whatever the node answers, settled events stay
  as they are and the number of confirmed rounds does not fall, so the run's round limit is only
  ever approached.
\<close>

theorem confirmation_is_monotone:
  assumes "confirm_rounds_in_blocks es node scanned = (r, es')"
  shows "count_confirmed_rounds es \<le> count_confirmed_rounds es' \<and>
    (\<forall>i < length es. \<not> is_pending (es ! i) \<longrightarrow> es' ! i = es ! i)"
proof
  show "count_confirmed_rounds es \<le> count_confirmed_rounds es'"
    unfolding count_confirmed_status
  proof (rule filter_length_mono)
    show "length es = length es'" using confirm_length [OF assms] by simp
  next
    fix i assume i: "i < length es" and c: "ev_status (es ! i) = Some ''confirmed''"
    then have "\<not> is_pending (es ! i)" by (simp add: is_pending_status)
    from confirm_keeps_settled [OF assms i this] c show "ev_status (es' ! i) = Some ''confirmed''"
      by simp
  qed
next
  show "\<forall>i < length es. \<not> is_pending (es ! i) \<longrightarrow> es' ! i = es ! i"
    using confirm_keeps_settled [OF assms] by blast
qed

theorem confirmation_is_monotone_witness:
  "count_confirmed_rounds [fail_event ''r'' 3 (example_event ''b'')] \<le>
     count_confirmed_rounds (snd (confirm_rounds_in_blocks [fail_event ''r'' 3 (example_event ''b'')] example_node 6))"
  by (rule conjunct1 [OF confirmation_is_monotone [OF prod.collapse [symmetric]]])

text \<open>
  Failing a taker's attempt changes exactly one event, the latest pending one of that
  taker, which keeps its destination so that a transaction mined later is still found; without a
  pending attempt nothing changes.
\<close>

theorem mark_latest_changes_one:
  assumes "is_pending e" "dget e ''taker'' = JStr taker"
    and "\<forall>y\<in>set ys. \<not> (is_pending y \<and> dget y ''taker'' = JStr taker)"
  shows "mark_latest_started_round_failed (xs @ e # ys) taker reason stop =
    (Some (fail_event reason stop e), xs @ fail_event reason stop e # ys)"
  using assms mark_first_none [of "rev ys" taker "e # rev xs" reason stop]
  by (simp add: mark_latest_started_round_failed_def is_pending_def Let_def)

theorem mark_latest_changes_one_witness:
  "mark_latest_started_round_failed ([example_event ''a''] @ example_event ''b'' # [fail_event ''r'' 1 (example_event ''c'')])
     ''t'' ''timeout'' 9 =
   (Some (fail_event ''timeout'' 9 (example_event ''b'')),
    [example_event ''a''] @ fail_event ''timeout'' 9 (example_event ''b'') # [fail_event ''r'' 1 (example_event ''c'')])"
  by (rule mark_latest_changes_one) (code_simp+)

text \<open>
  The label evidence is declared complete exactly when nothing could have been missed:
  no taker without labels, no event without a destination, and no event in conflict.
\<close>

theorem evidence_complete_iff:
  "le_complete (producer_label_evidence es unlabelled) \<longleftrightarrow>
     unlabelled = [] \<and> (\<forall>e\<in>set es. destination_address e \<noteq> None \<and>
        ev_status e \<notin> {Some ''duplicate_destination'', Some ''multiple_matches''})"
  by (auto simp: producer_label_evidence_def incomplete_reasons_def partition_filter Let_def
      filter_empty_conv)

theorem evidence_complete_iff_witness:
  "le_complete (producer_label_evidence example_events []) \<longleftrightarrow>
     ([] :: string list) = [] \<and> (\<forall>e\<in>set example_events. destination_address e \<noteq> None \<and>
        ev_status e \<notin> {Some ''duplicate_destination'', Some ''multiple_matches''})"
  by (rule evidence_complete_iff)

end
