(* ===== verification/JmClient.thy ===== *)
theory JmClient
  imports Config RoundEvents
begin

text \<open>
  The JoinMarket wallet client's own state and its decisions, from
  \<open>manager/wasabi_clients/joinmarket_clients/joinmarket_client_base.py\<close>: the attributes of
  \<open>JoinMarketClientServer\<close>, how \<open>from_wallet\<close> fills them from a scenario wallet, when a wallet is
  paused, and the records it keeps of the rounds it starts.
\<close>

section \<open>The client's attributes\<close>

record bond =
  bd_amount :: int
  bd_locktime :: json
  bd_creation :: int
  bd_funded :: bool

text \<open>
  \<open>delay\<close> and \<open>stop\<close> are (blocks, rounds). The two flags a session answer sets are kept as truth
  values, which is all the code asks of them.
\<close>

record jm_client =
  cl_name :: string
  cl_walletname :: string
  cl_type :: string
  cl_maker_running :: bool
  cl_in_process :: bool
  cl_start :: int
  cl_delay :: "int \<times> int"
  cl_stop :: "int \<times> int"
  cl_next_allowed :: int
  cl_between_rounds :: int
  cl_timeout_blocks :: int
  cl_token :: json
  cl_refresh_token :: json
  cl_offers :: "dict list"
  cl_tumbler :: "dict option"
  cl_history :: "(json \<times> json) list"
  cl_seed :: json
  cl_has_bonds :: bool
  cl_max_coinjoins :: int
  cl_completed :: int
  cl_bonds :: "(string \<times> bond) list"
  cl_events :: "round_event list"
  cl_last_schedule :: json
  cl_coinjoin_completed :: bool

definition WALLET_NAME :: string where "WALLET_NAME = ''wallet''"
definition DEFAULT_COINJOIN_TIMEOUT_BLOCKS :: int where "DEFAULT_COINJOIN_TIMEOUT_BLOCKS = 8"
definition BTC :: int where "BTC = 100000000"

text \<open>\<open>__init__\<close>; the subclasses' constructors only reset \<open>maker_running\<close> and the tumbler's fields.\<close>

definition init_client ::
    "string \<Rightarrow> string \<Rightarrow> int \<times> int \<Rightarrow> int \<times> int \<Rightarrow> dict list \<Rightarrow> dict option \<Rightarrow> int \<Rightarrow> int \<Rightarrow> bool \<Rightarrow> int
       \<Rightarrow> exn + jm_client" where
  "init_client name type delay stop offers tumbler between timeout bonds max_cj =
     (if timeout \<le> 0 then Inl (Exn KValueError ''coinjoin_timeout_blocks must be positive'')
      else Inr \<lparr>cl_name = name, cl_walletname = WALLET_NAME, cl_type = type, cl_maker_running = False,
        cl_in_process = False, cl_start = 0, cl_delay = delay, cl_stop = stop,
        cl_next_allowed = fst delay, cl_between_rounds = between, cl_timeout_blocks = timeout,
        cl_token = JStr [], cl_refresh_token = JStr [], cl_offers = offers,
        cl_tumbler = (case tumbler of Some d \<Rightarrow> if d = [] then None else Some d | None \<Rightarrow> None),
        cl_history = [], cl_seed = JStr [], cl_has_bonds = bonds, cl_max_coinjoins = max_cj,
        cl_completed = 0, cl_bonds = [], cl_events = [], cl_last_schedule = JNull,
        cl_coinjoin_completed = True\<rparr>)"

section \<open>From a scenario wallet\<close>

definition default_offers :: "string \<Rightarrow> dict list" where
  "default_offers role =
     (if role = ''maker'' then
        [[(''txfee'', JInt 0), (''cjfee_a'', JInt 5000), (''cjfee_r'', JFloat (4 / 100000)),
          (''ordertype'', JStr ''sw0reloffer''), (''minsize'', JInt 30000), (''maxsize'', JInt 3000000)]]
      else if role = ''taker'' then
        [[(''mixdepth'', JInt 0), (''amount_sats'', JInt 40000), (''counterparties'', JInt 4)]]
      else [])"

text \<open>\<open>[dict(offer) for offer in offers]\<close>: entries that are no objects are TypeErrors.\<close>

fun offer_dict :: "json \<Rightarrow> exn + dict" where
  "offer_dict (JDict d) = Inr d"
| "offer_dict _ = Inl (Exn KTypeError ''offer'')"

definition offers_for_wallet :: "joinmarket_config option \<Rightarrow> string \<Rightarrow> exn + dict list" where
  "offers_for_wallet jm role =
     (let offers = py_or (case jm of None \<Rightarrow> JNull | Some c \<Rightarrow> jc_offers c) (JList [])
      in case py_iter offers of
           None \<Rightarrow> Inl (Exn KTypeError ''offers'')
         | Some xs \<Rightarrow> ebind (traverse offer_dict xs) (\<lambda>configured.
             Inr (if configured = [] then default_offers role else configured)))"

datatype client_kind = MakerKind | TakerKind | TumblerKind

definition wallet_role :: "wallet_config \<Rightarrow> string" where
  "wallet_role w =
     (case w_joinmarket w of
        None \<Rightarrow> ''maker''
      | Some c \<Rightarrow> (case jc_role c of None \<Rightarrow> ''maker'' | Some r \<Rightarrow> role_value r))"

definition wallet_tumbler :: "wallet_config \<Rightarrow> json" where
  "wallet_tumbler w =
     py_or (case w_joinmarket w of None \<Rightarrow> JNull | Some c \<Rightarrow> jc_tumbler_options c) (JDict [])"

definition client_kind_of :: "wallet_config \<Rightarrow> client_kind" where
  "client_kind_of w =
     (if wallet_role w = ''maker'' then MakerKind
      else if truthy (wallet_tumbler w) then TumblerKind else TakerKind)"

definition has_fidelity_bond :: "wallet_config \<Rightarrow> exn + bool" where
  "has_fidelity_bond w =
     (case py_or (case w_joinmarket w of None \<Rightarrow> JNull | Some c \<Rightarrow> jc_fidelity_bond c) (JDict []) of
        JDict d \<Rightarrow> Inr (truthy (dget_default d ''enabled'' (JBool False)))
      | _ \<Rightarrow> Inl (Exn KAttributeError ''get''))"

text \<open>\<open>uuid4\<close> gives the suffix of a tumbler's schedule file; it is the argument \<open>suffix\<close>.\<close>

definition tumbler_with_schedule :: "string \<Rightarrow> (json \<Rightarrow> string) \<Rightarrow> dict \<Rightarrow> dict option" where
  "tumbler_with_schedule suffix str options =
     (if options = [] then None
      else Some (dset options ''schedulefile''
             (JStr (str (dget_default options ''schedulefile'' (JStr ''TUMBLE.schedule'')) @ ''_'' @ suffix))))"

definition client_for_wallet ::
    "(json \<Rightarrow> string) \<Rightarrow> string \<Rightarrow> string \<Rightarrow> wallet_config \<Rightarrow> exn + client_kind \<times> jm_client" where
  "client_for_wallet str suffix name w =
     ebind (has_fidelity_bond w) (\<lambda>bonds.
     ebind (int_setting (w_delay_blocks w)) (\<lambda>db.
     ebind (int_setting (w_delay_rounds w)) (\<lambda>dr.
     ebind (int_setting (w_stop_blocks w)) (\<lambda>sb.
     ebind (int_setting (w_stop_rounds w)) (\<lambda>sr.
     ebind (offers_for_wallet (w_joinmarket w) (wallet_role w)) (\<lambda>offers.
     ebind (int_setting (case w_joinmarket w of None \<Rightarrow> JNull | Some c \<Rightarrow> jc_time_between_rounds c)) (\<lambda>between.
     ebind (int_setting (case w_joinmarket w of None \<Rightarrow> JNull | Some c \<Rightarrow> jc_max_coinjoins c)) (\<lambda>max_cj.
     ebind (init_client name (wallet_role w) (db, dr) (sb, sr) offers
              (case wallet_tumbler w of JDict d \<Rightarrow> Some d | _ \<Rightarrow> None) between
              (case Option.bind (w_joinmarket w) jc_timeout_blocks of
                 None \<Rightarrow> DEFAULT_COINJOIN_TIMEOUT_BLOCKS | Some n \<Rightarrow> n) bonds max_cj) (\<lambda>c.
     Inr (client_kind_of w,
          if client_kind_of w = TumblerKind
          then c\<lparr>cl_tumbler := Option.bind (cl_tumbler c) (tumbler_with_schedule suffix str)\<rparr>
          else c))))))))))"

section \<open>When a wallet may mix\<close>

definition coinjoin_timed_out :: "jm_client \<Rightarrow> int \<Rightarrow> bool" where
  "coinjoin_timed_out c current_block = (cl_start c + cl_timeout_blocks c < current_block)"

definition outside_schedule :: "jm_client \<Rightarrow> int \<Rightarrow> int \<Rightarrow> bool" where
  "outside_schedule c current_block current_round =
     (case (cl_delay c, cl_stop c) of ((start_block, start_round), (stop_block, stop_round)) \<Rightarrow>
        current_block < start_block \<or> current_round < start_round
        \<or> (0 < stop_block \<and> stop_block \<le> current_block)
        \<or> (0 < stop_round \<and> stop_round \<le> current_round))"

definition is_paused :: "jm_client \<Rightarrow> int \<Rightarrow> int \<Rightarrow> bool" where
  "is_paused c current_block current_round =
     (if outside_schedule c current_block current_round then True
      else if current_block < cl_next_allowed c then True
      else if 0 < cl_max_coinjoins c \<and> cl_max_coinjoins c \<le> cl_completed c then True
      else False)"

definition get_offer :: "jm_client \<Rightarrow> int \<Rightarrow> exn + nat" where
  "get_offer c rnd =
     (if cl_offers c = [] then Inl (Exn KZeroDivision ''integer modulo by zero'')
      else Inr (nat (rnd mod int (length (cl_offers c)))))"

section \<open>The rounds it records\<close>

definition record_round_start ::
    "json \<Rightarrow> json \<Rightarrow> json \<Rightarrow> json \<Rightarrow> int \<Rightarrow> json \<Rightarrow> jm_client \<Rightarrow> nat \<times> jm_client" where
  "record_round_start destination amount counterparties mixdepth current_block chain_height c =
     (let event =
        [(''round_id'', JInt (int (length (cl_events c)) + 1)), (''engine'', JStr ''joinmarket''),
         (''status'', JStr ''started''), (''execution_status'', JStr ''requested''),
         (''taker'', JStr (cl_name c)), (''destination_address'', destination),
         (''amount_sats'', amount), (''counterparties'', counterparties), (''mixdepth'', mixdepth),
         (''start_block'', JInt current_block), (''start_chain_height'', chain_height)]
      in (length (cl_events c), c\<lparr>cl_events := cl_events c @ [event]\<rparr>))"

text \<open>The event is named by its position in \<open>round_events\<close>.\<close>

definition record_round_start_outcome :: "nat \<Rightarrow> bool \<Rightarrow> jm_client \<Rightarrow> jm_client" where
  "record_round_start_outcome i acknowledged c =
     c\<lparr>cl_events := (cl_events c)[i := dset (cl_events c ! i) ''execution_status''
         (JStr (if acknowledged then ''started'' else ''unknown''))]\<rparr>"

definition has_unconfirmed_round :: "jm_client \<Rightarrow> bool" where
  "has_unconfirmed_round c = list_ex (\<lambda>e. dget e ''status'' = JStr ''started'') (cl_events c)"

definition has_unconfirmed_finished_attempt :: "jm_client \<Rightarrow> bool" where
  "has_unconfirmed_finished_attempt c = (has_unconfirmed_round c \<and> \<not> cl_in_process c)"

definition unconfirmed_finished_attempt_result :: "jm_client \<Rightarrow> int \<Rightarrow> int" where
  "unconfirmed_finished_attempt_result c current_block =
     (if coinjoin_timed_out c current_block then -1 else 0)"

definition confirmed_rounds :: "jm_client \<Rightarrow> nat" where
  "confirmed_rounds c = length (filter (\<lambda>e. dget e ''status'' = JStr ''confirmed'') (cl_events c))"

definition refresh_completed_coinjoins :: "jm_client \<Rightarrow> jm_client" where
  "refresh_completed_coinjoins c =
     (let confirmed = int (confirmed_rounds c)
      in if cl_completed c < confirmed then c\<lparr>cl_completed := confirmed\<rparr> else c)"

section \<open>What the client keeps\<close>

text \<open>
  The invariant of a taker's records: at most one attempt is pending, and the rounds are numbered
  from one in the order they were started.
\<close>

definition pending_rounds :: "jm_client \<Rightarrow> nat" where
  "pending_rounds c = length (filter is_pending (cl_events c))"

definition rounds_ok :: "jm_client \<Rightarrow> bool" where
  "rounds_ok c =
     (pending_rounds c \<le> 1 \<and>
      (\<forall>i < length (cl_events c). dget (cl_events c ! i) ''round_id'' = JInt (int i + 1)))"

lemma has_unconfirmed_iff: "has_unconfirmed_round c \<longleftrightarrow> 0 < pending_rounds c"
  by (auto simp: has_unconfirmed_round_def pending_rounds_def list_ex_iff is_pending_def
      length_greater_0_conv filter_empty_conv)

lemma init_client_ok: "init_client n t d s os tu b to fb m = Inr c \<Longrightarrow> rounds_ok c \<and> 0 < cl_timeout_blocks c"
  by (auto simp: init_client_def rounds_ok_def pending_rounds_def split: if_splits)

lemma record_round_start_ok:
  assumes "rounds_ok c" "\<not> has_unconfirmed_round c"
    and "record_round_start d a k m b h c = (i, c')"
  shows "rounds_ok c'" "i = length (cl_events c)" "length (cl_events c') = Suc i"
    "take i (cl_events c') = cl_events c" "is_pending (cl_events c' ! i)"
  using assms
  by (auto simp: record_round_start_def Let_def rounds_ok_def pending_rounds_def has_unconfirmed_iff
      nth_append less_Suc_eq is_pending_def)

lemma pending_upd:
  assumes "i < length es" "is_pending e = is_pending (es ! i)"
  shows "length (filter is_pending (es[i := e])) = length (filter is_pending es)"
proof -
  have "es = take i es @ es ! i # drop (Suc i) es" using assms(1) by (rule id_take_nth_drop)
  then have "filter is_pending es =
      filter is_pending (take i es) @ filter is_pending [es ! i] @ filter is_pending (drop (Suc i) es)"
    by (metis append_Cons append_Nil filter_append)
  then show ?thesis
    using assms by (simp add: upd_conv_take_nth_drop)
qed

lemma record_outcome_ok:
  assumes "rounds_ok c"
  shows "rounds_ok (record_round_start_outcome i ack c)"
proof (cases "i < length (cl_events c)")
  case True
  have "pending_rounds (record_round_start_outcome i ack c) = pending_rounds c"
    by (simp add: pending_rounds_def record_round_start_outcome_def pending_upd [OF True] is_pending_def)
  then show ?thesis
    using assms True by (auto simp: rounds_ok_def record_round_start_outcome_def nth_list_update)
next
  case False
  then show ?thesis using assms by (simp add: record_round_start_outcome_def list_update_beyond)
qed

lemma refresh_ok: "rounds_ok c \<Longrightarrow> rounds_ok (refresh_completed_coinjoins c)"
  by (simp add: refresh_completed_coinjoins_def Let_def rounds_ok_def pending_rounds_def)

text \<open>The first possible block of a wallet is the start of its schedule; a stop of 0 means none.\<close>

lemma outside_schedule_iff:
  assumes "cl_stop c = (0, 0)" "cl_delay c = (b, r)"
  shows "outside_schedule c block rnd \<longleftrightarrow> block < b \<or> rnd < r"
  using assms by (simp add: outside_schedule_def)

lemma limit_pauses: "0 < cl_max_coinjoins c \<Longrightarrow> cl_max_coinjoins c \<le> cl_completed c \<Longrightarrow> is_paused c b r"
  by (simp add: is_paused_def)

end
