(* ===== verification/Kept.thy ===== *)
theory Kept
  imports Prelude
begin

text \<open>
  What a call keeps of the state it runs on: a relation between the state before and after,
  whatever the rest of the world does and whether the call returns or raises.
\<close>

section \<open>Calls that keep a relation\<close>

definition keeps :: "('s \<Rightarrow> 's \<Rightarrow> bool) \<Rightarrow> ('w \<times> 's, 'a) io \<Rightarrow> bool" where
  "keeps R m = (\<forall>w c. R c (snd (snd (m (w, c)))))"

lemma keepsI: "(\<And>w c r w' c'. m (w, c) = (r, (w', c')) \<Longrightarrow> R c c') \<Longrightarrow> keeps R m"
  unfolding keeps_def by (metis prod.collapse)

lemma keepsD: "keeps R m \<Longrightarrow> m (w, c) = (r, (w', c')) \<Longrightarrow> R c c'"
  unfolding keeps_def by (metis snd_conv)

lemma keeps_client: "(\<And>a. keeps R (f a)) \<Longrightarrow> keeps R (\<lambda>(w, c). f c (w, c))"
  by (simp add: keeps_def)

lemma keeps_mono: "keeps R m \<Longrightarrow> (\<And>a b. R a b \<Longrightarrow> S a b) \<Longrightarrow> keeps S m"
  by (simp add: keeps_def)

text \<open>
  A reflexive and transitive relation between the client before and after a call is kept by every
  way the code composes calls.
\<close>

locale kept_relation =
  fixes R :: "'s \<Rightarrow> 's \<Rightarrow> bool"
  assumes refl_R: "R c c"
    and trans_R: "R a b \<Longrightarrow> R b c \<Longrightarrow> R a c"
begin

lemma kept_ret: "keeps R (io_ret x)"
  by (simp add: keeps_def io_ret_def refl_R)

lemma kept_raise: "keeps R (io_raise e)"
  by (simp add: keeps_def io_raise_def refl_R)

lemma kept_lift: "keeps R (io_lift r)"
  by (simp add: keeps_def io_lift_def refl_R)

lemma kept_diverge: "keeps R diverge"
  by (simp add: diverge_def kept_raise)

lemma kept_bind:
  assumes "keeps R m" "\<And>x. keeps R (f x)"
  shows "keeps R (io_bind m f)"
proof (rule keepsI)
  fix w c r w' c'
  assume run: "io_bind m f (w, c) = (r, w', c')"
  obtain r1 w1 c1 where m: "m (w, c) = (r1, w1, c1)" by (metis prod_cases3)
  have 1: "R c c1" using assms(1) m by (rule keepsD)
  show "R c c'"
  proof (cases r1)
    case (Inl e)
    then show ?thesis using run m 1 by (simp add: io_bind_def)
  next
    case (Inr x)
    then have "f x (w1, c1) = (r, w', c')" using run m by (simp add: io_bind_def)
    then have "R c1 c'" by (rule keepsD [OF assms(2)])
    then show ?thesis using 1 trans_R by blast
  qed
qed

lemma kept_seq: "keeps R m \<Longrightarrow> keeps R n \<Longrightarrow> keeps R (io_seq m n)"
  unfolding io_seq_def by (rule kept_bind)

lemma kept_catch:
  assumes "keeps R m" "\<And>e. keeps R (h e)"
  shows "keeps R (io_catch m p h)"
proof (rule keepsI)
  fix w c r w' c'
  assume run: "io_catch m p h (w, c) = (r, w', c')"
  obtain r1 w1 c1 where m: "m (w, c) = (r1, w1, c1)" by (metis prod_cases3)
  have 1: "R c c1" using assms(1) m by (rule keepsD)
  show "R c c'"
  proof (cases "\<exists>e. r1 = Inl e \<and> p e")
    case True
    then obtain e where "h e (w1, c1) = (r, w', c')" using run m by (auto simp: io_catch_def)
    then have "R c1 c'" by (rule keepsD [OF assms(2)])
    then show ?thesis using 1 trans_R by blast
  next
    case False
    then show ?thesis using run m 1 by (cases r1) (auto simp: io_catch_def)
  qed
qed

lemma kept_for: "(\<And>x. keeps R (f x)) \<Longrightarrow> keeps R (io_for f xs)"
  by (induction xs) (auto intro!: kept_bind kept_ret)

lemma kept_pool:
  assumes "\<And>x. keeps R (f x)"
  shows "keeps R (io_pool f xs)"
proof (induction xs)
  case Nil
  show ?case by (simp add: kept_ret)
next
  case (Cons x xs)
  show ?case
  proof (rule keepsI)
    fix w c r w' c'
    assume run: "io_pool f (x # xs) (w, c) = (r, (w', c'))"
    obtain r1 w1 c1 where m: "f x (w, c) = (r1, (w1, c1))" by (metis prod_cases3)
    obtain q w2 c2 where n: "io_pool f xs (w1, c1) = (q, (w2, c2))" by (metis prod_cases3)
    have "c' = c2" using run m n by (simp split: sum.splits)
    then show "R c c'" using keepsD [OF assms m] keepsD [OF Cons.IH n] trans_R by blast
  qed
qed

lemma kept_traverse: "(\<And>x. keeps R (f x)) \<Longrightarrow> keeps R (io_traverse f xs)"
  by (induction xs) (auto intro!: kept_bind kept_ret)

lemma kept_retry:
  assumes "keeps R body" "keeps R final" and pause: "\<And>w c. snd (pause (w, c)) = c"
  shows "keeps R (retry_while n go body pause final)"
proof (induction n)
  case 0
  then show ?case by (simp add: kept_diverge)
next
  case (Suc n)
  show ?case
  proof (rule keepsI)
    fix w c r w' c'
    assume run: "retry_while (Suc n) go body pause final (w, c) = (r, w', c')"
    obtain r1 w1 c1 where m: "body (w, c) = (r1, w1, c1)" by (metis prod_cases3)
    have 1: "R c c1" using assms(1) m by (rule keepsD)
    obtain w2 where p: "pause (w1, c1) = (w2, c1)" using pause [of w1 c1] by (metis prod.collapse)
    have 2: "R c1 c'" if "retry_while n go body pause final (w2, c1) = (r, w', c')"
      using Suc.IH that by (rule keepsD)
    show "R c c'"
      using run m p 1 2 trans_R keepsD [OF assms(2), of w c]
      by (cases r1) (auto split: if_splits)
  qed
qed

lemma kept_if: "keeps R m \<Longrightarrow> keeps R n \<Longrightarrow> keeps R (if b then m else n)"
  by simp

lemmas kept_intros = kept_if kept_ret kept_raise kept_lift kept_diverge kept_bind kept_seq kept_catch
  kept_traverse kept_for kept_pool keeps_client

end

text \<open>Calls that only append things of a kind to a list.\<close>

definition adds :: "('a \<Rightarrow> bool) \<Rightarrow> 'a list \<Rightarrow> 'a list \<Rightarrow> bool" where
  "adds P l l' = (\<exists>a. l' = l @ a \<and> (\<forall>x\<in>set a. P x))"

interpretation adding: kept_relation "adds P"
proof
  show "adds P c c" for c by (simp add: adds_def)
  show "adds P a b \<Longrightarrow> adds P b c \<Longrightarrow> adds P a c" for a b c
    unfolding adds_def by (metis Un_iff append.assoc set_append)
qed

lemma adds_mono: "adds P l l' \<Longrightarrow> (\<And>x. P x \<Longrightarrow> Q x) \<Longrightarrow> adds Q l l'"
  by (auto simp: adds_def)

end
