(* ===== verification/JmRpc.thy ===== *)
theory JmRpc
  imports JmClient Kept
begin

text \<open>
  The JSON-RPC transport of the JoinMarket client, \<open>_rpc\<close> and \<open>_rpc_async\<close> of
  \<open>joinmarket_client_base.py\<close>: what an HTTP answer of jmwalletd means, the retries, the unlocking
  of the wallet on an authentication failure, the start of a wallet with its exponential backoff,
  and the wrappers of the endpoints.

  The network is the world \<open>'w\<close>; \<open>requests.request\<close> and \<open>httpx\<close> are the field \<open>net_request\<close>. The
  state of a call is the world together with the client whose token it uses.
\<close>

section \<open>One answer\<close>

record http_response =
  rs_status :: int
  rs_www_auth :: bool
  rs_text :: string
  rs_json :: "json option"

record 'w jm_net =
  net_request :: "string \<Rightarrow> string \<Rightarrow> json \<Rightarrow> json \<Rightarrow> ('w, http_response) io"
  net_sleep :: "rat \<Rightarrow> 'w \<Rightarrow> 'w"
  net_clock :: "'w \<Rightarrow> rat"

type_synonym ('w, 'a) client_io = "('w \<times> jm_client, 'a) io"
type_synonym 'w rpc = "string \<Rightarrow> string \<Rightarrow> json \<Rightarrow> nat \<Rightarrow> ('w, json) client_io"

definition is_auth_failure :: "int \<Rightarrow> bool \<Rightarrow> json option \<Rightarrow> bool" where
  "is_auth_failure status www body =
     (status = 401 \<and>
      (www \<or> (case body of
                 Some (JDict d) \<Rightarrow> dget_default d ''message'' (JStr []) = JStr ''Invalid credentials.''
               | _ \<Rightarrow> True)))"

text \<open>The text of a message that is no string plays no part and is left empty.\<close>

fun json_text :: "json \<Rightarrow> string" where
  "json_text (JStr s) = s"
| "json_text _ = []"

definition error_message :: "http_response \<Rightarrow> exn + string" where
  "error_message r =
     (case rs_json r of
        None \<Rightarrow> Inr (rs_text r)
      | Some (JDict d) \<Rightarrow> Inr (json_text (py_or (dget d ''message'') (JStr (rs_text r))))
      | Some _ \<Rightarrow> Inl (Exn KAttributeError ''get''))"

text \<open>What an attempt amounts to: an answer, an unlock, an error to retry, or one that escapes.\<close>

datatype verdict = Answer json | Unauthorized | Retry exn | Escape exn

definition error_verdict :: "exn \<Rightarrow> verdict" where
  "error_verdict e = (if exn_class e = KServiceState \<or> \<not> is_exception e then Escape e else Retry e)"

definition judge_unauthorized :: "http_response \<Rightarrow> verdict" where
  "judge_unauthorized r =
     (if is_auth_failure (rs_status r) (rs_www_auth r) (rs_json r) then Unauthorized
      else (case error_message r of Inr m \<Rightarrow> Escape (Exn KServiceState m) | Inl e \<Rightarrow> Retry e))"

definition judge_sync :: "http_response \<Rightarrow> verdict" where
  "judge_sync r =
     (if rs_status r = 401 then judge_unauthorized r
      else if rs_status r = 409
        then Retry (Exn KConflict (''Error '' @ str_int (rs_status r) @ '': '' @ rs_text r))
      else if 400 \<le> rs_status r
        then (case rs_json r of
                None \<Rightarrow> Retry (Exn KException (''Error '' @ str_int (rs_status r) @ '': '' @ rs_text r))
              | Some (JDict d) \<Rightarrow> Retry (Exn KException (''Error '' @ str_int (rs_status r) @ '': ''
                  @ json_text (dget_default d ''message'' (JStr ''Unknown error''))))
              | Some _ \<Rightarrow> Retry (Exn KAttributeError ''get''))
      else (case rs_json r of Some j \<Rightarrow> Answer j | None \<Rightarrow> Retry (Exn KValueError ''json'')))"

definition judge_async :: "http_response \<Rightarrow> verdict" where
  "judge_async r =
     (if rs_status r = 401 then judge_unauthorized r
      else if rs_status r = 409
        then Retry (Exn KConflict (''Error '' @ str_int (rs_status r) @ '': '' @ rs_text r))
      else if 400 \<le> rs_status r
        then Retry (Exn KException (''HTTP Error '' @ str_int (rs_status r) @ '': '' @ rs_text r))
      else (case rs_json r of Some j \<Rightarrow> Answer j | None \<Rightarrow> Retry (Exn KValueError ''json'')))"

section \<open>The retry loop\<close>

text \<open>\<open>range(repeat)\<close> with \<open>k\<close> attempts left; \<open>hdr\<close> is the token in the header, \<open>JNull\<close> for none.\<close>

fun rpc_attempts ::
    "(http_response \<Rightarrow> verdict) \<Rightarrow> ('w, json) client_io \<Rightarrow> 'w jm_net \<Rightarrow> string \<Rightarrow> string \<Rightarrow> json \<Rightarrow> nat
       \<Rightarrow> json \<Rightarrow> ('w, json) client_io" where
  "rpc_attempts judge unlock net m ep data 0 hdr =
     io_raise (Exn KRpcError (m @ '' '' @ ep @ '' stayed unauthorized''))"
| "rpc_attempts judge unlock net m ep data (Suc k) hdr =
     (\<lambda>(w, c). case net_request net m ep (py_or data (JDict [])) hdr w of (r, w1) \<Rightarrow>
        let on_error = (\<lambda>v (w, c). case v of
              Retry e \<Rightarrow> if k = 0 then (Inl e, (w, c))
                         else rpc_attempts judge unlock net m ep data k hdr (net_sleep net 1 w, c)
            | Escape e \<Rightarrow> (Inl e, (w, c))
            | Answer j \<Rightarrow> (Inr j, (w, c))
            | Unauthorized \<Rightarrow>
                (case unlock (w, c) of
                   (Inr _, (w', c')) \<Rightarrow> rpc_attempts judge unlock net m ep data k (cl_token c') (w', c')
                 | (Inl e, (w', c')) \<Rightarrow>
                     if exn_class e = KServiceState \<or> \<not> is_exception e \<or> k = 0 then (Inl e, (w', c'))
                     else rpc_attempts judge unlock net m ep data k hdr (net_sleep net 1 w', c')))
        in on_error (case r of Inl e \<Rightarrow> error_verdict e | Inr resp \<Rightarrow> judge resp) (w1, c))"

definition auth_header :: "jm_client \<Rightarrow> json" where
  "auth_header c = (if truthy (cl_token c) then cl_token c else JNull)"

fun response_get :: "json \<Rightarrow> string \<Rightarrow> json \<Rightarrow> exn + json" where
  "response_get (JDict d) k v = Inr (dget_default d k v)"
| "response_get _ k v = Inl (Exn KAttributeError ''get'')"

definition set_client :: "(jm_client \<Rightarrow> jm_client) \<Rightarrow> ('w, unit) client_io" where
  "set_client f = (\<lambda>(w, c). (Inr (), (w, f c)))"

definition wallet_path :: "jm_client \<Rightarrow> string \<Rightarrow> string" where
  "wallet_path c suffix = ''/wallet/'' @ cl_walletname c @ suffix"

definition unlock_endpoint :: "jm_client \<Rightarrow> string" where
  "unlock_endpoint c = wallet_path c ''/unlock''"

definition store_tokens :: "json \<Rightarrow> ('w, unit) client_io" where
  "store_tokens response =
     io_bind (io_lift (response_get response ''token'' (JStr []))) (\<lambda>t.
     io_seq (set_client (\<lambda>c. c\<lparr>cl_token := t\<rparr>))
     (io_bind (io_lift (response_get response ''refresh_token'' (JStr []))) (\<lambda>r.
      set_client (\<lambda>c. c\<lparr>cl_refresh_token := r\<rparr>))))"

definition unlock_wallet :: "'w rpc \<Rightarrow> ('w, json) client_io" where
  "unlock_wallet rpc = (\<lambda>(w, c).
     io_bind (rpc ''POST'' (unlock_endpoint c) (JDict [(''password'', JStr ''password'')]) 4) (\<lambda>response.
     io_seq (store_tokens response) (io_ret response)) (w, c))"

text \<open>
  \<open>_rpc\<close> unlocks the wallet through \<open>_rpc\<close>: the recursion is cut at depth \<open>d\<close>.
\<close>

fun rpc_sync :: "nat \<Rightarrow> 'w jm_net \<Rightarrow> 'w rpc" where
  "rpc_sync 0 net m ep data repeat = diverge"
| "rpc_sync (Suc d) net m ep data repeat = (\<lambda>(w, c).
     rpc_attempts judge_sync (unlock_wallet (rpc_sync d net)) net m ep data repeat (auth_header c) (w, c))"

text \<open>
  \<open>_rpc_async\<close> unlocks the wallet while it holds \<open>_unlock_lock\<close>. A second unlock from within waits
  for a lock its own task holds, which never comes.
\<close>

definition rpc_locked :: "'w jm_net \<Rightarrow> 'w rpc" where
  "rpc_locked net m ep data repeat = (\<lambda>(w, c).
     rpc_attempts judge_async diverge net m ep data repeat (auth_header c) (w, c))"

definition rpc_async :: "'w jm_net \<Rightarrow> 'w rpc" where
  "rpc_async net m ep data repeat = (\<lambda>(w, c).
     rpc_attempts judge_async (unlock_wallet (rpc_locked net)) net m ep data repeat (auth_header c) (w, c))"

section \<open>What a call leaves alone\<close>

definition same_but_tokens :: "jm_client \<Rightarrow> jm_client \<Rightarrow> bool" where
  "same_but_tokens c c' = (c' = c\<lparr>cl_token := cl_token c', cl_refresh_token := cl_refresh_token c'\<rparr>)"

lemma same_refl [simp, intro]: "same_but_tokens c c"
  by (simp add: same_but_tokens_def)

lemma same_trans: "same_but_tokens a b \<Longrightarrow> same_but_tokens b c \<Longrightarrow> same_but_tokens a c"
proof -
  assume a: "same_but_tokens a b" and b: "same_but_tokens b c"
  have "c = b\<lparr>cl_token := cl_token c, cl_refresh_token := cl_refresh_token c\<rparr>"
    using b by (simp only: same_but_tokens_def)
  also have "\<dots> = a\<lparr>cl_token := cl_token c, cl_refresh_token := cl_refresh_token c\<rparr>"
    by (subst a [unfolded same_but_tokens_def]) simp
  finally show ?thesis by (simp only: same_but_tokens_def)
qed

lemma same_token_upd [simp]: "same_but_tokens c (c\<lparr>cl_token := t\<rparr>)"
  "same_but_tokens c (c\<lparr>cl_refresh_token := r\<rparr>)"
  by (simp_all add: same_but_tokens_def)

lemma keeps_set_client: "(\<And>c. R c (f c)) \<Longrightarrow> keeps R (set_client f)"
  by (simp add: keeps_def set_client_def)

interpretation tokens: kept_relation same_but_tokens
  by unfold_locales (auto intro: same_trans)

lemma store_tokens_keeps: "keeps same_but_tokens (store_tokens response)"
  unfolding store_tokens_def by (intro tokens.kept_intros keeps_set_client) simp_all

lemma rpc_attempts_keeps:
  assumes "keeps same_but_tokens unlock"
  shows "keeps same_but_tokens (rpc_attempts judge unlock net m ep data k hdr)"
proof (induction k arbitrary: hdr)
  case 0
  then show ?case by (simp add: keeps_def io_raise_def)
next
  case (Suc k)
  show ?case
  proof (rule keepsI)
    fix w c r w' c'
    assume run: "rpc_attempts judge unlock net m ep data (Suc k) hdr (w, c) = (r, w', c')"
    obtain q w1 where q: "net_request net m ep (py_or data (JDict [])) hdr w = (q, w1)" by fastforce
    define v where "v = (case q of Inl e \<Rightarrow> error_verdict e | Inr resp \<Rightarrow> judge resp)"
    have IH: "rpc_attempts judge unlock net m ep data k hdr' (w2, c2) = (r, w', c') \<Longrightarrow> same_but_tokens c2 c'"
      for hdr' w2 c2
      by (rule keepsD [OF Suc.IH])
    show "same_but_tokens c c'"
    proof (cases v)
      case Unauthorized
      obtain u w2 c2 where u: "unlock (w1, c) = (u, w2, c2)" by (metis prod_cases3)
      have "same_but_tokens c c2" using assms u by (rule keepsD)
      moreover have "same_but_tokens c2 c'"
        using run q u Unauthorized IH
        by (auto simp: v_def [symmetric] Let_def split: sum.splits if_splits)
      ultimately show ?thesis by (rule same_trans)
    qed (use run q IH in \<open>auto simp: v_def [symmetric] Let_def split: if_splits\<close>)
  qed
qed

lemma unlock_keeps:
  assumes "\<And>m ep data k. keeps same_but_tokens (rpc m ep data k)"
  shows "keeps same_but_tokens (unlock_wallet rpc)"
  unfolding unlock_wallet_def by (intro tokens.kept_intros assms store_tokens_keeps)

lemma rpc_sync_keeps: "keeps same_but_tokens (rpc_sync d net m ep data k)"
proof (induction d arbitrary: m ep data k)
  case (Suc d)
  show ?case
    unfolding rpc_sync.simps by (intro keeps_client rpc_attempts_keeps unlock_keeps Suc.IH)
qed (simp add: tokens.kept_diverge)

lemma rpc_async_keeps: "keeps same_but_tokens (rpc_async net m ep data k)"
proof -
  have "keeps same_but_tokens (rpc_locked net m ep data k)" for m ep data k
    unfolding rpc_locked_def by (intro keeps_client rpc_attempts_keeps tokens.kept_diverge)
  then show ?thesis
    unfolding rpc_async_def by (intro keeps_client rpc_attempts_keeps unlock_keeps)
qed

section \<open>Whether a call returns\<close>

text \<open>
  A network on which every request ends, and a daemon that never answers the unlock request itself
  with an authentication failure: then one level of unlocking is all a call needs.
\<close>

definition net_returns :: "'w jm_net \<Rightarrow> bool" where
  "net_returns net = (\<forall>m ep data hdr w. \<not> diverged (fst (net_request net m ep data hdr w)))"

definition unlock_accepted :: "(http_response \<Rightarrow> verdict) \<Rightarrow> 'w jm_net \<Rightarrow> string \<Rightarrow> bool" where
  "unlock_accepted judge net ep =
     (\<forall>data hdr w r w'. net_request net ''POST'' ep data hdr w = (Inr r, w') \<longrightarrow> judge r \<noteq> Unauthorized)"

definition returns_verdict :: "verdict \<Rightarrow> bool" where
  "returns_verdict v = (case v of Retry e \<Rightarrow> exn_class e \<noteq> KDiverged
     | Escape e \<Rightarrow> exn_class e \<noteq> KDiverged | _ \<Rightarrow> True)"

lemma rpc_attempts_returns:
  assumes net: "net_returns net"
    and judge: "\<And>r. returns_verdict (judge r)"
    and unlock: "\<And>w c. same_but_tokens c0 c \<Longrightarrow> \<not> diverged (fst (unlock (w, c)))"
    and keeps: "keeps same_but_tokens unlock"
  shows "same_but_tokens c0 c \<Longrightarrow> \<not> diverged (fst (rpc_attempts judge unlock net m ep data k hdr (w, c)))"
proof (induction k arbitrary: hdr w c)
  case (Suc k)
  obtain q w1 where q: "net_request net m ep (py_or data (JDict [])) hdr w = (q, w1)" by fastforce
  have qr: "\<not> diverged q"
    using net unfolding net_returns_def by (metis q fst_conv)
  define v where "v = (case q of Inl e \<Rightarrow> error_verdict e | Inr resp \<Rightarrow> judge resp)"
  have v: "returns_verdict v"
    using qr judge by (auto simp: v_def error_verdict_def returns_verdict_def split: sum.splits)
  note run = q v_def [symmetric]
  show ?case
  proof (cases v)
    case Unauthorized
    obtain u w2 c2 where u: "unlock (w1, c) = (u, w2, c2)" by (metis prod_cases3)
    have "same_but_tokens c0 c2"
      using Suc.prems keepsD [OF keeps u] by (rule same_trans)
    then show ?thesis
      using Suc.IH unlock [OF Suc.prems, of w1] Unauthorized
      by (auto simp: run u Let_def split: sum.splits)
  qed (use Suc v in \<open>auto simp: run returns_verdict_def Let_def\<close>)
qed (simp add: io_raise_def)

text \<open>The requests to an endpoint whose answers are never an authentication failure need no unlock.\<close>

lemma rpc_attempts_no_unlock:
  assumes "unlock_accepted judge net ep"
  shows "rpc_attempts judge unlock net ''POST'' ep data k hdr (w, c) =
    rpc_attempts judge unlock' net ''POST'' ep data k hdr (w, c)"
proof (induction k arbitrary: w c hdr)
  case (Suc k)
  obtain q w1 where q: "net_request net ''POST'' ep (py_or data (JDict [])) hdr w = (q, w1)" by fastforce
  define v where "v = (case q of Inl e \<Rightarrow> error_verdict e | Inr resp \<Rightarrow> judge resp)"
  have "judge resp \<noteq> Unauthorized" if "q = Inr resp" for resp
    using assms q that unfolding unlock_accepted_def by blast
  then have "v \<noteq> Unauthorized"
    by (auto simp: v_def error_verdict_def split: sum.splits)
  then show ?case
    using Suc by (cases v) (simp_all add: q v_def [symmetric] Let_def)
qed simp

lemma judge_returns: "returns_verdict (judge_sync r)" "returns_verdict (judge_async r)"
  by (auto simp: judge_sync_def judge_async_def judge_unauthorized_def error_message_def
      returns_verdict_def split: option.splits json.splits)

lemma not_diverged_bind:
  "\<not> diverged (fst (m s)) \<Longrightarrow> (\<And>x s'. m s = (Inr x, s') \<Longrightarrow> \<not> diverged (fst (f x s'))) \<Longrightarrow>
     \<not> diverged (fst (io_bind m f s))"
  by (auto simp: io_bind_def split: prod.splits sum.splits)

lemma store_tokens_returns: "\<not> diverged (fst (store_tokens response s))"
  by (cases response; cases s) (auto simp: store_tokens_def io_simps io_lift_def set_client_def)

lemma unlock_returns:
  assumes "\<And>data. \<not> diverged (fst (rpc ''POST'' (unlock_endpoint c) data 4 (w, c)))"
  shows "\<not> diverged (fst (unlock_wallet rpc (w, c)))"
proof -
  have "\<not> diverged (fst (io_seq (store_tokens response) (io_ret response) s))" for response s
    unfolding io_seq_def by (rule not_diverged_bind [OF store_tokens_returns]) (simp add: io_ret_def)
  then show ?thesis
    unfolding unlock_wallet_def prod.case by (intro not_diverged_bind assms)
qed

lemma same_walletname: "same_but_tokens c c' \<Longrightarrow> cl_walletname c' = cl_walletname c"
  unfolding same_but_tokens_def by (drule arg_cong [where f = cl_walletname]) simp

lemma unlock_endpoint_same: "same_but_tokens c c' \<Longrightarrow> unlock_endpoint c' = unlock_endpoint c"
  by (simp add: unlock_endpoint_def wallet_path_def same_walletname)

lemma rpc_sync_returns:
  assumes net: "net_returns net" and ok: "unlock_accepted judge_sync net (unlock_endpoint c)"
  shows "\<not> diverged (fst (rpc_sync (Suc (Suc d)) net m ep data k (w, c)))"
proof -
  have inner: "\<not> diverged (fst (rpc_sync (Suc d) net ''POST'' (unlock_endpoint c) data k (w, c')))"
    if "same_but_tokens c c'" for data k w c'
  proof -
    have "rpc_sync (Suc d) net ''POST'' (unlock_endpoint c) data k (w, c') =
        rpc_attempts judge_sync (io_ret JNull) net ''POST'' (unlock_endpoint c) data k (auth_header c') (w, c')"
      by (simp only: rpc_sync.simps prod.case) (rule rpc_attempts_no_unlock [OF ok])
    then show ?thesis
      using rpc_attempts_returns [OF net judge_returns(1), of c "io_ret JNull"] that
      by (simp add: io_ret_def keeps_def)
  qed
  have "\<not> diverged (fst (unlock_wallet (rpc_sync (Suc d) net) (w', c')))" if "same_but_tokens c c'" for w' c'
    by (rule unlock_returns, subst unlock_endpoint_same [OF that], rule inner [OF that])
  then show ?thesis
    unfolding rpc_sync.simps(2) [of "Suc d"] prod.case
    by (intro rpc_attempts_returns [OF net judge_returns(1)])
      (auto intro: unlock_keeps rpc_sync_keeps)
qed

lemma rpc_async_returns:
  assumes net: "net_returns net" and ok: "unlock_accepted judge_async net (unlock_endpoint c)"
  shows "\<not> diverged (fst (rpc_async net m ep data k (w, c)))"
proof -
  have inner: "\<not> diverged (fst (rpc_locked net ''POST'' (unlock_endpoint c) data k (w, c')))"
    if "same_but_tokens c c'" for data k w c'
  proof -
    have "rpc_locked net ''POST'' (unlock_endpoint c) data k (w, c') =
        rpc_attempts judge_async (io_ret JNull) net ''POST'' (unlock_endpoint c) data k (auth_header c') (w, c')"
      by (simp only: rpc_locked_def prod.case) (rule rpc_attempts_no_unlock [OF ok])
    then show ?thesis
      using rpc_attempts_returns [OF net judge_returns(2), of c "io_ret JNull"] that
      by (simp add: io_ret_def keeps_def)
  qed
  have "\<not> diverged (fst (unlock_wallet (rpc_locked net) (w', c')))" if "same_but_tokens c c'" for w' c'
    by (rule unlock_returns, subst unlock_endpoint_same [OF that], rule inner [OF that])
  moreover have "keeps same_but_tokens (unlock_wallet (rpc_locked net))"
    unfolding rpc_locked_def by (intro unlock_keeps keeps_client rpc_attempts_keeps tokens.kept_diverge)
  ultimately show ?thesis
    unfolding rpc_async_def prod.case
    by (intro rpc_attempts_returns [OF net judge_returns(2)]) auto
qed

text \<open>
  A daemon that answers every request with an authentication failure, the unlock included: the
  synchronous call recurses without end and the asynchronous one blocks on its own lock.
\<close>

definition always_unauthorized :: "'w jm_net \<Rightarrow> bool" where
  "always_unauthorized net =
     (\<forall>m ep data hdr w. \<exists>r w'. net_request net m ep data hdr w = (Inr r, w')
        \<and> rs_status r = 401 \<and> rs_www_auth r)"

lemma attempts_unauthorized:
  assumes net: "always_unauthorized net"
    and judge: "\<And>r. rs_status r = 401 \<Longrightarrow> rs_www_auth r \<Longrightarrow> judge r = Unauthorized"
    and unlock: "\<And>s. diverged (fst (unlock s))"
  shows "diverged (fst (rpc_attempts judge unlock net m ep data (Suc k) hdr (w, c)))"
proof -
  have "\<exists>r w'. net_request net m ep (py_or data (JDict [])) hdr w = (Inr r, w') \<and> rs_status r = 401 \<and> rs_www_auth r"
    using net by (simp add: always_unauthorized_def)
  then obtain r w' where q: "net_request net m ep (py_or data (JDict [])) hdr w = (Inr r, w')"
      "judge r = Unauthorized"
    using judge by blast
  obtain u w2 c2 where u: "unlock (w', c) = (u, w2, c2)" by (metis prod_cases3)
  have "diverged u" using unlock [of "(w', c)"] by (simp add: u)
  then obtain e where e: "u = Inl e" "exn_class e = KDiverged"
    by (cases u) auto
  then have "\<not> is_exception e" using not_diverged_exception by blast
  then show ?thesis using q u e by (simp add: Let_def)
qed

lemma unlock_diverges:
  assumes "\<And>s. diverged (fst (rpc ''POST'' (unlock_endpoint (snd s)) data 4 s))"
    and "data = JDict [(''password'', JStr ''password'')]"
  shows "diverged (fst (unlock_wallet rpc s))"
proof -
  obtain w c where s: "s = (w, c)" by (cases s)
  obtain r s' where r: "rpc ''POST'' (unlock_endpoint c) data 4 (w, c) = (r, s')" by (rule prod.exhaust)
  have "diverged r" using assms(1) [of s] by (simp add: s r)
  then show ?thesis
    using r assms(2) by (cases r) (simp_all add: unlock_wallet_def s io_bind_def)
qed

lemma judge_unauthorized_always:
  "rs_status r = 401 \<Longrightarrow> rs_www_auth r \<Longrightarrow> judge_sync r = Unauthorized"
  "rs_status r = 401 \<Longrightarrow> rs_www_auth r \<Longrightarrow> judge_async r = Unauthorized"
  by (simp_all add: judge_sync_def judge_async_def judge_unauthorized_def is_auth_failure_def)

lemma rpc_sync_recurses:
  assumes "always_unauthorized net"
  shows "diverged (fst (rpc_sync d net m ep data (Suc k) s))"
proof (induction d arbitrary: m ep data k s)
  case 0
  then show ?case by (simp add: diverge_def io_raise_def)
next
  case (Suc d)
  have "diverged (fst (unlock_wallet (rpc_sync d net) s))" for s
    using Suc.IH [where k = 3] by (intro unlock_diverges) (simp_all add: numeral_Bit0)
  then show ?case
    by (cases s) (simp only: rpc_sync.simps prod.case,
      rule attempts_unauthorized [OF assms judge_unauthorized_always(1)], simp_all)
qed

lemma rpc_async_deadlocks:
  assumes "always_unauthorized net"
  shows "diverged (fst (rpc_async net m ep data (Suc k) s))"
proof -
  have lock: "diverged (fst (rpc_locked net m ep data (Suc k) s))" for m ep data k s
    by (cases s) (simp only: rpc_locked_def prod.case,
      rule attempts_unauthorized [OF assms judge_unauthorized_always(2)], simp_all add: diverge_def io_raise_def)
  have "diverged (fst (unlock_wallet (rpc_locked net) s))" for s
    using lock [where k = 3] by (intro unlock_diverges) (simp_all add: numeral_Bit0)
  then show ?thesis
    by (cases s) (simp only: rpc_async_def prod.case,
      rule attempts_unauthorized [OF assms judge_unauthorized_always(2)], simp_all)
qed

section \<open>Properties\<close>

text \<open>
  Claim C14. Against a daemon that accepts the unlock request, every call returns on both
  transports, with at most one unlock inside another call: the recursion of \<open>_rpc\<close> through
  \<open>unlock_wallet\<close> is then two levels deep, and the lock of the asynchronous one is never taken twice.
\<close>

theorem calls_return:
  assumes "net_returns net"
    and "unlock_accepted judge_sync net (unlock_endpoint c)"
    and "unlock_accepted judge_async net (unlock_endpoint c)"
  shows "\<not> diverged (fst (rpc_sync (Suc (Suc d)) net m ep data k (w, c)))
    \<and> \<not> diverged (fst (rpc_async net m ep data k (w, c)))"
  using rpc_sync_returns [OF assms(1,2)] rpc_async_returns [OF assms(1,3)] by blast

definition answering_net :: "http_response \<Rightarrow> unit jm_net" where
  "answering_net r = \<lparr>net_request = (\<lambda>m ep data hdr. io_ret r), net_sleep = (\<lambda>d w. w), net_clock = (\<lambda>w. 0)\<rparr>"

definition ok_response :: "dict \<Rightarrow> http_response" where
  "ok_response d = \<lparr>rs_status = 200, rs_www_auth = False, rs_text = ''{}'', rs_json = Some (JDict d)\<rparr>"

definition unauthorized_response :: http_response where
  "unauthorized_response = \<lparr>rs_status = 401, rs_www_auth = True, rs_text = [], rs_json = None\<rparr>"

lemma answering_net_ok: "net_returns (answering_net r)"
  "judge r \<noteq> Unauthorized \<Longrightarrow> unlock_accepted judge (answering_net r) ep"
  by (simp_all add: net_returns_def unlock_accepted_def answering_net_def io_ret_def)

definition example_client :: jm_client where
  "example_client = projr (init_client ''jcs-000'' ''taker'' (0, 0) (0, 0) (default_offers ''taker'') None 0 8 False 0)"

theorem calls_return_witness:
  "\<not> diverged (fst (rpc_async (answering_net (ok_response [])) ''GET'' ''/session'' JNull 4 ((), example_client)))"
  by (rule conjunct2 [OF calls_return [OF answering_net_ok(1) answering_net_ok(2) answering_net_ok(2)]])
    (code_simp+)

text \<open>
  Claim C15. Against a daemon that rejects every token and the unlock request too, no call returns:
  the synchronous transport recurses to any depth and the asynchronous one waits for the lock its
  own task holds. Neither gives the error that four failed attempts are meant to end in.
\<close>

theorem rejected_unlock_never_returns:
  assumes "always_unauthorized net"
  shows "diverged (fst (rpc_sync d net m ep data (Suc k) s))
    \<and> diverged (fst (rpc_async net m ep data (Suc k) s))"
  using rpc_sync_recurses [OF assms] rpc_async_deadlocks [OF assms] by blast

theorem rejected_unlock_never_returns_witness:
  "diverged (fst (rpc_async (answering_net unauthorized_response) ''GET'' ''/session'' JNull (Suc 3) ((), example_client)))"
  by (rule conjunct2 [OF rejected_unlock_never_returns])
    (simp add: always_unauthorized_def answering_net_def io_ret_def unauthorized_response_def)

end
