(* ===== verification/JmWallet.thy ===== *)
theory JmWallet
  imports JmRpc
begin

text \<open>
  The endpoints of a JoinMarket wallet (\<open>joinmarket_client_base.py\<close>): the requests they make, the
  start of a wallet with its exponential backoff, sending with its own retry window, the tumbler
  schedule, the coin history and its translation into Wasabi's coin format, the key list and the
  fidelity bonds. Both transports are fields of \<open>jm_env\<close>, next to the clock and \<open>str\<close> on numbers.
\<close>

record 'w jm_env =
  je_rpc :: "'w rpc"
  je_rpc_async :: "'w rpc"
  je_clock :: "'w \<Rightarrow> rat"
  je_sleep :: "rat \<Rightarrow> 'w \<Rightarrow> 'w"
  je_str :: "json \<Rightarrow> string"

definition with_client :: "(jm_client \<Rightarrow> ('w, 'a) client_io) \<Rightarrow> ('w, 'a) client_io" where
  "with_client f = (\<lambda>(w, c). f c (w, c))"

definition pause_client :: "'w jm_env \<Rightarrow> rat \<Rightarrow> 'w \<times> jm_client \<Rightarrow> 'w \<times> jm_client" where
  "pause_client env d = (\<lambda>(w, c). (je_sleep env d w, c))"

definition client_clock :: "'w jm_env \<Rightarrow> 'w \<times> jm_client \<Rightarrow> rat" where
  "client_clock env = (\<lambda>(w, c). je_clock env w)"

definition is_service_state :: "exn \<Rightarrow> bool" where
  "is_service_state e = (exn_class e = KServiceState)"

definition is_conflict :: "exn \<Rightarrow> bool" where
  "is_conflict e = (exn_class e = KConflict)"

section \<open>Requests\<close>

definition wallet_call :: "'w rpc \<Rightarrow> string \<Rightarrow> string \<Rightarrow> json \<Rightarrow> nat \<Rightarrow> ('w, json) client_io" where
  "wallet_call rpc m suffix data repeat = with_client (\<lambda>c. rpc m (wallet_path c suffix) data repeat)"

definition session_sync :: "'w rpc \<Rightarrow> ('w, json) client_io" where
  "session_sync rpc = io_catch (rpc ''GET'' ''/session'' JNull 4) is_exception (\<lambda>_. io_ret JNull)"

definition session_async :: "'w rpc \<Rightarrow> ('w, json) client_io" where
  "session_async rpc =
     io_catch (io_bind (rpc ''GET'' ''/session'' JNull 4) (\<lambda>r. io_ret (if r = JNull then JDict [] else r)))
       is_exception (\<lambda>_. io_ret (JDict []))"

definition probe_session :: "'w rpc \<Rightarrow> ('w, json) client_io" where
  "probe_session rpc = io_catch (rpc ''GET'' ''/session'' JNull 1) is_exception (\<lambda>_. io_ret JNull)"

definition create_wallet :: "'w rpc \<Rightarrow> string \<Rightarrow> ('w, json) client_io" where
  "create_wallet rpc wallet_type = with_client (\<lambda>c.
     io_bind (rpc ''POST'' ''/wallet/create''
       (JDict [(''walletname'', JStr (cl_walletname c)), (''password'', JStr ''password''),
               (''wallettype'', JStr wallet_type)]) 4) (\<lambda>response.
     io_seq (store_tokens response)
     (io_bind (io_lift (response_get response ''seedphrase'' (JStr []))) (\<lambda>seed.
      io_seq (set_client (\<lambda>c. c\<lparr>cl_seed := seed\<rparr>)) (io_ret response)))))"

definition display_wallet :: "'w rpc \<Rightarrow> bool \<Rightarrow> ('w, json) client_io" where
  "display_wallet rpc display_all =
     wallet_call rpc ''GET'' (''/display'' @ (if display_all then ''?displayall=true'' else [])) JNull 4"

text \<open>\<open>response[k]\<close> on a dictionary: a KeyError when the key is absent.\<close>

fun item :: "json \<Rightarrow> string \<Rightarrow> exn + json" where
  "item (JDict d) k = (case map_of d k of Some v \<Rightarrow> Inr v | None \<Rightarrow> Inl (Exn KKeyError k))"
| "item _ k = Inl (Exn KTypeError k)"

fun balance_sats :: "json \<Rightarrow> exn + int" where
  "balance_sats (JStr s) =
     (case parse_decimal s of
        Some x \<Rightarrow> Inr (truncate_rat (x * of_int BTC)) | None \<Rightarrow> Inl (Exn KValueError s))"
| "balance_sats j =
     (case num_of j of Some x \<Rightarrow> Inr (truncate_rat (x * of_int BTC)) | None \<Rightarrow> Inl (Exn KTypeError ''float''))"

definition get_balance :: "'w rpc \<Rightarrow> ('w, int) client_io" where
  "get_balance rpc =
     io_bind (display_wallet rpc False) (\<lambda>response.
     io_catch (io_lift (ebind (item response ''walletinfo'') (\<lambda>info.
        ebind (item info ''available_balance'') balance_sats)))
       (\<lambda>e. exn_class e = KKeyError)
       (\<lambda>e. io_raise (Exn KException (''Could not retrieve available balance: '' @ exn_msg e))))"

definition get_yieldgen_report :: "'w rpc \<Rightarrow> ('w, json) client_io" where
  "get_yieldgen_report rpc = rpc ''GET'' ''/wallet/yieldgen/report'' JNull 4"

definition get_new_address :: "'w rpc \<Rightarrow> int \<Rightarrow> ('w, json) client_io" where
  "get_new_address rpc mixdepth =
     io_bind (wallet_call rpc ''GET'' (''/address/new/'' @ str_int mixdepth) JNull 4)
       (\<lambda>response. io_lift (item response ''address''))"

definition get_new_timelock_address :: "'w rpc \<Rightarrow> string \<Rightarrow> ('w, json) client_io" where
  "get_new_timelock_address rpc lockdate =
     wallet_call rpc ''GET'' (''/address/timelock/new/'' @ lockdate) JNull 4"

definition list_utxos :: "'w rpc \<Rightarrow> ('w, json) client_io" where
  "list_utxos rpc = wallet_call rpc ''GET'' ''/utxos'' JNull 4"

text \<open>\<open>start_maker(**offer)\<close> accepts exactly its six parameters; a conflict is no error.\<close>

definition maker_keys :: "string list" where
  "maker_keys = [''txfee'', ''cjfee_a'', ''cjfee_r'', ''ordertype'', ''minsize'', ''maxsize'']"

definition maker_request :: "(json \<Rightarrow> string) \<Rightarrow> dict \<Rightarrow> json" where
  "maker_request str offer =
     JDict (map (\<lambda>k. (k, if k = ''ordertype'' then dget offer k else JStr (str (dget offer k)))) maker_keys)"

definition start_maker :: "'w rpc \<Rightarrow> (json \<Rightarrow> string) \<Rightarrow> dict \<Rightarrow> ('w, json) client_io" where
  "start_maker rpc str offer =
     (if fst ` set offer = set maker_keys
      then io_catch (wallet_call rpc ''POST'' ''/maker/start'' (maker_request str offer) 4)
             is_conflict (\<lambda>_. io_ret JNull)
      else io_raise (Exn KTypeError ''start_maker''))"

definition stop_maker :: "'w rpc \<Rightarrow> ('w, json) client_io" where
  "stop_maker rpc =
     io_catch (wallet_call rpc ''GET'' ''/maker/stop'' JNull 4) is_service_state (\<lambda>_. io_ret (JDict []))"

definition stop_taker :: "'w rpc \<Rightarrow> ('w, json) client_io" where
  "stop_taker rpc =
     io_catch (wallet_call rpc ''GET'' ''/taker/stop'' JNull 4) is_service_state (\<lambda>_. io_ret (JDict []))"

definition stop_coinjoin :: "'w rpc \<Rightarrow> ('w, json) client_io" where
  "stop_coinjoin rpc = with_client (\<lambda>c.
     io_catch
       (if cl_type c = ''taker'' \<and> cl_in_process c then stop_taker rpc
        else if cl_type c = ''maker'' \<and> cl_maker_running c then stop_maker rpc
        else io_ret (JBool True))
       is_exception (\<lambda>_. io_ret (JBool False)))"

text \<open>\<open>start_coinjoin(**offer)\<close>: three mandatory parameters, the destination, an optional fee.\<close>

definition coinjoin_keys :: "string list" where
  "coinjoin_keys = [''mixdepth'', ''amount_sats'', ''counterparties'', ''destination'']"

definition coinjoin_request :: "dict \<Rightarrow> json" where
  "coinjoin_request offer =
     JDict (map (\<lambda>k. (k, dget offer k)) coinjoin_keys
       @ (if dget offer ''txfee'' = JNull then [] else [(''txfee'', dget offer ''txfee'')]))"

definition start_coinjoin :: "'w rpc \<Rightarrow> dict \<Rightarrow> ('w, json) client_io" where
  "start_coinjoin rpc offer =
     (if set coinjoin_keys \<subseteq> fst ` set offer \<and> fst ` set offer \<subseteq> insert ''txfee'' (set coinjoin_keys)
      then wallet_call rpc ''POST'' ''/taker/coinjoin'' (coinjoin_request offer) 4
      else io_raise (Exn KTypeError ''start_coinjoin''))"

definition freeze_utxo :: "'w rpc \<Rightarrow> string \<Rightarrow> bool \<Rightarrow> ('w, json) client_io" where
  "freeze_utxo rpc utxo freeze =
     wallet_call rpc ''POST'' ''/freeze'' (JDict [(''utxo-string'', JStr utxo), (''freeze'', JBool freeze)]) 4"

definition sweep_mixdepth :: "'w rpc \<Rightarrow> string \<Rightarrow> int \<Rightarrow> ('w, json) client_io" where
  "sweep_mixdepth rpc destination mixdepth =
     io_bind (wallet_call rpc ''POST'' ''/taker/direct-send''
       (JDict [(''destination'', JStr destination), (''amount_sats'', JInt 0), (''mixdepth'', JInt mixdepth)]) 1)
       (\<lambda>r. io_bind (io_lift (response_get r ''txinfo'' JNull)) (\<lambda>t. io_ret (py_or t (JDict []))))"

definition get_schedule :: "'w rpc \<Rightarrow> ('w, json) client_io" where
  "get_schedule rpc = wallet_call rpc ''GET'' ''/taker/schedule'' JNull 4"

section \<open>Retries in a time window\<close>

text \<open>
  The three windows; the fuel allows one turn per pause and one more. \<open>simple_send\<close> ends without
  an exception when its window closes, and \<open>send\<close> does not look at the value.
\<close>

definition simple_send :: "'w jm_env \<Rightarrow> json \<Rightarrow> json \<Rightarrow> ('w, json) client_io" where
  "simple_send env destination amount = (\<lambda>s.
     let start = client_clock env s in
     retry_while 16 (\<lambda>s. client_clock env s - start < 30)
       (wallet_call (je_rpc env) ''POST'' ''/taker/direct-send''
         (JDict [(''destination'', destination), (''amount_sats'', amount), (''txfee'', JInt 5000),
                 (''mixdepth'', JInt 0)]) 4)
       (pause_client env 2) (io_ret (JBool False)) s)"

definition send :: "'w jm_env \<Rightarrow> (json \<times> json) list \<Rightarrow> ('w, unit) client_io" where
  "send env fundings =
     io_for (\<lambda>(address, amount). io_bind (simple_send env address amount)
       (\<lambda>_. (\<lambda>s. (Inr (), pause_client env 5 s)))) fundings"

text \<open>\<open>tumbler_options.get("address_count", 3)\<close> fresh addresses, then the schedule request.\<close>

definition schedule_addresses :: "'w jm_env \<Rightarrow> dict \<Rightarrow> ('w, json list) client_io" where
  "schedule_addresses env options =
     (case dget_default options ''address_count'' (JInt 3) of
        JInt n \<Rightarrow> io_traverse (\<lambda>_. get_new_address (je_rpc env) 0) [0..<nat n]
      | JBool b \<Rightarrow> io_traverse (\<lambda>_. get_new_address (je_rpc env) 0) (if b then [0::nat] else [])
      | _ \<Rightarrow> io_raise (Exn KTypeError ''range''))"

definition run_schedule :: "'w jm_env \<Rightarrow> 'w rpc \<Rightarrow> ('w, json) client_io" where
  "run_schedule env rpc = with_client (\<lambda>c.
     case cl_tumbler c of
       None \<Rightarrow> io_raise (Exn KException ''No tumbler options provided'')
     | Some options \<Rightarrow>
         io_bind (schedule_addresses env options) (\<lambda>addresses s.
           let start = client_clock env s in
           retry_while 61 (\<lambda>s. client_clock env s - start < 60)
             (wallet_call rpc ''POST'' ''/taker/schedule''
               (JDict [(''destination_addresses'', JList addresses), (''tumbler_options'', JDict options)]) 4)
             (pause_client env 1)
             (io_raise (Exn KTimeoutError (''Could not run the tumbler schedule for '' @ cl_walletname c))) s))"

fun retry_until_deadline ::
    "nat \<Rightarrow> 'w jm_env \<Rightarrow> ('w, 'a) client_io \<Rightarrow> rat \<Rightarrow> rat \<Rightarrow> ('w, unit) client_io" where
  "retry_until_deadline 0 env step deadline delay = diverge"
| "retry_until_deadline (Suc n) env step deadline delay =
     (\<lambda>s. case step s of
        (Inr _, s') \<Rightarrow> (Inr (), s')
      | (Inl e, s') \<Rightarrow>
          if \<not> is_exception e then (Inl e, s')
          else (let remaining = deadline - client_clock env s' in
                if remaining \<le> 0 then (Inl e, s')
                else retry_until_deadline n env step deadline (min (delay * 2) 8)
                       (pause_client env (min delay remaining) s')))"

definition wait_wallet_create :: "nat \<Rightarrow> 'w jm_env \<Rightarrow> rat \<Rightarrow> ('w, unit) client_io" where
  "wait_wallet_create fuel env deadline = with_client (\<lambda>c.
     retry_until_deadline fuel env
       (create_wallet (je_rpc env) (if cl_has_bonds c then ''sw-fb'' else ''sw'')) deadline 1)"

definition wait_wallet_display :: "nat \<Rightarrow> 'w jm_env \<Rightarrow> rat \<Rightarrow> ('w, unit) client_io" where
  "wait_wallet_display fuel env deadline =
     retry_until_deadline fuel env (get_balance (je_rpc env)) deadline 1"

definition wait_wallet :: "nat \<Rightarrow> 'w jm_env \<Rightarrow> rat \<Rightarrow> ('w, bool) client_io" where
  "wait_wallet fuel env budget =
     io_catch
       (io_seq (\<lambda>s. wait_wallet_create fuel env (client_clock env s + budget) s)
         (io_seq (\<lambda>s. wait_wallet_display fuel env (client_clock env s + budget) s) (io_ret True)))
       is_exception (\<lambda>_. io_ret False)"

section \<open>Coins\<close>

text \<open>\<open>coin_history.setdefault(key, coin)\<close> for every listed coin with a key.\<close>

fun add_history :: "json list \<Rightarrow> (json \<times> json) list \<Rightarrow> exn option \<times> (json \<times> json) list" where
  "add_history [] h = (None, h)"
| "add_history (JDict d # coins) h =
     (let key = dget d ''utxo'' in
      add_history coins (if truthy key \<and> key \<notin> fst ` set h then h @ [(key, JDict d)] else h))"
| "add_history (_ # coins) h = (Some (Exn KAttributeError ''get''), h)"

definition record_coins :: "json \<Rightarrow> ('w, unit) client_io" where
  "record_coins coins =
     (case py_iter coins of
        None \<Rightarrow> io_raise (Exn KTypeError ''iter'')
      | Some xs \<Rightarrow> (\<lambda>(w, c). case add_history xs (cl_history c) of
            (None, h) \<Rightarrow> (Inr (), (w, c\<lparr>cl_history := h\<rparr>))
          | (Some e, h) \<Rightarrow> (Inl e, (w, c\<lparr>cl_history := h\<rparr>))))"

definition update_coin_history :: "'w rpc \<Rightarrow> ('w, unit) client_io" where
  "update_coin_history rpc =
     io_bind (io_catch (io_bind (list_utxos rpc) (\<lambda>r.
                 io_bind (io_lift (response_get r ''utxos'' (JList []))) (\<lambda>coins. io_ret (Some coins))))
               is_exception (\<lambda>_. io_ret None))
       (\<lambda>coins. case coins of None \<Rightarrow> io_ret () | Some cs \<Rightarrow> record_coins cs)"

text \<open>The asynchronous copy also ends early on a missing answer, which \<open>.get\<close> would reject anyway.\<close>

definition update_coin_history_async :: "'w rpc \<Rightarrow> ('w, unit) client_io" where
  "update_coin_history_async rpc =
     io_bind (io_catch (io_bind (list_utxos rpc) (\<lambda>r.
                 if r = JNull then io_ret None
                 else io_bind (io_lift (response_get r ''utxos'' (JList []))) (\<lambda>coins. io_ret (Some coins))))
               is_exception (\<lambda>_. io_ret None))
       (\<lambda>coins. case coins of None \<Rightarrow> io_ret () | Some cs \<Rightarrow> record_coins cs)"

fun wasabi_outpoint :: "json \<Rightarrow> (string \<times> int) option" where
  "wasabi_outpoint (JStr s) =
     (case split_on (CHR '':'') s of
        [txid, index] \<Rightarrow> (case parse_int index of Some i \<Rightarrow> Some (txid, i) | None \<Rightarrow> None)
      | _ \<Rightarrow> None)"
| "wasabi_outpoint _ = None"

fun drop_master :: "json \<Rightarrow> exn + string" where
  "drop_master (JStr s) = Inr (if starts_with ''m/'' s then drop 2 s else s)"
| "drop_master _ = Inl (Exn KAttributeError ''startswith'')"

text \<open>One coin: \<open>None\<close> when the loop skips it.\<close>

fun transform_coin :: "json \<Rightarrow> exn + dict option" where
  "transform_coin (JDict coin) =
     (let utxo = dget_default coin ''utxo'' (JStr []) in
      if \<not> truthy utxo then Inr None
      else case wasabi_outpoint utxo of
        None \<Rightarrow> Inr None
      | Some (txid, index) \<Rightarrow>
          ebind (drop_master (dget_default coin ''path'' (JStr []))) (\<lambda>key_path.
          case num_of (dget_default coin ''confirmations'' (JInt 0)) of
            None \<Rightarrow> Inl (Exn KTypeError ''confirmations'')
          | Some n \<Rightarrow> Inr (Some (
              [(''txid'', JStr txid), (''index'', JInt index), (''amount'', dget coin ''value''),
               (''confirmed'', JBool (0 < n)),
               (''confirmations'', dget_default coin ''confirmations'' (JInt 0)),
               (''keyPath'', JStr key_path), (''address'', dget coin ''address'')]
              @ (if ''spentBy'' \<in> fst ` set coin then [(''spentBy'', dget coin ''spentBy'')] else [])))))"
| "transform_coin _ = Inl (Exn KAttributeError ''get'')"

definition transform_coins_to_wasabi :: "json list \<Rightarrow> exn + dict list" where
  "transform_coins_to_wasabi coins =
     ebind (traverse transform_coin coins) (\<lambda>cs. Inr (List.map_filter (\<lambda>c. c) cs))"

definition list_unspent_coins :: "'w rpc \<Rightarrow> ('w, dict list option) client_io" where
  "list_unspent_coins rpc =
     io_bind (io_catch (io_bind (list_utxos rpc) (\<lambda>r.
                 io_bind (io_lift (response_get r ''utxos'' (JList []))) (\<lambda>coins. io_ret (Some coins))))
               is_exception (\<lambda>_. io_ret None))
       (\<lambda>coins. case coins of
          None \<Rightarrow> io_ret None
        | Some cs \<Rightarrow> (case py_iter cs of
            None \<Rightarrow> io_raise (Exn KTypeError ''iter'')
          | Some xs \<Rightarrow> io_bind (io_lift (transform_coins_to_wasabi xs)) (\<lambda>ds. io_ret (Some ds))))"

definition list_coins :: "('w, dict list) client_io" where
  "list_coins = with_client (\<lambda>c. io_lift (transform_coins_to_wasabi (map snd (cl_history c))))"

section \<open>Keys\<close>

text \<open>
  The wallet display is a tree of accounts, branches and entries. \<open>derive\<close> stands for the BIP32
  derivation of \<open>bip_utils\<close>: the public key of a path, or its exception, which the code reports
  and skips.
\<close>

definition children :: "json \<Rightarrow> string \<Rightarrow> exn + json list" where
  "children node k =
     ebind (response_get node k JNull) (\<lambda>v.
       case py_iter (py_or v (JList [])) of None \<Rightarrow> Inl (Exn KTypeError ''iter'') | Some xs \<Rightarrow> Inr xs)"

definition internal_flag :: "string \<Rightarrow> json" where
  "internal_flag path =
     (let parts = split_on (CHR ''/'') path
      in if length parts < 2 then JNull else JBool (parts ! (length parts - 2) = ''1''))"

definition key_record ::
    "(json \<Rightarrow> string) \<Rightarrow> (string \<Rightarrow> exn + string) \<Rightarrow> json \<Rightarrow> dict \<Rightarrow> dict" where
  "key_record str derive account entry =
     (let path = (let p = py_or (dget entry ''hd_path'') (JStr []) in str p);
          derived = (if path \<noteq> [] \<and> \<not> contains '':'' path
                     then (case derive path of Inl _ \<Rightarrow> None | Inr k \<Rightarrow> Some k) else None)
      in [(''full_key_path'', JStr path),
          (''pubKey'', case derived of None \<Rightarrow> JNull | Some k \<Rightarrow> JStr k),
          (''internal'', case derived of None \<Rightarrow> JNull | Some _ \<Rightarrow> internal_flag path),
          (''address'', JStr (str (dget entry ''address''))), (''path'', JStr path),
          (''account'', JStr (str account)),
          (''status'', JStr (str (dget_default entry ''status'' (JStr [])))),
          (''amount'', JStr (str (dget_default entry ''amount'' (JStr []))))])"

definition entry_key ::
    "(json \<Rightarrow> string) \<Rightarrow> (string \<Rightarrow> exn + string) \<Rightarrow> json \<Rightarrow> json \<Rightarrow> exn + dict option" where
  "entry_key str derive account entry =
     (case entry of
        JDict e \<Rightarrow> Inr (if truthy (dget e ''address'') then Some (key_record str derive account e) else None)
      | _ \<Rightarrow> Inl (Exn KAttributeError ''get''))"

definition account_keys ::
    "(json \<Rightarrow> string) \<Rightarrow> (string \<Rightarrow> exn + string) \<Rightarrow> json \<Rightarrow> exn + dict list" where
  "account_keys str derive account =
     ebind (response_get account ''account'' (JStr [])) (\<lambda>name.
     ebind (children account ''branches'') (\<lambda>branches.
     ebind (traverse (\<lambda>b. ebind (children b ''entries'') (traverse (entry_key str derive name))) branches) (\<lambda>kss.
       Inr (List.map_filter (\<lambda>k. k) (concat kss)))))"

definition list_keys ::
    "'w rpc \<Rightarrow> (json \<Rightarrow> string) \<Rightarrow> (json \<Rightarrow> exn + (string \<Rightarrow> exn + string)) \<Rightarrow> ('w, dict list) client_io" where
  "list_keys rpc str seed_keys = with_client (\<lambda>c.
     io_bind (io_lift (seed_keys (cl_seed c))) (\<lambda>derive.
     io_bind (display_wallet rpc True) (\<lambda>response.
     io_lift (ebind (response_get response ''walletinfo'' JNull) (\<lambda>info.
       ebind (children (py_or info (JDict [])) ''accounts'') (\<lambda>accounts.
       ebind (traverse (account_keys str derive) accounts) (\<lambda>kss. Inr (concat kss))))))))"

section \<open>Fidelity bonds\<close>

definition create_fidelity_bond ::
    "'w rpc \<Rightarrow> (json \<Rightarrow> string) \<Rightarrow> int \<Rightarrow> json \<Rightarrow> int \<Rightarrow> ('w, string) client_io" where
  "create_fidelity_bond rpc str amount locktime current_block =
     io_catch
       (io_bind (get_new_timelock_address rpc (str locktime)) (\<lambda>response.
        io_bind (io_lift (response_get response ''address'' JNull)) (\<lambda>address.
        case address of
          JStr a \<Rightarrow>
            if a = [] then io_raise (Exn KException ''Failed to create fidelity bond address'')
            else io_seq (set_client (\<lambda>c. c\<lparr>cl_bonds := AList.update a
                   \<lparr>bd_amount = amount, bd_locktime = locktime, bd_creation = current_block,
                    bd_funded = False\<rparr> (cl_bonds c)\<rparr>)) (io_ret a)
        | _ \<Rightarrow> io_raise (Exn KException ''Failed to create fidelity bond address''))))
       is_exception (\<lambda>e. io_raise (Exn KException (''Failed to create fidelity bond: '' @ exn_msg e)))"

definition mark_bond_funded :: "string \<Rightarrow> jm_client \<Rightarrow> jm_client" where
  "mark_bond_funded address c =
     (case map_of (cl_bonds c) address of
        None \<Rightarrow> c
      | Some b \<Rightarrow> c\<lparr>cl_bonds := AList.update address (b\<lparr>bd_funded := True\<rparr>) (cl_bonds c)\<rparr>)"

definition bond_value :: "bond \<Rightarrow> int \<Rightarrow> rat" where
  "bond_value b current_block =
     (if \<not> bd_funded b then 0
      else (let blocks_held = max 0 (current_block - bd_creation b)
            in of_int (bd_amount b) / of_int BTC * min 1 (of_int blocks_held / 144)))"

definition get_bond_value :: "jm_client \<Rightarrow> string \<Rightarrow> int \<Rightarrow> rat" where
  "get_bond_value c address current_block =
     (case map_of (cl_bonds c) address of None \<Rightarrow> 0 | Some b \<Rightarrow> bond_value b current_block)"

record exported_bond =
  eb_address :: string
  eb_amount :: int
  eb_amount_btc :: rat
  eb_locktime :: json
  eb_creation :: int
  eb_funded :: bool
  eb_value :: rat
  eb_blocks_held :: int

record exported_bonds =
  xb_client :: string
  xb_wallet :: string
  xb_wallet_type :: string
  xb_block :: int
  xb_bonds :: "exported_bond list"
  xb_total :: nat
  xb_total_sats :: int
  xb_total_btc :: rat
  xb_total_value :: rat

definition export_bond :: "jm_client \<Rightarrow> int \<Rightarrow> string \<times> bond \<Rightarrow> exported_bond" where
  "export_bond c current_block = (\<lambda>(address, b).
     \<lparr>eb_address = address, eb_amount = bd_amount b, eb_amount_btc = of_int (bd_amount b) / of_int BTC,
      eb_locktime = bd_locktime b, eb_creation = bd_creation b, eb_funded = bd_funded b,
      eb_value = get_bond_value c address current_block,
      eb_blocks_held = (if bd_funded b then max 0 (current_block - bd_creation b) else 0)\<rparr>)"

definition export_fidelity_bonds_data :: "jm_client \<Rightarrow> int \<Rightarrow> exported_bonds" where
  "export_fidelity_bonds_data c current_block =
     (let bonds = map (export_bond c current_block) (cl_bonds c);
          sats = sum_list_by eb_amount bonds
      in \<lparr>xb_client = cl_name c, xb_wallet = cl_walletname c,
          xb_wallet_type = (if cl_has_bonds c then ''sw-fb'' else ''sw''), xb_block = current_block,
          xb_bonds = bonds, xb_total = length bonds, xb_total_sats = sats,
          xb_total_btc = of_int sats / of_int BTC,
          xb_total_value = sum_list (map eb_value bonds)\<rparr>)"

section \<open>Bond values\<close>

lemma bond_value_bounds:
  assumes "0 \<le> bd_amount b"
  shows "0 \<le> bond_value b block" "bond_value b block \<le> of_int (bd_amount b) / of_int BTC"
proof -
  let ?a = "of_int (bd_amount b) / (of_int BTC :: rat)"
  have a: "0 \<le> ?a" using assms by (simp add: BTC_def)
  let ?m = "min 1 (of_int (max 0 (block - bd_creation b)) / 144 :: rat)"
  have m: "0 \<le> ?m" "?m \<le> 1" by simp_all
  have v: "bond_value b block = (if bd_funded b then ?a * ?m else 0)"
    by (simp add: bond_value_def Let_def)
  show "0 \<le> bond_value b block"
    unfolding v using mult_nonneg_nonneg [OF a m(1)]
    by (cases "bd_funded b") (simp_all only: if_True if_False order_refl)
  show "bond_value b block \<le> ?a"
    unfolding v using mult_left_le [OF m(2) a] a
    by (cases "bd_funded b") (simp_all only: if_True if_False)
qed

lemma bond_value_mono:
  assumes "0 \<le> bd_amount b" "block \<le> block'"
  shows "bond_value b block \<le> bond_value b block'"
proof -
  have "min 1 (of_int (max 0 (block - bd_creation b)) / 144) \<le>
      min 1 (of_int (max 0 (block' - bd_creation b)) / 144 :: rat)"
    using assms(2) by (intro min.mono divide_right_mono) auto
  moreover have "0 \<le> of_int (bd_amount b) / (of_int BTC :: rat)"
    using assms(1) by (simp add: BTC_def)
  ultimately have "of_int (bd_amount b) / of_int BTC * min 1 (of_int (max 0 (block - bd_creation b)) / 144)
      \<le> of_int (bd_amount b) / of_int BTC * min 1 (of_int (max 0 (block' - bd_creation b)) / 144 :: rat)"
    by (rule mult_left_mono)
  then show ?thesis
    unfolding bond_value_def Let_def by (simp only: if_split) simp
qed

lemma bond_value_full_day:
  "bd_funded b \<Longrightarrow> bd_creation b + 144 \<le> block \<Longrightarrow> bond_value b block = of_int (bd_amount b) / of_int BTC"
  by (simp add: bond_value_def Let_def min_def max_def)

section \<open>The coin history\<close>

lemma add_history_prefix:
  "add_history coins h = (r, h') \<Longrightarrow> \<exists>h2. h' = h @ h2"
  by (induction coins h arbitrary: h' rule: add_history.induct) (auto simp: Let_def split: if_splits)

lemma add_history_distinct:
  "add_history coins h = (r, h') \<Longrightarrow> distinct (map fst h) \<Longrightarrow> distinct (map fst h')"
proof (induction coins h arbitrary: h' rule: add_history.induct)
  case (2 d coins h)
  then show ?case by (auto simp: Let_def split: if_splits)
qed auto

lemma add_history_covers:
  "add_history coins h = (None, h') \<Longrightarrow> JDict d \<in> set coins \<Longrightarrow> truthy (dget d ''utxo'') \<Longrightarrow>
     dget d ''utxo'' \<in> fst ` set h'"
proof (induction coins h arbitrary: h' rule: add_history.induct)
  case (2 e coins h)
  let ?key = "dget e ''utxo''"
  let ?h = "if truthy ?key \<and> ?key \<notin> fst ` set h then h @ [(?key, JDict e)] else h"
  have run: "add_history coins ?h = (None, h')" using "2.prems"(1) by (simp add: Let_def)
  show ?case
  proof (cases "JDict d \<in> set coins")
    case True
    then show ?thesis using "2.IH" [OF refl] run "2.prems"(3) by blast
  next
    case False
    then have "d = e" using "2.prems"(2) by simp
    then have "dget d ''utxo'' \<in> fst ` set ?h" using "2.prems"(3) by force
    moreover obtain h2 where "h' = ?h @ h2" using add_history_prefix [OF run] by blast
    ultimately show ?thesis by (simp only: set_append image_Un Un_iff simp_thms)
  qed
qed auto

section \<open>Waiting returns\<close>

definition env_clock_laws :: "'w jm_env \<Rightarrow> bool" where
  "env_clock_laws env =
     ((\<forall>d w. je_clock env w + d \<le> je_clock env (je_sleep env d w))
      \<and> (\<forall>m ep data k w c. je_clock env w \<le> je_clock env (fst (snd (je_rpc env m ep data k (w, c)))))
      \<and> (\<forall>m ep data k s. \<not> diverged (fst (je_rpc env m ep data k s))))"

lemma wallet_call_rpc: "wallet_call rpc m suffix data k (w, c) = rpc m (wallet_path c suffix) data k (w, c)"
  by (simp add: wallet_call_def with_client_def)

lemma simple_send_returns:
  assumes laws: "env_clock_laws env"
  shows "\<not> diverged (fst (simple_send env destination amount s))"
proof -
  let ?body = "wallet_call (je_rpc env) ''POST'' ''/taker/direct-send''
    (JDict [(''destination'', destination), (''amount_sats'', amount), (''txfee'', JInt 5000),
            (''mixdepth'', JInt 0)]) 4"
  have body: "\<not> diverged (fst (?body s))" "client_clock env s \<le> client_clock env (snd (?body s))" for s
    using laws by (cases s; simp add: wallet_call_rpc env_clock_laws_def client_clock_def
        split: prod.splits; metis fst_conv snd_conv)+
  have pause: "client_clock env s + 2 \<le> client_clock env (pause_client env 2 s)" for s
    using laws by (cases s) (simp add: env_clock_laws_def client_clock_def pause_client_def)
  have fuel: "16 = Suc 15" by simp
  show ?thesis
    unfolding simple_send_def Let_def fuel
    by (rule retry_while_returns [where clock = "client_clock env" and d = 2
          and limit = "client_clock env s + 30", OF body pause])
      (simp_all add: io_ret_def)
qed

section \<open>Properties\<close>

text \<open>
  The value of a fidelity bond: nothing until it is funded, never more than the bonded
  amount, growing with the chain, and the whole amount after a day of blocks.
\<close>

theorem bond_value_spec:
  assumes "0 \<le> bd_amount b"
  shows "0 \<le> bond_value b block \<and> bond_value b block \<le> of_int (bd_amount b) / of_int BTC
    \<and> (block \<le> block' \<longrightarrow> bond_value b block \<le> bond_value b block')
    \<and> (\<not> bd_funded b \<longrightarrow> bond_value b block = 0)
    \<and> (bd_funded b \<and> bd_creation b + 144 \<le> block \<longrightarrow> bond_value b block = of_int (bd_amount b) / of_int BTC)"
  using bond_value_bounds [OF assms] bond_value_mono [OF assms] bond_value_full_day
  by (auto simp: bond_value_def)

theorem bond_value_spec_witness:
  "bond_value \<lparr>bd_amount = 5000, bd_locktime = JStr ''2030-01'', bd_creation = 3, bd_funded = True\<rparr> 10
     \<le> bond_value \<lparr>bd_amount = 5000, bd_locktime = JStr ''2030-01'', bd_creation = 3, bd_funded = True\<rparr> 20"
  using bond_value_spec [of "\<lparr>bd_amount = 5000, bd_locktime = JStr ''2030-01'', bd_creation = 3, bd_funded = True\<rparr>" 10 20]
  by simp

text \<open>
  The coin history of a wallet only grows: what was recorded for an output stays, no
  output is recorded twice, and after a poll every listed output is there.
\<close>

theorem coin_history_grows:
  assumes "add_history coins h = (r, h')" "distinct (map fst h)"
  shows "(\<exists>h2. h' = h @ h2) \<and> distinct (map fst h')
    \<and> (r = None \<longrightarrow> (\<forall>d. JDict d \<in> set coins \<and> truthy (dget d ''utxo'') \<longrightarrow> dget d ''utxo'' \<in> fst ` set h'))"
  using add_history_prefix [OF assms(1)] add_history_distinct [OF assms] add_history_covers assms(1)
  by blast

theorem coin_history_grows_witness:
  "distinct (map fst (snd (add_history [JDict [(''utxo'', JStr ''a:0'')], JDict [(''utxo'', JStr ''a:0'')]] [])))"
  by (rule conjunct1 [OF conjunct2 [OF coin_history_grows [OF prod.collapse [symmetric]]]]) simp

text \<open>
  A plain send returns within its window even when the daemon never accepts it, and it
  returns a value, never an exception of the transport: \<open>send\<close> and the invoice payment above it
  cannot tell that a payment was given up.
\<close>

theorem send_reports_no_failure:
  assumes "env_clock_laws env"
    and "\<forall>m ep data k s e s'. je_rpc env m ep data k s = (Inl e, s') \<longrightarrow> is_exception e"
  shows "fst (send env fundings s) = Inr ()"
proof -
  have one: "\<exists>v. fst (simple_send env a b s) = Inr v" for a b s
  proof (cases "fst (simple_send env a b s)")
    case (Inl e)
    have "retry_while n go (wallet_call (je_rpc env) m suffix data k) pause (io_ret v) s = (Inl e, s') \<Longrightarrow>
        exn_class e = KDiverged" for n go m suffix data k pause v s s' and e :: exn
    proof (induction n arbitrary: s)
      case (Suc n)
      obtain w c where s: "s = (w, c)" by (cases s)
      obtain q w1 c1 where q: "je_rpc env m (wallet_path c suffix) data k (w, c) = (q, w1, c1)"
        by (metis prod_cases3)
      have "is_exception x" if "q = Inl x" for x
        using assms(2) q that by blast
      then show ?case
        using Suc.prems Suc.IH q
        by (cases q) (auto simp: s wallet_call_rpc io_ret_def split: if_splits)
    qed (auto simp: diverge_def io_raise_def)
    then have "exn_class e = KDiverged"
      using Inl unfolding simple_send_def Let_def by (metis prod.collapse)
    then show ?thesis
      using simple_send_returns [OF assms(1), of a b s] Inl by simp
  qed blast
  show ?thesis
  proof (induction fundings arbitrary: s)
    case (Cons f fs)
    obtain a b where f: "f = (a, b)" by (cases f)
    obtain v s1 where "simple_send env a b s = (Inr v, s1)" using one by (metis prod.collapse)
    then show ?case using Cons.IH by (simp add: send_def f io_bind_def)
  qed (simp add: send_def io_ret_def)
qed

definition refusing_env :: "rat jm_env" where
  "refusing_env = \<lparr>je_rpc = (\<lambda>m ep data k. io_raise (Exn KException ''refused'')),
     je_rpc_async = (\<lambda>m ep data k. io_raise (Exn KException ''refused'')),
     je_clock = (\<lambda>w. w), je_sleep = (\<lambda>d w. w + d), je_str = (\<lambda>j. [])\<rparr>"

theorem send_reports_no_failure_witness:
  "fst (send refusing_env [(JStr ''address'', JInt 100000)] (0, example_client)) = Inr ()"
  by (rule send_reports_no_failure)
    (auto simp: env_clock_laws_def refusing_env_def io_raise_def)

end
