(* ===== verification/JmUpdate.thy ===== *)
theory JmUpdate
  imports JmWallet
begin

text \<open>
  The handlers the engine calls on every JoinMarket wallet once per block,
  \<open>manager/wasabi_clients/joinmarket_clients/joinmarket_clients.py\<close>: \<open>update\<close> and \<open>update_async\<close> of
  makers, takers, tumblers and the order book watcher. A handler is a call on the pair of the
  network and the client; it returns the change of the round count.
\<close>

section \<open>Status\<close>

definition update_status :: "'w rpc \<Rightarrow> ('w, json) client_io" where
  "update_status rpc = io_seq (update_coin_history rpc) (session_sync rpc)"

definition update_status_async :: "'w rpc \<Rightarrow> ('w, json) client_io" where
  "update_status_async rpc =
     io_seq (update_coin_history_async rpc)
       (io_bind (session_async rpc) (\<lambda>r. io_ret (if r = JNull then JDict [] else r)))"

definition apply_maker_status :: "json \<Rightarrow> ('w, unit) client_io" where
  "apply_maker_status response =
     io_bind (io_lift (response_get response ''maker_running'' (JBool False))) (\<lambda>v.
       set_client (\<lambda>c. c\<lparr>cl_maker_running := truthy v\<rparr>))"

definition apply_process_status :: "json \<Rightarrow> ('w, unit) client_io" where
  "apply_process_status response =
     io_bind (io_lift (response_get response ''coinjoin_in_process'' (JBool False))) (\<lambda>v.
       set_client (\<lambda>c. c\<lparr>cl_in_process := truthy v\<rparr>))"

section \<open>Makers\<close>

definition maker_act :: "'w rpc \<Rightarrow> (json \<Rightarrow> string) \<Rightarrow> int \<Rightarrow> int \<Rightarrow> ('w, int) client_io" where
  "maker_act rpc str block rnd = with_client (\<lambda>c.
     if is_paused c block rnd
     then (if cl_maker_running c \<and> outside_schedule c block rnd
           then io_seq (stop_maker rpc)
                  (io_seq (set_client (\<lambda>c. c\<lparr>cl_maker_running := False\<rparr>)) (io_ret 0))
           else io_ret 0)
     else if \<not> cl_maker_running c
     then io_bind (io_lift (get_offer c rnd)) (\<lambda>i.
            io_seq (start_maker rpc str (cl_offers c ! i))
              (io_seq (set_client (\<lambda>c. c\<lparr>cl_maker_running := True\<rparr>)) (io_ret 0)))
     else io_ret 0)"

definition maker_update :: "'w jm_env \<Rightarrow> int \<Rightarrow> int \<Rightarrow> ('w, int) client_io" where
  "maker_update env block rnd =
     io_bind (update_status (je_rpc env)) (\<lambda>response.
       io_seq (apply_maker_status response) (maker_act (je_rpc env) (je_str env) block rnd))"

definition maker_update_async :: "'w jm_env \<Rightarrow> int \<Rightarrow> int \<Rightarrow> ('w, int) client_io" where
  "maker_update_async env block rnd =
     io_bind (update_status_async (je_rpc_async env)) (\<lambda>response.
       io_seq (apply_maker_status response) (maker_act (je_rpc_async env) (je_str env) block rnd))"

section \<open>Takers\<close>

text \<open>\<open>_prepare_attempt\<close> writes the new address into the offer itself, which it hands on.\<close>

definition prepare_attempt :: "'w rpc \<Rightarrow> int \<Rightarrow> ('w, nat) client_io" where
  "prepare_attempt rpc rnd = with_client (\<lambda>c.
     io_bind (io_lift (get_offer c rnd)) (\<lambda>i.
     io_bind (get_new_address rpc 0) (\<lambda>address.
       io_seq (set_client (\<lambda>c. c\<lparr>cl_offers := (cl_offers c)[i := dset (cl_offers c ! i) ''destination'' address]\<rparr>))
         (io_ret i))))"

definition record_attempt :: "nat \<Rightarrow> int \<Rightarrow> ('w, nat) client_io" where
  "record_attempt i block = (\<lambda>(w, c).
     let offer = cl_offers c ! i in
     case record_round_start (dget offer ''destination'') (dget offer ''amount_sats'')
            (dget offer ''counterparties'') (dget offer ''mixdepth'') block JNull c of
       (event, c') \<Rightarrow> (Inr event, (w, c'\<lparr>cl_start := block\<rparr>)))"

definition request_start :: "'w rpc \<Rightarrow> nat \<Rightarrow> nat \<Rightarrow> ('w, int) client_io" where
  "request_start rpc i event =
     io_seq
       (io_catch (with_client (\<lambda>c. start_coinjoin rpc (cl_offers c ! i))) is_exception
         (\<lambda>e. io_seq (set_client (record_round_start_outcome event False)) (io_raise e)))
       (io_seq (set_client (\<lambda>c. (record_round_start_outcome event True c)\<lparr>cl_in_process := True\<rparr>))
         (io_ret 1))"

definition start_attempt :: "'w rpc \<Rightarrow> 'w rpc \<Rightarrow> int \<Rightarrow> int \<Rightarrow> ('w, int) client_io" where
  "start_attempt rpc rpc_start block rnd =
     io_bind (prepare_attempt rpc rnd) (\<lambda>i.
     io_bind (record_attempt i block) (\<lambda>event. request_start rpc_start i event))"

definition stop_timed_out :: "'w rpc \<Rightarrow> int \<Rightarrow> ('w, int) client_io" where
  "stop_timed_out rpc block =
     io_seq (stop_coinjoin rpc)
       (io_seq (set_client (\<lambda>c. c\<lparr>cl_in_process := False, cl_next_allowed := block + cl_between_rounds c\<rparr>))
         (io_ret (-1)))"

definition taker_act :: "'w jm_env \<Rightarrow> int \<Rightarrow> int \<Rightarrow> ('w, int) client_io" where
  "taker_act env block rnd = with_client (\<lambda>c.
     if has_unconfirmed_finished_attempt c then io_ret (unconfirmed_finished_attempt_result c block)
     else if \<not> cl_in_process c \<and> \<not> is_paused c block rnd \<and> \<not> has_unconfirmed_round c
     then start_attempt (je_rpc env) (je_rpc env) block rnd
     else if cl_in_process c \<and> coinjoin_timed_out c block then stop_timed_out (je_rpc env) block
     else io_ret 0)"

definition taker_act_async :: "'w jm_env \<Rightarrow> int \<Rightarrow> int \<Rightarrow> ('w, int) client_io" where
  "taker_act_async env block rnd = with_client (\<lambda>c.
     if has_unconfirmed_finished_attempt c then io_ret (unconfirmed_finished_attempt_result c block)
     else if is_paused c block rnd then io_ret 0
     else if \<not> cl_in_process c \<and> \<not> has_unconfirmed_round c
     then start_attempt (je_rpc env) (je_rpc_async env) block rnd
     else if cl_in_process c \<and> coinjoin_timed_out c block then stop_timed_out (je_rpc env) block
     else io_ret 0)"

definition taker_update :: "'w jm_env \<Rightarrow> int \<Rightarrow> int \<Rightarrow> ('w, int) client_io" where
  "taker_update env block rnd =
     io_bind (update_status (je_rpc env)) (\<lambda>response.
     io_seq (apply_process_status response)
     (io_seq (set_client refresh_completed_coinjoins) (taker_act env block rnd)))"

definition taker_update_async :: "'w jm_env \<Rightarrow> int \<Rightarrow> int \<Rightarrow> ('w, int) client_io" where
  "taker_update_async env block rnd =
     io_bind (update_status_async (je_rpc_async env)) (\<lambda>response.
     io_seq (apply_process_status response)
     (io_seq (set_client refresh_completed_coinjoins) (taker_act_async env block rnd)))"

section \<open>Tumblers\<close>

definition apply_tumbler_status :: "json \<Rightarrow> ('w, unit) client_io" where
  "apply_tumbler_status response =
     io_bind (io_lift (response_get response ''coinjoin_in_process'' (JBool False))) (\<lambda>v.
     io_bind (io_lift (response_get response ''schedule'' JNull)) (\<lambda>schedule.
       set_client (\<lambda>c.
         let c1 = c\<lparr>cl_in_process := truthy v\<rparr> in
         if schedule \<noteq> cl_last_schedule c1
         then c1\<lparr>cl_coinjoin_completed := True, cl_last_schedule := schedule\<rparr> else c1)))"

definition tumbler_act :: "'w jm_env \<Rightarrow> 'w rpc \<Rightarrow> int \<Rightarrow> int \<Rightarrow> ('w, int) client_io" where
  "tumbler_act env rpc block rnd = with_client (\<lambda>c.
     if \<not> cl_in_process c \<and> \<not> is_paused c block rnd
     then io_bind (run_schedule env rpc) (\<lambda>response.
          io_bind (io_lift (item response ''schedule'')) (\<lambda>schedule.
          io_seq (set_client (\<lambda>c. c\<lparr>cl_last_schedule := schedule, cl_in_process := True, cl_start := block\<rparr>))
            (io_ret 0)))
     else if cl_coinjoin_completed c
     then io_seq (set_client (\<lambda>c. c\<lparr>cl_coinjoin_completed := False\<rparr>))
            (io_seq (get_schedule rpc) (io_ret 1))
     else io_ret 0)"

definition tumbler_update :: "'w jm_env \<Rightarrow> int \<Rightarrow> int \<Rightarrow> ('w, int) client_io" where
  "tumbler_update env block rnd =
     io_bind (update_status (je_rpc env)) (\<lambda>response.
       io_seq (apply_tumbler_status response) (tumbler_act env (je_rpc env) block rnd))"

definition tumbler_update_async :: "'w jm_env \<Rightarrow> int \<Rightarrow> int \<Rightarrow> ('w, int) client_io" where
  "tumbler_update_async env block rnd =
     io_bind (update_status_async (je_rpc_async env)) (\<lambda>response.
       io_seq (apply_tumbler_status response) (tumbler_act env (je_rpc_async env) block rnd))"

section \<open>The order book watcher\<close>

record ob_state =
  ob_last_poll :: rat
  ob_interval :: rat

text \<open>
  Fetching and storing are calls on the world; \<open>bonds\<close> is the debug query, which catches its own
  errors. The asynchronous fetch catches its errors too and then hands on \<open>None\<close>, which is stored.
\<close>

definition poll_orderbook ::
    "('w, json) io \<Rightarrow> (json \<Rightarrow> ('w, string) io) \<Rightarrow> ('w, unit) io \<Rightarrow> ('w, int) io" where
  "poll_orderbook fetch store_snapshot bonds =
     io_seq
       (io_catch (io_bind fetch (\<lambda>data. io_seq (store_snapshot data) bonds)) is_exception (\<lambda>_. io_ret ()))
       (io_ret 0)"

definition orderbook_update ::
    "('w, json) io \<Rightarrow> (json \<Rightarrow> ('w, string) io) \<Rightarrow> ('w, unit) io \<Rightarrow> ('w \<Rightarrow> rat) \<Rightarrow> ob_state
       \<Rightarrow> 'w \<Rightarrow> (exn + int) \<times> ob_state \<times> 'w" where
  "orderbook_update fetch store_snapshot bonds clock ob w =
     (let now = clock w in
      if now - ob_last_poll ob < ob_interval ob then (Inr 0, ob, w)
      else (case poll_orderbook fetch store_snapshot bonds w of
              (r, w') \<Rightarrow> (r, ob\<lparr>ob_last_poll := now\<rparr>, w')))"

definition fetch_async :: "('w, unit) io \<Rightarrow> ('w, json) io \<Rightarrow> ('w, json) io" where
  "fetch_async refresh fetch =
     io_seq (io_catch refresh is_exception (\<lambda>_. io_ret ()))
       (io_catch fetch is_exception (\<lambda>_. io_ret JNull))"

section \<open>The transport contract\<close>

text \<open>
  All the handlers need of a transport: a request changes nothing of the client but its tokens.
\<close>

locale jm_transport =
  fixes rpc :: "'w rpc"
  assumes rpc_keeps: "keeps same_but_tokens (rpc m ep data k)"

interpretation sync_transport: jm_transport "rpc_sync d net"
  by unfold_locales (rule rpc_sync_keeps)

interpretation async_transport: jm_transport "rpc_async net"
  by unfold_locales (rule rpc_async_keeps)

text \<open>What a status poll and a stop leave alone: the records and the settings.\<close>

definition same_rounds :: "jm_client \<Rightarrow> jm_client \<Rightarrow> bool" where
  "same_rounds c c' =
     (cl_events c' = cl_events c \<and> cl_delay c' = cl_delay c \<and> cl_stop c' = cl_stop c
      \<and> cl_max_coinjoins c' = cl_max_coinjoins c \<and> cl_timeout_blocks c' = cl_timeout_blocks c
      \<and> cl_between_rounds c' = cl_between_rounds c \<and> cl_name c' = cl_name c
      \<and> cl_next_allowed c' = cl_next_allowed c \<and> cl_completed c' = cl_completed c
      \<and> cl_start c' = cl_start c \<and> length (cl_offers c') = length (cl_offers c))"

lemma same_rounds_refl [simp]: "same_rounds c c"
  by (simp add: same_rounds_def)

lemma same_rounds_trans: "same_rounds a b \<Longrightarrow> same_rounds b c \<Longrightarrow> same_rounds a c"
  by (simp add: same_rounds_def)

lemma same_tokens_rounds:
  assumes "same_but_tokens c c'"
  shows "same_rounds c c'"
proof -
  have eq: "c' = c\<lparr>cl_token := cl_token c', cl_refresh_token := cl_refresh_token c'\<rparr>"
    using assms by (simp only: same_but_tokens_def)
  show ?thesis by (subst eq) (simp add: same_rounds_def)
qed

interpretation rounds: kept_relation same_rounds
  by unfold_locales (auto intro: same_rounds_trans)

context jm_transport
begin

lemma rpc_rounds: "keeps same_rounds (rpc m ep data k)"
  using rpc_keeps same_tokens_rounds by (rule keeps_mono)

lemma call_rounds: "keeps same_rounds (wallet_call rpc m suffix data k)"
  unfolding wallet_call_def with_client_def by (intro keeps_client rpc_rounds)

lemma record_coins_rounds: "keeps same_rounds (record_coins coins)"
  by (rule keepsI)
    (auto simp: record_coins_def io_raise_def same_rounds_def split: option.splits prod.splits)

lemma option_kept: "keeps R m \<Longrightarrow> (\<And>x. keeps R (f x)) \<Longrightarrow> keeps R (case z of None \<Rightarrow> m | Some x \<Rightarrow> f x)"
  by (cases z) simp_all

lemma update_status_rounds: "keeps same_rounds (update_status rpc)"
  unfolding update_status_def update_coin_history_def session_sync_def list_utxos_def
  by (intro rounds.kept_intros option_kept rpc_rounds call_rounds record_coins_rounds)

lemma update_status_async_rounds: "keeps same_rounds (update_status_async rpc)"
proof -
  have "keeps same_rounds (if r = JNull then io_ret None
      else io_bind (io_lift (response_get r ''utxos'' (JList []))) (\<lambda>coins. io_ret (Some coins)))" for r
    by (simp add: rounds.kept_intros)
  then show ?thesis
    unfolding update_status_async_def update_coin_history_async_def session_async_def list_utxos_def
    by (intro rounds.kept_intros option_kept rpc_rounds call_rounds record_coins_rounds)
qed

lemma stop_coinjoin_rounds: "keeps same_rounds (stop_coinjoin rpc)"
  unfolding stop_coinjoin_def with_client_def stop_taker_def stop_maker_def
  by (intro keeps_client rounds.kept_catch rounds.kept_ret)
    (auto intro: rounds.kept_intros call_rounds)

lemma new_address_rounds: "keeps same_rounds (get_new_address rpc depth)"
  unfolding get_new_address_def by (intro rounds.kept_intros call_rounds)

lemma prepare_rounds: "keeps same_rounds (prepare_attempt rpc rnd)"
  unfolding prepare_attempt_def with_client_def
  by (intro keeps_client rounds.kept_intros new_address_rounds keeps_set_client)
    (simp add: same_rounds_def)

lemma start_coinjoin_rounds: "keeps same_rounds (start_coinjoin rpc offer)"
  unfolding start_coinjoin_def by (simp add: call_rounds rounds.kept_raise)

lemma start_maker_rounds: "keeps same_rounds (start_maker rpc str offer)"
  unfolding start_maker_def by (simp add: rounds.kept_intros call_rounds)

end

section \<open>One attempt\<close>

lemma process_status_rounds: "keeps same_rounds (apply_process_status response)"
  unfolding apply_process_status_def
  by (intro rounds.kept_intros keeps_set_client) (simp add: same_rounds_def)

lemma maker_status_rounds: "keeps same_rounds (apply_maker_status response)"
  unfolding apply_maker_status_def
  by (intro rounds.kept_intros keeps_set_client) (simp add: same_rounds_def)

text \<open>The execution status an attempt is left with, by the outcome of its start request.\<close>

fun start_status :: "exn + 'a \<Rightarrow> string" where
  "start_status (Inr _) = ''started''"
| "start_status (Inl e) = (if is_exception e then ''unknown'' else ''requested'')"

definition new_attempt :: "jm_client \<Rightarrow> int \<Rightarrow> exn + int \<Rightarrow> jm_client \<Rightarrow> bool" where
  "new_attempt c block r c' =
     (\<exists>ev. cl_events c' = cl_events c @ [ev] \<and> is_pending ev
        \<and> dget ev ''round_id'' = JInt (int (length (cl_events c)) + 1)
        \<and> dget ev ''start_block'' = JInt block
        \<and> dget ev ''taker'' = JStr (cl_name c)
        \<and> dget ev ''execution_status'' = JStr (start_status r)
        \<and> cl_start c' = block
        \<and> (\<forall>d. r = Inr d \<longrightarrow> d = 1 \<and> cl_in_process c'))"

lemma request_start_events:
  assumes t: "jm_transport rpc" and ev: "cl_events c = es @ [ev]" "event = length es"
    and run: "request_start rpc i event (w, c) = (r, w', c')"
  shows "cl_events c' = es @ [case r of Inl e \<Rightarrow>
        if is_exception e then dset ev ''execution_status'' (JStr ''unknown'') else ev
      | Inr _ \<Rightarrow> dset ev ''execution_status'' (JStr ''started'')]"
    "cl_start c' = cl_start c" "r = Inr d \<Longrightarrow> d = 1 \<and> cl_in_process c'"
proof -
  obtain q w1 c1 where q: "start_coinjoin rpc (cl_offers c ! i) (w, c) = (q, w1, c1)"
    by (metis prod_cases3)
  have "same_rounds c c1" using jm_transport.start_coinjoin_rounds [OF t] q by (rule keepsD)
  then have c1: "cl_events c1 = es @ [ev]" "cl_start c1 = cl_start c"
    using ev by (simp_all add: same_rounds_def)
  show "cl_events c' = es @ [case r of Inl e \<Rightarrow>
        if is_exception e then dset ev ''execution_status'' (JStr ''unknown'') else ev
      | Inr _ \<Rightarrow> dset ev ''execution_status'' (JStr ''started'')]"
    "cl_start c' = cl_start c" "r = Inr d \<Longrightarrow> d = 1 \<and> cl_in_process c'"
    using run q c1 ev(2)
    by (cases q; auto simp: request_start_def io_simps with_client_def set_client_def
        record_round_start_outcome_def split: if_splits)+
qed

lemma record_attempt_events:
  assumes "record_attempt i block (w, c) = (r, w', c')"
  shows "r = Inr (length (cl_events c))"
    "\<exists>ev. cl_events c' = cl_events c @ [ev] \<and> is_pending ev
       \<and> dget ev ''round_id'' = JInt (int (length (cl_events c)) + 1)
       \<and> dget ev ''start_block'' = JInt block \<and> dget ev ''taker'' = JStr (cl_name c)
       \<and> dget ev ''execution_status'' = JStr ''requested'' \<and> cl_start c' = block"
  using assms
  by (auto simp: record_attempt_def record_round_start_def Let_def is_pending_def)

lemma start_attempt_events:
  assumes t: "jm_transport rpc" "jm_transport rpc'"
    and run: "start_attempt rpc rpc' block rnd (w, c) = (r, w', c')"
  shows "same_rounds c c' \<and> (\<exists>e. r = Inl e) \<or> new_attempt c block r c'"
proof -
  obtain p w1 c1 where p: "prepare_attempt rpc rnd (w, c) = (p, w1, c1)" by (metis prod_cases3)
  have c1: "same_rounds c c1" using jm_transport.prepare_rounds [OF t(1)] p by (rule keepsD)
  show ?thesis
  proof (cases p)
    case (Inl e)
    then show ?thesis using run p c1 by (auto simp: start_attempt_def io_bind_def)
  next
    case (Inr i)
    obtain q w2 c2 where q: "record_attempt i block (w1, c1) = (q, w2, c2)" by (metis prod_cases3)
    from record_attempt_events [OF q] obtain ev where
      qi: "q = Inr (length (cl_events c1))" and
      ev: "cl_events c2 = cl_events c1 @ [ev]" "is_pending ev"
        "dget ev ''round_id'' = JInt (int (length (cl_events c1)) + 1)"
        "dget ev ''start_block'' = JInt block" "dget ev ''taker'' = JStr (cl_name c1)"
        "dget ev ''execution_status'' = JStr ''requested''" "cl_start c2 = block"
      by blast
    have "request_start rpc' i (length (cl_events c1)) (w2, c2) = (r, w', c')"
      using run p q Inr qi by (simp add: start_attempt_def io_bind_def)
    note start = request_start_events [OF t(2) ev(1) refl this]
    have "new_attempt c block r c'"
      unfolding new_attempt_def
      using start ev c1 by (cases r) (auto simp: same_rounds_def is_pending_def)
    then show ?thesis by blast
  qed
qed

section \<open>A taker's update\<close>

definition attempt_allowed :: "jm_client \<Rightarrow> int \<Rightarrow> int \<Rightarrow> bool" where
  "attempt_allowed c block rnd =
     (\<not> has_unconfirmed_round c \<and> \<not> is_paused (refresh_completed_coinjoins c) block rnd)"

lemma same_rounds_facts:
  assumes "same_rounds c c'"
  shows "has_unconfirmed_round c' = has_unconfirmed_round c"
    "attempt_allowed c' block rnd = attempt_allowed c block rnd"
    "new_attempt c' block r d = new_attempt c block r d"
  using assms
  by (simp_all add: same_rounds_def has_unconfirmed_round_def attempt_allowed_def is_paused_def
      outside_schedule_def refresh_completed_coinjoins_def confirmed_rounds_def Let_def new_attempt_def)

lemma refresh_facts [simp]:
  "cl_events (refresh_completed_coinjoins c) = cl_events c"
  "has_unconfirmed_round (refresh_completed_coinjoins c) = has_unconfirmed_round c"
  "new_attempt (refresh_completed_coinjoins c) block r d = new_attempt c block r d"
  by (simp_all add: refresh_completed_coinjoins_def has_unconfirmed_round_def new_attempt_def Let_def)

definition outcome_ok :: "jm_client \<Rightarrow> bool \<Rightarrow> int \<Rightarrow> exn + int \<Rightarrow> jm_client \<Rightarrow> bool" where
  "outcome_ok c allowed block r c' =
     (cl_events c' = cl_events c \<or> allowed \<and> new_attempt c block r c')"

text \<open>Both transports of an environment keep the contract.\<close>

locale jm_clients =
  sync: jm_transport "je_rpc env" + async: jm_transport "je_rpc_async env"
  for env :: "'w jm_env"
begin

lemma stop_timed_out_events:
  assumes "stop_timed_out (je_rpc env) block (w, c) = (r, w', c')"
  shows "cl_events c' = cl_events c"
proof -
  obtain q w1 c1 where q: "stop_coinjoin (je_rpc env) (w, c) = (q, w1, c1)" by (metis prod_cases3)
  have "same_rounds c c1" using sync.stop_coinjoin_rounds q by (rule keepsD)
  then show ?thesis
    using assms q by (cases q) (auto simp: stop_timed_out_def io_simps set_client_def same_rounds_def)
qed

lemma taker_act_outcome:
  assumes "taker_act env block rnd (w, c) = (r, w', c')"
  shows "outcome_ok c (\<not> has_unconfirmed_round c \<and> \<not> is_paused c block rnd) block r c'"
  using assms start_attempt_events [OF sync.jm_transport_axioms sync.jm_transport_axioms, of block rnd w c]
    stop_timed_out_events [of block w c]
  by (auto simp: taker_act_def with_client_def io_ret_def outcome_ok_def same_rounds_def split: if_splits)

lemma taker_act_async_outcome:
  assumes "taker_act_async env block rnd (w, c) = (r, w', c')"
  shows "outcome_ok c (\<not> has_unconfirmed_round c \<and> \<not> is_paused c block rnd) block r c'"
  using assms start_attempt_events [OF sync.jm_transport_axioms async.jm_transport_axioms, of block rnd w c]
    stop_timed_out_events [of block w c]
  by (auto simp: taker_act_async_def with_client_def io_ret_def outcome_ok_def same_rounds_def
      split: if_splits)

lemma update_outcome:
  assumes status: "keeps same_rounds status"
    and act: "\<And>w c r w' c'. act (w, c) = (r, w', c') \<Longrightarrow>
      outcome_ok c (\<not> has_unconfirmed_round c \<and> \<not> is_paused c block rnd) block r c'"
    and run: "io_bind status (\<lambda>response. io_seq (apply_process_status response)
      (io_seq (set_client refresh_completed_coinjoins) act)) (w, c) = (r, w', c')"
  shows "outcome_ok c (attempt_allowed c block rnd) block r c'"
proof -
  obtain q w1 c1 where q: "status (w, c) = (q, w1, c1)" by (metis prod_cases3)
  have c1: "same_rounds c c1" using status q by (rule keepsD)
  show ?thesis
  proof (cases q)
    case (Inl e)
    then show ?thesis using run q c1 by (auto simp: io_bind_def outcome_ok_def same_rounds_def)
  next
    case (Inr response)
    obtain p w2 c2 where p: "apply_process_status response (w1, c1) = (p, w2, c2)" by (metis prod_cases3)
    have "same_rounds c1 c2" using process_status_rounds p by (rule keepsD)
    with c1 have c2: "same_rounds c c2" by (rule same_rounds_trans)
    show ?thesis
    proof (cases p)
      case (Inl e)
      then show ?thesis
        using run q Inr p c2 by (auto simp: io_bind_def io_seq_def outcome_ok_def same_rounds_def)
    next
      case (Inr u)
      then have "act (w2, refresh_completed_coinjoins c2) = (r, w', c')"
        using run q \<open>q = Inr response\<close> p by (simp add: io_bind_def io_seq_def set_client_def)
      from act [OF this] show ?thesis
        using same_rounds_facts [OF c2] c2
        by (auto simp: outcome_ok_def attempt_allowed_def same_rounds_def)
    qed
  qed
qed

lemma taker_update_outcome:
  "taker_update env block rnd (w, c) = (r, w', c') \<Longrightarrow>
     outcome_ok c (attempt_allowed c block rnd) block r c'"
  unfolding taker_update_def
  by (rule update_outcome [OF sync.update_status_rounds taker_act_outcome])

lemma taker_update_async_outcome:
  "taker_update_async env block rnd (w, c) = (r, w', c') \<Longrightarrow>
     outcome_ok c (attempt_allowed c block rnd) block r c'"
  unfolding taker_update_async_def
  by (rule update_outcome [OF async.update_status_async_rounds taker_act_async_outcome])

lemma outcome_rounds_ok:
  assumes "outcome_ok c (attempt_allowed c block rnd) block r c'" "rounds_ok c"
  shows "rounds_ok c'"
  using assms
  by (auto simp: outcome_ok_def rounds_ok_def pending_rounds_def new_attempt_def attempt_allowed_def
      has_unconfirmed_iff nth_append less_Suc_eq)

end

text \<open>The environment the engine builds: requests over two networks with one clock.\<close>

definition net_env :: "nat \<Rightarrow> 'w jm_net \<Rightarrow> 'w jm_net \<Rightarrow> (json \<Rightarrow> string) \<Rightarrow> 'w jm_env" where
  "net_env d net net' str =
     \<lparr>je_rpc = rpc_sync d net, je_rpc_async = rpc_async net', je_clock = net_clock net,
      je_sleep = net_sleep net, je_str = str\<rparr>"

interpretation net_clients: jm_clients "net_env d net net' str"
  by unfold_locales (simp_all add: net_env_def rpc_sync_keeps rpc_async_keeps)

text \<open>A history of a taker: updates of either kind, and the engine's changes of event status in between.\<close>

definition settles :: "jm_client \<Rightarrow> jm_client \<Rightarrow> bool" where
  "settles c c' =
     (length (cl_events c') = length (cl_events c) \<and>
      (\<forall>i < length (cl_events c).
         dget (cl_events c' ! i) ''round_id'' = dget (cl_events c ! i) ''round_id''
         \<and> (is_pending (cl_events c' ! i) \<longrightarrow> is_pending (cl_events c ! i))))"

lemma settles_ok: "settles c c' \<Longrightarrow> rounds_ok c \<Longrightarrow> rounds_ok c'"
proof -
  assume s: "settles c c'" and ok: "rounds_ok c"
  have "length (filter is_pending (cl_events c')) \<le> length (filter is_pending (cl_events c))"
    using s by (intro filter_length_mono) (auto simp: settles_def)
  then show ?thesis using s ok by (auto simp: settles_def rounds_ok_def pending_rounds_def)
qed

inductive taker_history :: "'w jm_env \<Rightarrow> jm_client \<Rightarrow> jm_client \<Rightarrow> bool" for env where
  history_start: "taker_history env c c"
| history_sync: "taker_history env c c1 \<Longrightarrow> taker_update env block rnd (w, c1) = (r, w', c2) \<Longrightarrow>
    taker_history env c c2"
| history_async: "taker_history env c c1 \<Longrightarrow> taker_update_async env block rnd (w, c1) = (r, w', c2) \<Longrightarrow>
    taker_history env c c2"
| history_settle: "taker_history env c c1 \<Longrightarrow> settles c1 c2 \<Longrightarrow> taker_history env c c2"

context jm_clients
begin

lemma history_ok:
  "taker_history env c c' \<Longrightarrow> rounds_ok c \<Longrightarrow> rounds_ok c'"
  by (induction rule: taker_history.induct)
    (auto intro: settles_ok outcome_rounds_ok taker_update_outcome taker_update_async_outcome)

end

section \<open>A maker's update\<close>

lemma same_tokens_running: "same_but_tokens c c' \<Longrightarrow> cl_maker_running c' = cl_maker_running c"
  unfolding same_but_tokens_def by (drule arg_cong [where f = cl_maker_running]) simp

lemma maker_act_running:
  assumes t: "jm_transport rpc" and run: "maker_act rpc str block rnd (w, c) = (Inr d, w', c')"
  shows "d = 0" "cl_maker_running c' =
    (if outside_schedule c block rnd then False else if is_paused c block rnd then cl_maker_running c else True)"
proof -
  have "keeps same_but_tokens (stop_maker rpc)"
    unfolding stop_maker_def wallet_call_def with_client_def
    by (intro tokens.kept_intros jm_transport.rpc_keeps [OF t])
  moreover have "keeps same_but_tokens (start_maker rpc str offer)" for offer
    unfolding start_maker_def wallet_call_def with_client_def
    by (intro tokens.kept_intros jm_transport.rpc_keeps [OF t])
  moreover have "outside_schedule c block rnd \<Longrightarrow> is_paused c block rnd"
    by (simp add: is_paused_def)
  ultimately show "d = 0" "cl_maker_running c' =
    (if outside_schedule c block rnd then False else if is_paused c block rnd then cl_maker_running c else True)"
    using run
    by (auto simp: maker_act_def with_client_def io_simps io_lift_def set_client_def
        split: if_splits sum.splits prod.splits)
qed

lemma maker_update_running:
  assumes status: "keeps same_rounds status" and t: "jm_transport rpc"
    and run: "io_bind status (\<lambda>response. io_seq (apply_maker_status response)
       (maker_act rpc str block rnd)) (w, c) = (Inr d, w', c')"
  shows "d = 0" "outside_schedule c block rnd \<Longrightarrow> \<not> cl_maker_running c'"
    "\<not> is_paused c block rnd \<Longrightarrow> cl_maker_running c'"
proof -
  obtain response w1 c1 where q: "status (w, c) = (Inr response, w1, c1)"
    using run by (auto simp: io_bind_def split: prod.splits sum.splits)
  obtain u w2 c2 where p: "apply_maker_status response (w1, c1) = (Inr u, w2, c2)"
    using run q by (auto simp: io_bind_def io_seq_def split: prod.splits sum.splits)
  have "same_rounds c c1" using status q by (rule keepsD)
  moreover have "same_rounds c1 c2" using maker_status_rounds p by (rule keepsD)
  ultimately have c2: "same_rounds c c2" by (rule same_rounds_trans)
  have act: "maker_act rpc str block rnd (w2, c2) = (Inr d, w', c')"
    using run q p by (simp add: io_bind_def io_seq_def)
  have "outside_schedule c2 block rnd = outside_schedule c block rnd"
    "is_paused c2 block rnd = is_paused c block rnd"
    using c2 by (simp_all add: same_rounds_def outside_schedule_def is_paused_def)
  moreover have "outside_schedule c block rnd \<Longrightarrow> is_paused c block rnd"
    by (simp add: is_paused_def)
  ultimately show "d = 0" "outside_schedule c block rnd \<Longrightarrow> \<not> cl_maker_running c'"
    "\<not> is_paused c block rnd \<Longrightarrow> cl_maker_running c'"
    using maker_act_running [OF t act] by auto
qed

section \<open>Where the two takers differ\<close>

lemma taker_acts_agree:
  assumes "je_rpc_async env = je_rpc env"
    and "\<not> (is_paused c block rnd \<and> cl_in_process c \<and> coinjoin_timed_out c block)"
  shows "taker_act_async env block rnd (w, c) = taker_act env block rnd (w, c)"
  using assms
  by (auto simp: taker_act_def taker_act_async_def with_client_def)

lemma paused_timeout_ignored:
  assumes "is_paused c block rnd" "cl_in_process c" "coinjoin_timed_out c block"
  shows "taker_act_async env block rnd (w, c) = (Inr 0, w, c)"
    "taker_act env block rnd (w, c) = stop_timed_out (je_rpc env) block (w, c)"
  using assms
  by (simp_all add: taker_act_def taker_act_async_def with_client_def has_unconfirmed_finished_attempt_def
      io_ret_def)

text \<open>A failed session poll looks to the asynchronous tumbler like a completed schedule.\<close>

lemma session_async_failed:
  "rpc ''GET'' ''/session'' JNull 4 s = (Inl e, s') \<Longrightarrow> is_exception e \<Longrightarrow>
     session_async rpc s = (Inr (JDict []), s')"
  by (simp add: session_async_def io_simps)

lemma tumbler_failed_poll:
  "cl_last_schedule c \<noteq> JNull \<Longrightarrow>
     apply_tumbler_status (JDict []) (w, c) =
       (Inr (), w, c\<lparr>cl_in_process := False, cl_coinjoin_completed := True, cl_last_schedule := JNull\<rparr>)"
  by (simp add: apply_tumbler_status_def io_simps io_lift_def set_client_def Let_def dget_default_def)

section \<open>The order book\<close>

lemma orderbook_never_fails:
  assumes "\<And>e w'. fst (poll_orderbook fetch store_snapshot bonds w) = Inl e \<Longrightarrow> is_exception e"
  shows "fst (orderbook_update fetch store_snapshot bonds clock ob w) = Inr 0"
proof -
  have "fst (poll_orderbook fetch store_snapshot bonds w) = Inr 0 \<or>
      (\<exists>e. fst (poll_orderbook fetch store_snapshot bonds w) = Inl e \<and> \<not> is_exception e)"
    by (auto simp: poll_orderbook_def io_simps split: prod.splits sum.splits)
  with assms show ?thesis
    by (auto simp: orderbook_update_def Let_def split: prod.splits)
qed

lemma orderbook_interval:
  assumes "orderbook_update fetch store_snapshot bonds clock ob w = (r, ob', w')" "ob' \<noteq> ob"
  shows "ob_interval ob \<le> clock w - ob_last_poll ob" "ob_last_poll ob' = clock w"
  using assms by (auto simp: orderbook_update_def Let_def split: if_splits prod.splits)

section \<open>Properties\<close>

text \<open>
  Claim C3. However the daemons answer and however the engine settles events in between, any
  sequence of updates leaves a taker with at most one pending attempt, and its rounds are numbered
  one, two, three in the order they were started.
\<close>

theorem one_pending_attempt:
  assumes "taker_history (net_env d net net' str) c c'" "rounds_ok c"
  shows "rounds_ok c'"
  using assms by (rule net_clients.history_ok)

definition idle_session :: http_response where
  "idle_session = ok_response [(''coinjoin_in_process'', JBool False), (''utxos'', JList []),
     (''address'', JStr ''bcrt1'')]"

definition example_net :: "unit jm_net" where
  "example_net = answering_net idle_session"

definition example_env :: "unit jm_env" where
  "example_env = net_env 2 example_net example_net (\<lambda>j. [])"

definition started_client :: jm_client where
  "started_client = snd (snd (taker_update_async example_env 5 0 ((), example_client)))"

lemma example_history: "taker_history example_env example_client started_client"
proof (rule history_async [OF history_start])
  show "taker_update_async example_env 5 0 ((), example_client) =
      (fst (taker_update_async example_env 5 0 ((), example_client)), (), started_client)"
    unfolding started_client_def by (intro prod_eqI) simp_all
qed

theorem one_pending_attempt_witness:
  "rounds_ok started_client \<and> pending_rounds started_client = 1"
proof
  have "rounds_ok example_client" by code_simp
  then show "rounds_ok started_client"
    by (rule one_pending_attempt [OF example_history [unfolded example_env_def]])
  show "pending_rounds started_client = 1" by code_simp
qed

text \<open>
  Claim C4. What one update of a taker can do to its records, on both transports and for every
  answer of the daemon: nothing, or one new attempt, and that only when no attempt is pending, the
  schedule is open, the pause after a timeout is over and the limit of confirmed coinjoins is not
  reached. The attempt is recorded even when its start request fails, and then as \<open>unknown\<close>.
\<close>

theorem update_starts_one_allowed_attempt:
  assumes "taker_update (net_env d net net' str) block rnd (w, c) = (r, w', c')
    \<or> taker_update_async (net_env d net net' str) block rnd (w, c) = (r, w', c')"
  shows "cl_events c' = cl_events c \<or> attempt_allowed c block rnd \<and> new_attempt c block r c'"
  using assms
  by (elim disjE) (erule net_clients.taker_update_outcome [unfolded outcome_ok_def]
      net_clients.taker_update_async_outcome [unfolded outcome_ok_def])+

theorem update_starts_one_allowed_attempt_witness:
  "attempt_allowed example_client 5 0 \<and> new_attempt example_client 5
     (fst (taker_update_async example_env 5 0 ((), example_client))) started_client"
proof -
  have run: "taker_update_async (net_env 2 example_net example_net (\<lambda>j. [])) 5 0 ((), example_client) =
      (fst (taker_update_async example_env 5 0 ((), example_client)), (), started_client)"
    unfolding started_client_def example_env_def by (intro prod_eqI) simp_all
  have "length (cl_events started_client) \<noteq> length (cl_events example_client)" by code_simp
  then show ?thesis
    using update_starts_one_allowed_attempt [OF disjI2 [OF run]] by metis
qed

text \<open>
  After an update of a maker that returned, the maker is off when its schedule is closed
  and on when it is not paused, on both transports.
\<close>

theorem maker_follows_schedule:
  assumes "maker_update (net_env d net net' str) block rnd (w, c) = (Inr n, w', c')
    \<or> maker_update_async (net_env d net net' str) block rnd (w, c) = (Inr n, w', c')"
  shows "n = 0 \<and> (outside_schedule c block rnd \<longrightarrow> \<not> cl_maker_running c')
    \<and> (\<not> is_paused c block rnd \<longrightarrow> cl_maker_running c')"
  using assms
proof
  assume run: "maker_update (net_env d net net' str) block rnd (w, c) = (Inr n, w', c')"
  show ?thesis
    using maker_update_running [OF net_clients.sync.update_status_rounds
        net_clients.sync.jm_transport_axioms run [unfolded maker_update_def]] by simp
next
  assume run: "maker_update_async (net_env d net net' str) block rnd (w, c) = (Inr n, w', c')"
  show ?thesis
    using maker_update_running [OF net_clients.async.update_status_async_rounds
        net_clients.async.jm_transport_axioms run [unfolded maker_update_async_def]] by simp
qed

definition example_maker :: jm_client where
  "example_maker = projr (init_client ''jcs-001'' ''maker'' (0, 0) (0, 0) (default_offers ''maker'') None 0 8 False 0)"

theorem maker_follows_schedule_witness:
  "cl_maker_running (snd (snd (maker_update example_env 5 0 ((), example_maker))))"
proof -
  have "fst (maker_update example_env 5 0 ((), example_maker)) = Inr 0" by code_simp
  then have run: "maker_update (net_env 2 example_net example_net (\<lambda>j. [])) 5 0 ((), example_maker) =
      (Inr 0, (), snd (snd (maker_update example_env 5 0 ((), example_maker))))"
    unfolding example_env_def by (intro prod_eqI) simp_all
  have "\<not> is_paused example_maker 5 0" by code_simp
  then show ?thesis using maker_follows_schedule [OF disjI1 [OF run]] by blast
qed

text \<open>
  The two taker updates decide alike except in one case: a taker that is paused while its
  attempt runs past the timeout. The synchronous update stops the attempt, the asynchronous one
  leaves it running.
\<close>

theorem takers_differ_only_when_paused:
  assumes "je_rpc_async env = je_rpc env"
  shows "if is_paused c block rnd \<and> cl_in_process c \<and> coinjoin_timed_out c block
    then taker_act env block rnd (w, c) = stop_timed_out (je_rpc env) block (w, c)
      \<and> taker_act_async env block rnd (w, c) = (Inr 0, w, c)
    else taker_act_async env block rnd (w, c) = taker_act env block rnd (w, c)"
  using taker_acts_agree [OF assms] paused_timeout_ignored [of c block rnd env w] by auto

theorem takers_differ_only_when_paused_witness:
  "taker_act_async refusing_env 20 0 (0, example_client\<lparr>cl_in_process := True, cl_next_allowed := 30\<rparr>) =
     (Inr 0, 0, example_client\<lparr>cl_in_process := True, cl_next_allowed := 30\<rparr>)"
proof -
  let ?c = "example_client\<lparr>cl_in_process := True, cl_next_allowed := 30\<rparr>"
  have "is_paused ?c 20 0 \<and> cl_in_process ?c \<and> coinjoin_timed_out ?c 20" by code_simp
  moreover have "je_rpc_async refusing_env = je_rpc refusing_env" by (simp add: refusing_env_def)
  ultimately show ?thesis using takers_differ_only_when_paused [of refusing_env ?c 20 0 0] by simp
qed

text \<open>
  When its session poll fails, a tumbler on the asynchronous transport takes the empty
  answer for an idle daemon with a new schedule: if it has run one before, the update counts a
  completed coinjoin although nothing is known to have happened.
\<close>

theorem failed_poll_counts_a_coinjoin:
  assumes "update_status_async (je_rpc_async env) (w, c) = (Inr (JDict []), w1, c1)"
    and "cl_last_schedule c1 \<noteq> JNull"
    and "is_paused c1 block rnd"
    and "\<forall>s. \<exists>v s'. get_schedule (je_rpc_async env) s = (Inr v, s')"
  shows "fst (tumbler_update_async env block rnd (w, c)) = Inr 1"
proof -
  let ?c = "c1\<lparr>cl_in_process := False, cl_coinjoin_completed := True, cl_last_schedule := JNull\<rparr>"
  have "is_paused ?c block rnd = is_paused c1 block rnd"
    by (simp add: is_paused_def outside_schedule_def)
  then have "is_paused ?c block rnd" using assms(3) by simp
  moreover obtain v s' where "get_schedule (je_rpc_async env) (w1, ?c\<lparr>cl_coinjoin_completed := False\<rparr>) = (Inr v, s')"
    using assms(4) by blast
  ultimately show ?thesis
    using assms(1) tumbler_failed_poll [OF assms(2), of w1]
    by (simp add: tumbler_update_async_def io_bind_def io_seq_def tumbler_act_def with_client_def
        set_client_def io_ret_def)
qed

text \<open>A daemon whose session request fails while the rest answers.\<close>

definition flaky_env :: "rat jm_env" where
  "flaky_env = refusing_env\<lparr>je_rpc_async :=
     (\<lambda>m ep data k. if ep = ''/session'' then io_raise (Exn KException ''timeout'') else io_ret (JDict []))\<rparr>"

theorem failed_poll_counts_a_coinjoin_witness:
  "fst (tumbler_update_async flaky_env 5 0
     (0, example_client\<lparr>cl_last_schedule := JList [JInt 1], cl_next_allowed := 30\<rparr>)) = Inr 1"
proof (rule failed_poll_counts_a_coinjoin)
  show "update_status_async (je_rpc_async flaky_env)
      (0, example_client\<lparr>cl_last_schedule := JList [JInt 1], cl_next_allowed := 30\<rparr>) =
    (Inr (JDict []), 0, example_client\<lparr>cl_last_schedule := JList [JInt 1], cl_next_allowed := 30\<rparr>)"
    by code_simp
  show "cl_last_schedule (example_client\<lparr>cl_last_schedule := JList [JInt 1], cl_next_allowed := 30\<rparr>) \<noteq> JNull"
    by code_simp
  show "is_paused (example_client\<lparr>cl_last_schedule := JList [JInt 1], cl_next_allowed := 30\<rparr>) 5 0"
    by code_simp
  show "\<forall>s. \<exists>v s'. get_schedule (je_rpc_async flaky_env) s = (Inr v, s')"
    by (simp add: flaky_env_def get_schedule_def wallet_call_def with_client_def wallet_path_def io_ret_def)
qed

end
