(* ===== verification/EngineBase.thy ===== *)
theory EngineBase
  imports Config
begin

text \<open>
  The engine-independent part of a run, \<open>manager/engine/engine_base.py\<close>: which images are built or
  pulled, where a service is reached, how clients are started and retried, how the distributor is
  funded, how the wallets' invoices are scheduled and paid, and what is stored at the end. Clients,
  distributor, node, driver and file system are the world \<open>'w\<close> of the calls in \<open>engine_ops\<close>; the
  calls a thread pool makes side by side are made one after the other.
\<close>

section \<open>Images\<close>

record image_args =
  ia_prefix :: string
  ia_override :: "string \<Rightarrow> string"
  ia_local_build :: bool
  ia_force_rebuild :: bool

datatype image_action =
    BuildImage string string "(string \<times> string) list"
  | PullImage string
  | ReuseImage string

definition infrastructure_images :: "string list" where
  "infrastructure_images = [''btc-node'', ''joinmarket-client-server'', ''irc-server'', ''wasabi-client'',
     ''wasabi-backend'', ''wasabi-coordinator'']"

text \<open>\<open>getattr\<close> on the attribute of that name is the field \<open>ia_override\<close>.\<close>

definition image_override :: "image_args \<Rightarrow> string \<Rightarrow> string" where
  "image_override args name = ia_override args name"

definition image_ref :: "image_args \<Rightarrow> string \<Rightarrow> string" where
  "image_ref args name =
     (let override = image_override args name
      in if override \<noteq> [] then override else ia_prefix args @ name)"

definition local_build_requested :: "image_args \<Rightarrow> string \<Rightarrow> bool" where
  "local_build_requested args name =
     (hd (split_on (CHR '':'') name) \<in> set infrastructure_images \<and> ia_local_build args)"

definition prepare_image ::
    "image_args \<Rightarrow> (string \<Rightarrow> bool) \<Rightarrow> string \<Rightarrow> string option \<Rightarrow> (string \<times> string) list \<Rightarrow> image_action" where
  "prepare_image args has_image name path build_args =
     (let image_name = image_ref args name;
          has_override = (image_override args name \<noteq> []);
          context_path = (case path of None \<Rightarrow> ''./containers/'' @ name | Some p \<Rightarrow> p)
      in if local_build_requested args name then BuildImage image_name context_path build_args
         else if has_image image_name
         then (if ia_force_rebuild args
               then (if ia_prefix args \<noteq> [] \<or> has_override then PullImage image_name
                     else BuildImage name context_path build_args)
               else ReuseImage image_name)
         else if ia_prefix args \<noteq> [] \<or> has_override then PullImage image_name
         else BuildImage name context_path build_args)"

fun action_image :: "image_action \<Rightarrow> string" where
  "action_image (BuildImage n p b) = n"
| "action_image (PullImage n) = n"
| "action_image (ReuseImage n) = n"

definition positive_int_env :: "string \<Rightarrow> int option" where
  "positive_int_env raw =
     (let r = strip raw in
      if r \<noteq> [] \<and> list_all is_digit r \<and> 0 < digits_val r then Some (digits_val r) else None)"

section \<open>Endpoints\<close>

record endpoint_args =
  ea_in_cluster :: bool
  ea_proxy :: string
  ea_control_ip :: string

definition service_endpoint ::
    "endpoint_args \<Rightarrow> string \<Rightarrow> int \<Rightarrow> (int \<times> int) list \<Rightarrow> string \<Rightarrow> bool \<Rightarrow> exn + string \<times> int" where
  "service_endpoint args ip container_port ports route tls =
     (if ea_in_cluster args
      then Inr (ip, case map_of ports container_port of Some p \<Rightarrow> p | None \<Rightarrow> container_port)
      else if ea_proxy args \<noteq> [] then Inr (ip, container_port)
      else if route \<noteq> [] \<and> tls then Inr (route, 443)
      else (case map_of ports container_port of
              Some p \<Rightarrow> Inr (ea_control_ip args, p)
            | None \<Rightarrow> Inl (Exn KKeyError (str_int container_port))))"

section \<open>Containers\<close>

record container_request =
  cr_name :: string
  cr_image :: string
  cr_env :: "(string \<times> string) list"
  cr_ports :: "(int \<times> int) list"
  cr_cpu :: rat
  cr_memory :: int
  cr_service_account :: string
  cr_run_as :: "(int option \<times> int option)"
  cr_proxy :: string

text \<open>What \<open>driver.run\<close> answers: address, published ports and route.\<close>

type_synonym container_endpoint = "string \<times> (int \<times> int) list \<times> string"

text \<open>\<open>{idx:03}\<close>.\<close>

definition pad3 :: "nat \<Rightarrow> string" where
  "pad3 n = (let s = str_nat n in replicate (3 - length s) (CHR ''0'') @ s)"

section \<open>Starting clients\<close>

text \<open>A client is named by its index; \<open>op_start\<close> gives None for a client that did not come up.\<close>

record ('w, 'c) client_ops =
  op_start :: "nat \<Rightarrow> wallet_config \<Rightarrow> ('w, 'c option) io"
  op_stop_client :: "nat \<Rightarrow> ('w, unit) io"
  op_balance :: "'c \<Rightarrow> ('w, int) io"
  op_pause :: "rat \<Rightarrow> 'w \<Rightarrow> 'w"

definition wallet_has_bond :: "wallet_config \<Rightarrow> exn + bool" where
  "wallet_has_bond w =
     (case py_or (case w_joinmarket w of None \<Rightarrow> JNull | Some c \<Rightarrow> jc_fidelity_bond c) (JDict []) of
        JDict d \<Rightarrow> Inr (truthy (dget_default d ''enabled'' (JBool False)))
      | _ \<Rightarrow> Inl (Exn KAttributeError ''get''))"

definition pausing :: "('w, 'c) client_ops \<Rightarrow> rat \<Rightarrow> ('w, unit) io" where
  "pausing ops d = (\<lambda>w. (Inr (), op_pause ops d w))"

definition start_batch ::
    "('w, 'c) client_ops \<Rightarrow> (nat \<times> wallet_config) list \<Rightarrow> ('w, (nat \<times> 'c option) list) io" where
  "start_batch ops batch =
     io_traverse (\<lambda>(idx, wallet). io_bind (op_start ops idx wallet) (\<lambda>c. io_ret (idx, c))) batch"

function fb_batches ::
    "('w, 'c) client_ops \<Rightarrow> nat \<Rightarrow> rat \<Rightarrow> (nat \<times> wallet_config) list \<Rightarrow> ('w, (nat \<times> 'c option) list) io" where
  "fb_batches ops batch_size delay wallets =
     (if wallets = [] \<or> batch_size = 0 then io_ret []
      else io_bind (start_batch ops (take batch_size wallets)) (\<lambda>started.
           io_seq (if drop batch_size wallets \<noteq> [] \<and> 0 < delay then pausing ops delay else io_ret ())
             (io_bind (fb_batches ops batch_size delay (drop batch_size wallets)) (\<lambda>rest. io_ret (started @ rest)))))"
  by pat_completeness auto
termination
  by (relation "measure (\<lambda>(ops, batch_size, delay, wallets). length wallets)") auto

declare fb_batches.simps [simp del]

definition start_classified_wallets ::
    "('w, 'c) client_ops \<Rightarrow> (nat \<times> wallet_config) list \<Rightarrow> nat \<Rightarrow> rat \<Rightarrow> ('w, (nat \<times> 'c option) list) io" where
  "start_classified_wallets ops wallets batch_size delay =
     (case traverse (\<lambda>(i, w). ebind (wallet_has_bond w) (\<lambda>b. Inr (b, i, w))) wallets of
        Inl e \<Rightarrow> io_raise e
      | Inr classified \<Rightarrow>
          (let regular = map snd (filter (\<lambda>(b, iw). \<not> b) classified);
               bonded = map snd (filter (\<lambda>(b, iw). b) classified)
           in io_bind (start_batch ops regular) (\<lambda>a.
              io_bind (fb_batches ops batch_size delay bonded) (\<lambda>b. io_ret (a @ b)))))"

text \<open>\<open>for idx, client in results.items(): new_clients[idx - len(self.clients)] = client\<close>\<close>

definition place_results :: "nat \<Rightarrow> (nat \<times> 'c option) list \<Rightarrow> 'c option list \<Rightarrow> 'c option list" where
  "place_results base results clients = fold (\<lambda>(idx, c) cs. cs[idx - base := c]) results clients"

definition client_is_healthy :: "('w, 'c) client_ops \<Rightarrow> 'c \<Rightarrow> ('w, bool) io" where
  "client_is_healthy ops c =
     io_catch (io_seq (op_balance ops c) (io_ret True)) is_exception (\<lambda>_. io_ret False)"

definition failed_indices ::
    "('w, 'c) client_ops \<Rightarrow> nat \<Rightarrow> 'c option list \<Rightarrow> ('w, nat list) io" where
  "failed_indices ops base clients =
     io_bind (io_traverse (\<lambda>(idx, c). io_bind
         (case c of None \<Rightarrow> io_ret False | Some x \<Rightarrow> client_is_healthy ops x)
         (\<lambda>ok. io_ret (idx, ok))) (enumerate base clients))
       (\<lambda>checked. io_ret (map fst (filter (\<lambda>(idx, ok). \<not> ok) checked)))"

fun retry_clients ::
    "nat \<Rightarrow> ('w, 'c) client_ops \<Rightarrow> nat \<Rightarrow> wallet_config list \<Rightarrow> 'c option list \<Rightarrow> ('w, 'c option list) io" where
  "retry_clients 0 ops base wallets clients = io_ret clients"
| "retry_clients (Suc n) ops base wallets clients =
     io_bind (failed_indices ops base clients) (\<lambda>failed.
       if failed = [] then io_ret clients
       else io_seq (io_for (op_stop_client ops) failed)
              (io_seq (pausing ops 60)
                (io_bind (start_classified_wallets ops (map (\<lambda>i. (i, wallets ! (i - base))) failed) 5 15)
                  (\<lambda>results. retry_clients n ops base wallets (place_results base results clients)))))"

definition start_clients ::
    "('w, 'c) client_ops \<Rightarrow> 'c list \<Rightarrow> wallet_config list \<Rightarrow> ('w, 'c list) io" where
  "start_clients ops existing wallets =
     (let base = length existing in
      io_bind (start_classified_wallets ops (enumerate base wallets) 5 15) (\<lambda>results.
      io_bind (retry_clients 3 ops base wallets (place_results base results (replicate (length wallets) None))) (\<lambda>cs.
        if None \<in> set cs
        then io_raise (Exn KRuntimeError (''Failed to start '' @ str_nat (length (filter (\<lambda>c. c = None) cs))
               @ '' clients after retries; aborting experiment''))
        else io_ret (existing @ map the cs))))"

definition validate_clients ::
    "('w, 'c) client_ops \<Rightarrow> nat \<Rightarrow> 'c list \<Rightarrow> ('w, unit) io" where
  "validate_clients ops expected clients =
     (if length clients \<noteq> expected
      then io_raise (Exn KRuntimeError (''Expected '' @ str_nat expected @ '' clients, but only ''
             @ str_nat (length clients) @ '' started''))
      else io_bind (io_traverse (client_is_healthy ops) clients) (\<lambda>oks.
        if False \<in> set oks
        then io_raise (Exn KRuntimeError ''Client RPC health-check failed before funding: '')
        else io_ret ()))"

section \<open>Funding the distributor\<close>

definition DISTRIBUTOR_UTXOS :: nat where "DISTRIBUTOR_UTXOS = 200"
definition SATS :: int where "SATS = 100000000"

definition per_utxo_sats :: "rat \<Rightarrow> int" where
  "per_utxo_sats btc_amount = \<lceil>btc_amount * of_int SATS / of_nat DISTRIBUTOR_UTXOS\<rceil>"

record 'w funding_ops =
  fo_node :: bool
  fo_distributor :: bool
  fo_address :: "('w, string) io"
  fo_fund :: "string \<Rightarrow> rat \<Rightarrow> ('w, unit) io"
  fo_balance :: "('w, int) io"
  fo_pause :: "'w \<Rightarrow> 'w"

text \<open>The wait for the balance has no limit in the code; fuel bounds it here.\<close>

fun wait_balance :: "nat \<Rightarrow> 'w funding_ops \<Rightarrow> rat \<Rightarrow> ('w, unit) io" where
  "wait_balance 0 ops target = diverge"
| "wait_balance (Suc n) ops target =
     io_bind (fo_balance ops) (\<lambda>balance.
       if of_int balance < target then (\<lambda>w. wait_balance n ops target (fo_pause ops w)) else io_ret ())"

definition fund_distributor :: "nat \<Rightarrow> 'w funding_ops \<Rightarrow> rat \<Rightarrow> ('w, unit) io" where
  "fund_distributor fuel ops btc_amount =
     (if \<not> fo_node ops then io_raise (Exn KRuntimeError ''Bitcoin node is not initialized'')
      else if \<not> fo_distributor ops then io_raise (Exn KRuntimeError ''Distributor is not initialized'')
      else io_seq
        (io_for (\<lambda>_. io_bind (fo_address ops)
            (\<lambda>a. fo_fund ops a (of_int (per_utxo_sats btc_amount) / of_int SATS))) [0..<DISTRIBUTOR_UTXOS])
        (wait_balance fuel ops (btc_amount * of_int SATS)))"

section \<open>Invoices\<close>

type_synonym invoice = "json \<times> json"
type_synonym invoices = "((int \<times> int) \<times> invoice list) list"

definition fund_plan :: "fund \<Rightarrow> exn + json \<times> int \<times> int" where
  "fund_plan f =
     (case f of
        FundPlain j \<Rightarrow> if is_int j then Inr (j, 0, 0) else Inl (Exn KTypeError ''unsupported fund entry'')
      | FundObject c \<Rightarrow>
          ebind (int_setting (fund_delay_blocks c)) (\<lambda>b.
          ebind (int_setting (fund_delay_rounds c)) (\<lambda>r. Inr (fund_value c, b, r))))"

fun prepare_funds ::
    "('c \<Rightarrow> ('w, json) io) \<Rightarrow> 'c \<Rightarrow> fund list \<Rightarrow> invoices \<Rightarrow> ('w, invoices) io" where
  "prepare_funds new_address c [] invs = io_ret invs"
| "prepare_funds new_address c (f # fs) invs =
     (case fund_plan f of
        Inl e \<Rightarrow> io_raise e
      | Inr (v, b, r) \<Rightarrow> io_bind (new_address c) (\<lambda>a.
          prepare_funds new_address c fs (group_insert invs (b, r) (a, v))))"

fun prepare_wallets ::
    "('c \<Rightarrow> ('w, json) io) \<Rightarrow> ('c \<times> wallet_config) list \<Rightarrow> invoices \<Rightarrow> ('w, invoices) io" where
  "prepare_wallets new_address [] invs = io_ret invs"
| "prepare_wallets new_address ((c, wallet) # rest) invs =
     io_bind (prepare_funds new_address c (w_funds wallet) invs) (prepare_wallets new_address rest)"

text \<open>\<open>random.shuffle\<close> on every schedule is the argument \<open>shuffle\<close>.\<close>

definition prepare_invoices ::
    "(invoice list \<Rightarrow> invoice list) \<Rightarrow> ('c \<Rightarrow> ('w, json) io) \<Rightarrow> 'c list \<Rightarrow> wallet_config list \<Rightarrow> invoices
       \<Rightarrow> ('w, invoices) io" where
  "prepare_invoices shuffle new_address clients wallets invs =
     io_bind (prepare_wallets new_address (zip clients wallets) invs)
       (\<lambda>invs'. io_ret (map (\<lambda>(k, xs). (k, shuffle xs)) invs'))"

definition BATCH_SIZE :: nat where "BATCH_SIZE = 5"

text \<open>
  Up to three attempts at one batch: \<open>Inr True\<close> when a send was accepted. \<open>None\<close> stands for a
  distributor that was never started.
\<close>

fun send_batch ::
    "nat \<Rightarrow> (invoice list \<Rightarrow> ('w, json) io) option \<Rightarrow> invoice list \<Rightarrow> ('w, bool) io" where
  "send_batch 0 payer batch = io_ret False"
| "send_batch (Suc n) payer batch = (\<lambda>w.
     case (case payer of
             None \<Rightarrow> io_raise (Exn KRuntimeError ''Distributor is not initialized'')
           | Some send \<Rightarrow> send batch) w of
       (Inr result, w') \<Rightarrow> if result = JStr ''timeout'' then send_batch n payer batch w' else (Inr True, w')
     | (Inl e, w') \<Rightarrow> if is_exception e then send_batch n payer batch w' else (Inl e, w'))"

function pay_invoices ::
    "(invoice list \<Rightarrow> ('w, json) io) option \<Rightarrow> invoice list \<Rightarrow> 'w \<Rightarrow> (exn + unit) \<times> invoice list \<times> 'w" where
  "pay_invoices payer invs w =
     (if invs = [] then (Inr (), [], w)
      else (case send_batch 3 payer (take BATCH_SIZE invs) w of
              (Inl e, w') \<Rightarrow> (Inl e, invs, w')
            | (Inr False, w') \<Rightarrow> (Inl (Exn KException ''Invoice payment failed''), invs, w')
            | (Inr True, w') \<Rightarrow> pay_invoices payer (drop BATCH_SIZE invs) w'))"
  by pat_completeness auto
termination
  by (relation "measure (\<lambda>(payer, invs, w). length invs)") (auto simp: BATCH_SIZE_def)

declare pay_invoices.simps [simp del]

definition invoice_due :: "int \<Rightarrow> int \<Rightarrow> int \<times> int \<Rightarrow> bool" where
  "invoice_due block rnd k = (fst k \<le> block \<and> snd k \<le> rnd)"

fun pay_due ::
    "(invoice list \<Rightarrow> ('w, json) io) option \<Rightarrow> (int \<times> int) list \<Rightarrow> invoices \<Rightarrow> 'w \<Rightarrow> (exn + unit) \<times> invoices \<times> 'w" where
  "pay_due payer [] invs w = (Inr (), invs, w)"
| "pay_due payer (k # ks) invs w =
     (case pay_invoices payer (group_of invs k) w of
        (Inl e, rest, w') \<Rightarrow> (Inl e, AList.update k rest invs, w')
      | (Inr _, _, w') \<Rightarrow> pay_due payer ks (AList.delete k invs) w')"

definition update_invoice_payments ::
    "(invoice list \<Rightarrow> ('w, json) io) option \<Rightarrow> int \<Rightarrow> int \<Rightarrow> invoices \<Rightarrow> 'w \<Rightarrow> (exn + unit) \<times> invoices \<times> 'w" where
  "update_invoice_payments payer block rnd invs w =
     pay_due payer (filter (invoice_due block rnd) (map fst invs)) invs w"

section \<open>Every invoice is paid once or kept\<close>

text \<open>A distributor with a ledger of the batches whose send it accepted.\<close>

definition ledger :: "(invoice list \<Rightarrow> ('w, json) io) \<Rightarrow> invoice list \<Rightarrow> ('w \<times> invoice list list, json) io" where
  "ledger send batch = (\<lambda>(w, l). case send batch w of
     (Inr result, w') \<Rightarrow> (Inr result, (w', if result = JStr ''timeout'' then l else l @ [batch]))
   | (Inl e, w') \<Rightarrow> (Inl e, (w', l)))"

lemma send_batch_ledger:
  "send_batch n (Some (ledger send)) batch (w, l) = (r, w', l') \<Longrightarrow>
     l' = (if r = Inr True then l @ [batch] else l)"
proof (induction n arbitrary: w l)
  case (Suc n)
  obtain q w1 where "send batch w = (q, w1)" by fastforce
  then show ?case
    using Suc by (cases q) (auto simp: ledger_def split: if_splits)
qed (auto simp: io_ret_def)

text \<open>The batches a distributor is handed: one to five invoices each.\<close>

definition good_batches :: "invoice list list \<Rightarrow> bool" where
  "good_batches l = (\<forall>b\<in>set l. b \<noteq> [] \<and> length b \<le> BATCH_SIZE)"

lemma pay_invoices_batches:
  "pay_invoices (Some (ledger send)) invs (w, l) = (r, rest, (w', l')) \<Longrightarrow> good_batches l \<Longrightarrow> good_batches l'"
proof (induction "length invs" arbitrary: invs w l rule: less_induct)
  case less
  obtain q w1 l1 where q: "send_batch 3 (Some (ledger send)) (take BATCH_SIZE invs) (w, l) = (q, w1, l1)"
    by (metis prod_cases3)
  have b: "BATCH_SIZE \<noteq> 0" by (simp add: BATCH_SIZE_def)
  have g: "good_batches l1" if "invs \<noteq> []"
    using send_batch_ledger [OF q] less.prems(2) that b by (auto simp: good_batches_def)
  show ?case
  proof (cases "invs \<noteq> [] \<and> q = Inr True")
    case True
    then have "pay_invoices (Some (ledger send)) (drop BATCH_SIZE invs) (w1, l1) = (r, rest, (w', l'))"
      using less.prems(1) q by (simp add: pay_invoices.simps [of _ invs])
    then show ?thesis using less.hyps [of "drop BATCH_SIZE invs"] True g b by simp
  next
    case False
    then show ?thesis
      using less.prems q g by (cases q) (auto simp: pay_invoices.simps [of _ invs] split: if_splits)
  qed
qed

lemma pay_invoices_ledger:
  "pay_invoices (Some (ledger send)) invs (w, l) = (r, rest, (w', l')) \<Longrightarrow>
     concat l' @ rest = concat l @ invs \<and> (r = Inr () \<longleftrightarrow> rest = [])"
proof (induction "length invs" arbitrary: invs w l rule: less_induct)
  case less
  show ?case
  proof (cases "invs = []")
    case True
    then show ?thesis using less.prems by (auto simp: pay_invoices.simps [of _ "[]"])
  next
    case False
    obtain q w1 l1 where q: "send_batch 3 (Some (ledger send)) (take BATCH_SIZE invs) (w, l) = (q, w1, l1)"
      by (metis prod_cases3)
    note l1 = send_batch_ledger [OF q]
    show ?thesis
    proof (cases "q = Inr True")
      case True
      then have "pay_invoices (Some (ledger send)) (drop BATCH_SIZE invs) (w1, l1) = (r, rest, (w', l'))"
        using less.prems False q by (simp add: pay_invoices.simps [of _ invs])
      moreover have "length (drop BATCH_SIZE invs) < length invs"
        using False by (simp add: BATCH_SIZE_def)
      ultimately have "concat l' @ rest = concat l1 @ drop BATCH_SIZE invs \<and> (r = Inr () \<longleftrightarrow> rest = [])"
        by (rule less.hyps [rotated])
      then show ?thesis using l1 True by simp
    next
      case noTrue: False
      then have "(r, rest, (w', l')) = ((case q of Inl e \<Rightarrow> Inl e | Inr _ \<Rightarrow> Inl (Exn KException ''Invoice payment failed'')), invs, (w1, l1))"
        using less.prems False q
        by (cases q) (auto simp: pay_invoices.simps [of _ invs])
      then show ?thesis using l1 noTrue False by (cases q) auto
    qed
  qed
qed

text \<open>What a dictionary of schedules holds, as a multiset of invoices.\<close>

definition scheduled :: "invoices \<Rightarrow> invoice multiset" where
  "scheduled invs = mset (concat (map snd invs))"

lemma scheduled_split:
  "distinct (map fst invs) \<Longrightarrow>
     scheduled invs = mset (group_of invs k) + scheduled (AList.delete k invs)"
proof (induction invs)
  case (Cons kv invs)
  obtain j xs where kv: "kv = (j, xs)" by (cases kv)
  show ?case
  proof (cases "j = k")
    case True
    have "AList.delete k invs = invs"
      using Cons.prems True kv by (simp add: delete_id)
    then show ?thesis by (simp add: kv True scheduled_def group_of_def)
  next
    case False
    then show ?thesis
      using Cons by (simp add: kv scheduled_def group_of_def)
  qed
qed (simp add: scheduled_def group_of_def)

lemma scheduled_update:
  "distinct (map fst invs) \<Longrightarrow> k \<in> fst ` set invs \<Longrightarrow>
     scheduled (AList.update k xs invs) = mset xs + scheduled (AList.delete k invs)"
proof (induction invs)
  case (Cons kv invs)
  obtain j ys where kv: "kv = (j, ys)" by (cases kv)
  show ?case
  proof (cases "j = k")
    case True
    have "AList.delete k invs = invs"
      using Cons.prems True kv by (simp add: delete_id)
    then show ?thesis by (simp add: kv True scheduled_def)
  next
    case False
    then show ?thesis using Cons by (auto simp: kv scheduled_def)
  qed
qed simp

lemma pay_due_ledger:
  "pay_due (Some (ledger send)) ks invs (w, l) = (r, invs', (w', l')) \<Longrightarrow> distinct (map fst invs) \<Longrightarrow>
     distinct ks \<Longrightarrow> set ks \<subseteq> fst ` set invs \<Longrightarrow>
     mset (concat l') + scheduled invs' = mset (concat l) + scheduled invs
     \<and> (r = Inr () \<longrightarrow> invs' = filter (\<lambda>(k, xs). k \<notin> set ks) invs)
     \<and> (\<forall>k. k \<notin> set ks \<longrightarrow> map_of invs' k = map_of invs k)"
proof (induction ks arbitrary: invs w l)
  case Nil
  then show ?case by simp
next
  case (Cons k ks)
  obtain q rest w1 l1 where p: "pay_invoices (Some (ledger send)) (group_of invs k) (w, l) = (q, rest, w1, l1)"
    by (metis prod_cases4)
  note paid = pay_invoices_ledger [OF p]
  have split: "scheduled invs = mset (group_of invs k) + scheduled (AList.delete k invs)"
    using Cons.prems(2) by (rule scheduled_split)
  show ?case
  proof (cases q)
    case (Inl e)
    have "scheduled (AList.update k rest invs) = mset rest + scheduled (AList.delete k invs)"
      using Cons.prems by (intro scheduled_update) auto
    moreover have "mset (concat l1) + mset rest = mset (concat l) + mset (group_of invs k)"
      using paid by (metis mset_append)
    ultimately show ?thesis
      using Cons.prems(1) p Inl split by (auto simp: update_conv')
  next
    case (Inr u)
    let ?invs = "AList.delete k invs"
    have rest: "rest = []" using paid Inr by simp
    have run: "pay_due (Some (ledger send)) ks ?invs (w1, l1) = (r, invs', (w', l'))"
      using Cons.prems(1) p Inr by simp
    have d: "distinct (map fst ?invs)" using Cons.prems(2) by (rule distinct_delete)
    have sub: "set ks \<subseteq> fst ` set ?invs"
    proof -
      have "fst ` set ?invs = fst ` set invs - {k}"
        by (simp flip: set_map add: delete_keys)
      then show ?thesis using Cons.prems(3,4) by auto
    qed
    have IH: "mset (concat l') + scheduled invs' = mset (concat l1) + scheduled ?invs
       \<and> (r = Inr () \<longrightarrow> invs' = filter (\<lambda>(k, xs). k \<notin> set ks) ?invs)
       \<and> (\<forall>j. j \<notin> set ks \<longrightarrow> map_of invs' j = map_of ?invs j)"
      using Cons.IH [OF run d _ sub] Cons.prems(3) by simp
    have "concat l1 = concat l @ group_of invs k" using paid rest by simp
    then have "mset (concat l') + scheduled invs' = mset (concat l) + scheduled invs"
      using IH split by simp
    moreover have "filter (\<lambda>(k, xs). k \<notin> set ks) ?invs = filter (\<lambda>(j, xs). j \<notin> set (k # ks)) invs"
      by (auto simp: AList.delete_eq intro: filter_cong)
    ultimately show ?thesis using IH by (auto simp: delete_conv')
  qed
qed

lemma pay_due_batches:
  "pay_due (Some (ledger send)) ks invs (w, l) = (r, invs', (w', l')) \<Longrightarrow> good_batches l \<Longrightarrow> good_batches l'"
proof (induction ks arbitrary: invs w l)
  case (Cons k ks)
  obtain q rest w1 l1 where p: "pay_invoices (Some (ledger send)) (group_of invs k) (w, l) = (q, rest, w1, l1)"
    by (metis prod_cases4)
  then show ?case
    using Cons pay_invoices_batches [OF p] by (cases q) auto
qed simp

section \<open>Starting gives every wallet its client\<close>

lemma length_place_results [simp]: "length (place_results base results clients) = length clients"
proof (induction results arbitrary: clients)
  case (Cons r rs)
  then show ?case by (cases r) (simp add: place_results_def)
qed (simp add: place_results_def)

lemma retry_clients_length:
  "retry_clients n ops base wallets clients w = (Inr cs, w') \<Longrightarrow> length cs = length clients"
proof (induction n arbitrary: clients w)
  case (Suc n)
  then show ?case
    by (auto simp: io_simps split: prod.splits sum.splits if_splits)
qed (simp add: io_ret_def)

lemma start_clients_length:
  assumes "start_clients ops existing wallets w = (Inr cs, w')"
  shows "length cs = length existing + length wallets \<and> take (length existing) cs = existing"
  using assms
  by (auto simp: start_clients_def Let_def io_simps split: prod.splits sum.splits if_splits
      dest!: retry_clients_length)

section \<open>Funding covers its target\<close>

lemma funding_covers:
  assumes "0 \<le> btc_amount"
  shows "btc_amount * of_int SATS \<le> of_nat DISTRIBUTOR_UTXOS * of_int (per_utxo_sats btc_amount)"
    "of_nat DISTRIBUTOR_UTXOS * of_int (per_utxo_sats btc_amount) < btc_amount * of_int SATS + of_nat DISTRIBUTOR_UTXOS"
proof -
  let ?x = "btc_amount * of_int SATS / of_nat DISTRIBUTOR_UTXOS"
  obtain y :: rat where y: "y = of_int \<lceil>?x\<rceil>" by blast
  have 1: "?x \<le> y" and 2: "y < ?x + 1" unfolding y by linarith+
  have p: "of_int (per_utxo_sats btc_amount) = y" by (simp add: y per_utxo_sats_def)
  show "btc_amount * of_int SATS \<le> of_nat DISTRIBUTOR_UTXOS * of_int (per_utxo_sats btc_amount)"
    unfolding p using 1 by (simp add: DISTRIBUTOR_UTXOS_def field_simps)
  show "of_nat DISTRIBUTOR_UTXOS * of_int (per_utxo_sats btc_amount) < btc_amount * of_int SATS + of_nat DISTRIBUTOR_UTXOS"
    unfolding p using 2 by (simp add: DISTRIBUTOR_UTXOS_def field_simps)
qed

section \<open>Images\<close>

lemma prepare_image_target: "action_image (prepare_image args has_image name path build_args) = image_ref args name"
  by (simp add: prepare_image_def image_ref_def Let_def)

section \<open>Every fund becomes an invoice of its schedule\<close>

text \<open>The invoices of a schedule that a wallet's funds ask for: key and value.\<close>

definition planned :: "fund list \<Rightarrow> int \<times> int \<Rightarrow> json list" where
  "planned fs k = List.map_filter (\<lambda>f. case fund_plan f of
       Inr (v, b, r) \<Rightarrow> if (b, r) = k then Some v else None | Inl e \<Rightarrow> None) fs"

lemma planned_simps [simp]:
  "planned [] k = []"
  "planned (f # fs) k = (case fund_plan f of Inr (v, b, r) \<Rightarrow> (if (b, r) = k then [v] else []) | Inl e \<Rightarrow> []) @ planned fs k"
  "planned (fs @ gs) k = planned fs k @ planned gs k"
  by (auto simp: planned_def map_filter_def split: sum.splits)

lemma prepare_funds_planned:
  "prepare_funds new_address c fs invs w = (Inr invs', w') \<Longrightarrow>
     map snd (group_of invs' k) = map snd (group_of invs k) @ planned fs k \<and> (wf_groups invs \<longrightarrow> wf_groups invs')"
proof (induction fs arbitrary: invs w)
  case (Cons f fs)
  then show ?case
    by (auto simp: io_simps group_of_group_insert wf_group_insert split: prod.splits sum.splits if_splits)
qed (simp add: io_ret_def)

lemma prepare_wallets_planned:
  "prepare_wallets new_address ws invs w = (Inr invs', w') \<Longrightarrow>
     map snd (group_of invs' k) = map snd (group_of invs k) @ planned (concat (map (w_funds \<circ> snd) ws)) k
     \<and> (wf_groups invs \<longrightarrow> wf_groups invs')"
proof (induction ws arbitrary: invs w)
  case (Cons cw ws)
  obtain c wallet where cw: "cw = (c, wallet)" by (cases cw)
  obtain q w1 where q: "prepare_funds new_address c (w_funds wallet) invs w = (q, w1)" by fastforce
  show ?case
  proof (cases q)
    case (Inr invs1)
    note p = prepare_funds_planned [OF q [unfolded Inr], of k]
    have "prepare_wallets new_address ws invs1 w1 = (Inr invs', w')"
      using Cons.prems q Inr by (simp add: cw io_bind_def)
    note IH = Cons.IH [OF this]
    show ?thesis using p IH by (simp add: cw)
  next
    case (Inl e)
    then show ?thesis using Cons.prems q by (simp add: cw io_bind_def)
  qed
qed (simp add: io_ret_def)

lemma group_of_map: "(\<And>xs. f xs = [] \<longleftrightarrow> xs = []) \<Longrightarrow>
     group_of (map (\<lambda>(k, xs). (k, f xs)) g) k = f (group_of g k)"
proof -
  assume "\<And>xs. f xs = [] \<longleftrightarrow> xs = []"
  then have "f [] = []" by blast
  then show ?thesis by (induction g) (auto simp: group_of_def)
qed

lemma wf_groups_map: "(\<And>xs. f xs = [] \<longleftrightarrow> xs = []) \<Longrightarrow> wf_groups g \<Longrightarrow>
     wf_groups (map (\<lambda>(k, xs). (k, f xs)) g)"
  by (auto simp: wf_groups_def comp_def case_prod_unfold)

text \<open>
  When the invoices of a run are prepared without an error, each schedule of a block
  and a round holds exactly the values that the funds of the served wallets ask for at that block
  and round, in some order, and no schedule is empty or listed twice.
\<close>

theorem prepared_invoices_are_the_funds:
  assumes "prepare_invoices shuffle new_address clients wallets [] w = (Inr invs, w')"
    and shuffle: "\<And>xs. mset (shuffle xs) = mset xs"
  shows "(\<forall>k. mset (map snd (group_of invs k)) = mset (planned (concat (map (w_funds \<circ> snd) (zip clients wallets))) k))
         \<and> wf_groups invs"
proof -
  obtain invs0 w0 where p: "prepare_wallets new_address (zip clients wallets) [] w = (Inr invs0, w0)"
    and invs: "invs = map (\<lambda>(k, xs). (k, shuffle xs)) invs0"
    using assms(1) by (auto simp: prepare_invoices_def io_simps split: prod.splits sum.splits)
  note q = prepare_wallets_planned [OF p]
  have e: "shuffle xs = [] \<longleftrightarrow> xs = []" for xs
    using shuffle by (metis mset_zero_iff)
  have "wf_groups ([] :: invoices)" by (simp add: wf_groups_def)
  then have "wf_groups invs0" using q by blast
  then have wf: "wf_groups invs" unfolding invs by (rule wf_groups_map [OF e])
  have "mset (map snd (group_of invs k)) = mset (planned (concat (map (w_funds \<circ> snd) (zip clients wallets))) k)" for k
  proof -
    have "mset (map snd (group_of invs k)) = mset (map snd (group_of invs0 k))"
      unfolding invs group_of_map [OF e] using shuffle by simp
    moreover have "map snd (group_of invs0 k) = planned (concat (map (w_funds \<circ> snd) (zip clients wallets))) k"
      using q [of k] by (simp add: group_of_def)
    ultimately show ?thesis by metis
  qed
  with wf show ?thesis by blast
qed

text \<open>A wallet with two plain funds and a delayed one, and an address source that counts.\<close>

definition example_wallet :: "fund list \<Rightarrow> json \<Rightarrow> wallet_config" where
  "example_wallet funds bond = \<lparr>w_funds = funds, w_delay_blocks = JNull, w_delay_rounds = JNull,
     w_stop_blocks = JNull, w_stop_rounds = JNull, w_version = JNull, w_wasabi = None,
     w_joinmarket = Some \<lparr>jc_role = Some MAKER, jc_offers = JNull, jc_tumbler_options = JNull,
       jc_time_between_rounds = JNull, jc_timeout_blocks = None, jc_fidelity_bond = bond,
       jc_max_coinjoins = JNull, jc_postmix = None\<rparr>\<rparr>"

definition example_funds :: "fund list" where
  "example_funds = [FundPlain (JInt 5), FundPlain (JInt 7),
     FundObject \<lparr>fund_value = JInt 9, fund_delay_blocks = JInt 3, fund_delay_rounds = JNull\<rparr>]"

definition counting_address :: "unit \<Rightarrow> (int, json) io" where
  "counting_address c = (\<lambda>n. (Inr (JInt n), n + 1))"

theorem prepared_invoices_are_the_funds_witness:
  "mset (map snd (group_of (case fst (prepare_invoices rev counting_address [()] [example_wallet example_funds JNull] [] 0)
       of Inr invs \<Rightarrow> invs | Inl e \<Rightarrow> []) (0, 0))) = {#JInt 5, JInt 7#}"
proof -
  let ?invs = "[((0, 0), [(JInt 1, JInt 7), (JInt 0, JInt 5)]), ((3, 0), [(JInt 2, JInt 9)])] :: invoices"
  have run: "prepare_invoices rev counting_address [()] [example_wallet example_funds JNull] [] 0 = (Inr ?invs, 3)"
    by code_simp
  have "planned (concat (map (w_funds \<circ> snd) (zip [()] [example_wallet example_funds JNull]))) (0, 0) = [JInt 5, JInt 7]"
    by code_simp
  then show ?thesis
    using prepared_invoices_are_the_funds [OF run] by (simp add: run)
qed

text \<open>
  Claim C16. However the distributor answers, an update of the payments takes every invoice out of
  its schedule exactly when a batch holding it was accepted: accepted and remaining invoices are
  together the scheduled ones, every accepted batch has one to five invoices, schedules that are not due
  stay as they are, and when the update returns normally the due ones are gone.
\<close>

theorem invoices_paid_once_or_kept:
  assumes "update_invoice_payments (Some (ledger send)) block rnd invs (w, []) = (r, invs', (w', paid))"
    and "distinct (map fst invs)"
  shows "mset (concat paid) + scheduled invs' = scheduled invs
         \<and> (r = Inr () \<longrightarrow> invs' = filter (\<lambda>(k, xs). \<not> invoice_due block rnd k) invs)
         \<and> (\<forall>k. \<not> invoice_due block rnd k \<longrightarrow> map_of invs' k = map_of invs k)
         \<and> (\<forall>b\<in>set paid. b \<noteq> [] \<and> length b \<le> BATCH_SIZE)"
proof -
  let ?ks = "filter (invoice_due block rnd) (map fst invs)"
  have run: "pay_due (Some (ledger send)) ?ks invs (w, []) = (r, invs', (w', paid))"
    using assms(1) by (simp add: update_invoice_payments_def)
  have "distinct ?ks" using assms(2) by simp
  then have main: "mset (concat paid) + scheduled invs' = mset (concat []) + scheduled invs
     \<and> (r = Inr () \<longrightarrow> invs' = filter (\<lambda>(k, xs). k \<notin> set ?ks) invs)
     \<and> (\<forall>k. k \<notin> set ?ks \<longrightarrow> map_of invs' k = map_of invs k)"
    using assms(2) by (intro pay_due_ledger [OF run]) auto
  have keys: "filter (\<lambda>(k, xs). k \<notin> set ?ks) invs = filter (\<lambda>(k, xs). \<not> invoice_due block rnd k) invs"
    by (intro filter_cong) (auto simp: image_iff)
  have "good_batches paid" by (rule pay_due_batches [OF run]) (simp add: good_batches_def)
  then show ?thesis using main keys by (auto simp: good_batches_def)
qed

text \<open>A distributor whose third send never succeeds.\<close>

definition failing_third :: "invoice list \<Rightarrow> (nat, json) io" where
  "failing_third batch = (\<lambda>n. (if n = 2 then Inr (JStr ''timeout'') else Inr JNull, if n = 2 then 2 else n + 1))"

definition example_schedule :: invoices where
  "example_schedule = [((0, 0), map (\<lambda>i. (JInt i, JInt 1)) [0..11]), ((4, 0), [(JInt 12, JInt 1)])]"

theorem invoices_paid_once_or_kept_witness:
  "\<exists>invs' w' paid. update_invoice_payments (Some (ledger failing_third)) 1 0 example_schedule (0, [])
       = (Inl (Exn KException ''Invoice payment failed''), invs', (w', paid))
     \<and> mset (concat paid) + scheduled invs' = scheduled example_schedule"
proof -
  obtain r invs' w' paid where run: "update_invoice_payments (Some (ledger failing_third)) 1 0 example_schedule (0, [])
      = (r, invs', (w', paid))" by (metis prod_cases4)
  have "fst (update_invoice_payments (Some (ledger failing_third)) 1 0 example_schedule (0, []))
      = Inl (Exn KException ''Invoice payment failed'')"
    by code_simp
  then have "r = Inl (Exn KException ''Invoice payment failed'')" by (simp add: run)
  moreover have "mset (concat paid) + scheduled invs' = scheduled example_schedule"
    using invoices_paid_once_or_kept [OF run] by (simp add: example_schedule_def)
  ultimately show ?thesis using run by blast
qed

section \<open>Where the clients come from\<close>

text \<open>A start of the client at this index, with this wallet, that returned this client.\<close>

definition started_by :: "('w, 'c) client_ops \<Rightarrow> nat \<Rightarrow> wallet_config \<Rightarrow> 'c option \<Rightarrow> bool" where
  "started_by ops idx wallet c = (\<exists>w w'. op_start ops idx wallet w = (Inr c, w'))"

definition results_ok ::
    "('w, 'c) client_ops \<Rightarrow> (nat \<times> wallet_config) list \<Rightarrow> (nat \<times> 'c option) list \<Rightarrow> bool" where
  "results_ok ops wallets results =
     (\<forall>(idx, c)\<in>set results. \<exists>wallet. (idx, wallet) \<in> set wallets \<and> started_by ops idx wallet c)"

lemma start_batch_ok: "start_batch ops batch w = (Inr rs, w') \<Longrightarrow> results_ok ops batch rs"
proof -
  assume "start_batch ops batch w = (Inr rs, w')"
  then have "list_all2 (\<lambda>iw r. fst r = fst iw \<and> started_by ops (fst iw) (snd iw) (snd r)) batch rs"
    unfolding start_batch_def started_by_def
    by (rule list_all2_mono [OF io_traverse_Inr]) (clarsimp simp: io_bind_Inr_iff io_ret_Inr_iff, rule exI, rule exI)
  then show "results_ok ops batch rs"
  proof (induction batch rs rule: list_all2_induct)
    case (Cons iw batch r rs)
    then show ?case by (cases iw; cases r) (auto simp: results_ok_def)
  qed (simp add: results_ok_def)
qed

lemma results_ok_append: "results_ok ops ws (a @ b) \<longleftrightarrow> results_ok ops ws a \<and> results_ok ops ws b"
  by (simp add: results_ok_def ball_Un)

lemma results_ok_mono: "results_ok ops ws a \<Longrightarrow> set ws \<subseteq> set ws' \<Longrightarrow> results_ok ops ws' a"
  by (fastforce simp: results_ok_def)

lemma fb_batches_ok: "fb_batches ops n d ws w = (Inr rs, w') \<Longrightarrow> results_ok ops ws rs"
proof (induction "length ws" arbitrary: ws w rs rule: less_induct)
  case less
  show ?case
  proof (cases "ws = [] \<or> n = 0")
    case True
    then show ?thesis using less.prems by (auto simp: fb_batches.simps [of _ _ _ ws] io_ret_def results_ok_def)
  next
    case False
    then obtain a w1 w2 b where a: "start_batch ops (take n ws) w = (Inr a, w1)"
      and b: "fb_batches ops n d (drop n ws) w2 = (Inr b, w')" and rs: "rs = a @ b"
      using less.prems
      by (auto simp: fb_batches.simps [of _ _ _ ws] io_simps split: prod.splits sum.splits)
    have "results_ok ops ws a" by (rule results_ok_mono [OF start_batch_ok [OF a]]) (rule set_take_subset)
    moreover have "results_ok ops ws b"
      by (rule results_ok_mono [OF less.hyps [OF _ b]]) (use False in \<open>auto dest: in_set_dropD\<close>)
    ultimately show ?thesis by (simp add: rs results_ok_append)
  qed
qed

lemma start_classified_ok:
  assumes "start_classified_wallets ops wallets n d w = (Inr rs, w')"
  shows "results_ok ops wallets rs"
proof -
  obtain cl where cl: "traverse (\<lambda>(i, w). ebind (wallet_has_bond w) (\<lambda>b. Inr (b, i, w))) wallets = Inr cl"
    using assms by (auto simp: start_classified_wallets_def io_raise_def split: sum.splits)
  have sub: "set (map snd (filter P cl)) \<subseteq> set wallets" for P
    using list_all2_Inr_set [OF cl [unfolded traverse_Inr_iff]] by (fastforce simp: ebind_Inr_iff)
  obtain a w1 b where a: "start_batch ops (map snd (filter (\<lambda>(b, iw). \<not> b) cl)) w = (Inr a, w1)"
    and b: "fb_batches ops n d (map snd (filter (\<lambda>(b, iw). b) cl)) w1 = (Inr b, w')" and rs: "rs = a @ b"
    using assms cl by (auto simp: start_classified_wallets_def Let_def io_simps split: prod.splits sum.splits)
  show ?thesis
    using results_ok_mono [OF start_batch_ok [OF a] sub] results_ok_mono [OF fb_batches_ok [OF b] sub]
    by (simp add: rs results_ok_append)
qed

text \<open>Every client placed so far was started for the wallet of its place.\<close>

definition placed_ok :: "('w, 'c) client_ops \<Rightarrow> nat \<Rightarrow> wallet_config list \<Rightarrow> 'c option list \<Rightarrow> bool" where
  "placed_ok ops base wallets cs =
     (\<forall>j < length cs. cs ! j \<noteq> None \<longrightarrow> started_by ops (base + j) (wallets ! j) (cs ! j))"

lemma placed_results:
  assumes "placed_ok ops base wallets cs" "results_ok ops ws rs" "length cs = length wallets"
    "set ws \<subseteq> set (enumerate base wallets)"
  shows "placed_ok ops base wallets (place_results base rs cs)"
  using assms(1,2,3)
proof (induction rs arbitrary: cs)
  case (Cons r rs)
  obtain idx c where r: "r = (idx, c)" by (cases r)
  from Cons.prems(2) obtain wallet where m: "(idx, wallet) \<in> set ws" and s: "started_by ops idx wallet c"
    and rest: "results_ok ops ws rs" by (auto simp: results_ok_def r)
  have i: "base \<le> idx" "idx - base < length wallets" "wallet = wallets ! (idx - base)"
    using m assms(4) by (auto simp: set_zip enumerate_eq_zip)
  then have "placed_ok ops base wallets (cs[idx - base := c])"
    using Cons.prems(1,3) s by (auto simp: placed_ok_def nth_list_update)
  then show ?case using Cons.IH rest Cons.prems(3) by (simp add: place_results_def r)
qed (simp add: place_results_def)

lemma failed_indices_range:
  assumes "failed_indices ops base cs w = (Inr failed, w')"
  shows "set failed \<subseteq> {base..<base + length cs}"
proof -
  obtain checked where t: "io_traverse (\<lambda>(idx, c). io_bind
         (case c of None \<Rightarrow> io_ret False | Some x \<Rightarrow> client_is_healthy ops x)
         (\<lambda>ok. io_ret (idx, ok))) (enumerate base cs) w = (Inr checked, w')"
    and f: "failed = map fst (filter (\<lambda>(idx, ok). \<not> ok) checked)"
    using assms by (auto simp: failed_indices_def io_simps split: prod.splits sum.splits)
  have "list_all2 (\<lambda>x y. fst y = fst x) (enumerate base cs) checked"
    using io_traverse_Inr [OF t]
    by (rule list_all2_mono) (auto simp: io_bind_Inr_iff io_ret_Inr_iff)
  then have "fst ` set checked \<subseteq> fst ` set (enumerate base cs)"
    by (fastforce simp: list_all2_conv_all_nth in_set_conv_nth)
  moreover have "fst ` set (enumerate base cs) = {base..<base + length cs}"
    by (simp flip: set_map)
  ultimately show ?thesis by (auto simp: f)
qed

lemma retry_clients_placed:
  "retry_clients n ops base wallets cs w = (Inr cs', w') \<Longrightarrow> placed_ok ops base wallets cs \<Longrightarrow>
     length cs = length wallets \<Longrightarrow> placed_ok ops base wallets cs'"
proof (induction n arbitrary: cs w)
  case (Suc n)
  obtain q w1 where f: "failed_indices ops base cs w = (q, w1)" by fastforce
  then obtain failed where q: "q = Inr failed"
    using Suc.prems(1) by (cases q) (auto simp: io_bind_def)
  have idx: "set failed \<subseteq> {base..<base + length cs}"
    using f unfolding q by (rule failed_indices_range)
  show ?case
  proof (cases "failed = []")
    case False
    then obtain w2 rs w3 where rs: "start_classified_wallets ops (map (\<lambda>i. (i, wallets ! (i - base))) failed) 5 15 w2 = (Inr rs, w3)"
      and run: "retry_clients n ops base wallets (place_results base rs cs) w3 = (Inr cs', w')"
      using Suc.prems(1) f q by (auto simp: io_simps split: prod.splits sum.splits)
    have sub: "set (map (\<lambda>i. (i, wallets ! (i - base))) failed) \<subseteq> set (enumerate base wallets)"
      using idx Suc.prems(3) by (force simp: enumerate_eq_zip set_zip)
    show ?thesis
      using Suc.IH [OF run] placed_results [OF Suc.prems(2) start_classified_ok [OF rs] Suc.prems(3) sub] Suc.prems(3)
      by simp
  qed (use Suc.prems f q in \<open>auto simp: io_simps\<close>)
qed (simp add: io_ret_def)

text \<open>
  When the clients of a scenario are started without an error, the engine's earlier
  clients stay in place and the client at every new position is one that a start for exactly that
  position and that position's wallet returned, however many starts failed or were repeated.
\<close>

theorem clients_match_wallets:
  assumes "start_clients ops existing wallets w = (Inr cs, w')"
  shows "length cs = length existing + length wallets \<and> take (length existing) cs = existing
         \<and> (\<forall>j < length wallets. started_by ops (length existing + j) (wallets ! j)
              (Some (cs ! (length existing + j))))"
proof -
  let ?base = "length existing"
  note len = start_clients_length [OF assms]
  obtain rs w1 placed w2 where rs: "start_classified_wallets ops (enumerate ?base wallets) 5 15 w = (Inr rs, w1)"
    and p: "retry_clients 3 ops ?base wallets (place_results ?base rs (replicate (length wallets) None)) w1 = (Inr placed, w2)"
    and no: "None \<notin> set placed" and cs: "cs = existing @ map the placed"
    using assms by (auto simp: start_clients_def Let_def io_simps split: prod.splits sum.splits if_splits)
  have "placed_ok ops ?base wallets (replicate (length wallets) None)"
    by (simp add: placed_ok_def)
  then have "placed_ok ops ?base wallets (place_results ?base rs (replicate (length wallets) None))"
    by (rule placed_results [OF _ start_classified_ok [OF rs]]) auto
  then have ok: "placed_ok ops ?base wallets placed"
    by (rule retry_clients_placed [OF p]) simp
  have l: "length placed = length wallets" using len cs by simp
  have "started_by ops (?base + j) (wallets ! j) (Some (cs ! (?base + j)))" if "j < length wallets" for j
  proof -
    have "placed ! j \<in> set placed" using that l by simp
    then have "placed ! j \<noteq> None" using no by metis
    then obtain c where "placed ! j = Some c" by blast
    then show ?thesis using ok that l by (auto simp: placed_ok_def cs nth_append)
  qed
  then show ?thesis using len by blast
qed

text \<open>A driver whose first start fails; a client is the number of its start.\<close>

definition flaky_ops :: "(nat, nat) client_ops" where
  "flaky_ops = \<lparr>op_start = (\<lambda>idx wallet n. (Inr (if n = 0 then None else Some n), n + 1)),
     op_stop_client = (\<lambda>idx n. (Inr (), n)), op_balance = (\<lambda>c n. (Inr 0, n)), op_pause = (\<lambda>d n. n)\<rparr>"

theorem clients_match_wallets_witness:
  "\<exists>cs w'. start_clients flaky_ops [] [example_wallet [] JNull, example_wallet [] (JDict [(''enabled'', JBool True)])] 0 = (Inr cs, w')
     \<and> started_by flaky_ops 1 (example_wallet [] (JDict [(''enabled'', JBool True)])) (Some (cs ! 1))"
proof -
  let ?ws = "[example_wallet [] JNull, example_wallet [] (JDict [(''enabled'', JBool True)])]"
  have run: "start_clients flaky_ops [] ?ws 0 = (Inr [2, 1], 3)" by code_simp
  have "\<forall>j < length ?ws. started_by flaky_ops (length ([] :: nat list) + j) (?ws ! j) (Some ([2, 1] ! (length ([] :: nat list) + j)))"
    using clients_match_wallets [OF run] by blast
  from this [rule_format, of 1] show ?thesis using run by simp
qed

text \<open>A node that notes the amounts it was asked to send.\<close>

definition fund_ledger :: "'w funding_ops \<Rightarrow> ('w \<times> rat list) funding_ops" where
  "fund_ledger ops = \<lparr>fo_node = fo_node ops, fo_distributor = fo_distributor ops,
     fo_address = (\<lambda>(w, l). case fo_address ops w of (r, w') \<Rightarrow> (r, (w', l))),
     fo_fund = (\<lambda>a x (w, l). case fo_fund ops a x w of (r, w') \<Rightarrow> (r, (w', l @ [x]))),
     fo_balance = (\<lambda>(w, l). case fo_balance ops w of (r, w') \<Rightarrow> (r, (w', l))),
     fo_pause = (\<lambda>(w, l). (fo_pause ops w, l))\<rparr>"

lemma fund_all_ledger:
  "io_for (\<lambda>_. io_bind (fo_address (fund_ledger ops)) (\<lambda>a. fo_fund (fund_ledger ops) a x)) xs (w, l) = (Inr u, (w', l')) \<Longrightarrow>
     l' = l @ replicate (length xs) x"
proof (induction xs arbitrary: w l)
  case (Cons y ys)
  let ?f = "io_bind (fo_address (fund_ledger ops)) (\<lambda>a. fo_fund (fund_ledger ops) a x)"
  obtain v w1 l1 where f: "?f (w, l) = (Inr v, (w1, l1))" and rest: "io_for (\<lambda>_. ?f) ys (w1, l1) = (Inr u, (w', l'))"
    using Cons.prems by (auto simp: io_bind_Inr_iff)
  have "l1 = l @ [x]"
    using f by (fastforce simp: io_bind_Inr_iff fund_ledger_def case_prod_unfold)
  then show ?case using Cons.IH [OF rest] by simp
qed (simp add: io_ret_def)

lemma wait_balance_ledger:
  "wait_balance n (fund_ledger ops) target (w, l) = (r, (w', l')) \<Longrightarrow> l' = l"
proof (induction n arbitrary: w l)
  case (Suc n)
  then show ?case
    by (auto simp: io_bind_def io_ret_def fund_ledger_def split: prod.splits sum.splits if_splits)
qed (simp add: diverge_def io_raise_def)

text \<open>
  When the distributor has been funded, the node was asked for exactly 200 payments of
  one amount, a whole number of satoshis, and together they reach the requested sum and exceed it
  by less than 200 satoshis.
\<close>

theorem distributor_funding_covers:
  assumes "fund_distributor fuel (fund_ledger ops) btc_amount (w, []) = (Inr u, (w', amounts))"
    and "0 \<le> btc_amount"
  shows "\<exists>sats :: int. amounts = replicate DISTRIBUTOR_UTXOS (of_int sats / of_int SATS)
           \<and> btc_amount \<le> sum_list amounts
           \<and> sum_list amounts < btc_amount + of_nat DISTRIBUTOR_UTXOS / of_int SATS"
proof -
  let ?x = "of_int (per_utxo_sats btc_amount) / of_int SATS :: rat"
  obtain w1 l1 where sent: "io_for (\<lambda>_. io_bind (fo_address (fund_ledger ops)) (\<lambda>a. fo_fund (fund_ledger ops) a ?x))
      [0..<DISTRIBUTOR_UTXOS] (w, []) = (Inr (), (w1, l1))"
    and waited: "wait_balance fuel (fund_ledger ops) (btc_amount * of_int SATS) (w1, l1) = (Inr u, (w', amounts))"
    using assms(1) by (auto simp: fund_distributor_def io_seq_def io_bind_Inr_iff io_raise_def split: if_splits)
  have a: "amounts = replicate DISTRIBUTOR_UTXOS ?x"
    using fund_all_ledger [OF sent] wait_balance_ledger [OF waited] by simp
  then have s: "sum_list amounts = of_nat DISTRIBUTOR_UTXOS * of_int (per_utxo_sats btc_amount) / of_int SATS"
    by (simp add: sum_list_replicate)
  have p: "(0 :: rat) < of_int SATS" by (simp add: SATS_def)
  have "btc_amount \<le> sum_list amounts"
    unfolding s using funding_covers(1) [OF assms(2)] p by (simp add: pos_le_divide_eq)
  moreover have "sum_list amounts < btc_amount + of_nat DISTRIBUTOR_UTXOS / of_int SATS"
    unfolding s using funding_covers(2) [OF assms(2)] p by (simp add: field_simps)
  ultimately show ?thesis using a by blast
qed

text \<open>A node that accepts every payment and a distributor that then shows one bitcoin.\<close>

definition accepting_funding :: "unit funding_ops" where
  "accepting_funding = \<lparr>fo_node = True, fo_distributor = True, fo_address = io_ret ''address'',
     fo_fund = (\<lambda>a x. io_ret ()), fo_balance = io_ret SATS, fo_pause = id\<rparr>"

lemma accepting_funding_sends:
  "io_for (\<lambda>_. io_bind (fo_address (fund_ledger accepting_funding)) (\<lambda>a. fo_fund (fund_ledger accepting_funding) a x)) xs ((), l)
     = (Inr (), ((), l @ replicate (length xs) x))"
  by (induction xs arbitrary: l)
    (simp_all add: io_bind_def io_ret_def fund_ledger_def accepting_funding_def)

theorem distributor_funding_covers_witness:
  "\<exists>amounts. fund_distributor (Suc 0) (fund_ledger accepting_funding) 1 ((), []) = (Inr (), ((), amounts))
     \<and> 1 \<le> sum_list amounts"
proof -
  let ?amounts = "replicate DISTRIBUTOR_UTXOS (of_int (per_utxo_sats 1) / of_int SATS)"
  have there: "fo_node (fund_ledger accepting_funding)" "fo_distributor (fund_ledger accepting_funding)"
    by (simp_all add: fund_ledger_def accepting_funding_def)
  have wait: "wait_balance (Suc 0) (fund_ledger accepting_funding) (1 * of_int SATS) ((), ?amounts) = (Inr (), ((), ?amounts))"
    by (simp add: io_bind_def io_ret_def fund_ledger_def accepting_funding_def)
  have run: "fund_distributor (Suc 0) (fund_ledger accepting_funding) 1 ((), []) = (Inr (), ((), ?amounts))"
    unfolding fund_distributor_def io_seq_def io_bind_Inr_iff
    using there wait accepting_funding_sends [of "of_int (per_utxo_sats 1) / of_int SATS" "[0..<DISTRIBUTOR_UTXOS]" "[]"]
    by (simp add: io_bind_Inr_iff)
  show ?thesis using distributor_funding_covers [OF run] run by auto
qed

end
