(* ===== verification/BtcNode.thy ===== *)
theory BtcNode
  imports Config
begin

text \<open>
  The Bitcoin Core node as the emulator uses it: the RPC client of \<open>manager/btc_node.py\<close>, the
  readiness policy of \<open>manager/bitcoin_readiness.py\<close> and the data directory copy of
  \<open>manager/btc_datadir_snapshot.py\<close>. The HTTP post, the clock and the container driver are the world
  \<open>'w\<close> of the calls in \<open>node_env\<close> and \<open>snapshot_ops\<close>.
\<close>

section \<open>Text of an error value\<close>

text \<open>\<open>repr(s)\<close> of a string over code points below 256, and \<open>str(v)\<close> of a JSON value; the text of a
  float is the argument \<open>float_text\<close>.\<close>

definition hex_digit :: "nat \<Rightarrow> char" where
  "hex_digit d = (if d < 10 then char_of (48 + d) else char_of (87 + d))"

definition repr_char :: "char \<Rightarrow> char \<Rightarrow> string" where
  "repr_char quote c = (let n = (of_char c :: nat) in
     if c = quote \<or> n = 92 then [CHR 0x5C, c]
     else if n = 10 then [CHR 0x5C, CHR ''n''] else if n = 13 then [CHR 0x5C, CHR ''r'']
     else if n = 9 then [CHR 0x5C, CHR ''t'']
     else if n < 32 \<or> (127 \<le> n \<and> n \<le> 160) \<or> n = 173
     then [CHR 0x5C, CHR ''x'', hex_digit (n div 16), hex_digit (n mod 16)]
     else [c])"

definition repr_string :: "string \<Rightarrow> string" where
  "repr_string s = (let quote = (if CHR 0x27 \<in> set s \<and> CHR 0x22 \<notin> set s then CHR 0x22 else CHR 0x27)
     in quote # concat (map (repr_char quote) s) @ [quote])"

fun py_repr :: "(rat \<Rightarrow> string) \<Rightarrow> json \<Rightarrow> string" where
  "py_repr ft JNull = ''None''"
| "py_repr ft (JBool b) = (if b then ''True'' else ''False'')"
| "py_repr ft (JInt n) = str_int n"
| "py_repr ft (JFloat x) = ft x"
| "py_repr ft (JStr s) = repr_string s"
| "py_repr ft (JList xs) = ''['' @ join_with '', '' (map (py_repr ft) xs) @ '']''"
| "py_repr ft (JDict d) =
     ''{'' @ join_with '', '' (map (\<lambda>kv. repr_string (fst kv) @ '': '' @ py_repr ft (snd kv)) d) @ ''}''"

fun py_str :: "(rat \<Rightarrow> string) \<Rightarrow> json \<Rightarrow> string" where
  "py_str ft (JStr s) = s"
| "py_str ft v = py_repr ft v"

section \<open>The RPC client\<close>

text \<open>
  \<open>ne_post wallet method params timeout\<close> is \<open>requests.post(...).json()\<close>: the decoded body, or an
  exception of the HTTP library.
\<close>

record 'w node_env =
  ne_post :: "string \<Rightarrow> string \<Rightarrow> json \<Rightarrow> int \<Rightarrow> ('w, json) io"
  ne_clock :: "'w \<Rightarrow> rat"
  ne_sleep :: "rat \<Rightarrow> 'w \<Rightarrow> 'w"
  ne_float_text :: "rat \<Rightarrow> string"
  ne_host :: string
  ne_port :: int

definition WALLET :: string where "WALLET = ''wallet''"
definition FUNDING_WALLET_TX_FEE :: rat where "FUNDING_WALLET_TX_FEE = 1 / 10000"
definition RPC_TIMEOUT_SECONDS :: int where "RPC_TIMEOUT_SECONDS = 5"
definition WRITE_RPC_TIMEOUT_SECONDS :: int where "WRITE_RPC_TIMEOUT_SECONDS = 120"

text \<open>\<open>body["error"] is not None\<close> raises, else \<open>body["result"]\<close>.\<close>

definition rpc_result :: "(rat \<Rightarrow> string) \<Rightarrow> json \<Rightarrow> exn + json" where
  "rpc_result ft body =
     (case body of
        JDict d \<Rightarrow>
          (case map_of d ''error'' of
             None \<Rightarrow> Inl (Exn KKeyError ''error'')
           | Some JNull \<Rightarrow> (case map_of d ''result'' of None \<Rightarrow> Inl (Exn KKeyError ''result'') | Some r \<Rightarrow> Inr r)
           | Some e \<Rightarrow> Inl (Exn KRpcError (py_str ft e)))
      | _ \<Rightarrow> Inl (Exn KTypeError ''indices''))"

definition node_rpc :: "'w node_env \<Rightarrow> string \<Rightarrow> string \<Rightarrow> json \<Rightarrow> int \<Rightarrow> ('w, json) io" where
  "node_rpc env wallet m params timeout =
     io_bind (ne_post env wallet m params timeout) (\<lambda>body. io_lift (rpc_result (ne_float_text env) body))"

definition get_block_count :: "'w node_env \<Rightarrow> ('w, int) io" where
  "get_block_count env =
     io_bind (node_rpc env [] ''getblockcount'' (JList []) RPC_TIMEOUT_SECONDS) (\<lambda>r.
       if is_int r then io_ret (the (int_of r))
       else io_raise (Exn KRpcError (''btc-node returned no block count: '' @ py_repr (ne_float_text env) r)))"

definition get_blockchain_info :: "'w node_env \<Rightarrow> ('w, json) io" where
  "get_blockchain_info env = node_rpc env [] ''getblockchaininfo'' (JList []) RPC_TIMEOUT_SECONDS"

definition flush_state_to_disk :: "'w node_env \<Rightarrow> ('w, unit) io" where
  "flush_state_to_disk env =
     io_seq (node_rpc env [] ''gettxoutsetinfo'' (JList [JStr ''none'']) WRITE_RPC_TIMEOUT_SECONDS) (io_ret ())"

definition estimate_smart_fee :: "'w node_env \<Rightarrow> ('w, json) io" where
  "estimate_smart_fee env = node_rpc env [] ''estimatesmartfee'' (JList [JInt 6]) RPC_TIMEOUT_SECONDS"

definition get_block_hash :: "'w node_env \<Rightarrow> int \<Rightarrow> ('w, json) io" where
  "get_block_hash env height = node_rpc env [] ''getblockhash'' (JList [JInt height]) RPC_TIMEOUT_SECONDS"

definition get_block_info :: "'w node_env \<Rightarrow> json \<Rightarrow> ('w, json) io" where
  "get_block_info env block_hash = node_rpc env [] ''getblock'' (JList [block_hash, JInt 2]) RPC_TIMEOUT_SECONDS"

definition node_new_address :: "'w node_env \<Rightarrow> ('w, json) io" where
  "node_new_address env = node_rpc env WALLET ''getnewaddress'' (JList []) RPC_TIMEOUT_SECONDS"

definition mine_block :: "'w node_env \<Rightarrow> int \<Rightarrow> ('w, bool) io" where
  "mine_block env n_blocks =
     io_bind (node_rpc env WALLET ''getnewaddress'' (JList []) RPC_TIMEOUT_SECONDS) (\<lambda>address.
     io_bind (node_rpc env [] ''generatetoaddress'' (JList [JInt n_blocks, address]) WRITE_RPC_TIMEOUT_SECONDS) (\<lambda>mined.
       io_ret (case mined of JList xs \<Rightarrow> int (length xs) = n_blocks | _ \<Rightarrow> False)))"

definition is_unspent :: "'w node_env \<Rightarrow> json \<Rightarrow> json \<Rightarrow> ('w, bool) io" where
  "is_unspent env txid index =
     io_bind (node_rpc env [] ''gettxout'' (JList [txid, index, JBool True]) RPC_TIMEOUT_SECONDS)
       (\<lambda>r. io_ret (r \<noteq> JNull))"

definition fund_address :: "'w node_env \<Rightarrow> json \<Rightarrow> json \<Rightarrow> ('w, unit) io" where
  "fund_address env address amount =
     io_seq (node_rpc env WALLET ''sendtoaddress'' (JList [address, amount]) WRITE_RPC_TIMEOUT_SECONDS) (io_ret ())"

section \<open>Wallets of the node\<close>

definition is_wallet_missing_error :: "string \<Rightarrow> bool" where
  "is_wallet_missing_error message =
     list_ex (\<lambda>marker. contains marker message)
       [''Path does not exist'', ''not found'', ''No such file or directory'', ''Wallet file verification failed'']"

definition error_code_is :: "json \<Rightarrow> int \<Rightarrow> bool" where
  "error_code_is v n = (num_of v = Some (of_int n))"

definition is_bdb_wallet_creation_error :: "(rat \<Rightarrow> string) \<Rightarrow> json \<Rightarrow> bool" where
  "is_bdb_wallet_creation_error ft error =
     (case error of
        JDict d \<Rightarrow>
          (let message = py_str ft (dget_default d ''message'' (JStr []))
           in error_code_is (dget d ''code'') (-4)
              \<and> (contains ''BDB wallet creation is deprecated'' message \<or> contains ''Compiled without bdb support'' message))
      | _ \<Rightarrow> False)"

definition is_wallet_database_exists_error :: "(rat \<Rightarrow> string) \<Rightarrow> json \<Rightarrow> bool" where
  "is_wallet_database_exists_error ft error =
     (case error of
        JDict d \<Rightarrow> error_code_is (dget d ''code'') (-4)
                   \<and> contains ''Database already exists'' (py_str ft (dget_default d ''message'' (JStr [])))
      | _ \<Rightarrow> False)"

definition request_create_wallet :: "'w node_env \<Rightarrow> string \<Rightarrow> bool \<Rightarrow> bool \<Rightarrow> ('w, dict) io" where
  "request_create_wallet env wallet descriptors disable_private_keys =
     io_bind (io_catch
         (ne_post env [] ''createwallet''
            (JDict [(''wallet_name'', JStr wallet), (''descriptors'', JBool descriptors),
                    (''disable_private_keys'', JBool disable_private_keys)]) 5)
         (\<lambda>e. exn_class e = KHttpTimeout)
         (\<lambda>e. io_raise (Exn KTimeoutError (''btc-node RPC timed out creating wallet '' @ wallet))))
       (\<lambda>body. case body of
          JDict d \<Rightarrow>
            if ''error'' \<in> fst ` set d \<or> ''result'' \<in> fst ` set d then io_ret d
            else io_raise (Exn KRpcError (''Unexpected btc-node response creating wallet '' @ wallet @ '': ''
                   @ py_repr (ne_float_text env) body))
        | _ \<Rightarrow> io_raise (Exn KRpcError (''Unexpected btc-node response creating wallet '' @ wallet @ '': ''
                   @ py_repr (ne_float_text env) body)))"

definition wallet_info :: "'w node_env \<Rightarrow> string \<Rightarrow> ('w, json) io" where
  "wallet_info env wallet = node_rpc env wallet ''getwalletinfo'' (JList []) RPC_TIMEOUT_SECONDS"

definition load_wallet :: "'w node_env \<Rightarrow> string \<Rightarrow> ('w, unit) io" where
  "load_wallet env wallet =
     io_seq (node_rpc env [] ''loadwallet'' (JList [JStr wallet]) RPC_TIMEOUT_SECONDS) (io_ret ())"

definition node_create_wallet :: "'w node_env \<Rightarrow> string \<Rightarrow> bool \<Rightarrow> bool \<Rightarrow> ('w, unit) io" where
  "node_create_wallet env wallet disable_private_keys allow_descriptor_fallback =
     io_bind (request_create_wallet env wallet False disable_private_keys) (\<lambda>body.
     io_bind (if dget body ''error'' \<noteq> JNull \<and> allow_descriptor_fallback
                 \<and> is_bdb_wallet_creation_error (ne_float_text env) (dget body ''error'')
              then request_create_wallet env wallet True disable_private_keys
              else io_ret body) (\<lambda>body'.
       let error = dget body' ''error'' in
       if error \<noteq> JNull \<and> is_wallet_database_exists_error (ne_float_text env) error
       then io_seq
              (io_catch (load_wallet env wallet)
                 (\<lambda>e. exn_class e = KRpcError \<and> contains ''already loaded'' (exn_msg e)) (\<lambda>e. io_ret ()))
              (io_seq (wallet_info env wallet) (io_ret ()))
       else if error \<noteq> JNull then io_raise (Exn KRpcError (py_str (ne_float_text env) error))
       else io_ret ()))"

text \<open>\<open>x in list\<close>: the wallet names are JSON strings; a value that cannot be searched is a TypeError.\<close>

definition lists_wallet :: "json \<Rightarrow> exn + bool" where
  "lists_wallet loaded =
     (case loaded of
        JList xs \<Rightarrow> Inr (JStr WALLET \<in> set xs)
      | JDict d \<Rightarrow> Inr (WALLET \<in> fst ` set d)
      | JStr s \<Rightarrow> Inr (contains WALLET s)
      | _ \<Rightarrow> Inl (Exn KTypeError ''in''))"

definition load_or_create :: "'w node_env \<Rightarrow> ('w, unit) io" where
  "load_or_create env =
     io_catch (load_wallet env WALLET) (\<lambda>e. exn_class e = KRpcError) (\<lambda>e.
       if contains ''already loaded'' (exn_msg e) then io_ret ()
       else if is_wallet_missing_error (exn_msg e) then node_create_wallet env WALLET False True
       else io_raise e)"

definition ensure_funding_wallet_ready :: "'w node_env \<Rightarrow> ('w, unit) io" where
  "ensure_funding_wallet_ready env =
     io_bind (node_rpc env [] ''listwallets'' (JList []) RPC_TIMEOUT_SECONDS) (\<lambda>loaded.
     io_bind (io_lift (lists_wallet loaded)) (\<lambda>there.
     io_seq (if there then io_ret () else load_or_create env)
       (io_seq (wallet_info env WALLET)
         (io_seq (node_rpc env WALLET ''settxfee'' (JList [JFloat FUNDING_WALLET_TX_FEE]) RPC_TIMEOUT_SECONDS)
           (io_ret ())))))"

section \<open>Readiness\<close>

definition MINIMUM_READY_BLOCKS :: int where "MINIMUM_READY_BLOCKS = 200"
definition QUIET_SAMPLE_COUNT :: nat where "QUIET_SAMPLE_COUNT = 6"
definition QUIET_SAMPLE_INTERVAL_SECONDS :: rat where "QUIET_SAMPLE_INTERVAL_SECONDS = 1 / 2"

text \<open>\<open>a == b\<close> on JSON scalars, where Python compares numbers by value.\<close>

definition same_number :: "json \<Rightarrow> json \<Rightarrow> bool" where
  "same_number a b = (num_of a \<noteq> None \<and> num_of a = num_of b)"

definition is_synchronized :: "dict \<Rightarrow> json \<Rightarrow> bool" where
  "is_synchronized info block_count =
     (is_int block_count \<and> same_number (dget info ''headers'') block_count
      \<and> dget info ''initialblockdownload'' = JBool False
      \<and> (case num_of (dget info ''verificationprogress'') of None \<Rightarrow> False | Some p \<Rightarrow> 1 \<le> p))"

definition rpc_failure :: "exn \<Rightarrow> bool" where
  "rpc_failure e = (exn_class e \<in> {KHttpTimeout, KConnection, KRpcError})"

text \<open>\<open>info.get(...)\<close> on an answer that is no object is an AttributeError.\<close>

definition as_dict :: "json \<Rightarrow> exn + dict" where
  "as_dict v = (case v of JDict d \<Rightarrow> Inr d | _ \<Rightarrow> Inl (Exn KAttributeError ''get''))"

definition format_synchronization_state :: "(rat \<Rightarrow> string) \<Rightarrow> int \<Rightarrow> dict \<Rightarrow> string" where
  "format_synchronization_state ft block_count info =
     ''blocks='' @ str_int block_count @ '' headers='' @ py_str ft (dget info ''headers'')
     @ '' initialblockdownload='' @ py_str ft (dget info ''initialblockdownload'')
     @ '' progress='' @ py_str ft (dget info ''verificationprogress'')"

definition sample_synchronized :: "'w node_env \<Rightarrow> string \<Rightarrow> ('w, string + unit) io" where
  "sample_synchronized env last_state =
     io_catch
       (io_bind (get_block_count env) (\<lambda>block_count.
        io_bind (get_blockchain_info env) (\<lambda>v.
        io_bind (io_lift (as_dict v)) (\<lambda>info.
          if MINIMUM_READY_BLOCKS < block_count \<and> is_synchronized info (JInt block_count)
          then io_seq (ensure_funding_wallet_ready env) (io_ret (Inr ()))
          else io_ret (Inl (format_synchronization_state (ne_float_text env) block_count info))))))
       (\<lambda>e. rpc_failure e \<or> exn_class e = KTimeoutError)
       (\<lambda>e. io_ret (Inl (''RPC error: '' @ exn_msg e)))"

definition wait_for_synchronized_chain_and_wallet ::
    "nat \<Rightarrow> 'w node_env \<Rightarrow> rat \<Rightarrow> rat \<Rightarrow> ('w, unit) io" where
  "wait_for_synchronized_chain_and_wallet fuel env deadline timeout =
     poll_while fuel (\<lambda>w. ne_clock env w < deadline) (sample_synchronized env) (ne_sleep env 1)
       (\<lambda>last_state. io_raise (Exn KTimeoutError (''btc-node RPC at '' @ ne_host env @ '':'' @ str_int (ne_port env)
          @ '' was not ready after '' @ ne_float_text env timeout @ ''s ('' @ last_state @ '')'')))
       ''no successful RPC sample''"

definition sample_fee :: "'w node_env \<Rightarrow> unit \<Rightarrow> ('w, unit + unit) io" where
  "sample_fee env u =
     io_catch
       (io_bind (estimate_smart_fee env) (\<lambda>v. io_bind (io_lift (as_dict v)) (\<lambda>d.
          io_ret (if dget d ''feerate'' \<noteq> JNull then Inr () else Inl ()))))
       rpc_failure (\<lambda>e. io_ret (Inl ()))"

definition wait_for_smart_fee_estimate :: "nat \<Rightarrow> 'w node_env \<Rightarrow> rat \<Rightarrow> rat \<Rightarrow> ('w, unit) io" where
  "wait_for_smart_fee_estimate fuel env deadline timeout =
     poll_while fuel (\<lambda>w. ne_clock env w < deadline) (sample_fee env) (ne_sleep env 1)
       (\<lambda>_. io_raise (Exn KTimeoutError (''btc-node produced no smart fee estimate after ''
          @ ne_float_text env timeout @ ''s''))) ()"

text \<open>The quiet height and the number of samples in a row that showed it.\<close>

type_synonym quiet = "json option \<times> nat"

definition quiet_step :: "dict \<Rightarrow> quiet \<Rightarrow> quiet" where
  "quiet_step info q =
     (let blocks = dget info ''blocks'' in
      if \<not> is_synchronized info blocks then (None, 0)
      else case fst q of
             Some h \<Rightarrow> if same_number blocks h then (fst q, snd q + 1) else (Some blocks, 1)
           | None \<Rightarrow> (Some blocks, 1))"

definition sample_quiet :: "'w node_env \<Rightarrow> quiet \<Rightarrow> ('w, quiet + unit) io" where
  "sample_quiet env q =
     io_catch
       (io_bind (get_blockchain_info env) (\<lambda>v. io_bind (io_lift (as_dict v)) (\<lambda>info.
          let q' = quiet_step info q
          in io_ret (if QUIET_SAMPLE_COUNT \<le> snd q' then Inr () else Inl q'))))
       rpc_failure (\<lambda>e. io_ret (Inl (None, 0)))"

definition wait_for_quiet_chain_tip :: "nat \<Rightarrow> 'w node_env \<Rightarrow> rat \<Rightarrow> rat \<Rightarrow> ('w, unit) io" where
  "wait_for_quiet_chain_tip fuel env deadline timeout =
     poll_while fuel (\<lambda>w. ne_clock env w < deadline) (sample_quiet env)
       (ne_sleep env QUIET_SAMPLE_INTERVAL_SECONDS)
       (\<lambda>_. io_raise (Exn KTimeoutError (''btc-node did not become quietly synchronized after ''
          @ ne_float_text env timeout @ ''s''))) (None, 0)"

definition wait_for_fee_history :: "nat \<Rightarrow> 'w node_env \<Rightarrow> rat \<Rightarrow> ('w, unit) io" where
  "wait_for_fee_history fuel env timeout = (\<lambda>w.
     let deadline = ne_clock env w + timeout in
     io_seq (wait_for_smart_fee_estimate fuel env deadline timeout)
       (wait_for_quiet_chain_tip fuel env deadline timeout) w)"

definition wait_for_node_ready :: "nat \<Rightarrow> 'w node_env \<Rightarrow> rat \<Rightarrow> ('w, unit) io" where
  "wait_for_node_ready fuel env timeout = (\<lambda>w.
     let deadline = ne_clock env w + timeout in
     io_seq (wait_for_synchronized_chain_and_wallet fuel env deadline timeout)
       (\<lambda>w'. wait_for_fee_history fuel env (max 0 (deadline - ne_clock env w')) w') w)"

definition wait_ready :: "nat \<Rightarrow> 'w node_env \<Rightarrow> rat \<Rightarrow> ('w, unit) io" where
  "wait_ready fuel env timeout = wait_for_node_ready fuel env timeout"

section \<open>Copying the data directory\<close>

record 'w snapshot_ops =
  ss_height :: "('w, int) io"
  ss_flush :: "('w, unit) io"
  ss_pause :: "('w, unit) io"
  ss_unpause :: "('w, unit) io"
  ss_download :: "('w, unit) io"
  ss_discard :: "'w \<Rightarrow> 'w"

definition CHAIN_TIP_RACE_RETRIES :: nat where "CHAIN_TIP_RACE_RETRIES = 3"

fun snapshot_tries :: "nat \<Rightarrow> 'w snapshot_ops \<Rightarrow> ('w, int) io" where
  "snapshot_tries 0 ops = io_raise (Exn KRuntimeError ''the chain tip kept moving'')"
| "snapshot_tries (Suc n) ops =
     io_bind (ss_height ops) (\<lambda>height.
     io_seq (ss_flush ops)
       (io_seq (io_finally (io_seq (ss_pause ops) (ss_download ops)) (ss_unpause ops))
         (io_bind (ss_height ops) (\<lambda>height'.
           if height' = height then io_ret height
           else (\<lambda>w. snapshot_tries n ops (ss_discard ops w))))))"

definition snapshot_btc_datadir :: "'w snapshot_ops \<Rightarrow> ('w, int) io" where
  "snapshot_btc_datadir ops = snapshot_tries CHAIN_TIP_RACE_RETRIES ops"

section \<open>What a quiet tip is\<close>

text \<open>A node that notes the answers to its chain queries; a failed query is \<open>None\<close>.\<close>

definition sampled_chain :: "'w node_env \<Rightarrow> ('w \<times> json option list) node_env" where
  "sampled_chain env = \<lparr>
     ne_post = (\<lambda>wallet m params timeout (w, l). case ne_post env wallet m params timeout w of (r, w') \<Rightarrow>
        (r, (w', if m = ''getblockchaininfo''
                 then l @ [case r of Inr body \<Rightarrow> (case rpc_result (ne_float_text env) body of Inr v \<Rightarrow> Some v | Inl e \<Rightarrow> None)
                           | Inl e \<Rightarrow> None]
                 else l))),
     ne_clock = (\<lambda>(w, l). ne_clock env w), ne_sleep = (\<lambda>d (w, l). (ne_sleep env d w, l)),
     ne_float_text = ne_float_text env, ne_host = ne_host env, ne_port = ne_port env\<rparr>"

definition quiet_sample :: "json \<Rightarrow> json option \<Rightarrow> bool" where
  "quiet_sample h s = (case s of Some (JDict info) \<Rightarrow> is_synchronized info (dget info ''blocks'')
       \<and> same_number (dget info ''blocks'') h | _ \<Rightarrow> False)"

text \<open>The last samples are as the counter says.\<close>

definition streak_ok :: "quiet \<Rightarrow> json option list \<Rightarrow> bool" where
  "streak_ok q l = (case q of (None, n) \<Rightarrow> n = 0
      | (Some h, n) \<Rightarrow> \<exists>pre post. l = pre @ post \<and> length post = n \<and> (\<forall>s\<in>set post. quiet_sample h s))"

lemma same_number_refl: "is_int v \<Longrightarrow> same_number v v"
  by (cases v) (auto simp: same_number_def)

lemma streak_step:
  assumes "streak_ok q l"
  shows "streak_ok (quiet_step info q) (l @ [Some (JDict info)])"
proof (cases "is_synchronized info (dget info ''blocks'')")
  case False
  then show ?thesis by (simp add: quiet_step_def streak_ok_def)
next
  case True
  then have int: "is_int (dget info ''blocks'')" by (simp add: is_synchronized_def)
  have fresh: "streak_ok (Some (dget info ''blocks''), 1) (l @ [Some (JDict info)])"
    using True same_number_refl [OF int]
    unfolding streak_ok_def prod.case option.case
    by (intro exI [of _ l] exI [of _ "[Some (JDict info)]"]) (simp add: quiet_sample_def)
  show ?thesis
  proof (cases "\<exists>h. fst q = Some h \<and> same_number (dget info ''blocks'') h")
    case False
    then show ?thesis using True fresh by (auto simp: quiet_step_def Let_def split: option.splits)
  next
    case same: True
    then obtain h n where q: "q = (Some h, n)" and h: "same_number (dget info ''blocks'') h"
      by (cases q) auto
    obtain pre post where "l = pre @ post" "length post = n" "\<forall>s\<in>set post. quiet_sample h s"
      using assms by (auto simp: streak_ok_def q)
    then have "streak_ok (Some h, n + 1) (l @ [Some (JDict info)])"
      unfolding streak_ok_def prod.case option.case
      by (intro exI [of _ pre] exI [of _ "post @ [Some (JDict info)]"]) (use True h in \<open>auto simp: quiet_sample_def\<close>)
    then show ?thesis using True h by (simp add: quiet_step_def q)
  qed
qed

text \<open>What one sample does to the list: it adds one entry.\<close>

lemma sample_quiet_cases:
  assumes "sample_quiet (sampled_chain env) q (w, l) = (r, (w', l'))"
  shows "(\<exists>e. r = Inl e) \<or> (r = Inr (Inl (None, 0)))
    \<or> (\<exists>info. l' = l @ [Some (JDict info)] \<and>
         r = (if QUIET_SAMPLE_COUNT \<le> snd (quiet_step info q) then Inr (Inr ()) else Inr (Inl (quiet_step info q))))"
proof -
  obtain a w1 where post: "ne_post env [] ''getblockchaininfo'' (JList []) RPC_TIMEOUT_SECONDS w = (a, w1)" by fastforce
  define b where "b = (case a of Inr body \<Rightarrow> rpc_result (ne_float_text env) body | Inl e \<Rightarrow> Inl e)"
  have info: "get_blockchain_info (sampled_chain env) (w, l)
      = (b, (w1, l @ [case b of Inr v \<Rightarrow> Some v | Inl e \<Rightarrow> None]))"
    by (cases a) (auto simp: get_blockchain_info_def node_rpc_def sampled_chain_def io_bind_def io_lift_def post b_def
        split: sum.splits)
  show ?thesis
  proof (cases b)
    case (Inl e)
    then show ?thesis using assms info
      by (auto simp: sample_quiet_def io_catch_def io_bind_def io_ret_def split: if_splits)
  next
    case (Inr v)
    then show ?thesis using assms info
      by (cases v) (auto simp: sample_quiet_def io_catch_def io_bind_def io_ret_def io_lift_def as_dict_def Let_def
          rpc_failure_def split: if_splits)
  qed
qed

lemma poll_quiet:
  "poll_while n go (sample_quiet (sampled_chain env)) (ne_sleep (sampled_chain env) d) (\<lambda>_. io_raise x) q (w, l)
     = (Inr (), (w', l')) \<Longrightarrow> streak_ok q l \<Longrightarrow>
     \<exists>pre post h. l' = pre @ post \<and> length post \<ge> QUIET_SAMPLE_COUNT \<and> (\<forall>s\<in>set post. quiet_sample h s)"
proof (induction n arbitrary: q w l)
  case (Suc n)
  have go: "go (w, l)" using Suc.prems(1) by (auto simp: io_raise_def split: if_splits)
  obtain r w1 l1 where s: "sample_quiet (sampled_chain env) q (w, l) = (r, (w1, l1))"
    by (metis prod_cases3)
  have sleep: "ne_sleep (sampled_chain env) d (w1, l1) = (ne_sleep env d w1, l1)"
    by (simp add: sampled_chain_def)
  have next_turn: ?case if "r = Inr (Inl q')" "streak_ok q' l1" for q'
  proof (rule Suc.IH [OF _ that(2)])
    show "poll_while n go (sample_quiet (sampled_chain env)) (ne_sleep (sampled_chain env) d) (\<lambda>_. io_raise x) q'
        (ne_sleep env d w1, l1) = (Inr (), (w', l'))"
      using Suc.prems(1) go s sleep that(1) by simp
  qed
  from sample_quiet_cases [OF s] consider
      e where "r = Inl e" | "r = Inr (Inl (None, 0))"
    | info where "l1 = l @ [Some (JDict info)]" "QUIET_SAMPLE_COUNT \<le> snd (quiet_step info q)" "r = Inr (Inr ())"
    | info where "l1 = l @ [Some (JDict info)]" "r = Inr (Inl (quiet_step info q))"
    by (metis (full_types))
  then show ?case
  proof cases
    case 1
    then show ?thesis using Suc.prems(1) go s by simp
  next
    case 2
    then show ?thesis by (rule next_turn) (simp add: streak_ok_def)
  next
    case 3
    then have l': "l' = l1" using Suc.prems(1) go s by simp
    have "streak_ok (quiet_step info q) l1" using streak_step [OF Suc.prems(2)] 3(1) by simp
    then show ?thesis using 3(2) unfolding l'
      by (cases "quiet_step info q") (auto simp: streak_ok_def QUIET_SAMPLE_COUNT_def split: option.splits)
  next
    case 4
    then show ?thesis using streak_step [OF Suc.prems(2)] by (intro next_turn) auto
  qed
qed (simp add: diverge_def io_raise_def)

text \<open>
  Claim C17. When the wait for a quiet chain tip returns, the last six chain queries or more all
  succeeded, and all of them showed a fully synchronized node at one and the same height.
\<close>

theorem quiet_tip_is_quiet:
  assumes "wait_for_quiet_chain_tip fuel (sampled_chain env) deadline timeout (w, []) = (Inr (), (w', samples))"
  shows "\<exists>pre post h. samples = pre @ post \<and> length post \<ge> QUIET_SAMPLE_COUNT \<and> (\<forall>s\<in>set post. quiet_sample h s)"
  by (rule poll_quiet [OF assms [unfolded wait_for_quiet_chain_tip_def]]) (simp add: streak_ok_def)

section \<open>The waits end\<close>

text \<open>What the waits rely on: a post comes back, and time passes in a sleep.\<close>

definition node_clock_laws :: "'w node_env \<Rightarrow> bool" where
  "node_clock_laws env =
     ((\<forall>wallet m params timeout. timely (ne_clock env) (ne_post env wallet m params timeout))
      \<and> (\<forall>d w. ne_clock env w + d \<le> ne_clock env (ne_sleep env d w)))"

lemma rpc_result_returns: "\<not> diverged (rpc_result ft body)"
  by (simp add: rpc_result_def split: json.splits option.splits)

lemma node_rpc_timely: "node_clock_laws env \<Longrightarrow> timely (ne_clock env) (node_rpc env wallet m params timeout)"
  unfolding node_rpc_def by (intro timely_intros rpc_result_returns) (simp add: node_clock_laws_def)

lemma request_create_wallet_timely:
  "node_clock_laws env \<Longrightarrow> timely (ne_clock env) (request_create_wallet env wallet d p)"
  unfolding request_create_wallet_def
  by (intro timely_bind timely_catch)
    (auto simp: node_clock_laws_def split: json.split intro!: timely_intros)

lemma node_create_wallet_timely:
  "node_clock_laws env \<Longrightarrow> timely (ne_clock env) (node_create_wallet env wallet p f)"
  unfolding node_create_wallet_def Let_def load_wallet_def wallet_info_def
  by (intro timely_intros node_rpc_timely request_create_wallet_timely) simp_all

lemma ensure_funding_wallet_ready_timely:
  "node_clock_laws env \<Longrightarrow> timely (ne_clock env) (ensure_funding_wallet_ready env)"
  unfolding ensure_funding_wallet_ready_def load_or_create_def wallet_info_def load_wallet_def
  by (intro timely_intros node_rpc_timely node_create_wallet_timely)
    (auto simp: lists_wallet_def split: json.splits)

lemma get_block_count_timely: "node_clock_laws env \<Longrightarrow> timely (ne_clock env) (get_block_count env)"
  unfolding get_block_count_def by (intro timely_intros node_rpc_timely) simp_all

lemma as_dict_returns: "\<not> diverged (as_dict v)"
  by (simp add: as_dict_def split: json.splits)

lemmas node_timely = as_dict_returns get_block_count_timely ensure_funding_wallet_ready_timely node_rpc_timely

lemma samples_timely:
  assumes "node_clock_laws env"
  shows "timely (ne_clock env) (sample_synchronized env s)" "timely (ne_clock env) (sample_fee env u)"
    "timely (ne_clock env) (sample_quiet env q)"
  unfolding sample_synchronized_def sample_fee_def sample_quiet_def get_blockchain_info_def estimate_smart_fee_def Let_def
  by (intro timely_intros node_timely assms)+

lemma poll_while_timely:
  assumes laws: "node_clock_laws env"
    and step: "\<And>s. timely (ne_clock env) (step s)"
    and final: "\<And>s. timely (ne_clock env) (final s)"
  shows "deadline \<le> ne_clock env w + d * of_nat n \<Longrightarrow> 0 \<le> d \<Longrightarrow>
     poll_while (Suc n) (\<lambda>w. ne_clock env w < deadline) step (ne_sleep env d) final s w = (r, w') \<Longrightarrow>
     \<not> diverged r \<and> ne_clock env w \<le> ne_clock env w'"
  by (rule poll_while_returns [where clock = "ne_clock env" and d = d and limit = deadline, OF step final])
    (use laws in \<open>auto simp: node_clock_laws_def\<close>)

lemma wait_for_fee_history_timely:
  assumes "node_clock_laws env" "2 * timeout \<le> of_nat n"
    and run: "wait_for_fee_history (Suc n) env timeout w = (r, w')"
  shows "\<not> diverged r \<and> ne_clock env w \<le> ne_clock env w'"
proof -
  let ?deadline = "ne_clock env w + timeout"
  obtain r1 w1 where fee: "wait_for_smart_fee_estimate (Suc n) env ?deadline timeout w = (r1, w1)" by fastforce
  have 1: "\<not> diverged r1 \<and> ne_clock env w \<le> ne_clock env w1"
    by (rule poll_while_timely [OF assms(1) samples_timely(2) [OF assms(1)] _ _ _ fee [unfolded wait_for_smart_fee_estimate_def]])
      (use assms(2) of_nat_0_le_iff [of n, where 'a = rat] in \<open>auto intro!: timely_raise\<close>)
  show ?thesis
  proof (cases r1)
    case (Inl e)
    then show ?thesis using run fee 1
      by (auto simp: wait_for_fee_history_def Let_def io_seq_def io_bind_def diverged_def)
  next
    case (Inr u)
    then have quiet: "wait_for_quiet_chain_tip (Suc n) env ?deadline timeout w1 = (r, w')"
      using run fee by (simp add: wait_for_fee_history_def Let_def io_seq_def io_bind_def)
    have "\<not> diverged r \<and> ne_clock env w1 \<le> ne_clock env w'"
      by (rule poll_while_timely [OF assms(1) samples_timely(3) [OF assms(1)] _ _ _ quiet [unfolded wait_for_quiet_chain_tip_def]])
        (use assms(2) 1 in \<open>auto intro!: timely_raise simp: QUIET_SAMPLE_INTERVAL_SECONDS_def\<close>)
    then show ?thesis using 1 by linarith
  qed
qed

text \<open>
  When every post to the node comes back and time passes in a sleep, the wait for a
  ready node returns or raises: with a timeout of \<open>t\<close> seconds, at most \<open>2 t + 1\<close> turns of each of its
  three loops are made.
\<close>

theorem wait_ready_returns:
  assumes "node_clock_laws env" "0 \<le> timeout" "2 * timeout \<le> of_nat n"
  shows "\<not> diverged (fst (wait_ready (Suc n) env timeout w))"
proof -
  let ?deadline = "ne_clock env w + timeout"
  obtain r1 w1 where sync: "wait_for_synchronized_chain_and_wallet (Suc n) env ?deadline timeout w = (r1, w1)" by fastforce
  have 1: "\<not> diverged r1 \<and> ne_clock env w \<le> ne_clock env w1"
    by (rule poll_while_timely [OF assms(1) samples_timely(1) [OF assms(1)] _ _ _
          sync [unfolded wait_for_synchronized_chain_and_wallet_def]])
      (use assms(2,3) in \<open>auto intro!: timely_raise\<close>)
  show ?thesis
  proof (cases r1)
    case (Inl e)
    then show ?thesis using sync 1
      by (auto simp: wait_ready_def wait_for_node_ready_def Let_def io_seq_def io_bind_def)
  next
    case (Inr u)
    obtain r w' where fee: "wait_for_fee_history (Suc n) env (max 0 (?deadline - ne_clock env w1)) w1 = (r, w')" by fastforce
    have "2 * max 0 (?deadline - ne_clock env w1) \<le> of_nat n" using 1 assms(2,3) by (simp add: max_def)
    then have "\<not> diverged r" using wait_for_fee_history_timely [OF assms(1) _ fee] by blast
    then show ?thesis using sync Inr fee
      by (simp add: wait_ready_def wait_for_node_ready_def Let_def io_seq_def io_bind_def)
  qed
qed

text \<open>A node that answers nothing; the world is the time.\<close>

definition silent_node :: "rat node_env" where
  "silent_node = \<lparr>ne_post = (\<lambda>wallet m params timeout. io_raise (Exn KConnection ''refused'')),
     ne_clock = id, ne_sleep = (\<lambda>d w. w + d), ne_float_text = (\<lambda>x. ''3''), ne_host = ''localhost'', ne_port = 18443\<rparr>"

theorem wait_ready_returns_witness: "\<not> diverged (fst (wait_ready (Suc 6) silent_node 3 0))"
  by (rule wait_ready_returns)
    (auto simp: node_clock_laws_def silent_node_def intro!: timely_raise)

text \<open>A synchronized node at height 300 that fails its third query; the world counts the queries.\<close>

definition quiet_node :: "nat node_env" where
  "quiet_node = \<lparr>ne_post = (\<lambda>wallet m params timeout n.
       (if n = 2 then Inl (Exn KConnection ''reset'')
        else Inr (JDict [(''error'', JNull), (''result'', JDict [(''blocks'', JInt 300), (''headers'', JInt 300),
          (''initialblockdownload'', JBool False), (''verificationprogress'', JInt 1)])]), n + 1)),
     ne_clock = (\<lambda>n. 0), ne_sleep = (\<lambda>d n. n), ne_float_text = (\<lambda>x. []), ne_host = [], ne_port = 0\<rparr>"

theorem quiet_tip_is_quiet_witness:
  "\<exists>samples pre post h. wait_for_quiet_chain_tip 10 (sampled_chain quiet_node) 1 1 (0, []) = (Inr (), (9, samples))
     \<and> length samples = 9 \<and> samples = pre @ post \<and> length post \<ge> 6 \<and> (\<forall>s\<in>set post. quiet_sample h s)"
proof -
  obtain r w samples where run: "wait_for_quiet_chain_tip 10 (sampled_chain quiet_node) 1 1 (0, []) = (r, (w, samples))"
    by (metis prod_cases3)
  have "fst (wait_for_quiet_chain_tip 10 (sampled_chain quiet_node) 1 1 (0, [])) = Inr ()
      \<and> fst (snd (wait_for_quiet_chain_tip 10 (sampled_chain quiet_node) 1 1 (0, []))) = 9
      \<and> length (snd (snd (wait_for_quiet_chain_tip 10 (sampled_chain quiet_node) 1 1 (0, [])))) = 9"
    by code_simp
  then have r: "r = Inr ()" "w = 9" "length samples = 9" by (simp_all add: run)
  from quiet_tip_is_quiet [OF run [unfolded r]] show ?thesis
    using run r by (auto simp: QUIET_SAMPLE_COUNT_def)
qed

section \<open>The copy is of one height\<close>

datatype snap_act = SnapHeight "int option" | SnapFlush | SnapPause | SnapUnpause | SnapCopy | SnapDiscard

definition noting :: "'b \<Rightarrow> ('w, 'a) io \<Rightarrow> ('w \<times> 'b list, 'a) io" where
  "noting a m = (\<lambda>(w, l). case m w of (r, w') \<Rightarrow> (r, (w', l @ [a])))"

definition traced_snapshot :: "'w snapshot_ops \<Rightarrow> ('w \<times> snap_act list) snapshot_ops" where
  "traced_snapshot ops = \<lparr>
     ss_height = (\<lambda>(w, l). case ss_height ops w of
        (Inr h, w') \<Rightarrow> (Inr h, (w', l @ [SnapHeight (Some h)])) | (Inl e, w') \<Rightarrow> (Inl e, (w', l @ [SnapHeight None]))),
     ss_flush = noting SnapFlush (ss_flush ops), ss_pause = noting SnapPause (ss_pause ops),
     ss_unpause = noting SnapUnpause (ss_unpause ops), ss_download = noting SnapCopy (ss_download ops),
     ss_discard = (\<lambda>(w, l). (ss_discard ops w, l @ [SnapDiscard]))\<rparr>"

text \<open>
  The container is copied only while it is frozen, queried and flushed only while it runs, and it
  was resumed after every freeze.
\<close>

fun guarded :: "bool \<Rightarrow> snap_act list \<Rightarrow> bool" where
  "guarded frozen [] = (\<not> frozen)"
| "guarded frozen (SnapPause # l) = guarded True l"
| "guarded frozen (SnapUnpause # l) = guarded False l"
| "guarded frozen (SnapCopy # l) = (frozen \<and> guarded frozen l)"
| "guarded frozen (a # l) = (\<not> frozen \<and> guarded frozen l)"

lemma guarded_append: "guarded frozen a \<Longrightarrow> guarded frozen (a @ b) \<longleftrightarrow> guarded False b"
  by (induction frozen a rule: guarded.induct) auto

definition one_copy :: "int \<Rightarrow> snap_act list" where
  "one_copy h = [SnapHeight (Some h), SnapFlush, SnapPause, SnapCopy, SnapUnpause]"

definition snapshot_result :: "nat \<Rightarrow> exn + int \<Rightarrow> snap_act list \<Rightarrow> bool" where
  "snapshot_result n r l =
     (guarded False l \<and> length (filter (\<lambda>a. a = SnapCopy) l) \<le> n
      \<and> (\<forall>h. r = Inr h \<longrightarrow> (\<exists>pre. l = pre @ one_copy h @ [SnapHeight (Some h)])))"

lemma snapshot_attempt:
  assumes "snapshot_tries (Suc n) (traced_snapshot ops) (w, l) = (r, (w', l'))"
  shows "(\<exists>a. l' = l @ a \<and> snapshot_result 1 r a)
    \<or> (\<exists>h h' w1. snapshot_tries n (traced_snapshot ops)
          (w1, l @ one_copy h @ [SnapHeight (Some h'), SnapDiscard]) = (r, (w', l')))"
proof -
  obtain q1 v1 where 1: "ss_height ops w = (q1, v1)" by fastforce
  obtain q2 v2 where 2: "ss_flush ops v1 = (q2, v2)" by fastforce
  obtain q3 v3 where 3: "ss_pause ops v2 = (q3, v3)" by fastforce
  obtain q4 v4 where 4: "ss_download ops v3 = (q4, v4)" by fastforce
  define v where "v = (case q3 of Inl e \<Rightarrow> v3 | Inr u \<Rightarrow> v4)"
  obtain q5 v5 where 5: "ss_unpause ops v = (q5, v5)" by fastforce
  obtain q6 v6 where 6: "ss_height ops v5 = (q6, v6)" by fastforce
  note defs = traced_snapshot_def noting_def io_bind_def io_seq_def io_finally_def io_ret_def
    snapshot_result_def one_copy_def v_def 1 2 3 4 6
  show ?thesis
  proof (cases q1)
    case (Inl e)
    then show ?thesis using assms by (auto simp: defs)
  next
    case height: (Inr h)
    show ?thesis
    proof (cases q2)
      case (Inl e)
      then show ?thesis using assms height by (auto simp: defs)
    next
      case flushed: (Inr u)
      show ?thesis
      proof (cases q3)
        case (Inl e)
        then show ?thesis using assms height flushed 5 by (cases q5) (auto simp: defs)
      next
        case frozen: (Inr u)
        show ?thesis
        proof (cases q5; cases q4; cases q6)
        qed (use assms height flushed frozen 5 in \<open>auto simp: defs split: if_splits\<close>)
      qed
    qed
  qed
qed

lemma snapshot_tries_result:
  "snapshot_tries n (traced_snapshot ops) (w, l) = (r, (w', l')) \<Longrightarrow> \<exists>a. l' = l @ a \<and> snapshot_result n r a"
proof (induction n arbitrary: w l)
  case 0
  then show ?case by (auto simp: io_raise_def snapshot_result_def)
next
  case (Suc n)
  from snapshot_attempt [OF Suc.prems] show ?case
  proof (elim disjE exE conjE)
    fix a
    assume "l' = l @ a" "snapshot_result 1 r a"
    then show ?case by (auto simp: snapshot_result_def)
  next
    fix h h' w1
    let ?b = "one_copy h @ [SnapHeight (Some h'), SnapDiscard]"
    assume "snapshot_tries n (traced_snapshot ops) (w1, l @ ?b) = (r, (w', l'))"
    from Suc.IH [OF this] obtain a where a: "l' = (l @ ?b) @ a" "snapshot_result n r a" by blast
    have "snapshot_result (Suc n) r (?b @ a)"
      using a(2) by (auto simp: snapshot_result_def one_copy_def)
    then show ?case using a(1) by (metis append.assoc)
  qed
qed

text \<open>
  Claim C18. Whatever node and driver do, the data directory is copied at most three times, only
  while the container is frozen, and the container is resumed after every freeze, also on errors;
  when a height is returned, the chain had that height before the flush and after the last copy,
  and that copy was not discarded.
\<close>

theorem snapshot_is_of_one_height:
  assumes "snapshot_btc_datadir (traced_snapshot ops) (w, []) = (r, (w', acts))"
  shows "snapshot_result CHAIN_TIP_RACE_RETRIES r acts"
  using snapshot_tries_result [OF assms [unfolded snapshot_btc_datadir_def]] by auto

text \<open>A node that mines a block during the first copy.\<close>

definition busy_snapshot :: "nat snapshot_ops" where
  "busy_snapshot = \<lparr>ss_height = (\<lambda>n. (Inr (if n = 0 then 300 else 301), n)), ss_flush = (\<lambda>n. (Inr (), n)),
     ss_pause = (\<lambda>n. (Inr (), n)), ss_unpause = (\<lambda>n. (Inr (), n)), ss_download = (\<lambda>n. (Inr (), n + 1)),
     ss_discard = id\<rparr>"

theorem snapshot_is_of_one_height_witness:
  "\<exists>acts. snapshot_btc_datadir (traced_snapshot busy_snapshot) (0, []) = (Inr 301, (2, acts))
     \<and> guarded False acts \<and> (\<exists>pre. acts = pre @ one_copy 301 @ [SnapHeight (Some 301)])"
proof -
  have run: "snapshot_btc_datadir (traced_snapshot busy_snapshot) (0, []) = (Inr 301, (2,
      one_copy 300 @ [SnapHeight (Some 301), SnapDiscard] @ one_copy 301 @ [SnapHeight (Some 301)]))"
    by code_simp
  show ?thesis using snapshot_is_of_one_height [OF run] run by (auto simp: snapshot_result_def)
qed

end
