(* ===== verification/JmEngine.thy ===== *)
theory JmEngine
  imports JmUpdate Postmix EngineBase
begin

text \<open>
  The JoinMarket engine, \<open>manager/engine/joinmarket_engine.py\<close>: the default scenario, the containers
  it starts, the fidelity bonds it funds, and the loop that follows the chain, pays due invoices and
  postmix spends, confirms rounds and updates every wallet. The world \<open>'w\<close> holds containers, node and
  clock; the engine's own attributes are the record \<open>jm_engine\<close>. Calls the code runs side by side
  (client updates in \<open>asyncio.gather\<close>) are made one after the other.
\<close>

section \<open>The default scenario\<close>

definition plain_wallet :: "int list \<Rightarrow> joinmarket_config \<Rightarrow> wallet_config" where
  "plain_wallet funds jm =
     \<lparr>w_funds = map (\<lambda>v. FundPlain (JInt v)) funds, w_delay_blocks = JNull, w_delay_rounds = JNull,
      w_stop_blocks = JNull, w_stop_rounds = JNull, w_version = JNull, w_wasabi = None,
      w_joinmarket = Some jm\<rparr>"

definition role_config :: "role \<Rightarrow> json \<Rightarrow> json \<Rightarrow> joinmarket_config" where
  "role_config r offers tumbler =
     \<lparr>jc_role = Some r, jc_offers = offers, jc_tumbler_options = tumbler, jc_time_between_rounds = JNull,
      jc_timeout_blocks = None, jc_fidelity_bond = JNull, jc_max_coinjoins = JNull, jc_postmix = None\<rparr>"

definition default_maker_offers :: json where
  "default_maker_offers = JList [JDict
     [(''txfee'', JInt 0), (''cjfee_a'', JInt 5000), (''cjfee_r'', JFloat (4 / 100000)),
      (''ordertype'', JStr ''sw0reloffer''), (''minsize'', JInt 30000), (''maxsize'', JInt 3000000)]]"

definition default_tumbler_options :: json where
  "default_tumbler_options = JDict
     [(''addrcount'', JInt 3), (''minmakercount'', JInt 4), (''makercountrange'', JList [JInt 5, JInt 1]),
      (''mixdepthcount'', JInt 3), (''mintxcount'', JInt 2), (''txcountparams'', JList [JInt 3, JInt 1]),
      (''timelambda'', JInt 5), (''stage1_timelambda_increase'', JInt 1), (''liquiditywait'', JInt 60),
      (''waittime'', JInt 20), (''mixdepthsrc'', JInt 0), (''restart'', JBool True),
      (''mincjamount'', JInt 35000), (''amtmixdepths'', JInt 4), (''rounding_chance'', JInt 0),
      (''rounding_sigfig_weights'', JList [JInt 55, JInt 15, JInt 25, JInt 65, JInt 45])]"

definition jm_default_scenario :: scenario_config where
  "jm_default_scenario =
     \<lparr>sc_name = JStr ''default'', sc_rounds = JInt 0, sc_blocks = JInt 0,
      sc_default_version = JStr ''joinmarket'',
      sc_wallets = plain_wallet [75000, 75000] (role_config TAKER JNull default_tumbler_options)
        # map (\<lambda>funds. plain_wallet funds (role_config MAKER default_maker_offers JNull))
            [[1000000, 500000], [3000000, 15000], [1000000, 500000], [3000000, 600000], [200000, 50000],
             [3000000], [1000000, 500000], [3000000, 15000], [1000000, 500000], [3000000, 600000]],
      sc_description = JNull, sc_category = JNull, sc_distributor_version = JNull,
      sc_default_anon = JNull, sc_default_redcoin = JNull, sc_backend = JNull\<rparr>"

section \<open>Images and containers\<close>

definition prepare_joinmarket_base_image ::
    "image_args \<Rightarrow> bool \<Rightarrow> (string \<times> string) option" where
  "prepare_joinmarket_base_image args vendored =
     (if \<not> local_build_requested args ''joinmarket-client-server'' then None
      else if \<not> vendored then None
      else Some (ia_prefix args @ ''joinmarket-base:latest'', ''./vendor/joinmarket-clientserver''))"

definition core_wallet_name :: "string \<Rightarrow> string" where
  "core_wallet_name client_name = ''jm_wallet_'' @ client_name"

definition joinmarket_container_env :: "string \<Rightarrow> (string \<times> string) list" where
  "joinmarket_container_env rpc_wallet_file = [(''JM_RPC_WALLET_FILE'', rpc_wallet_file)]"

definition client_name :: "nat \<Rightarrow> string" where
  "client_name idx = ''jcs-'' @ pad3 idx"

definition client_port :: "nat \<Rightarrow> int" where
  "client_port idx = 28184 + int idx"

record 'w container_ops =
  co_create_wallet :: "string \<Rightarrow> ('w, unit) io"
  co_run :: "container_request \<Rightarrow> ('w, container_endpoint) io"
  co_stop :: "string \<Rightarrow> ('w, unit) io"
  co_sleep :: "rat \<Rightarrow> 'w \<Rightarrow> 'w"
  co_probe :: "string \<Rightarrow> int \<Rightarrow> ('w, bool) io"
  co_wait_wallet :: "string \<Rightarrow> int \<Rightarrow> ('w, bool) io"

definition create_core_wallet :: "'w container_ops \<Rightarrow> bool \<Rightarrow> string \<Rightarrow> ('w, string) io" where
  "create_core_wallet ops node name =
     (if \<not> node then io_raise (Exn KRuntimeError ''Bitcoin node is not initialized'')
      else io_seq (co_create_wallet ops (core_wallet_name name)) (io_ret (core_wallet_name name)))"

definition start_irc_server :: "'w container_ops \<Rightarrow> image_args \<Rightarrow> ('w, unit) io" where
  "start_irc_server ops images =
     io_catch
       (io_seq (co_run ops \<lparr>cr_name = ''irc-server'', cr_image = image_ref images ''irc-server'', cr_env = [],
            cr_ports = [(6667, 6667)], cr_cpu = 1 / 4, cr_memory = 256, cr_service_account = ''irc-server'',
            cr_run_as = (Some 10000, None), cr_proxy = []\<rparr>) (io_ret ()))
       is_exception (\<lambda>_. io_raise (Exn KException ''Could not start IRC server''))"

definition start_orderbook_watch ::
    "'w container_ops \<Rightarrow> image_args \<Rightarrow> endpoint_args \<Rightarrow> ('w, string \<times> int) io" where
  "start_orderbook_watch ops images args =
     io_bind (io_catch
         (co_run ops \<lparr>cr_name = ''joinmarket-obwatch'', cr_image = image_ref images ''joinmarket-client-server'',
            cr_env = [(''MODE'', ''obwatch'')], cr_ports = [(62601, 62601)], cr_cpu = 1 / 4, cr_memory = 256,
            cr_service_account = ''joinmarket'', cr_run_as = (Some 1000, Some 1000), cr_proxy = ea_proxy args\<rparr>)
         is_exception (\<lambda>_. io_raise (Exn KException ''Could not start orderbook watcher'')))
       (\<lambda>(ip, ports, route). io_lift (service_endpoint args ip 62601 ports route False))"

text \<open>The watcher is optional: the endpoint is \<open>None\<close> when it could not be started.\<close>

definition start_engine_infrastructure ::
    "'w container_ops \<Rightarrow> bool \<Rightarrow> image_args \<Rightarrow> endpoint_args \<Rightarrow> ('w, (string \<times> int) option) io" where
  "start_engine_infrastructure ops node images args =
     (if \<not> node then io_raise (Exn KRuntimeError ''Bitcoin node is not initialized'')
      else io_seq (start_irc_server ops images)
        (io_catch (io_bind (start_orderbook_watch ops images args) (\<lambda>e. io_ret (Some e)))
           is_exception (\<lambda>_. io_ret None)))"

text \<open>\<open>backoff.on_exception(backoff.expo, Exception, max_tries=5)\<close>: up to five calls with a pause between.\<close>

fun with_backoff :: "nat \<Rightarrow> ('w \<Rightarrow> 'w) \<Rightarrow> ('w, 'a) io \<Rightarrow> ('w, 'a) io" where
  "with_backoff 0 pause m = m"
| "with_backoff (Suc n) pause m =
     io_catch m is_exception (\<lambda>_ w. with_backoff n pause m (pause w))"

definition ensure_client_session :: "'w container_ops \<Rightarrow> ('w \<Rightarrow> 'w) \<Rightarrow> string \<Rightarrow> int \<Rightarrow> ('w, unit) io" where
  "ensure_client_session ops pause host port =
     with_backoff 4 pause
       (io_bind (co_probe ops host port) (\<lambda>ok.
          if ok then io_ret () else io_raise (Exn KException ''Could not start distributor'')))"

definition init_joinmarket_clientserver ::
    "'w container_ops \<Rightarrow> ('w \<Rightarrow> 'w) \<Rightarrow> string \<Rightarrow> int \<Rightarrow> ('w, string \<times> int) io" where
  "init_joinmarket_clientserver ops pause host port =
     io_seq (ensure_client_session ops pause host port)
       (io_bind (co_wait_wallet ops host port) (\<lambda>ok.
          if ok then io_ret (host, port) else io_raise (Exn KException ''Could not start distributor'')))"

definition start_distributor ::
    "'w container_ops \<Rightarrow> ('w \<Rightarrow> 'w) \<Rightarrow> bool \<Rightarrow> image_args \<Rightarrow> endpoint_args \<Rightarrow> ('w, string \<times> int) io" where
  "start_distributor ops pause node images args =
     io_bind (create_core_wallet ops node ''joinmarket-distributor'') (\<lambda>core_wallet.
     io_bind (io_catch
         (co_run ops \<lparr>cr_name = ''joinmarket-distributor'',
            cr_image = image_ref images ''joinmarket-client-server'',
            cr_env = joinmarket_container_env core_wallet, cr_ports = [(28183, 28183)], cr_cpu = 1,
            cr_memory = 1024, cr_service_account = ''joinmarket'', cr_run_as = (None, None), cr_proxy = []\<rparr>)
         is_exception (\<lambda>_. io_raise (Exn KException ''Could not start distributor'')))
       (\<lambda>(ip, ports, route).
          io_bind (io_lift (service_endpoint args ip 28183 ports route True)) (\<lambda>(host, port).
            init_joinmarket_clientserver ops pause host port)))"

text \<open>
  \<open>None\<close> is a client whose container did not start or whose wallet daemon was not ready within the
  120 seconds of \<open>from_wallet\<close>. The client's state is \<open>from_wallet\<close>'s.
\<close>

definition start_client ::
    "'w container_ops \<Rightarrow> bool \<Rightarrow> image_args \<Rightarrow> endpoint_args \<Rightarrow> (json \<Rightarrow> string) \<Rightarrow> string \<Rightarrow> nat \<Rightarrow> wallet_config
       \<Rightarrow> ('w, ((string \<times> int) \<times> client_kind \<times> jm_client) option) io" where
  "start_client ops node images args str suffix idx wallet =
     (let name = client_name idx; port = client_port idx in
      io_bind (create_core_wallet ops node name) (\<lambda>core_wallet.
      io_bind (io_catch
          (io_bind (co_run ops \<lparr>cr_name = name, cr_image = image_ref images ''joinmarket-client-server'',
             cr_env = joinmarket_container_env core_wallet, cr_ports = [(28183, port)], cr_cpu = 5 / 100,
             cr_memory = 64, cr_service_account = ''joinmarket'', cr_run_as = (Some 1000, Some 1000),
             cr_proxy = ea_proxy args\<rparr>) (\<lambda>e. io_ret (Some e)))
          is_exception (\<lambda>_. io_ret None)) (\<lambda>started.
        case started of
          None \<Rightarrow> io_ret None
        | Some (ip, ports, route) \<Rightarrow>
            io_bind (io_lift (service_endpoint args ip 28183 (if ports = [] then [(28183, port)] else ports) route True))
              (\<lambda>endpoint w.
                 io_bind (io_lift (client_for_wallet str suffix name wallet)) (\<lambda>client.
                 io_bind (co_wait_wallet ops (fst endpoint) (snd endpoint)) (\<lambda>ready.
                   io_ret (if ready then Some (endpoint, client) else None))) (co_sleep ops 30 w)))))"

definition stop_client :: "'w container_ops \<Rightarrow> nat \<Rightarrow> ('w, unit) io" where
  "stop_client ops idx = io_catch (co_stop ops (client_name idx)) is_exception (\<lambda>_. io_ret ())"

definition jm_validate_clients :: "exn + unit \<Rightarrow> jm_client list \<Rightarrow> exn + unit" where
  "jm_validate_clients base clients =
     ebind base (\<lambda>_.
       if ''taker'' \<notin> cl_type ` set clients
       then Inl (Exn KRuntimeError ''JoinMarket scenario requires at least one started taker client'')
       else if ''maker'' \<notin> cl_type ` set clients
       then Inl (Exn KRuntimeError ''JoinMarket scenario requires at least one started maker client'')
       else Inr ())"

section \<open>The engine's state\<close>

record jm_engine =
  eg_rounds :: int
  eg_blocks :: int
  eg_async :: bool
  eg_block :: int
  eg_round :: int
  eg_scan :: int
  eg_clients :: "(client_kind \<times> jm_client) list"
  eg_invoices :: invoices
  eg_spends :: "postmix_spend list option"
  eg_obwatch :: bool
  eg_missing_logged :: bool
  eg_last_check :: rat

text \<open>
  The calls of the loop. A postmix spend also reaches the clients (their session tokens), so its
  world is the pair. A distributor that was never started is \<open>None\<close>.
\<close>

record 'w engine_ops =
  eo_node :: bool
  eo_source :: "'w \<Rightarrow> block_source"
  eo_height :: "('w, int) io"
  eo_mine :: "int \<Rightarrow> ('w, bool) io"
  eo_env :: "nat \<Rightarrow> 'w jm_env"
  eo_send :: "(invoice list \<Rightarrow> ('w, json) io) option"
  eo_spend :: "('w \<times> (client_kind \<times> jm_client) list) spend_ops"
  eo_obwatch :: "int \<Rightarrow> int \<Rightarrow> ('w, int) io"
  eo_resources :: "('w, unit) io"
  eo_clock :: "'w \<Rightarrow> rat"
  eo_sleep :: "rat \<Rightarrow> 'w \<Rightarrow> 'w"

type_synonym ('w, 'a) engine_io = "('w \<times> jm_engine, 'a) io"

definition set_engine :: "(jm_engine \<Rightarrow> jm_engine) \<Rightarrow> ('w, unit) engine_io" where
  "set_engine f = (\<lambda>(w, en). (Inr (), (w, f en)))"

definition with_engine :: "(jm_engine \<Rightarrow> ('w, 'a) engine_io) \<Rightarrow> ('w, 'a) engine_io" where
  "with_engine f = (\<lambda>(w, en). f en (w, en))"

definition world_call :: "('w, 'a) io \<Rightarrow> ('w, 'a) engine_io" where
  "world_call m = (\<lambda>(w, en). case m w of (r, w') \<Rightarrow> (r, (w', en)))"

definition pause_engine :: "'w engine_ops \<Rightarrow> rat \<Rightarrow> ('w, unit) engine_io" where
  "pause_engine ops d = (\<lambda>(w, en). (Inr (), (eo_sleep ops d w, en)))"

text \<open>\<open>try: ... except Exception as e: print(...)\<close>\<close>

definition safely :: "('s, unit) io \<Rightarrow> ('s, unit) io" where
  "safely m = io_catch m is_exception (\<lambda>_. io_ret ())"

section \<open>Rounds\<close>

definition client_events :: "(client_kind \<times> jm_client) list \<Rightarrow> round_event list list" where
  "client_events clients = map (\<lambda>(k, c). cl_events c) clients"

definition live_round_events :: "jm_engine \<Rightarrow> round_event list" where
  "live_round_events en = concat (client_events (eg_clients en))"

definition exported_round_events :: "jm_engine \<Rightarrow> round_event list" where
  "exported_round_events en = collect_round_events (client_events (eg_clients en))"

text \<open>The events are shared with the clients: a change of the flat list goes back to its client.\<close>

fun give_back :: "(client_kind \<times> jm_client) list \<Rightarrow> round_event list \<Rightarrow> (client_kind \<times> jm_client) list" where
  "give_back [] es = []"
| "give_back ((k, c) # clients) es =
     (let n = length (cl_events c) in (k, c\<lparr>cl_events := take n es\<rparr>) # give_back clients (drop n es))"

definition set_live_events :: "round_event list \<Rightarrow> jm_engine \<Rightarrow> jm_engine" where
  "set_live_events es en = en\<lparr>eg_clients := give_back (eg_clients en) es\<rparr>"

definition confirm_started_rounds :: "'w engine_ops \<Rightarrow> ('w, int) engine_io" where
  "confirm_started_rounds ops = (\<lambda>(w, en).
     if \<not> eo_node ops then (Inr 0, (w, en))
     else (case confirm_rounds_in_blocks (live_round_events en) (eo_source ops w) (eg_scan en) of
             (Inl e, es) \<Rightarrow> (Inl e, (w, set_live_events es en))
           | (Inr tip, es) \<Rightarrow>
               (let n = int (count_confirmed_rounds es)
                in (Inr n, (w, (set_live_events es en)\<lparr>eg_scan := tip, eg_round := n\<rparr>)))))"

definition confirmed_coinjoin_txids :: "jm_engine \<Rightarrow> string set" where
  "confirmed_coinjoin_txids en =
     set (List.map_filter (\<lambda>e. fst (confirmed_destination_txid e)) (live_round_events en))"

definition round_limit_reached :: "jm_engine \<Rightarrow> bool" where
  "round_limit_reached en = (0 < eg_rounds en \<and> eg_rounds en \<le> eg_round en)"

definition mark_taker_round_failed :: "string \<Rightarrow> string \<Rightarrow> jm_engine \<Rightarrow> jm_engine" where
  "mark_taker_round_failed taker reason en =
     set_live_events (snd (mark_latest_started_round_failed (live_round_events en) taker reason (eg_block en))) en"

definition unlabelled_takers :: "jm_engine \<Rightarrow> string list" where
  "unlabelled_takers en =
     map (\<lambda>(k, c). cl_name c) (filter (\<lambda>(k, c). cl_tumbler c \<noteq> None \<and> cl_events c = []) (eg_clients en))"

text \<open>The exported block files in the order of \<open>sorted(os.listdir(...))\<close>, each an error or a block.\<close>

definition match_joinmarket_rounds_to_blocks :: "jm_engine \<Rightarrow> dict list \<Rightarrow> exn + round_event list" where
  "match_joinmarket_rounds_to_blocks en exported =
     match_round_events_to_blocks (exported_round_events en) exported"

definition store_round_events :: "jm_engine \<Rightarrow> dict list \<Rightarrow> exn + round_event list \<times> label_evidence" where
  "store_round_events en exported =
     ebind (match_joinmarket_rounds_to_blocks en exported) (\<lambda>labels.
       Inr (labels, producer_label_evidence labels (unlabelled_takers en)))"

section \<open>Updating the clients\<close>

definition client_update :: "client_kind \<Rightarrow> 'w jm_env \<Rightarrow> int \<Rightarrow> int \<Rightarrow> ('w, int) client_io" where
  "client_update k env block rnd =
     (case k of MakerKind \<Rightarrow> maker_update env block rnd
      | TakerKind \<Rightarrow> taker_update env block rnd
      | TumblerKind \<Rightarrow> tumbler_update env block rnd)"

definition client_update_async :: "client_kind \<Rightarrow> 'w jm_env \<Rightarrow> int \<Rightarrow> int \<Rightarrow> ('w, int) client_io" where
  "client_update_async k env block rnd =
     (case k of MakerKind \<Rightarrow> maker_update_async env block rnd
      | TakerKind \<Rightarrow> taker_update_async env block rnd
      | TumblerKind \<Rightarrow> tumbler_update_async env block rnd)"

text \<open>The client at a position runs a call; its new state replaces the old one.\<close>

definition at_client :: "nat \<Rightarrow> (client_kind \<Rightarrow> ('w, 'a) client_io) \<Rightarrow> ('w, 'a) engine_io" where
  "at_client i m = (\<lambda>(w, en).
     case eg_clients en ! i of (k, c) \<Rightarrow>
       (case m k (w, c) of (r, (w', c')) \<Rightarrow> (r, (w', en\<lparr>eg_clients := (eg_clients en)[i := (k, c')]\<rparr>))))"

definition attempt_timed_out :: "string" where
  "attempt_timed_out = ''coinjoin attempt timed out''"

definition note_timeout :: "nat \<Rightarrow> int \<Rightarrow> ('w, unit) engine_io" where
  "note_timeout i delta = with_engine (\<lambda>en.
     if delta < 0 then set_engine (mark_taker_round_failed (cl_name (snd (eg_clients en ! i))) attempt_timed_out)
     else io_ret ())"

definition note_missing_obwatch :: "jm_engine \<Rightarrow> jm_engine" where
  "note_missing_obwatch en = en\<lparr>eg_missing_logged := True\<rparr>"

definition update_obwatch :: "'w engine_ops \<Rightarrow> ('w, unit) engine_io" where
  "update_obwatch ops = with_engine (\<lambda>en.
     if eg_obwatch en
     then safely (world_call (io_seq (eo_obwatch ops (eg_block en) (eg_round en)) (io_ret ())))
     else set_engine note_missing_obwatch)"

definition update_client_sync :: "'w engine_ops \<Rightarrow> nat \<Rightarrow> ('w, unit) engine_io" where
  "update_client_sync ops i = with_engine (\<lambda>en. safely
     (io_bind (at_client i (\<lambda>k. client_update k (eo_env ops i) (eg_block en) (eg_round en))) (note_timeout i)))"

definition update_coinjoins_joinmarket :: "'w engine_ops \<Rightarrow> ('w, unit) engine_io" where
  "update_coinjoins_joinmarket ops =
     io_seq (confirm_started_rounds ops)
       (with_engine (\<lambda>en. if round_limit_reached en then io_ret ()
          else io_seq (io_for (update_client_sync ops) [0..<length (eg_clients en)]) (update_obwatch ops)))"

definition update_client_async :: "'w engine_ops \<Rightarrow> nat \<Rightarrow> ('w, int) engine_io" where
  "update_client_async ops i = with_engine (\<lambda>en. io_catch
     (at_client i (\<lambda>k. client_update_async k (eo_env ops i) (eg_block en) (eg_round en)))
     is_exception (\<lambda>_. io_ret 0))"

definition update_coinjoins_joinmarket_async :: "'w engine_ops \<Rightarrow> ('w, unit) engine_io" where
  "update_coinjoins_joinmarket_async ops =
     io_seq (confirm_started_rounds ops)
       (with_engine (\<lambda>en. if round_limit_reached en then io_ret ()
          else io_bind (io_traverse (update_client_async ops) [0..<length (eg_clients en)]) (\<lambda>results.
               io_seq (update_obwatch ops)
                 (io_for (\<lambda>(i, r). note_timeout i r) (enumerate 0 results)))))"

section \<open>The loop\<close>

definition update_payments :: "'w engine_ops \<Rightarrow> ('w, unit) engine_io" where
  "update_payments ops = (\<lambda>(w, en).
     case update_invoice_payments (eo_send ops) (eg_block en) (eg_round en) (eg_invoices en) w of
       (r, invs, w') \<Rightarrow> (r, (w', en\<lparr>eg_invoices := invs\<rparr>)))"

definition prepare_wallet_schedules :: "wallet_config list \<Rightarrow> jm_engine \<Rightarrow> jm_engine" where
  "prepare_wallet_schedules wallets en =
     en\<lparr>eg_spends := Some (schedule (map (\<lambda>(k, c). cl_name c) (eg_clients en)) wallets ''joinmarket'')\<rparr>"

definition update_postmix_spends :: "'w engine_ops \<Rightarrow> ('w, unit) engine_io" where
  "update_postmix_spends ops = (\<lambda>(w, en).
     case eg_spends en of
       None \<Rightarrow> (Inr (), (w, en))
     | Some sps \<Rightarrow>
         if sps = [] then (Inr (), (w, en))
         else if \<not> eo_node ops then (Inl (Exn KRuntimeError ''Bitcoin node is not initialized''), (w, en))
         else (case update_spends (eo_spend ops) (eg_block en) (eg_round en) sps (w, eg_clients en) of
                 (x, sps', (w', clients)) \<Rightarrow>
                   (case x of None \<Rightarrow> Inr () | Some e \<Rightarrow> Inl e,
                    (w', en\<lparr>eg_spends := Some sps', eg_clients := clients\<rparr>))))"

fun refresh_block :: "nat \<Rightarrow> 'w engine_ops \<Rightarrow> int \<Rightarrow> ('w, unit) engine_io" where
  "refresh_block 0 ops initial_block = io_ret ()"
| "refresh_block (Suc n) ops initial_block =
     io_catch
       (io_bind (world_call (eo_height ops)) (\<lambda>h. set_engine (\<lambda>en. en\<lparr>eg_block := h - initial_block\<rparr>)))
       is_exception (\<lambda>_. refresh_block n ops initial_block)"

definition check_resources :: "'w engine_ops \<Rightarrow> ('w, unit) engine_io" where
  "check_resources ops = (\<lambda>(w, en).
     let current_time = eo_clock ops w in
     if 300 < current_time - eg_last_check en
     then safely (io_seq (world_call (eo_resources ops)) (set_engine (\<lambda>en. en\<lparr>eg_last_check := current_time\<rparr>))) (w, en)
     else (Inr (), (w, en)))"

definition update_coinjoins :: "'w engine_ops \<Rightarrow> ('w, unit) engine_io" where
  "update_coinjoins ops = with_engine (\<lambda>en.
     if eg_async en then update_coinjoins_joinmarket_async ops else update_coinjoins_joinmarket ops)"

definition engine_turn :: "'w engine_ops \<Rightarrow> int \<Rightarrow> ('w, unit) engine_io" where
  "engine_turn ops initial_block =
     io_seq (refresh_block 3 ops initial_block)
     (io_seq (check_resources ops)
     (io_seq (safely (update_payments ops))
     (io_seq (safely (update_postmix_spends ops))
     (io_seq (safely (update_coinjoins ops)) (pause_engine ops 30)))))"

definition engine_goes_on :: "jm_engine \<Rightarrow> bool" where
  "engine_goes_on en =
     ((eg_rounds en = 0 \<or> eg_round en < eg_rounds en) \<and> (eg_blocks en = 0 \<or> eg_block en < eg_blocks en))"

fun engine_loop :: "nat \<Rightarrow> 'w engine_ops \<Rightarrow> int \<Rightarrow> ('w, unit) engine_io" where
  "engine_loop 0 ops initial_block = with_engine (\<lambda>en. if engine_goes_on en then diverge else io_ret ())"
| "engine_loop (Suc n) ops initial_block = with_engine (\<lambda>en.
     if engine_goes_on en then io_seq (engine_turn ops initial_block) (engine_loop n ops initial_block)
     else io_ret ())"

definition WARMUP_BLOCKS :: nat where "WARMUP_BLOCKS = 5"

definition start_block_clock :: "'w engine_ops \<Rightarrow> ('w, int) engine_io" where
  "start_block_clock ops =
     (if \<not> eo_node ops then io_raise (Exn KRuntimeError ''Bitcoin node is not initialized'')
      else io_seq (io_for (\<lambda>_. world_call (eo_mine ops 1)) [0..<WARMUP_BLOCKS])
        (io_catch (world_call (eo_height ops)) is_exception (\<lambda>_. io_ret 0)))"

definition run_engine :: "nat \<Rightarrow> 'w engine_ops \<Rightarrow> ('w, unit) engine_io" where
  "run_engine fuel ops =
     (if \<not> eo_node ops then io_raise (Exn KRuntimeError ''Bitcoin node is not initialized'')
      else io_bind (start_block_clock ops) (\<lambda>initial_block.
        io_seq (engine_loop fuel ops initial_block)
        (io_seq (pause_engine ops 60)
        (io_seq (world_call (eo_mine ops 3)) (io_ret ())))))"

section \<open>Fidelity bonds\<close>

text \<open>A created bond: the position of its client, its address and its amount.\<close>

type_synonym new_bond = "nat \<times> string \<times> int"

definition bond_config :: "wallet_config \<Rightarrow> exn + dict" where
  "bond_config w =
     (case py_or (case w_joinmarket w of None \<Rightarrow> JNull | Some c \<Rightarrow> jc_fidelity_bond c) (JDict []) of
        JDict d \<Rightarrow> Inr d
      | _ \<Rightarrow> Inl (Exn KAttributeError ''get''))"

text \<open>Amounts are whole satoshis; any other kind of amount is refused here.\<close>

definition create_bond :: "'w engine_ops \<Rightarrow> nat \<Rightarrow> wallet_config \<Rightarrow> ('w, new_bond option) engine_io" where
  "create_bond ops i w = with_engine (\<lambda>en.
     io_bind (io_lift (bond_config w)) (\<lambda>bond.
       let amount = dget_default bond ''amount'' (JInt 50000); locktime = dget bond ''locktime'' in
       if \<not> truthy (dget_default bond ''enabled'' (JBool False)) then io_ret None
       else if \<not> truthy locktime then io_ret None
       else io_catch
         (case int_of amount of
            None \<Rightarrow> io_raise (Exn KTypeError ''amount'')
          | Some sats \<Rightarrow>
              io_bind (at_client i (\<lambda>k. create_fidelity_bond (je_rpc (eo_env ops i)) (je_str (eo_env ops i)) sats
                  locktime (eg_block en)))
                (\<lambda>address. io_ret (Some (i, address, sats))))
         is_exception
         (\<lambda>e. io_raise (Exn KException (''Failed to create fidelity bond for ''
            @ cl_name (snd (eg_clients en ! i)) @ '': '' @ exn_msg e)))))"

definition pay_bonds :: "'w engine_ops \<Rightarrow> new_bond list \<Rightarrow> ('w, unit) engine_io" where
  "pay_bonds ops bonds = (\<lambda>(w, en).
     case pay_invoices (eo_send ops) (map (\<lambda>(i, a, v). (JStr a, JInt v)) bonds) w of
       (r, rest, w') \<Rightarrow> (r, (w', en)))"

definition mark_bonds :: "new_bond list \<Rightarrow> jm_engine \<Rightarrow> jm_engine" where
  "mark_bonds bonds en =
     en\<lparr>eg_clients := fold (\<lambda>(i, a, v) cs. cs[i := (fst (cs ! i), mark_bond_funded a (snd (cs ! i)))]) bonds (eg_clients en)\<rparr>"

definition prepare_additional_funding :: "'w engine_ops \<Rightarrow> wallet_config list \<Rightarrow> ('w, unit) engine_io" where
  "prepare_additional_funding ops wallets = with_engine (\<lambda>en.
     io_bind (io_traverse (\<lambda>(i, w). create_bond ops i w) (enumerate 0 (take (length (eg_clients en)) wallets)))
       (\<lambda>created.
          let bonds = List.map_filter (\<lambda>b. b) created in
          if bonds = [] then io_ret ()
          else io_catch
            (io_seq (pay_bonds ops bonds)
            (io_seq (set_engine (mark_bonds bonds))
              (if \<not> eo_node ops then io_raise (Exn KRuntimeError ''Bitcoin node is not initialized'')
               else io_for (\<lambda>_. io_seq (world_call (eo_mine ops 1)) (io_ret ())) [0..<15])))
            is_exception
            (\<lambda>e. io_raise (Exn KException (''Failed to fund fidelity bonds: '' @ exn_msg e)))))"

end
