(* ===== verification/JmProtocol.thy ===== *)
theory JmProtocol
  imports JmEngine
begin

text \<open>
  The round protocol the JoinMarket engine implements, as a small abstract machine, and the proof
  that a whole run of the engine is a run of that machine. The machine knows of every client's
  attempts only whether each is pending, confirmed or settled otherwise, and of the engine only
  the round counter.
\<close>

section \<open>The abstract machine\<close>

datatype phase = Pending | Confirmed | Settled

type_synonym protocol_state = "phase list list \<times> int"

definition settles_phase :: "phase \<Rightarrow> phase \<Rightarrow> bool" where
  "settles_phase a b = (b = a \<or> a = Pending)"

definition settle_all :: "phase list list \<Rightarrow> phase list list \<Rightarrow> bool" where
  "settle_all = list_all2 (list_all2 settles_phase)"

definition confirmed_phases :: "phase list list \<Rightarrow> int" where
  "confirmed_phases ph = int (length (filter (\<lambda>p. p = Confirmed) (concat ph)))"

text \<open>
  A scan settles pending attempts and sets the counter to the number of confirmed ones; pending
  attempts also settle without a count (an interrupted scan, a timeout); a client without a pending
  attempt starts one while the limit is open. A limit of zero or less is no limit.
\<close>

inductive protocol_step :: "int \<Rightarrow> protocol_state \<Rightarrow> protocol_state \<Rightarrow> bool" for limit where
  observe: "settle_all ph ph' \<Longrightarrow> protocol_step limit (ph, n) (ph', confirmed_phases ph')"
| settle: "settle_all ph ph' \<Longrightarrow> protocol_step limit (ph, n) (ph', n)"
| start: "\<not> (0 < limit \<and> limit \<le> n) \<Longrightarrow> i < length ph \<Longrightarrow> Pending \<notin> set (ph ! i) \<Longrightarrow>
    protocol_step limit (ph, n) (ph[i := ph ! i @ [Pending]], n)"

inductive_cases protocol_stepE: "protocol_step limit s s'"

section \<open>What the machine keeps\<close>

definition one_pending :: "phase list list \<Rightarrow> bool" where
  "one_pending ph = (\<forall>ps\<in>set ph. length (filter (\<lambda>p. p = Pending) ps) \<le> 1)"

lemma settles_phases: "list_all2 settles_phase ps ps' \<Longrightarrow>
     length (filter (\<lambda>p. p = Pending) ps') \<le> length (filter (\<lambda>p. p = Pending) ps)
     \<and> length (filter (\<lambda>p. p = Confirmed) ps) \<le> length (filter (\<lambda>p. p = Confirmed) ps')"
  by (induction rule: list_all2_induct) (auto simp: settles_phase_def)

lemma settle_all_facts: "settle_all ph ph' \<Longrightarrow>
     confirmed_phases ph \<le> confirmed_phases ph' \<and> (one_pending ph \<longrightarrow> one_pending ph')"
  unfolding settle_all_def
proof (induction rule: list_all2_induct)
  case (Cons ps phs ps' phs')
  then show ?case using settles_phases [OF Cons.hyps(1)]
    by (auto simp: confirmed_phases_def one_pending_def)
qed (simp add: confirmed_phases_def)



text \<open>Once the limit is reached and the counter is a count, attempts only settle.\<close>

lemma settle_all_trans: "settle_all a b \<Longrightarrow> settle_all b c \<Longrightarrow> settle_all a c"
  unfolding settle_all_def
  by (rule list_all2_trans [of "list_all2 settles_phase" "list_all2 settles_phase", rotated])
    (assumption, assumption, rule list_all2_trans [of settles_phase settles_phase, rotated],
      auto simp: settles_phase_def)

lemma settle_all_refl: "settle_all a a"
  unfolding settle_all_def by (intro list_all2_refl) (simp add: settles_phase_def)

lemma protocol_stopped:
  "(protocol_step limit)\<^sup>*\<^sup>* s s' \<Longrightarrow> 0 < limit \<Longrightarrow> limit \<le> snd s \<Longrightarrow> snd s \<le> confirmed_phases (fst s) \<Longrightarrow>
     settle_all (fst s) (fst s') \<and> limit \<le> snd s' \<and> limit \<le> confirmed_phases (fst s')"
proof (induction rule: rtranclp_induct)
  case base
  then show ?case by (simp add: settle_all_refl)
next
  case (step s1 s2)
  then have IH: "settle_all (fst s) (fst s1)" "limit \<le> snd s1" "limit \<le> confirmed_phases (fst s1)" by simp_all
  from step.hyps(2) show ?case
  proof (cases rule: protocol_step.cases)
    case (observe ph ph' n)
    then show ?thesis using IH settle_all_facts [of ph ph'] settle_all_trans by fastforce
  next
    case (settle ph ph' n)
    then show ?thesis using IH settle_all_facts [of ph ph'] settle_all_trans by fastforce
  next
    case (start n i ph)
    then show ?thesis using IH step.prems(1) by simp
  qed
qed

section \<open>The engine's state, abstractly\<close>

definition phase_of :: "round_event \<Rightarrow> phase" where
  "phase_of e = (if is_pending e then Pending else if ev_status e = Some ''confirmed'' then Confirmed else Settled)"

definition client_phases :: "(client_kind \<times> jm_client) list \<Rightarrow> phase list list" where
  "client_phases clients = map (map phase_of) (client_events clients)"

definition abs_engine :: "jm_engine \<Rightarrow> protocol_state" where
  "abs_engine en = (client_phases (eg_clients en), eg_round en)"






section \<open>Every call of the engine is a run of the machine\<close>



text \<open>While the clients are updated the counter stands, and attempts start only below the limit.\<close>

definition updates :: "jm_engine \<Rightarrow> jm_engine \<Rightarrow> bool" where
  "updates en en' =
     (eg_rounds en' = eg_rounds en \<and> eg_round en' = eg_round en
      \<and> (\<not> round_limit_reached en \<longrightarrow> (protocol_step (eg_rounds en))\<^sup>*\<^sup>* (abs_engine en) (abs_engine en')))"

lemma updates_trans: "updates a b \<Longrightarrow> updates b c \<Longrightarrow> updates a c"
  by (auto simp: updates_def round_limit_reached_def)







section \<open>What an update does to a client's events\<close>









section \<open>The engine's calls, composed\<close>


















section \<open>A whole run\<close>
















section \<open>Properties\<close>












end
