(* ===== verification/RunStore.thy ===== *)
theory RunStore
  imports Config RoundEvents Kept
begin

text \<open>
  What a run leaves behind: the producer-label manifest of \<open>manager/engine/base/manifest.py\<close> and the
  order in which \<open>EngineBase.store_logs\<close> writes the scenario, the engine's own data, the blocks, the
  engine's and the clients' logs, the manager's log and the archive. Files, node and driver are the
  world \<open>'w\<close> of the calls in \<open>store_ops\<close>.
\<close>

section \<open>The manifest\<close>

text \<open>
  The file system as the manifest reads it: \<open>realpath\<close> gives an absolute path, a regular
  file has contents, and \<open>sha256\<close> is the digest of the hash library.
\<close>

record manifest_fs =
  mf_realpath :: "string \<Rightarrow> string"
  mf_file :: "string \<Rightarrow> string option"
  mf_sha256 :: "string \<Rightarrow> string"

record evidence =
  ev_engine :: string
  ev_complete :: bool
  ev_sources :: "string list"
  ev_reason :: "string option"
  ev_rule :: json
  ev_count :: json

record manifest_source =
  ms_path :: string
  ms_size :: nat
  ms_sha :: string

record manifest =
  mn_engine :: string
  mn_complete :: bool
  mn_reason :: "string option"
  mn_rule :: json
  mn_count :: json
  mn_sources :: "manifest_source list"

definition unknown_evidence :: evidence where
  "unknown_evidence = \<lparr>ev_engine = ''unknown'', ev_complete = False, ev_sources = [], ev_reason = None,
     ev_rule = JNull, ev_count = JNull\<rparr>"

definition path_parts :: "string \<Rightarrow> string list" where
  "path_parts p = filter (\<lambda>c. c \<noteq> []) (split_on (CHR ''/'') p)"

definition or_reason :: "string option \<Rightarrow> string \<Rightarrow> string option" where
  "or_reason r s = (case r of None \<Rightarrow> Some s | Some t \<Rightarrow> if t = [] then Some s else r)"

text \<open>A source inside the data directory that is a regular file, else nothing.\<close>

definition source_record :: "manifest_fs \<Rightarrow> string \<Rightarrow> string \<Rightarrow> manifest_source option" where
  "source_record fs data_path name =
     (let data_root = mf_realpath fs data_path;
          path = mf_realpath fs (path_join data_root name)
      in if \<not> starts_with (path_parts data_root) (path_parts path) then None
         else (case mf_file fs path of
                 None \<Rightarrow> None
               | Some bytes \<Rightarrow> Some \<lparr>ms_path = join_with ''/'' (drop (length (path_parts data_root)) (path_parts path)),
                   ms_size = length bytes, ms_sha = mf_sha256 fs bytes\<rparr>))"

fun collect_sources ::
    "manifest_fs \<Rightarrow> string \<Rightarrow> string list \<Rightarrow> bool \<times> string option \<Rightarrow> (bool \<times> string option) \<times> manifest_source list" where
  "collect_sources fs data_path [] st = (st, [])"
| "collect_sources fs data_path (name # names) (ok, reason) =
     (if name = []
      then collect_sources fs data_path names (False, or_reason reason ''producer-label source path is invalid'')
      else (case source_record fs data_path name of
              None \<Rightarrow> collect_sources fs data_path names
                        (False, or_reason reason (''producer-label source is missing: '' @ name))
            | Some r \<Rightarrow> (case collect_sources fs data_path names (ok, reason) of
                          (st, rs) \<Rightarrow> (st, r # rs))))"

definition producer_label_manifest :: "manifest_fs \<Rightarrow> string \<Rightarrow> evidence option \<Rightarrow> manifest" where
  "producer_label_manifest fs data_path evidence =
     (let e = (case evidence of None \<Rightarrow> unknown_evidence | Some e \<Rightarrow> e)
      in case collect_sources fs data_path (ev_sources e) (ev_complete e, ev_reason e) of
           ((ok, reason), records) \<Rightarrow>
             (let none_left = (ok \<and> records = []);
                  complete' = (ok \<and> \<not> none_left);
                  reason' = (if none_left then or_reason reason ''producer-label capture produced no source files'' else reason)
              in \<lparr>mn_engine = ev_engine e, mn_complete = complete',
                  mn_reason = (if complete' then None else or_reason reason' ''producer-label capture was incomplete''),
                  mn_rule = ev_rule e, mn_count = ev_count e, mn_sources = records\<rparr>))"

section \<open>Storing a run\<close>

datatype stored =
    DataDirectories | ScenarioFile | EngineData | NodeDirectory | BlockFile int | EngineLogs
  | LabelManifest | ClientFile nat string | ClientLogs nat | ManagerLog | Archive

text \<open>
  Each call writes one thing, or raises. \<open>so_has_bonds\<close> tells a client that exports fidelity bonds,
  \<open>so_run_log\<close> a run whose console output is captured.
\<close>

record 'w store_ops =
  so_store :: "stored \<Rightarrow> ('w, unit) io"
  so_node :: bool
  so_height :: "('w, int) io"
  so_clients :: nat
  so_has_bonds :: "nat \<Rightarrow> bool"
  so_run_log :: bool

definition client_files :: "bool \<Rightarrow> string list" where
  "client_files bonds =
     [''coins.json'', ''unspent_coins.json'', ''keys.json''] @ (if bonds then [''fidelity_bonds.json''] else [])
     @ [''history.json'']"

definition store_client_logs :: "'w store_ops \<Rightarrow> nat \<Rightarrow> ('w, unit) io" where
  "store_client_logs ops i =
     io_seq (io_for (\<lambda>f. so_store ops (ClientFile i f)) (client_files (so_has_bonds ops i)))
       (io_catch (so_store ops (ClientLogs i)) is_exception (\<lambda>_. io_ret ()))"

definition store_blocks :: "'w store_ops \<Rightarrow> ('w, unit) io" where
  "store_blocks ops =
     io_bind (io_catch (io_bind (so_height ops) (\<lambda>h. io_ret (Some h)))
         (\<lambda>e. exn_class e \<in> {KTypeError, KRpcError}) (\<lambda>_. io_ret None))
       (\<lambda>h. case h of
          None \<Rightarrow> io_ret ()
        | Some tip \<Rightarrow> io_for (\<lambda>b. so_store ops (BlockFile b)) [0..tip])"

definition store_run :: "'w store_ops \<Rightarrow> ('w, unit) io" where
  "store_run ops =
     io_seq (so_store ops ScenarioFile)
     (io_seq (so_store ops EngineData)
     (io_seq (so_store ops NodeDirectory)
     (io_seq (if so_node ops then io_ret () else io_raise (Exn KRuntimeError ''Bitcoin node is not initialized''))
     (io_seq (store_blocks ops)
     (io_seq (so_store ops EngineLogs)
     (io_seq (so_store ops LabelManifest)
       (io_pool (store_client_logs ops) [0..<so_clients ops])))))))"

definition store_logs :: "'w store_ops \<Rightarrow> ('w, unit) io" where
  "store_logs ops =
     io_seq (so_store ops DataDirectories)
     (io_seq (io_finally (store_run ops) (if so_run_log ops then so_store ops ManagerLog else io_ret ()))
       (so_store ops Archive))"

text \<open>The scenario as it is stored is the one that was run.\<close>

definition log_run_path :: "string \<Rightarrow> string \<Rightarrow> string \<Rightarrow> string" where
  "log_run_path run_id timestamp scenario_name =
     (if run_id \<noteq> [] then ''./logs/'' @ run_id else ''./logs/'' @ timestamp @ ''_'' @ scenario_name)"

definition ensure_log_run_path_available :: "(string \<Rightarrow> bool) \<Rightarrow> string \<Rightarrow> exn + unit" where
  "ensure_log_run_path_available exists run_path =
     (if exists (path_join run_path ''coinjoin_emulator_data'')
      then Inl (Exn KRuntimeError (''Run log directory already exists: '' @ run_path)) else Inr ())"

section \<open>The manifest is complete only with its sources\<close>

lemma collect_sources_spec:
  "collect_sources fs data_path names (ok, reason) = ((ok', reason'), rs) \<Longrightarrow>
     ok' = (ok \<and> (\<forall>n\<in>set names. n \<noteq> [] \<and> source_record fs data_path n \<noteq> None))
     \<and> rs = List.map_filter (\<lambda>n. if n = [] then None else source_record fs data_path n) names"
proof (induction names arbitrary: ok reason rs)
  case (Cons n names)
  show ?case
  proof (cases "n = [] \<or> source_record fs data_path n = None")
    case True
    then obtain reason1 where "collect_sources fs data_path names (False, reason1) = ((ok', reason'), rs)"
      using Cons.prems by (auto split: if_splits)
    from Cons.IH [OF this] True show ?thesis by (auto simp: map_filter_simps)
  next
    case False
    then obtain r where r: "source_record fs data_path n = Some r" "n \<noteq> []" by blast
    obtain st rs1 where c: "collect_sources fs data_path names (ok, reason) = (st, rs1)" by fastforce
    then have "st = (ok', reason')" "rs = r # rs1" using Cons.prems r by simp_all
    with Cons.IH [OF c [unfolded \<open>st = (ok', reason')\<close>]] r show ?thesis by (simp add: map_filter_simps)
  qed
qed (simp add: map_filter_def)

text \<open>
  The manifest declares the labels complete exactly when the engine did, at least one
  source is named, and every named source is a regular file inside the data directory; it then has
  a record with size and digest of each of them in order and gives no reason, and otherwise it
  gives one.
\<close>

theorem manifest_complete_iff:
  assumes "m = producer_label_manifest fs data_path (Some e)"
  shows "(mn_complete m \<longleftrightarrow> ev_complete e \<and> ev_sources e \<noteq> []
            \<and> (\<forall>n\<in>set (ev_sources e). n \<noteq> [] \<and> source_record fs data_path n \<noteq> None))
    \<and> (mn_complete m \<longrightarrow> map Some (mn_sources m) = map (source_record fs data_path) (ev_sources e))
    \<and> (mn_reason m = None \<longleftrightarrow> mn_complete m)"
proof -
  obtain ok reason rs where c: "collect_sources fs data_path (ev_sources e) (ev_complete e, ev_reason e)
      = ((ok, reason), rs)" by (metis prod.collapse)
  note s = collect_sources_spec [OF c]
  have full: "map Some rs = map (source_record fs data_path) (ev_sources e)" if ok
  proof -
    have ok: "\<forall>n\<in>set (ev_sources e). n \<noteq> [] \<and> source_record fs data_path n \<noteq> None" using s that by simp
    have "map Some (List.map_filter (\<lambda>n. if n = [] then None else source_record fs data_path n) ns)
        = map (source_record fs data_path) ns" if "\<forall>n\<in>set ns. n \<noteq> [] \<and> source_record fs data_path n \<noteq> None" for ns
      using that by (induction ns) (auto simp: map_filter_def)
    then show ?thesis using s ok by simp
  qed
  have "ok \<Longrightarrow> rs = [] \<longleftrightarrow> ev_sources e = []"
    using full by (metis list.map_disc_iff)
  moreover have "mn_complete m \<longleftrightarrow> ok \<and> rs \<noteq> []" "mn_sources m = rs"
    by (auto simp: assms producer_label_manifest_def c Let_def)
  moreover have "mn_reason m = None \<longleftrightarrow> ok \<and> rs \<noteq> []"
    by (auto simp: assms producer_label_manifest_def c Let_def or_reason_def split: option.splits)
  ultimately show ?thesis using s full by blast
qed

definition example_fs :: manifest_fs where
  "example_fs = \<lparr>mf_realpath = (\<lambda>p. if starts_with ''/'' p then p else ''/run/'' @ p),
     mf_file = (\<lambda>p. if p = ''/run/data/events.json'' then Some ''[]'' else None), mf_sha256 = rev\<rparr>"

definition example_evidence :: "string list \<Rightarrow> evidence" where
  "example_evidence sources = \<lparr>ev_engine = ''joinmarket'', ev_complete = True, ev_sources = sources, ev_reason = None,
     ev_rule = JNull, ev_count = JNull\<rparr>"

theorem manifest_complete_iff_witness:
  "mn_complete (producer_label_manifest example_fs ''data'' (Some (example_evidence [''events.json''])))
   \<and> \<not> mn_complete (producer_label_manifest example_fs ''data'' (Some (example_evidence [''events.json'', ''gone''])))"
proof -
  have "source_record example_fs ''data'' ''events.json'' \<noteq> None" "source_record example_fs ''data'' ''gone'' = None"
    by code_simp+
  then show ?thesis
    using manifest_complete_iff [OF refl, of example_fs "''data''" "example_evidence [''events.json'']"]
      manifest_complete_iff [OF refl, of example_fs "''data''" "example_evidence [''events.json'', ''gone'']"]
    by (simp add: example_evidence_def)
qed

section \<open>What is stored, and in which order\<close>

text \<open>A store that notes what was written; a failed write is not noted.\<close>

definition noting_store :: "'w store_ops \<Rightarrow> ('w \<times> stored list) store_ops" where
  "noting_store ops = \<lparr>
     so_store = (\<lambda>x (w, l). case so_store ops x w of
        (Inr u, w') \<Rightarrow> (Inr u, (w', l @ [x])) | (Inl e, w') \<Rightarrow> (Inl e, (w', l))),
     so_node = so_node ops,
     so_height = (\<lambda>(w, l). case so_height ops w of (r, w') \<Rightarrow> (r, (w', l))),
     so_clients = so_clients ops, so_has_bonds = so_has_bonds ops, so_run_log = so_run_log ops\<rparr>"

lemma store_adds: "P x \<Longrightarrow> keeps (adds P) (so_store (noting_store ops) x)"
  by (rule keepsI) (auto simp: noting_store_def adds_def split: prod.splits sum.splits)

lemma height_adds: "keeps (adds P) (so_height (noting_store ops))"
  by (rule keepsI) (auto simp: noting_store_def adding.refl_R split: prod.splits)

definition run_item :: "stored \<Rightarrow> bool" where
  "run_item x = (x \<noteq> DataDirectories \<and> x \<noteq> ManagerLog \<and> x \<noteq> Archive)"

lemma store_run_adds: "keeps (adds run_item) (store_run (noting_store ops))"
  unfolding store_run_def store_blocks_def store_client_logs_def
  by (auto intro!: adding.kept_intros store_adds height_adds split: option.split simp: run_item_def)

lemma noted_store: "so_store (noting_store ops) x (w, l) = (r, (w', l')) \<Longrightarrow>
     l' = (case r of Inl e \<Rightarrow> l | Inr u \<Rightarrow> l @ [x])"
  by (auto simp: noting_store_def split: prod.splits sum.splits)

text \<open>
  Claim C20. Storing the logs of a run writes the console log of the manager whenever the data
  directories could be made and its own write succeeds, also when storing the run's data fails; the
  archive is made last, and only when everything before it was stored.
\<close>

theorem manager_log_always_stored:
  assumes "store_logs (noting_store ops) (w, []) = (r, (w', l))" "so_run_log ops"
    and "\<forall>v. \<exists>v'. so_store ops ManagerLog v = (Inr (), v')"
    and "\<exists>v. so_store ops DataDirectories w = (Inr (), v)"
  shows "(\<exists>data. (\<forall>x\<in>set data. run_item x) \<and>
      (l = DataDirectories # data @ [ManagerLog] \<or> l = DataDirectories # data @ [ManagerLog, Archive]))
    \<and> (r = Inr () \<longrightarrow> last l = Archive)
    \<and> (Archive \<in> set l \<longrightarrow> (\<exists>v v'. fst (store_run (noting_store ops) (v, [DataDirectories])) = Inr ()))"
proof -
  obtain w1 where dirs: "so_store (noting_store ops) DataDirectories (w, []) = (Inr (), (w1, [DataDirectories]))"
    using assms(4) by (auto simp: noting_store_def)
  obtain q w2 l2 where run: "store_run (noting_store ops) (w1, [DataDirectories]) = (q, (w2, l2))"
    by (metis prod_cases3)
  obtain data where data: "l2 = DataDirectories # data" "\<forall>x\<in>set data. run_item x"
    using keepsD [OF store_run_adds run] by (auto simp: adds_def)
  obtain w3 where "so_store ops ManagerLog w2 = (Inr (), w3)" using assms(3) by blast
  then have log: "so_store (noting_store ops) ManagerLog (w2, l2) = (Inr (), (w3, l2 @ [ManagerLog]))"
    by (simp add: noting_store_def)
  have fin: "io_finally (store_run (noting_store ops)) (if so_run_log (noting_store ops)
        then so_store (noting_store ops) ManagerLog else io_ret ()) (w1, [DataDirectories])
      = (q, (w3, l2 @ [ManagerLog]))"
    using run log assms(2) by (simp add: io_finally_def) (simp add: noting_store_def)
  obtain p w4 l4 where arc: "so_store (noting_store ops) Archive (w3, l2 @ [ManagerLog]) = (p, (w4, l4))"
    by (metis prod_cases3)
  note l4 = noted_store [OF arc]
  have res: "(r, l) = (case q of Inl e \<Rightarrow> (Inl e, l2 @ [ManagerLog]) | Inr u \<Rightarrow> (p, l4))"
    using assms(1) dirs fin arc by (cases q) (auto simp: store_logs_def io_seq_def io_bind_def)
  show ?thesis
  proof (cases q)
    case (Inl e)
    then show ?thesis using res data by (auto simp: run_item_def)
  next
    case (Inr u)
    then have "fst (store_run (noting_store ops) (w1, [DataDirectories])) = Inr ()" using run by simp
    then show ?thesis using res Inr l4 data by (cases p) (auto simp: run_item_def)
  qed
qed

text \<open>A run whose second client's history cannot be written.\<close>

definition failing_store :: "nat store_ops" where
  "failing_store = \<lparr>so_store = (\<lambda>x n. if x = ClientFile 1 ''history.json'' then (Inl (Exn KOSError ''disk''), n) else (Inr (), n + 1)),
     so_node = True, so_height = io_ret 1, so_clients = 2, so_has_bonds = (\<lambda>i. False), so_run_log = True\<rparr>"

theorem manager_log_always_stored_witness:
  "\<exists>w' l. store_logs (noting_store failing_store) (0, []) = (Inl (Exn KOSError ''disk''), (w', l))
     \<and> last l = ManagerLog \<and> Archive \<notin> set l"
proof -
  obtain r w' l where run: "store_logs (noting_store failing_store) (0, []) = (r, (w', l))" by (metis prod_cases3)
  have out: "fst (store_logs (noting_store failing_store) (0, [])) = Inl (Exn KOSError ''disk'')
      \<and> last (snd (snd (store_logs (noting_store failing_store) (0, [])))) = ManagerLog"
    by code_simp
  then have last: "last l = ManagerLog" by (simp add: run)
  have "(\<exists>data. (\<forall>x\<in>set data. run_item x) \<and>
      (l = DataDirectories # data @ [ManagerLog] \<or> l = DataDirectories # data @ [ManagerLog, Archive]))"
    using manager_log_always_stored [OF run] by (auto simp: failing_store_def)
  with last have "Archive \<notin> set l" by (auto simp: run_item_def)
  then show ?thesis using run out last by auto
qed

end
