(* ===== verification/RunManager.thy ===== *)
theory RunManager
  imports EngineBase
begin

text \<open>
  The command \<open>manager.py run\<close>: how run names and timeouts are checked, how an engine run ends in an
  exit code whatever it raises, the cleanup steps that follow it, and the marker files a controller
  waits for. Engine, driver and file system are the world \<open>'w\<close> of the calls in \<open>manager_ops\<close>.
\<close>

section \<open>Arguments\<close>

definition is_alnum :: "char \<Rightarrow> bool" where
  "is_alnum c = (let n = (of_char c :: nat) in
     (48 \<le> n \<and> n \<le> 57) \<or> (65 \<le> n \<and> n \<le> 90) \<or> (97 \<le> n \<and> n \<le> 122))"

text \<open>\<open>^[A-Za-z0-9](?:[A-Za-z0-9._-]*[A-Za-z0-9])?$\<close> on the whole string.\<close>

definition run_id_pattern :: "string \<Rightarrow> bool" where
  "run_id_pattern s =
     (s \<noteq> [] \<and> is_alnum (hd s) \<and> is_alnum (last s)
      \<and> list_all (\<lambda>c. is_alnum c \<or> c = CHR ''.'' \<or> c = CHR ''_'' \<or> c = CHR ''-'') s)"

definition run_id :: "string \<Rightarrow> exn + string" where
  "run_id v =
     (if 63 < length v \<or> contains ''..'' v \<or> \<not> run_id_pattern v
      then Inl (Exn KValueError ''run ID must be at most 63 characters'') else Inr v)"

definition positive_seconds :: "string \<Rightarrow> exn + int" where
  "positive_seconds v =
     (case parse_int v of
        None \<Rightarrow> Inl (Exn KValueError ''timeout must be an integer number of seconds'')
      | Some n \<Rightarrow> if n \<le> 0 then Inl (Exn KValueError ''timeout must be a positive number of seconds'') else Inr n)"

text \<open>\<open><container-or-pod>:<source-path>\<close>, split at the first colon.\<close>

definition download_source :: "string \<Rightarrow> exn + string \<times> string" where
  "download_source path =
     (if CHR '':'' \<notin> set path then Inl (Exn KValueError ''download path must use a colon'')
      else let name = takeWhile (\<lambda>c. c \<noteq> CHR '':'') path; src = drop (length name + 1) path
           in if name = [] \<or> src = [] then Inl (Exn KValueError ''download path must include both parts'')
              else Inr (name, src))"

section \<open>Running and cleaning up\<close>

record run_args =
  ra_no_logs :: bool
  ra_download :: string
  ra_download_path :: string
  ra_done_marker :: string
  ra_failed_marker :: string

record 'w manager_ops =
  mo_run :: "('w, unit) io"
  mo_report :: "('w, unit) io"
  mo_stop :: "('w, unit) io"
  mo_shutdown :: "('w, unit) io"
  mo_node :: "'w \<Rightarrow> bool"
  mo_store_logs :: "('w, unit) io"
  mo_makedirs :: "string \<Rightarrow> ('w, unit) io"
  mo_snapshot :: "string \<Rightarrow> string \<Rightarrow> string \<Rightarrow> ('w, int) io"
  mo_driver_cleanup :: "('w, unit) io"
  mo_marker :: "string \<Rightarrow> ('w, unit) io"

text \<open>\<open>except BaseException\<close> stops everything but a call that does not return.\<close>

definition is_base_exception :: "exn \<Rightarrow> bool" where
  "is_base_exception e = (exn_class e \<noteq> KDiverged)"

definition is_os_error :: "exn \<Rightarrow> bool" where
  "is_os_error e = (exn_class e \<in> {KOSError, KFileNotFound, KTimeoutError})"

definition cleanup_step :: "('w, unit) io \<Rightarrow> ('w, bool) io" where
  "cleanup_step action = io_catch (io_seq action (io_ret False)) is_base_exception (\<lambda>_. io_ret True)"

definition download_btc_data :: "'w manager_ops \<Rightarrow> string \<Rightarrow> string \<Rightarrow> ('w, unit) io" where
  "download_btc_data ops dest_path download_path =
     io_bind (io_lift (download_source download_path)) (\<lambda>(name, src).
       io_seq (mo_makedirs ops dest_path) (io_seq (mo_snapshot ops name src dest_path) (io_ret ())))"

definition cleanup :: "'w manager_ops \<Rightarrow> run_args \<Rightarrow> ('w, bool) io" where
  "cleanup ops args =
     io_bind (cleanup_step (mo_stop ops)) (\<lambda>f1.
     io_bind (cleanup_step (mo_shutdown ops)) (\<lambda>f2.
     io_bind (if ra_no_logs args then io_ret False
              else (\<lambda>w. if mo_node ops w then cleanup_step (mo_store_logs ops) w else (Inr False, w))) (\<lambda>f3.
     io_bind (if ra_download args = [] then io_ret False
              else (\<lambda>w. if mo_node ops w
                         then cleanup_step (download_btc_data ops (ra_download args) (ra_download_path args)) w
                         else (Inr False, w))) (\<lambda>f4.
     io_bind (cleanup_step (mo_driver_cleanup ops)) (\<lambda>f5.
       io_ret (f1 \<or> f2 \<or> f3 \<or> f4 \<or> f5))))))"

definition write_controller_marker :: "'w manager_ops \<Rightarrow> string \<Rightarrow> ('w, unit) io" where
  "write_controller_marker ops path = (if path = [] then io_ret () else mo_marker ops path)"

definition finalize_controller_marker :: "'w manager_ops \<Rightarrow> run_args \<Rightarrow> int \<Rightarrow> ('w, int) io" where
  "finalize_controller_marker ops args exit_code =
     io_catch
       (io_seq (write_controller_marker ops (if exit_code = 0 then ra_done_marker args else ra_failed_marker args))
          (io_ret exit_code))
       is_os_error
       (\<lambda>_. io_seq
          (if exit_code = 0
           then io_catch (write_controller_marker ops (ra_failed_marker args)) is_os_error (\<lambda>_. io_ret ())
           else io_ret ())
          (io_ret 1))"

definition exit_code_of :: "exn \<Rightarrow> int option" where
  "exit_code_of e =
     (case exn_class e of
        KKeyboardInterrupt \<Rightarrow> Some 130
      | KSystemExit n \<Rightarrow> Some (if 0 < n then n else 1)
      | KDiverged \<Rightarrow> None
      | _ \<Rightarrow> Some 1)"

definition run_guarded :: "'w manager_ops \<Rightarrow> ('w, int) io" where
  "run_guarded ops = io_catch (io_seq (mo_run ops) (io_ret 0)) (\<lambda>e. exit_code_of e \<noteq> None)
     (\<lambda>e. io_ret (the (exit_code_of e)))"

definition manager_run_engine :: "'w manager_ops \<Rightarrow> run_args \<Rightarrow> ('w, int) io" where
  "manager_run_engine ops args =
     io_bind (run_guarded ops) (\<lambda>exit_code.
     io_seq (if exit_code \<noteq> 0 then io_catch (mo_report ops) is_exception (\<lambda>_. io_ret ()) else io_ret ())
     (io_bind (cleanup ops args) (\<lambda>failed.
       finalize_controller_marker ops args (if failed then 1 else exit_code))))"

text \<open>\<open>run\<close>: the console log is open while the engine runs and is closed in every case.\<close>

definition manager_run :: "('w, unit) io \<Rightarrow> ('w, unit) io \<Rightarrow> 'w manager_ops \<Rightarrow> run_args \<Rightarrow> ('w, int) io" where
  "manager_run install_log close_log ops args =
     io_seq install_log (io_finally (manager_run_engine ops args) close_log)"

section \<open>Run names are safe directory names\<close>

text \<open>
  An accepted run name cannot leave the log directory: it has no separator, is no dot name and
  holds no two dots in a row.
\<close>

lemma run_id_ok: "run_id v = Inr v' \<Longrightarrow> v' = v \<and> v \<noteq> [] \<and> length v \<le> 63 \<and> CHR ''/'' \<notin> set v
    \<and> hd v \<noteq> CHR ''.'' \<and> last v \<noteq> CHR ''.'' \<and> \<not> contains ''..'' v"
proof -
  assume a: "run_id v = Inr v'"
  then have v: "v' = v" "length v \<le> 63" "\<not> contains ''..'' v" and p: "run_id_pattern v"
    by (auto simp: run_id_def split: if_splits)
  have no: "\<not> is_alnum (CHR ''/'')" "\<not> is_alnum (CHR ''.'')" by code_simp+
  have c: "\<forall>c\<in>set v. is_alnum c \<or> c = CHR ''.'' \<or> c = CHR ''_'' \<or> c = CHR ''-''"
    and ends: "v \<noteq> []" "is_alnum (hd v)" "is_alnum (last v)"
    using p unfolding run_id_pattern_def list_all_iff by blast+
  have "CHR ''/'' \<notin> set v"
  proof
    assume "CHR ''/'' \<in> set v"
    from bspec [OF c this] no(1) show False by simp
  qed
  moreover have "hd v \<noteq> CHR ''.''" "last v \<noteq> CHR ''.''" using ends no(2) by metis+
  ultimately show ?thesis using v ends(1) by blast
qed

lemma run_id_has_no_comma: "run_id v = Inr v' \<Longrightarrow> CHR '','' \<notin> set v'"
proof -
  assume "run_id v = Inr v'"
  then have "\<forall>c\<in>set v'. is_alnum c \<or> c = CHR ''.'' \<or> c = CHR ''_'' \<or> c = CHR ''-''"
    by (auto simp: run_id_def run_id_pattern_def list_all_iff split: if_splits)
  moreover have "\<not> is_alnum (CHR '','')" by code_simp
  ultimately show ?thesis by auto
qed

lemma download_source_ok: "download_source p = Inr (name, src) \<Longrightarrow> p = name @ '':'' @ src \<and> CHR '':'' \<notin> set name"
proof -
  assume a: "download_source p = Inr (name, src)"
  then have n: "name = takeWhile (\<lambda>c. c \<noteq> CHR '':'') p" and s: "src = drop (length name + 1) p" and c: "CHR '':'' \<in> set p"
    by (auto simp: download_source_def Let_def split: if_splits)
  have d: "dropWhile (\<lambda>c. c \<noteq> CHR '':'') p = CHR '':'' # src"
  proof -
    have "dropWhile (\<lambda>c. c \<noteq> CHR '':'') p \<noteq> []" using c by (auto simp: dropWhile_eq_Nil_conv)
    then have "dropWhile (\<lambda>c. c \<noteq> CHR '':'') p = CHR '':'' # tl (dropWhile (\<lambda>c. c \<noteq> CHR '':'') p)"
      using hd_dropWhile [of "\<lambda>c. c \<noteq> CHR '':''" p] by (cases "dropWhile (\<lambda>c. c \<noteq> CHR '':'') p") simp_all
    moreover have "tl (dropWhile (\<lambda>c. c \<noteq> CHR '':'') p) = src"
      unfolding s n dropWhile_eq_drop by (simp add: tl_drop flip: drop_Suc)
    ultimately show ?thesis by simp
  qed
  have "p = name @ dropWhile (\<lambda>c. c \<noteq> CHR '':'') p" unfolding n by simp
  moreover have "CHR '':'' \<notin> set name" unfolding n by (auto dest: set_takeWhileD)
  ultimately show ?thesis using d by simp
qed

section \<open>Every step is taken\<close>

datatype manager_step =
    RunEngine | ReportState | StopCoinjoins | ShutdownEngine | StoreLogs
  | MakeDownloadDir string | SnapshotData string string string | CleanupDriver | Marker string

text \<open>A note of a step: whether it succeeded, and the world it left.\<close>

type_synonym 'w manager_note = "manager_step \<times> bool \<times> 'w"

definition noting_step :: "manager_step \<Rightarrow> ('w, 'a) io \<Rightarrow> ('w \<times> 'w manager_note list, 'a) io" where
  "noting_step s m = (\<lambda>(w, l). case m w of (r, w') \<Rightarrow> (r, (w', l @ [(s, \<not> isl r, w')])))"

text \<open>The manager with its steps noted.\<close>

definition noting_manager :: "'w manager_ops \<Rightarrow> ('w \<times> 'w manager_note list) manager_ops" where
  "noting_manager ops = \<lparr>mo_run = noting_step RunEngine (mo_run ops), mo_report = noting_step ReportState (mo_report ops),
     mo_stop = noting_step StopCoinjoins (mo_stop ops), mo_shutdown = noting_step ShutdownEngine (mo_shutdown ops),
     mo_node = (\<lambda>(w, l). mo_node ops w), mo_store_logs = noting_step StoreLogs (mo_store_logs ops),
     mo_makedirs = (\<lambda>p. noting_step (MakeDownloadDir p) (mo_makedirs ops p)),
     mo_snapshot = (\<lambda>n s d. noting_step (SnapshotData n s d) (mo_snapshot ops n s d)),
     mo_driver_cleanup = noting_step CleanupDriver (mo_driver_cleanup ops),
     mo_marker = (\<lambda>p. noting_step (Marker p) (mo_marker ops p))\<rparr>"

text \<open>What a cleanup step leaves: its note, and whether it failed.\<close>

lemma noted_step:
  assumes "cleanup_step (noting_step s m) (w, l) = (r, (w', l'))" "\<not> diverged r"
  shows "\<exists>ok. r = Inr (\<not> ok) \<and> l' = l @ [(s, ok, w')]"
  using assms
  by (auto simp: cleanup_step_def noting_step_def io_simps is_base_exception_def split: prod.splits sum.splits if_splits)

lemma bind_returns: "io_bind m f w = (r, w') \<Longrightarrow> \<not> diverged r \<Longrightarrow> \<not> diverged (fst (m w))"
  by (auto simp: io_bind_def diverged_def split: prod.splits sum.splits)

text \<open>A list of notes made by a call that returned a flag: the flag says that some step failed.\<close>

definition all_ok :: "'w manager_note list \<Rightarrow> bool" where
  "all_ok l = list_all (\<lambda>(s, ok, w). ok) l"

lemma all_ok_simps [simp]:
  "all_ok []" "all_ok (x # l) \<longleftrightarrow> fst (snd x) \<and> all_ok l" "all_ok (a @ b) \<longleftrightarrow> all_ok a \<and> all_ok b"
  by (auto simp: all_ok_def)

text \<open>The world after a list of steps begun in \<open>w\<close>.\<close>

definition world_after :: "'w \<Rightarrow> 'w manager_note list \<Rightarrow> 'w" where
  "world_after w a = (if a = [] then w else snd (snd (last a)))"

lemma world_after_simps [simp]: "world_after w [] = w" "world_after w (a @ [x]) = snd (snd x)"
  by (simp_all add: world_after_def)

text \<open>
  What the two optional steps leave when they are reached in the world \<open>w\<close>: logs are stored unless
  \<open>--no-logs\<close> was given or there is no node; data is downloaded when a destination was given and there
  is a node: its directory is made, and then, unless that failed, the snapshot is taken. A download
  path without its two parts fails before anything is done.
\<close>

definition logs_notes :: "'w manager_ops \<Rightarrow> run_args \<Rightarrow> 'w \<Rightarrow> 'w manager_note list \<Rightarrow> bool" where
  "logs_notes ops args w a = (map fst a = (if ra_no_logs args \<or> \<not> mo_node ops w then [] else [StoreLogs]))"

definition download_wanted :: "'w manager_ops \<Rightarrow> run_args \<Rightarrow> 'w \<Rightarrow> bool" where
  "download_wanted ops args w = (ra_download args \<noteq> [] \<and> mo_node ops w)"

definition download_notes :: "'w manager_ops \<Rightarrow> run_args \<Rightarrow> 'w \<Rightarrow> 'w manager_note list \<Rightarrow> bool" where
  "download_notes ops args w a =
     (if download_wanted ops args w
      then case download_source (ra_download_path args) of
             Inl _ \<Rightarrow> a = []
           | Inr (name, src) \<Rightarrow>
               map fst a = MakeDownloadDir (ra_download args)
                 # (if all_ok (take 1 a) then [SnapshotData name src (ra_download args)] else [])
      else a = [])"

definition bad_download_path :: "'w manager_ops \<Rightarrow> run_args \<Rightarrow> 'w \<Rightarrow> bool" where
  "bad_download_path ops args w = (download_wanted ops args w \<and> isl (download_source (ra_download_path args)))"

lemma download_noted:
  assumes "cleanup_step (download_btc_data (noting_manager ops) (ra_download args) (ra_download_path args)) (w, l)
      = (Inr failed, (w', l'))"
    and "download_wanted ops args w"
  shows "\<exists>a. l' = l @ a \<and> download_notes ops args w a
    \<and> failed = (\<not> all_ok a \<or> bad_download_path ops args w) \<and> w' = world_after w a"
proof (cases "download_source (ra_download_path args)")
  case (Inl e)
  then show ?thesis using assms
    by (auto simp: cleanup_step_def download_btc_data_def io_simps io_lift_def download_notes_def bad_download_path_def
        split: if_splits)
next
  case (Inr p)
  obtain n s where p: "p = (n, s)" by (cases p)
  obtain q1 w1 where q1: "mo_makedirs ops (ra_download args) w = (q1, w1)" by fastforce
  obtain q2 w2 where q2: "mo_snapshot ops n s (ra_download args) w1 = (q2, w2)" by fastforce
  define a where "a = (if isl q1 then [(MakeDownloadDir (ra_download args), False, w1)]
    else [(MakeDownloadDir (ra_download args), True, w1), (SnapshotData n s (ra_download args), \<not> isl q2, w2)])"
  have "failed = (isl q1 \<or> isl q2 \<and> \<not> isl q1) \<and> w' = (if isl q1 then w1 else w2) \<and> l' = l @ a"
    using assms(1) q1 q2 Inr
    by (cases q1; cases q2) (auto simp: cleanup_step_def download_btc_data_def noting_manager_def noting_step_def
        io_simps io_lift_def p a_def split: if_splits)
  moreover have "download_notes ops args w a" "\<not> bad_download_path ops args w"
    using assms(2) Inr by (auto simp: download_notes_def bad_download_path_def p a_def)
  ultimately show ?thesis by (intro exI [of _ a]) (auto simp: a_def world_after_def)
qed

text \<open>A whole cleanup: the node is looked for in the worlds the steps before left.\<close>

definition cleanup_notes :: "'w manager_ops \<Rightarrow> run_args \<Rightarrow> 'w manager_note list \<Rightarrow> bool \<Rightarrow> bool" where
  "cleanup_notes ops args a failed =
     (\<exists>ok1 w1 ok2 w2 logs data ok5 w5.
        a = [(StopCoinjoins, ok1, w1), (ShutdownEngine, ok2, w2)] @ logs @ data @ [(CleanupDriver, ok5, w5)]
        \<and> logs_notes ops args w2 logs \<and> download_notes ops args (world_after w2 logs) data
        \<and> failed = (\<not> all_ok a \<or> bad_download_path ops args (world_after w2 logs)))"

lemma cleanup_all:
  assumes run: "cleanup (noting_manager ops) args (w, l) = (Inr failed, (w', l'))"
  shows "\<exists>a. l' = l @ a \<and> cleanup_notes ops args a failed"
proof -
  let ?m = "noting_manager ops"
  have ok: "\<not> diverged (Inr x :: exn + bool)" for x by simp
  obtain f1 w1 l1 where 1: "cleanup_step (mo_stop ?m) (w, l) = (Inr f1, (w1, l1))"
    and r1: "io_bind (cleanup_step (mo_shutdown ?m)) (\<lambda>f2.
     io_bind (if ra_no_logs args then io_ret False
              else (\<lambda>w. if mo_node ?m w then cleanup_step (mo_store_logs ?m) w else (Inr False, w))) (\<lambda>f3.
     io_bind (if ra_download args = [] then io_ret False
              else (\<lambda>w. if mo_node ?m w
                         then cleanup_step (download_btc_data ?m (ra_download args) (ra_download_path args)) w
                         else (Inr False, w))) (\<lambda>f4.
     io_bind (cleanup_step (mo_driver_cleanup ?m)) (\<lambda>f5.
       io_ret (f1 \<or> f2 \<or> f3 \<or> f4 \<or> f5))))) (w1, l1) = (Inr failed, (w', l'))"
    using run unfolding cleanup_def io_bind_Inr_iff by fastforce
  obtain f2 w2 l2 where 2: "cleanup_step (mo_shutdown ?m) (w1, l1) = (Inr f2, (w2, l2))"
    and r2: "io_bind (if ra_no_logs args then io_ret False
              else (\<lambda>w. if mo_node ?m w then cleanup_step (mo_store_logs ?m) w else (Inr False, w))) (\<lambda>f3.
     io_bind (if ra_download args = [] then io_ret False
              else (\<lambda>w. if mo_node ?m w
                         then cleanup_step (download_btc_data ?m (ra_download args) (ra_download_path args)) w
                         else (Inr False, w))) (\<lambda>f4.
     io_bind (cleanup_step (mo_driver_cleanup ?m)) (\<lambda>f5.
       io_ret (f1 \<or> f2 \<or> f3 \<or> f4 \<or> f5)))) (w2, l2) = (Inr failed, (w', l'))"
    using r1 unfolding io_bind_Inr_iff by fastforce
  obtain f3 w3 l3 where 3: "(if ra_no_logs args then io_ret False
              else (\<lambda>w. if mo_node ?m w then cleanup_step (mo_store_logs ?m) w else (Inr False, w))) (w2, l2)
      = (Inr f3, (w3, l3))"
    and r3: "io_bind (if ra_download args = [] then io_ret False
              else (\<lambda>w. if mo_node ?m w
                         then cleanup_step (download_btc_data ?m (ra_download args) (ra_download_path args)) w
                         else (Inr False, w))) (\<lambda>f4.
     io_bind (cleanup_step (mo_driver_cleanup ?m)) (\<lambda>f5.
       io_ret (f1 \<or> f2 \<or> f3 \<or> f4 \<or> f5))) (w3, l3) = (Inr failed, (w', l'))"
    using r2 unfolding io_bind_Inr_iff by fastforce
  obtain f4 w4 l4 where 4: "(if ra_download args = [] then io_ret False
              else (\<lambda>w. if mo_node ?m w
                         then cleanup_step (download_btc_data ?m (ra_download args) (ra_download_path args)) w
                         else (Inr False, w))) (w3, l3) = (Inr f4, (w4, l4))"
    and r4: "io_bind (cleanup_step (mo_driver_cleanup ?m)) (\<lambda>f5.
       io_ret (f1 \<or> f2 \<or> f3 \<or> f4 \<or> f5)) (w4, l4) = (Inr failed, (w', l'))"
    using r3 unfolding io_bind_Inr_iff by fastforce
  obtain f5 where 5: "cleanup_step (mo_driver_cleanup ?m) (w4, l4) = (Inr f5, (w', l'))"
    and failed: "failed = (f1 \<or> f2 \<or> f3 \<or> f4 \<or> f5)"
    using r4 unfolding io_bind_Inr_iff io_ret_Inr_iff by fastforce
  have n1: "l1 = l @ [(StopCoinjoins, \<not> f1, w1)]"
    using noted_step [OF 1 [unfolded noting_manager_def manager_ops.simps] ok] by auto
  have n2: "l2 = l1 @ [(ShutdownEngine, \<not> f2, w2)]"
    using noted_step [OF 2 [unfolded noting_manager_def manager_ops.simps] ok] by auto
  have n5: "l' = l4 @ [(CleanupDriver, \<not> f5, w')]"
    using noted_step [OF 5 [unfolded noting_manager_def manager_ops.simps] ok] by auto
  have node: "mo_node ?m (v, n) = mo_node ops v" for v n by (simp add: noting_manager_def)
  have n3: "\<exists>a. l3 = l2 @ a \<and> logs_notes ops args w2 a \<and> f3 = (\<not> all_ok a) \<and> w3 = world_after w2 a"
  proof (cases "ra_no_logs args \<or> \<not> mo_node ops w2")
    case True
    then show ?thesis using 3 by (auto simp: io_ret_def node logs_notes_def split: if_splits)
  next
    case False
    then have "cleanup_step (noting_step StoreLogs (mo_store_logs ops)) (w2, l2) = (Inr f3, (w3, l3))"
      using 3 by (simp add: noting_manager_def)
    from noted_step [OF this ok] have "l3 = l2 @ [(StoreLogs, \<not> f3, w3)]" by auto
    then show ?thesis using False
      by (intro exI [of _ "[(StoreLogs, \<not> f3, w3)]"]) (simp add: logs_notes_def world_after_def)
  qed
  have n4: "\<exists>a. l4 = l3 @ a \<and> download_notes ops args w3 a
    \<and> f4 = (\<not> all_ok a \<or> bad_download_path ops args w3) \<and> w4 = world_after w3 a"
  proof (cases "download_wanted ops args w3")
    case False
    then show ?thesis using 4
      by (auto simp: io_ret_def node download_notes_def bad_download_path_def download_wanted_def split: if_splits)
  next
    case True
    then have "cleanup_step (download_btc_data ?m (ra_download args) (ra_download_path args)) (w3, l3)
        = (Inr f4, (w4, l4))"
      using 4 by (auto simp: download_wanted_def node)
    from download_noted [OF this True] show ?thesis .
  qed
  from n3 n4 obtain a3 a4 where a: "l3 = l2 @ a3" "logs_notes ops args w2 a3" "f3 = (\<not> all_ok a3)"
    "w3 = world_after w2 a3" "l4 = l3 @ a4" "download_notes ops args w3 a4"
    "f4 = (\<not> all_ok a4 \<or> bad_download_path ops args w3)" by blast
  let ?a = "[(StopCoinjoins, \<not> f1, w1), (ShutdownEngine, \<not> f2, w2)] @ a3 @ a4 @ [(CleanupDriver, \<not> f5, w')]"
  have f: "failed = (\<not> all_ok ?a \<or> bad_download_path ops args (world_after w2 a3))" using a failed by auto
  have "l' = l @ ?a" using n1 n2 n5 a by simp
  moreover have "cleanup_notes ops args ?a failed" unfolding cleanup_notes_def
    by (rule exI [of _ "\<not> f1"], rule exI [of _ w1], rule exI [of _ "\<not> f2"], rule exI [of _ w2],
        rule exI [of _ a3], rule exI [of _ a4], rule exI [of _ "\<not> f5"], rule exI [of _ w'])
      (use a f in simp)
  ultimately show ?thesis by blast
qed

lemma marker_notes:
  assumes "write_controller_marker (noting_manager ops) p (w, l) = (r, (w', l'))"
  shows "l' = l @ (if p = [] then [] else [(Marker p, \<not> isl r, w')])" "p = [] \<Longrightarrow> r = Inr ()"
  using assms by (auto simp: write_controller_marker_def noting_manager_def noting_step_def io_ret_def split: if_splits prod.splits)

text \<open>
  The markers of a run that ended with \<open>success\<close>: the failed marker, or the done marker and, when
  that cannot be written, the failed one; an empty name is no marker.
\<close>

definition marker_steps :: "run_args \<Rightarrow> bool \<Rightarrow> 'w manager_note list \<Rightarrow> manager_step list" where
  "marker_steps args success marks =
     (if \<not> success then (if ra_failed_marker args = [] then [] else [Marker (ra_failed_marker args)])
      else if ra_done_marker args = [] then []
      else Marker (ra_done_marker args)
        # (if all_ok (take 1 marks) \<or> ra_failed_marker args = [] then [] else [Marker (ra_failed_marker args)]))"

lemma finalize_notes:
  assumes "finalize_controller_marker (noting_manager ops) args c (w, l) = (Inr code, (w', l'))"
  shows "\<exists>marks. l' = l @ marks \<and> map fst marks = marker_steps args (c = 0) marks
    \<and> (code = 0 \<longleftrightarrow> c = 0 \<and> all_ok marks)"
proof -
  let ?m = "noting_manager ops"
  let ?p = "if c = 0 then ra_done_marker args else ra_failed_marker args"
  obtain r w1 l1 where r: "write_controller_marker ?m ?p (w, l) = (r, (w1, l1))" by (metis prod_cases3)
  note 1 = marker_notes [OF r]
  show ?thesis
  proof (cases r)
    case (Inr u)
    then have "code = c" "l' = l1" using assms r by (auto simp: finalize_controller_marker_def io_simps)
    then show ?thesis using 1 Inr by (auto simp: marker_steps_def split: if_splits)
  next
    case (Inl e)
    then have os: "is_os_error e" and p: "?p \<noteq> []"
      using assms r 1(2) by (auto simp: finalize_controller_marker_def io_simps split: if_splits)
    obtain q w2 l2 where q: "write_controller_marker ?m (ra_failed_marker args) (w1, l1) = (q, (w2, l2))"
      by (metis prod_cases3)
    note 2 = marker_notes [OF q]
    have "io_seq (write_controller_marker ?m ?p) (io_ret c) (w, l) = (Inl e, (w1, l1))"
      using r Inl by (simp add: io_seq_def io_bind_def)
    then have step: "io_seq (if c = 0 then io_catch (write_controller_marker ?m (ra_failed_marker args)) is_os_error (\<lambda>_. io_ret ())
        else io_ret ()) (io_ret 1) (w1, l1) = (Inr code, (w', l'))"
      using assms os by (simp add: finalize_controller_marker_def io_catch_def)
    then have "code = 1" unfolding io_seq_def io_bind_Inr_iff io_ret_Inr_iff by blast
    moreover have "l' = (if c = 0 then l2 else l1)"
    proof (cases "c = 0")
      case True
      then show ?thesis using step q by (cases q) (auto simp: io_simps split: if_splits)
    next
      case False
      then show ?thesis using step by (simp add: io_simps)
    qed
    ultimately have l': "l' = l @ (if c = 0 then (Marker (ra_done_marker args), False, w1)
          # (if ra_failed_marker args = [] then [] else [(Marker (ra_failed_marker args), \<not> isl q, w2)])
        else [(Marker (ra_failed_marker args), False, w1)])" and "code = 1"
      using 1(1) 2(1) Inl p by (cases "c = 0"; simp)+
    from \<open>code = 1\<close> show ?thesis using p
      by - (intro exI conjI, rule l', (cases "c = 0"; simp add: marker_steps_def)+)
  qed
qed

lemma run_guarded_notes:
  assumes "run_guarded (noting_manager ops) (w, l) = (Inr code, (w', l'))"
  shows "l' = l @ [(RunEngine, code = 0, w')]"
proof -
  obtain q w1 where q: "mo_run ops w = (q, w1)" by fastforce
  have "exit_code_of e = Some n \<Longrightarrow> n \<noteq> 0" for e n
    by (auto simp: exit_code_of_def split: exn_kind.splits if_splits)
  then show ?thesis
    using assms q by (cases q) (auto simp: run_guarded_def noting_manager_def noting_step_def io_simps split: if_splits)
qed

lemma cleanup_steps:
  assumes "cleanup_notes ops args a failed"
  shows "Marker d \<notin> set (map fst a)"
proof -
  have "Marker d \<notin> set (map fst b)" if "logs_notes ops args w b" for b w
    using that by (simp add: logs_notes_def split: if_splits)
  moreover have "Marker d \<notin> set (map fst b)" if "download_notes ops args w b" for b w
    using that by (auto simp: download_notes_def simp del: set_map split: if_splits sum.splits)
  ultimately show ?thesis using assms unfolding cleanup_notes_def by fastforce
qed

lemma done_marked:
  assumes "map fst marks = marker_steps args success marks"
    and "ra_done_marker args \<noteq> []" "ra_done_marker args \<noteq> ra_failed_marker args"
  shows "(\<exists>v. (Marker (ra_done_marker args), True, v) \<in> set marks) \<longleftrightarrow> success \<and> all_ok marks"
proof (cases marks)
  case Nil
  then show ?thesis using assms by (auto simp: marker_steps_def)
next
  case (Cons x xs)
  obtain s ok v where x: "x = (s, ok, v)" by (cases x)
  show ?thesis
    using assms by (auto simp: marker_steps_def Cons x split: if_splits)
qed

text \<open>
  Claim C19. However the run, its cleanup and the markers fail, a manager that ends with an exit
  code reported the state of a failed run, then took every cleanup step in order, whatever the
  steps before did: coinjoins stopped, engine shut down, logs stored exactly when there is a node
  and no \<open>--no-logs\<close>, Bitcoin data downloaded exactly when a destination was given and there is a
  node, driver resources released; then it wrote the marker of the outcome. The code is 0 exactly
  when the run, every step and every marker succeeded and the download path was well-formed, and
  exactly then a done marker of its own name was written.
\<close>

theorem exit_code_tells_success:
  assumes "manager_run_engine (noting_manager ops) args (w, []) = (Inr code, (w', l))"
  shows "\<exists>ran w1 report clean failed marks. l = (RunEngine, ran, w1) # report @ clean @ marks
    \<and> map fst report = (if ran then [] else [ReportState])
    \<and> cleanup_notes ops args clean failed
    \<and> map fst marks = marker_steps args (ran \<and> \<not> failed) marks
    \<and> (code = 0 \<longleftrightarrow> ran \<and> \<not> failed \<and> all_ok marks)
    \<and> (ra_done_marker args \<noteq> [] \<and> ra_done_marker args \<noteq> ra_failed_marker args \<longrightarrow>
         ((\<exists>v. (Marker (ra_done_marker args), True, v) \<in> set l) \<longleftrightarrow> code = 0))"
proof -
  let ?m = "noting_manager ops"
  obtain c w1 l1 where c: "run_guarded ?m (w, []) = (Inr c, (w1, l1))"
    and r1: "io_bind (if c \<noteq> 0 then io_catch (mo_report ?m) is_exception (\<lambda>_. io_ret ()) else io_ret ()) (\<lambda>_.
      io_bind (cleanup ?m args) (\<lambda>failed. finalize_controller_marker ?m args (if failed then 1 else c))) (w1, l1)
      = (Inr code, (w', l))"
    using assms(1) unfolding manager_run_engine_def io_seq_def io_bind_Inr_iff by fastforce
  obtain u w2 l2 where rep: "(if c \<noteq> 0 then io_catch (mo_report ?m) is_exception (\<lambda>_. io_ret ()) else io_ret ()) (w1, l1)
      = (Inr u, (w2, l2))"
    and r2: "io_bind (cleanup ?m args) (\<lambda>failed. finalize_controller_marker ?m args (if failed then 1 else c)) (w2, l2)
      = (Inr code, (w', l))"
    using r1 unfolding io_bind_Inr_iff by fastforce
  obtain failed w3 l3 where cl: "cleanup ?m args (w2, l2) = (Inr failed, (w3, l3))"
    and fin: "finalize_controller_marker ?m args (if failed then 1 else c) (w3, l3) = (Inr code, (w', l))"
    using r2 unfolding io_bind_Inr_iff by fastforce
  have l1: "l1 = [(RunEngine, c = 0, w1)]" using run_guarded_notes [OF c] by simp
  have "\<exists>report. l2 = l1 @ report \<and> map fst report = (if c = 0 then [] else [ReportState])"
    using rep by (auto simp: io_ret_def io_catch_def noting_manager_def noting_step_def split: if_splits prod.splits sum.splits)
  then obtain report where report: "l2 = l1 @ report" "map fst report = (if c = 0 then [] else [ReportState])"
    by blast
  obtain clean where clean: "l3 = l2 @ clean" "cleanup_notes ops args clean failed"
    using cleanup_all [OF cl] by blast
  obtain marks where marks: "l = l3 @ marks"
    "map fst marks = marker_steps args ((if failed then 1 else c) = 0) marks"
    "code = 0 \<longleftrightarrow> (if failed then 1 else c) = 0 \<and> all_ok marks"
    using finalize_notes [OF fin] by blast
  have ok: "(if failed then 1 else c) = 0 \<longleftrightarrow> c = 0 \<and> \<not> failed" by simp
  have l: "l = (RunEngine, c = 0, w1) # report @ clean @ marks" using l1 report clean marks by simp
  have "Marker d \<notin> set (map fst report)" for d unfolding report(2) by simp
  then have "(Marker d, True, v) \<notin> set report \<union> set clean" for d v
    using cleanup_steps [OF clean(2), of d] by force
  then have "(\<exists>v. (Marker d, True, v) \<in> set l) \<longleftrightarrow> (\<exists>v. (Marker d, True, v) \<in> set marks)" for d
    unfolding l by simp
  moreover have "(\<exists>v. (Marker (ra_done_marker args), True, v) \<in> set marks) \<longleftrightarrow> code = 0"
    if "ra_done_marker args \<noteq> []" "ra_done_marker args \<noteq> ra_failed_marker args"
    using done_marked [OF marks(2)] that marks(3) unfolding ok by blast
  ultimately have "ra_done_marker args \<noteq> [] \<and> ra_done_marker args \<noteq> ra_failed_marker args \<longrightarrow>
         ((\<exists>v. (Marker (ra_done_marker args), True, v) \<in> set l) \<longleftrightarrow> code = 0)"
    by blast
  then show ?thesis
    using report(2) clean(2) marks(2,3) unfolding ok
    by (intro exI [of _ "c = 0"] exI [of _ w1] exI [of _ report] exI [of _ clean] exI [of _ failed]
        exI [of _ marks] conjI) (assumption | rule l | simp)+
qed

text \<open>A run that is interrupted, whose logs cannot be stored, and whose controller waits for a marker.\<close>

definition failing_manager :: "unit manager_ops" where
  "failing_manager = \<lparr>mo_run = io_raise (Exn (KSystemExit 143) []), mo_report = io_ret (), mo_stop = io_ret (),
     mo_shutdown = io_ret (), mo_node = (\<lambda>w. True), mo_store_logs = io_raise (Exn KOSError ''disk''),
     mo_makedirs = (\<lambda>p. io_ret ()), mo_snapshot = (\<lambda>n s d. io_ret 7), mo_driver_cleanup = io_ret (),
     mo_marker = (\<lambda>p. io_ret ())\<rparr>"

definition example_args :: run_args where
  "example_args = \<lparr>ra_no_logs = False, ra_download = ''out'', ra_download_path = ''btc-node:/home/bitcoin/data/'',
     ra_done_marker = ''done'', ra_failed_marker = ''failed''\<rparr>"

theorem exit_code_tells_success_witness:
  "\<exists>l. manager_run_engine (noting_manager failing_manager) example_args ((), []) = (Inr 1, ((), l))
     \<and> (CleanupDriver, True, ()) \<in> set l \<and> (Marker ''done'', True, ()) \<notin> set l"
proof -
  obtain r w l where run: "manager_run_engine (noting_manager failing_manager) example_args ((), []) = (r, (w, l))"
    by (metis prod_cases3)
  have out: "fst (manager_run_engine (noting_manager failing_manager) example_args ((), [])) = Inr 1
      \<and> (CleanupDriver, True, ()) \<in> set (snd (snd (manager_run_engine (noting_manager failing_manager) example_args ((), []))))"
    by code_simp
  then have r: "r = Inr 1" by (simp add: run)
  from exit_code_tells_success [OF run [unfolded r]]
  have "(Marker ''done'', True, ()) \<notin> set l" by (auto simp: example_args_def)
  then show ?thesis using run out r by auto
qed

section \<open>The choice of the driver\<close>

text \<open>
  What \<open>main\<close> reads of its arguments. A subcommand has only the options it declares: \<open>build\<close> lacks the
  pull secret and the reuse of a namespace, and reading an attribute that is not there is an
  AttributeError.
\<close>

record main_args =
  ma_command :: string
  ma_driver :: string
  ma_namespace :: string
  ma_run_id :: "string option"
  ma_pull_secret :: "string option"
  ma_reuse :: bool
  ma_no_forward :: bool
  ma_proxy :: string
  ma_in_cluster :: bool

datatype driver_choice =
    UseDocker string "string option"
  | UsePodman string "string option"
  | UseKubernetes string bool "string option" bool "string option"
  | UseOpenshift string bool "string option"

definition cluster_option :: "main_args \<Rightarrow> 'a \<Rightarrow> exn + 'a" where
  "cluster_option args x =
     (if ma_command args \<in> {''run'', ''clean''} then Inr x else Inl (Exn KAttributeError ''k8s_pull_secret''))"

definition env_or :: "string option \<Rightarrow> string option \<Rightarrow> string option" where
  "env_or given env = (case given of Some s \<Rightarrow> if s \<noteq> [] then Some s else env | None \<Rightarrow> env)"

definition choose_driver :: "main_args \<Rightarrow> string option \<Rightarrow> exn + driver_choice" where
  "choose_driver args env_secret =
     (if ma_driver args = ''docker'' then Inr (UseDocker (ma_namespace args) (ma_run_id args))
      else if ma_driver args = ''podman'' then Inr (UsePodman (ma_namespace args) (ma_run_id args))
      else if ma_driver args = ''kubernetes'' then
        ebind (cluster_option args (env_or (ma_pull_secret args) env_secret)) (\<lambda>secret.
          if ma_no_forward args \<and> ma_proxy args = [] \<and> \<not> ma_in_cluster args
          then Inl (Exn (KSystemExit 1) ''--disable-port-forward requires --proxy or --in-cluster'')
          else Inr (UseKubernetes (ma_namespace args) (ma_reuse args) secret (ma_in_cluster args) (ma_run_id args)))
      else if ma_driver args = ''openshift'' then
        ebind (cluster_option args (env_or (ma_pull_secret args) env_secret)) (\<lambda>secret.
          Inr (UseOpenshift (ma_namespace args) (ma_reuse args) secret))
      else Inl (Exn (KSystemExit 1) ''Unknown driver''))"

text \<open>Images cannot be built for a cluster.\<close>

lemma build_for_a_cluster_fails:
  "ma_command args = ''build'' \<Longrightarrow> ma_driver args = ''kubernetes'' \<or> ma_driver args = ''openshift'' \<Longrightarrow>
     choose_driver args env_secret = Inl (Exn KAttributeError ''k8s_pull_secret'')"
  by (auto simp: choose_driver_def cluster_option_def)

end
