(* ===== verification/ScenarioRunner.thy ===== *)
theory ScenarioRunner
  imports Kept "HOL-Library.Char_ord" "HOL-Library.List_Lexorder"
begin

text \<open>
  The batch runner \<open>scenario_runner.py\<close>: every scenario file of a directory in order, a cleanup around
  each, one retry of a failed scenario, and signals that stop the batch or skip the scenario that is
  running. The subprocesses, the file system and the clock are the world \<open>'w\<close> of the calls in
  \<open>runner_ops\<close>; a call also reports the signals that were delivered while it ran. Forwarding a signal
  to the running \<open>manager.py\<close> happens inside that call and shows in the exit code it returns.
\<close>

section \<open>State\<close>

record runner_config =
  rc_scenario_dir :: string
  rc_namespace :: string
  rc_image_prefix :: string
  rc_proxy :: string
  rc_cleanup_wait :: int
  rc_in_cluster :: bool
  rc_engine :: string
  rc_distributor_startup_timeout :: "int option"

text \<open>One entry of \<open>self.results\<close>; \<open>rr_retry\<close> holds the keys \<open>retry_success\<close> and \<open>retry_duration\<close>.\<close>

record run_result =
  rr_scenario :: string
  rr_success :: bool
  rr_skipped :: bool
  rr_duration :: rat
  rr_timestamp :: string
  rr_retry :: "(bool \<times> rat) option"

record runner_state =
  rs_results :: "run_result list"
  rs_current :: "string option"
  rs_stop :: bool
  rs_skip :: bool

record run_status =
  st_current :: "string option"
  st_timestamp :: string
  st_completed :: nat
  st_total :: nat
  st_stop :: bool
  st_skip :: bool

datatype run_signal = StopSignal | SkipSignal

fun handle_signal :: "runner_state \<Rightarrow> run_signal \<Rightarrow> runner_state" where
  "handle_signal s StopSignal = s\<lparr>rs_stop := True\<rparr>"
| "handle_signal s SkipSignal = s\<lparr>rs_skip := True\<rparr>"

type_synonym ('w, 'a) signalled = "'w \<Rightarrow> (exn + 'a) \<times> run_signal list \<times> 'w"

type_synonym ('w, 'a) run_io = "('w \<times> runner_state, 'a) io"

text \<open>
  \<open>ro_clean\<close> is \<open>subprocess.run\<close> of the cleanup with its exit code, \<open>ro_run\<close> the started manager up to
  its exit code, \<open>ro_walk\<close> the paths \<open>os.walk\<close> gives.
\<close>

record 'w runner_ops =
  ro_walk :: "'w \<Rightarrow> string list"
  ro_clean :: "string list \<Rightarrow> ('w, int) signalled"
  ro_run :: "string list \<Rightarrow> ('w, int) signalled"
  ro_sleep :: "int \<Rightarrow> ('w, unit) signalled"
  ro_write_status :: "run_status \<Rightarrow> ('w, unit) signalled"
  ro_save :: "run_result list \<Rightarrow> ('w, unit) signalled"
  ro_clock :: "'w \<Rightarrow> rat"
  ro_timestamp :: "'w \<Rightarrow> string"

definition delivered :: "('w, 'a) signalled \<Rightarrow> ('w, 'a) run_io" where
  "delivered m = (\<lambda>(w, s). case m w of (r, sigs, w') \<Rightarrow> (r, (w', foldl handle_signal s sigs)))"

definition update_state :: "(runner_state \<Rightarrow> runner_state) \<Rightarrow> ('w, unit) run_io" where
  "update_state f = (\<lambda>(w, s). (Inr (), (w, f s)))"

definition read_state :: "(runner_state \<Rightarrow> 'w \<Rightarrow> 'a) \<Rightarrow> ('w, 'a) run_io" where
  "read_state f = (\<lambda>(w, s). (Inr (f s w), (w, s)))"

section \<open>Operations\<close>

definition status_of :: "runner_state \<Rightarrow> string \<Rightarrow> run_status" where
  "status_of s timestamp = \<lparr>st_current = rs_current s, st_timestamp = timestamp,
     st_completed = length (filter rr_success (rs_results s)), st_total = length (rs_results s),
     st_stop = rs_stop s, st_skip = rs_skip s\<rparr>"

definition write_current_status :: "runner_config \<Rightarrow> 'w runner_ops \<Rightarrow> ('w, unit) run_io" where
  "write_current_status cfg ops =
     (if rc_in_cluster cfg
      then io_bind (read_state (\<lambda>s w. status_of s (ro_timestamp ops w))) (\<lambda>st. delivered (ro_write_status ops st))
      else io_ret ())"

text \<open>\<open>cmd.insert(4, "--in-cluster")\<close>.\<close>

definition insert_in_cluster :: "runner_config \<Rightarrow> string list \<Rightarrow> string list" where
  "insert_in_cluster cfg cmd =
     (if rc_in_cluster cfg then take 4 cmd @ [''--in-cluster''] @ drop 4 cmd else cmd)"

definition clean_command :: "runner_config \<Rightarrow> string list" where
  "clean_command cfg = insert_in_cluster cfg
     [''python'', ''manager.py'', ''--driver'', ''kubernetes'', ''--engine'', rc_engine cfg, ''clean'',
      ''--reuse-namespace'', ''--namespace'', rc_namespace cfg, ''--image-prefix'', rc_image_prefix cfg]"

definition run_command :: "runner_config \<Rightarrow> string \<Rightarrow> string list" where
  "run_command cfg scenario_file =
     insert_in_cluster cfg
       [''python'', ''manager.py'', ''--driver'', ''kubernetes'', ''--engine'', rc_engine cfg, ''run'',
        ''--namespace'', rc_namespace cfg, ''--reuse-namespace'', ''--image-prefix'', rc_image_prefix cfg,
        ''--scenario'', scenario_file]
     @ (if \<not> rc_in_cluster cfg \<and> rc_proxy cfg \<noteq> [] then [''--proxy'', rc_proxy cfg] else [])
     @ (case rc_distributor_startup_timeout cfg of
          None \<Rightarrow> [] | Some t \<Rightarrow> [''--distributor-startup-timeout'', str_int t])"

definition cleanup_kubernetes :: "runner_config \<Rightarrow> 'w runner_ops \<Rightarrow> ('w, bool) run_io" where
  "cleanup_kubernetes cfg ops =
     io_catch
       (io_bind (delivered (ro_clean ops (clean_command cfg))) (\<lambda>code.
          if code = 0 then io_seq (delivered (ro_sleep ops (rc_cleanup_wait cfg))) (io_ret True)
          else io_ret False))
       is_exception (\<lambda>_. io_ret False)"

definition run_scenario :: "runner_config \<Rightarrow> 'w runner_ops \<Rightarrow> string \<Rightarrow> ('w, bool \<times> rat) run_io" where
  "run_scenario cfg ops scenario_file =
     io_seq (update_state (\<lambda>s. s\<lparr>rs_current := Some scenario_file\<rparr>))
     (io_seq (write_current_status cfg ops)
     (io_bind (read_state (\<lambda>s w. ro_clock ops w)) (\<lambda>start_time.
     io_bind (io_catch (io_bind (delivered (ro_run ops (run_command cfg scenario_file))) (\<lambda>code. io_ret (code = 0)))
         is_exception (\<lambda>_. io_ret False)) (\<lambda>success.
     io_bind (read_state (\<lambda>s w. ro_clock ops w)) (\<lambda>now. io_ret (success, now - start_time))))))"

text \<open>\<open>file.endswith('.json')\<close> of the paths, sorted by code points.\<close>

definition is_json_file :: "string \<Rightarrow> bool" where
  "is_json_file p = (starts_with (rev ''.json'') (rev p))"

definition get_scenarios :: "'w runner_ops \<Rightarrow> 'w \<Rightarrow> string list" where
  "get_scenarios ops w = sort (filter is_json_file (ro_walk ops w))"

definition start_index :: "string option \<Rightarrow> string list \<Rightarrow> nat" where
  "start_index start_from scenarios =
     (case start_from of
        None \<Rightarrow> 0
      | Some t \<Rightarrow> if t = [] then 0
                  else (let n = length (takeWhile (\<lambda>s. \<not> contains t s) scenarios)
                        in if n < length scenarios then n else 0))"

definition add_result :: "'w runner_ops \<Rightarrow> string \<Rightarrow> bool \<Rightarrow> bool \<Rightarrow> rat \<Rightarrow> ('w, unit) run_io" where
  "add_result ops scenario success skipped duration = (\<lambda>(w, s).
     (Inr (), (w, s\<lparr>rs_results := rs_results s @ [\<lparr>rr_scenario = scenario, rr_success = success,
        rr_skipped = skipped, rr_duration = duration, rr_timestamp = ro_timestamp ops w, rr_retry = None\<rparr>]\<rparr>)))"

definition note_retry :: "bool \<Rightarrow> rat \<Rightarrow> runner_state \<Rightarrow> runner_state" where
  "note_retry success duration s =
     s\<lparr>rs_results := butlast (rs_results s) @ [(last (rs_results s))\<lparr>rr_retry := Some (success, duration)\<rparr>]\<rparr>"

text \<open>One scenario of the loop of \<open>run_all\<close>: the run, its entry, and the retry of a failed run.\<close>

definition retry_scenario :: "runner_config \<Rightarrow> 'w runner_ops \<Rightarrow> string \<Rightarrow> ('w, unit) run_io" where
  "retry_scenario cfg ops scenario =
     io_bind (cleanup_kubernetes cfg ops) (\<lambda>cleaned.
       if cleaned
       then io_bind (run_scenario cfg ops scenario) (\<lambda>(success, duration).
              update_state (note_retry success duration))
       else io_ret ())"

definition record_scenario :: "runner_config \<Rightarrow> 'w runner_ops \<Rightarrow> string \<Rightarrow> ('w, unit) run_io" where
  "record_scenario cfg ops scenario =
     io_bind (run_scenario cfg ops scenario) (\<lambda>(success, duration) (w, s).
       if rs_skip s
       then io_seq (add_result ops scenario False True duration) (update_state (\<lambda>s. s\<lparr>rs_skip := False\<rparr>)) (w, s)
       else io_seq (add_result ops scenario success False duration)
         (\<lambda>(w, s). if \<not> success \<and> \<not> rs_stop s then retry_scenario cfg ops scenario (w, s) else (Inr (), (w, s)))
         (w, s))"

definition save_results :: "'w runner_ops \<Rightarrow> ('w, unit) run_io" where
  "save_results ops = (\<lambda>(w, s). delivered (ro_save ops (rs_results s)) (w, s))"

definition cleanup_before_next :: "runner_config \<Rightarrow> 'w runner_ops \<Rightarrow> string list \<Rightarrow> ('w, unit) run_io" where
  "cleanup_before_next cfg ops rest = (\<lambda>(w, s).
     (if \<not> rs_stop s \<and> rest \<noteq> [] then io_seq (cleanup_kubernetes cfg ops) (io_ret ()) else io_ret ()) (w, s))"

text \<open>The loop over the scenarios that are left; only after the last of them no cleanup is made.\<close>

fun run_scenarios :: "runner_config \<Rightarrow> 'w runner_ops \<Rightarrow> string list \<Rightarrow> ('w, unit) run_io" where
  "run_scenarios cfg ops [] = io_ret ()"
| "run_scenarios cfg ops (scenario # rest) = (\<lambda>(w, s).
     if rs_stop s then (Inr (), (w, s))
     else io_seq (record_scenario cfg ops scenario)
       (io_seq (cleanup_before_next cfg ops rest)
       (io_seq (save_results ops) (run_scenarios cfg ops rest))) (w, s))"

definition is_keyboard_interrupt :: "exn \<Rightarrow> bool" where
  "is_keyboard_interrupt e = (exn_class e = KKeyboardInterrupt)"

definition run_all :: "runner_config \<Rightarrow> 'w runner_ops \<Rightarrow> string option \<Rightarrow> ('w, unit) run_io" where
  "run_all cfg ops start_from = (\<lambda>(w, s).
     (let scenarios = get_scenarios ops w
      in if scenarios = [] then (Inr (), (w, s))
         else io_finally
           (io_catch
              (io_seq (cleanup_kubernetes cfg ops)
                 (run_scenarios cfg ops (drop (start_index start_from scenarios) scenarios)))
              is_keyboard_interrupt (\<lambda>_. update_state (\<lambda>s. s\<lparr>rs_stop := True\<rparr>)))
           (io_seq (cleanup_kubernetes cfg ops) (save_results ops)) (w, s)))"

definition new_runner :: runner_state where
  "new_runner = \<lparr>rs_results = [], rs_current = None, rs_stop = False, rs_skip = False\<rparr>"

definition basename :: "string \<Rightarrow> string" where
  "basename p = last (split_on (CHR ''/'') p)"

text \<open>The summary: a scenario counts as successful when its run or its retry was.\<close>

definition successful :: "run_result \<Rightarrow> bool" where
  "successful r = (rr_success r \<or> (case rr_retry r of None \<Rightarrow> False | Some (ok, _) \<Rightarrow> ok))"

definition summary :: "run_result list \<Rightarrow> nat \<times> nat \<times> string list" where
  "summary results =
     (let n = length (filter successful results)
      in (n, length results - n, map (basename \<circ> rr_scenario) (filter (\<lambda>r. \<not> successful r) results)))"

section \<open>What each call may change\<close>

definition same_results :: "runner_state \<Rightarrow> runner_state \<Rightarrow> bool" where
  "same_results s s' = (rs_results s' = rs_results s \<and> (rs_stop s \<longrightarrow> rs_stop s'))"

interpretation same: kept_relation same_results
  by unfold_locales (simp_all add: same_results_def)

lemma handle_signals [simp]:
  "rs_results (foldl handle_signal s sigs) = rs_results s"
  "rs_current (foldl handle_signal s sigs) = rs_current s"
  "rs_skip (foldl handle_signal s sigs) \<longleftrightarrow> rs_skip s \<or> SkipSignal \<in> set sigs"
  "rs_stop (foldl handle_signal s sigs) \<longleftrightarrow> rs_stop s \<or> StopSignal \<in> set sigs"
proof (induction sigs arbitrary: s)
  case (Cons x sigs)
  case 1 show ?case using Cons(1) [of "handle_signal s x"] by (cases x) simp_all
  case 2 show ?case using Cons(2) [of "handle_signal s x"] by (cases x) simp_all
  case 3 show ?case using Cons(3) [of "handle_signal s x"] by (cases x) auto
  case 4 show ?case using Cons(4) [of "handle_signal s x"] by (cases x) auto
qed simp_all

lemma delivered_same: "keeps same_results (delivered m)"
  by (rule keepsI) (auto simp: delivered_def same_results_def split: prod.splits)

lemma read_same: "keeps same_results (read_state f)"
  by (rule keepsI) (auto simp: read_state_def same_results_def)

lemma current_same: "keeps same_results (update_state (\<lambda>s. s\<lparr>rs_current := x\<rparr>))"
  by (rule keepsI) (auto simp: update_state_def same_results_def)

lemma save_same: "keeps same_results (save_results ops)"
  unfolding save_results_def by (rule keeps_client) (rule delivered_same)

lemmas same_intros = same.kept_intros delivered_same read_same current_same save_same

lemma cleanup_same: "keeps same_results (cleanup_kubernetes cfg ops)"
  unfolding cleanup_kubernetes_def by (intro same_intros)

lemma run_same: "keeps same_results (run_scenario cfg ops f)"
  unfolding run_scenario_def write_current_status_def by (intro same_intros)

section \<open>One entry per scenario\<close>

text \<open>A well-formed entry: a skipped run is no success, and only a failed run was retried.\<close>

definition wf_result :: "run_result \<Rightarrow> bool" where
  "wf_result r = ((rr_skipped r \<longrightarrow> \<not> rr_success r \<and> rr_retry r = None) \<and> (rr_retry r \<noteq> None \<longrightarrow> \<not> rr_success r))"

lemma retry_notes:
  assumes "retry_scenario cfg ops f (w, s) = (r, (w', s'))" "rs_results s = old @ [x]"
  shows "\<exists>t. rs_results s' = old @ [x\<lparr>rr_retry := t\<rparr>] \<and> (t = rr_retry x \<or> t \<noteq> None)"
proof -
  obtain q w1 s1 where c: "cleanup_kubernetes cfg ops (w, s) = (q, (w1, s1))" by (metis prod_cases3)
  have s1: "rs_results s1 = old @ [x]" using keepsD [OF cleanup_same c] assms(2) by (simp add: same_results_def)
  have unchanged: ?thesis if "s' = s1" using s1 that by (metis (full_types) run_result.surjective run_result.update_convs(6))
  show ?thesis
  proof (cases q)
    case (Inl e)
    then show ?thesis using assms(1) c unchanged by (simp add: retry_scenario_def io_bind_def)
  next
    case (Inr cleaned)
    show ?thesis
    proof (cases cleaned)
      case False
      then show ?thesis using Inr assms(1) c unchanged by (simp add: retry_scenario_def io_bind_def io_ret_def)
    next
      case True
      obtain q2 w2 s2 where run: "run_scenario cfg ops f (w1, s1) = (q2, (w2, s2))" by (metis prod_cases3)
      have s2: "rs_results s2 = old @ [x]" using keepsD [OF run_same run] s1 by (simp add: same_results_def)
      show ?thesis
      proof (cases q2)
        case (Inl e)
        then have "s' = s2" using assms(1) c Inr True run by (simp add: retry_scenario_def io_bind_def)
        then show ?thesis using s2 by (metis (full_types) run_result.surjective run_result.update_convs(6))
      next
        case (Inr p)
        then have "s' = note_retry (fst p) (snd p) s2"
          using assms(1) c \<open>q = Inr cleaned\<close> True run
          by (simp add: retry_scenario_def io_bind_def update_state_def split: prod.splits)
        then show ?thesis using s2 by (auto simp: note_retry_def)
      qed
    qed
  qed
qed

lemma record_entry:
  assumes rec: "record_scenario cfg ops f (w, s) = (r, (w', s'))"
  shows "(isl r \<and> rs_results s' = rs_results s)
    \<or> (\<exists>x ok d w1 s1. rs_results s' = rs_results s @ [x] \<and> wf_result x \<and> rr_scenario x = f
        \<and> run_scenario cfg ops f (w, s) = (Inr (ok, d), (w1, s1)) \<and> rr_duration x = d
        \<and> rr_skipped x = rs_skip s1 \<and> rr_success x = (ok \<and> \<not> rs_skip s1))"
proof -
  obtain q w1 s1 where run: "run_scenario cfg ops f (w, s) = (q, (w1, s1))" by (metis prod_cases3)
  have s1: "rs_results s1 = rs_results s" using keepsD [OF run_same run] by (simp add: same_results_def)
  show ?thesis
  proof (cases q)
    case (Inl e)
    then have "r = Inl e" "s' = s1" using rec run by (simp_all add: record_scenario_def io_bind_def)
    then show ?thesis using s1 by simp
  next
    case (Inr p)
    obtain ok d where p: "p = (ok, d)" by (cases p)
    define x where "x = \<lparr>rr_scenario = f, rr_success = ok \<and> \<not> rs_skip s1, rr_skipped = rs_skip s1,
      rr_duration = d, rr_timestamp = ro_timestamp ops w1, rr_retry = None\<rparr>"
    define s2 where "s2 = s1\<lparr>rs_results := rs_results s1 @ [x]\<rparr>"
    have "\<exists>t. rs_results s' = rs_results s @ [x\<lparr>rr_retry := t\<rparr>] \<and> (t \<noteq> None \<longrightarrow> \<not> rr_success x \<and> \<not> rr_skipped x)"
    proof (cases "\<not> rs_skip s1 \<and> \<not> ok \<and> \<not> rs_stop s1")
      case True
      then have "retry_scenario cfg ops f (w1, s2) = (r, (w', s'))"
        using rec run Inr p
        by (simp add: record_scenario_def io_bind_def io_seq_def add_result_def x_def s2_def)
      from retry_notes [OF this, of "rs_results s" x] show ?thesis
        using True by (auto simp: s2_def s1 x_def)
    next
      case False
      then have "rs_results s' = rs_results s @ [x]"
        using rec run Inr p s1
        by (auto simp: record_scenario_def io_bind_def io_seq_def add_result_def update_state_def x_def split: if_splits)
      then show ?thesis by (intro exI [of _ None]) (simp add: x_def)
    qed
    then obtain t where t: "rs_results s' = rs_results s @ [x\<lparr>rr_retry := t\<rparr>]"
      "t \<noteq> None \<longrightarrow> \<not> rr_success x \<and> \<not> rr_skipped x" by blast
    moreover have "wf_result (x\<lparr>rr_retry := t\<rparr>)" using t(2) by (cases t) (auto simp: wf_result_def x_def)
    moreover have "run_scenario cfg ops f (w, s) = (Inr (ok, d), (w1, s1))" using run Inr p by simp
    ultimately show ?thesis
      by (intro disjI2 exI [of _ "x\<lparr>rr_retry := t\<rparr>"] exI [of _ ok] exI [of _ d] exI [of _ w1] exI [of _ s1])
        (simp add: x_def)
  qed
qed

text \<open>The entries a batch adds: one for each of the first scenarios, in order.\<close>

definition entries_for :: "string list \<Rightarrow> run_result list \<Rightarrow> bool" where
  "entries_for fs xs = (map rr_scenario xs = take (length xs) fs \<and> list_all wf_result xs)"

lemma entries_for_simps:
  "entries_for fs []"
  "entries_for (f # fs) (x # xs) \<longleftrightarrow> rr_scenario x = f \<and> wf_result x \<and> entries_for fs xs"
  by (auto simp: entries_for_def)

lemma record_returns_entry:
  assumes "record_scenario cfg ops f (w, s) = (Inr u, (w', s'))"
  shows "\<exists>x. rs_results s' = rs_results s @ [x] \<and> wf_result x \<and> rr_scenario x = f"
  using record_entry [OF assms] by auto

lemma run_scenarios_entries:
  "run_scenarios cfg ops fs (w, s) = (r, (w', s')) \<Longrightarrow>
     \<exists>xs. rs_results s' = rs_results s @ xs \<and> entries_for fs xs
       \<and> (r = Inr () \<longrightarrow> \<not> rs_stop s' \<longrightarrow> length xs = length fs)"
proof (induction fs arbitrary: w s)
  case Nil
  then show ?case by (auto simp: io_ret_def entries_for_simps)
next
  case (Cons f fs)
  show ?case
  proof (cases "rs_stop s")
    case True
    then show ?thesis using Cons.prems by (auto simp: entries_for_simps)
  next
    case False
    let ?between = "cleanup_before_next cfg ops fs"
    let ?rest = "io_seq ?between (io_seq (save_results ops) (run_scenarios cfg ops fs))"
    have run: "io_seq (record_scenario cfg ops f) ?rest (w, s) = (r, (w', s'))"
      using Cons.prems False by simp
    obtain q w1 s1 where rec: "record_scenario cfg ops f (w, s) = (q, (w1, s1))" by (metis prod_cases3)
    show ?thesis
    proof (cases q)
      case (Inl e)
      then have "r = Inl e" "s' = s1" using run rec by (simp_all add: io_seq_def io_bind_def)
      then show ?thesis using record_entry [OF rec] Inl
        by (metis entries_for_simps append_Nil2 sum.distinct(1))
    next
      case (Inr u)
      obtain x where x: "rs_results s1 = rs_results s @ [x]" "wf_result x" "rr_scenario x = f"
        using record_returns_entry [OF rec [unfolded Inr]] by blast
      have rest: "?rest (w1, s1) = (r, (w', s'))" using run rec Inr by (simp add: io_seq_def io_bind_def)
      have between: "keeps same_results ?between"
        unfolding cleanup_before_next_def by (rule keeps_client) (intro same_intros cleanup_same)
      obtain q2 w2 s2 where b: "?between (w1, s1) = (q2, (w2, s2))" by (metis prod_cases3)
      obtain q3 w3 s3 where v: "save_results ops (w2, s2) = (q3, (w3, s3))" by (metis prod_cases3)
      have s2: "rs_results s2 = rs_results s @ [x]" using keepsD [OF between b] x by (simp add: same_results_def)
      have s3: "rs_results s3 = rs_results s @ [x]" using keepsD [OF save_same v] s2 by (simp add: same_results_def)
      have one: "entries_for (f # fs) [x]" using x by (simp add: entries_for_simps)
      show ?thesis
      proof (cases "isl q2 \<or> isl q3")
        case True
        then have "rs_results s' = rs_results s @ [x]" "isl r"
          using rest b v s2 s3 by (cases q2; cases q3; auto simp: io_seq_def io_bind_def)+
        then show ?thesis using one by auto
      next
        case False
        then have "run_scenarios cfg ops fs (w3, s3) = (r, (w', s'))"
          using rest b v by (cases q2; cases q3) (auto simp: io_seq_def io_bind_def)
        from Cons.IH [OF this] s3 x show ?thesis
          by (auto simp: entries_for_simps)
      qed
    qed
  qed
qed

section \<open>The batch\<close>

text \<open>The runner with the result files it writes noted.\<close>

definition noting_saves :: "'w runner_ops \<Rightarrow> ('w \<times> run_result list list) runner_ops" where
  "noting_saves ops = \<lparr>ro_walk = ro_walk ops \<circ> fst,
     ro_clean = (\<lambda>cmd (w, l). case ro_clean ops cmd w of (r, sigs, w') \<Rightarrow> (r, sigs, (w', l))),
     ro_run = (\<lambda>cmd (w, l). case ro_run ops cmd w of (r, sigs, w') \<Rightarrow> (r, sigs, (w', l))),
     ro_sleep = (\<lambda>n (w, l). case ro_sleep ops n w of (r, sigs, w') \<Rightarrow> (r, sigs, (w', l))),
     ro_write_status = (\<lambda>st (w, l). case ro_write_status ops st w of (r, sigs, w') \<Rightarrow> (r, sigs, (w', l))),
     ro_save = (\<lambda>rs (w, l). case ro_save ops rs w of (r, sigs, w') \<Rightarrow> (r, sigs, (w', l @ [rs]))),
     ro_clock = ro_clock ops \<circ> fst, ro_timestamp = ro_timestamp ops \<circ> fst\<rparr>"

lemma saved_last:
  assumes "save_results (noting_saves ops) ((w, l), s) = (r, ((w', l'), s'))"
  shows "l' = l @ [rs_results s]" "rs_results s' = rs_results s"
  using assms by (auto simp: save_results_def delivered_def noting_saves_def split: prod.splits)

lemma finish_saves:
  assumes "io_seq (cleanup_kubernetes cfg (noting_saves ops)) (save_results (noting_saves ops)) (w, s) = (r, ((w', l'), s'))"
  shows "rs_results s' = rs_results s" "r = Inr () \<Longrightarrow> l' \<noteq> [] \<and> last l' = rs_results s"
proof -
  obtain q w1 l1 s1 where c: "cleanup_kubernetes cfg (noting_saves ops) (w, s) = (q, ((w1, l1), s1))" by (metis surj_pair)
  have s1: "rs_results s1 = rs_results s" using keepsD [OF cleanup_same c] by (simp add: same_results_def)
  have sv: "rs_results s' = rs_results s \<and> l' = l1 @ [rs_results s]" if "q = Inr x" for x
    using assms c s1 that saved_last [of ops w1 l1 s1 r w' l' s']
    by (simp add: io_seq_def io_bind_def)
  show "rs_results s' = rs_results s"
    using assms c s1 sv by (cases q) (auto simp: io_seq_def io_bind_def)
  show "r = Inr () \<Longrightarrow> l' \<noteq> [] \<and> last l' = rs_results s"
    using assms c s1 sv by (cases q) (auto simp: io_seq_def io_bind_def)
qed

lemma scenarios_noting [simp]: "get_scenarios (noting_saves ops) (w, l) = get_scenarios ops w"
  by (simp add: get_scenarios_def noting_saves_def)

lemma batch_results_in_order_facts:
  assumes "run_all cfg (noting_saves ops) start_from ((w, []), new_runner) = (r, ((w', l), s'))"
    and "get_scenarios ops w \<noteq> []"
  shows "\<exists>n. map rr_scenario (rs_results s')
        = take n (drop (start_index start_from (get_scenarios ops w)) (get_scenarios ops w))
      \<and> (r = Inr () \<longrightarrow> rs_stop s' \<or> n = length (get_scenarios ops w) - start_index start_from (get_scenarios ops w))"
    and "list_all wf_result (rs_results s')"
    and "r = Inr () \<longrightarrow> l \<noteq> [] \<and> last l = rs_results s'"
proof -
  let ?ops = "noting_saves ops"
  let ?fs = "drop (start_index start_from (get_scenarios ops w)) (get_scenarios ops w)"
  let ?body = "io_seq (cleanup_kubernetes cfg ?ops) (run_scenarios cfg ?ops ?fs)"
  let ?final = "io_seq (cleanup_kubernetes cfg ?ops) (save_results ?ops)"
  obtain q w1 l1 s1 where body: "?body ((w, []), new_runner) = (q, ((w1, l1), s1))" by (metis surj_pair)
  have s1: "\<exists>xs. rs_results s1 = xs \<and> entries_for ?fs xs \<and> (q = Inr () \<longrightarrow> \<not> rs_stop s1 \<longrightarrow> length xs = length ?fs)"
  proof -
    obtain p w0 l0 s0 where c: "cleanup_kubernetes cfg ?ops ((w, []), new_runner) = (p, ((w0, l0), s0))" by (metis surj_pair)
    have s0: "rs_results s0 = []" using keepsD [OF cleanup_same c] by (simp add: same_results_def new_runner_def)
    show ?thesis
    proof (cases p)
      case (Inl e)
      then show ?thesis using body c s0 by (auto simp: io_seq_def io_bind_def entries_for_simps)
    next
      case (Inr b)
      then have "run_scenarios cfg ?ops ?fs ((w0, l0), s0) = (q, ((w1, l1), s1))"
        using body c by (simp add: io_seq_def io_bind_def)
      from run_scenarios_entries [OF this] s0 show ?thesis by simp
    qed
  qed
  define s2 where "s2 = (case q of Inl e \<Rightarrow> if is_keyboard_interrupt e then s1\<lparr>rs_stop := True\<rparr> else s1 | Inr u \<Rightarrow> s1)"
  define q2 where "q2 = (case q of Inl e \<Rightarrow> if is_keyboard_interrupt e then Inr () else q | Inr u \<Rightarrow> q)"
  have caught: "io_catch ?body is_keyboard_interrupt (\<lambda>_. update_state (\<lambda>s. s\<lparr>rs_stop := True\<rparr>)) ((w, []), new_runner)
      = (q2, ((w1, l1), s2))"
    using body by (cases q) (auto simp: io_catch_def q2_def s2_def update_state_def)
  obtain p w3 l3 s3 where fin: "?final ((w1, l1), s2) = (p, ((w3, l3), s3))" by (metis surj_pair)
  have "io_finally (io_catch ?body is_keyboard_interrupt (\<lambda>_. update_state (\<lambda>s. s\<lparr>rs_stop := True\<rparr>))) ?final
      ((w, []), new_runner) = (r, ((w', l), s'))"
    using assms by (simp add: run_all_def Let_def)
  then have r: "r = (case p of Inl e \<Rightarrow> Inl e | Inr _ \<Rightarrow> q2)" "s' = s3" "l = l3"
    using caught fin by (auto simp: io_finally_def split: sum.splits)
  have res: "rs_results s' = rs_results s1"
    using finish_saves(1) [OF fin] r by (auto simp: s2_def split: sum.splits)
  obtain xs where xs: "rs_results s' = xs" "entries_for ?fs xs" "q = Inr () \<longrightarrow> \<not> rs_stop s1 \<longrightarrow> length xs = length ?fs"
    using s1 res by auto
  have stop_kept: "rs_stop s2 \<Longrightarrow> rs_stop s'"
    using keepsD [OF same.kept_seq [OF cleanup_same save_same] fin] r(2) by (simp add: same_results_def)
  show "list_all wf_result (rs_results s')" using xs by (simp add: entries_for_def)
  show "r = Inr () \<longrightarrow> l \<noteq> [] \<and> last l = rs_results s'"
    using finish_saves [OF fin] r by (auto split: sum.splits)
  show "\<exists>n. map rr_scenario (rs_results s') = take n ?fs
      \<and> (r = Inr () \<longrightarrow> rs_stop s' \<or> n = length (get_scenarios ops w) - start_index start_from (get_scenarios ops w))"
    using xs stop_kept r(1)
    by (intro exI [of _ "length xs"]) (auto simp: entries_for_def q2_def s2_def split: sum.splits if_splits)
qed

text \<open>
  Claim C27. However a batch ends, its results are one well-formed entry for each of the first
  scenarios of the sorted files from the requested one on, in order; it is every one of them unless
  a stop was requested or the batch failed, and the last results file written holds exactly them.
\<close>

theorem batch_results_in_order:
  assumes "run_all cfg (noting_saves ops) start_from ((w, []), new_runner) = (r, ((w', l), s'))"
    and "get_scenarios ops w \<noteq> []"
  shows "(\<exists>n. map rr_scenario (rs_results s')
        = take n (drop (start_index start_from (get_scenarios ops w)) (get_scenarios ops w))
      \<and> (r = Inr () \<longrightarrow> rs_stop s' \<or> n = length (get_scenarios ops w) - start_index start_from (get_scenarios ops w)))
    \<and> list_all wf_result (rs_results s') \<and> (r = Inr () \<longrightarrow> l \<noteq> [] \<and> last l = rs_results s')"
  by (intro conjI batch_results_in_order_facts [OF assms])


text \<open>Two scenarios: the first fails, and a skip signal ends its retry; the second succeeds.\<close>

definition example_config :: runner_config where
  "example_config = \<lparr>rc_scenario_dir = ''s'', rc_namespace = ''ns'', rc_image_prefix = [], rc_proxy = [],
     rc_cleanup_wait = 90, rc_in_cluster = False, rc_engine = ''joinmarket'', rc_distributor_startup_timeout = None\<rparr>"

definition skip_in_retry :: "nat runner_ops" where
  "skip_in_retry = \<lparr>ro_walk = (\<lambda>w. [''s/b.json'', ''s/notes.txt'', ''s/a.json'']),
     ro_clean = (\<lambda>cmd w. (Inr 0, [], w)),
     ro_run = (\<lambda>cmd w. (Inr (if w = 0 then 1 else if w = 1 then 143 else 0), if w = 1 then [SkipSignal] else [], w + 1)),
     ro_sleep = (\<lambda>n w. (Inr (), [], w)), ro_write_status = (\<lambda>st w. (Inr (), [], w)), ro_save = (\<lambda>rs w. (Inr (), [], w)),
     ro_clock = (\<lambda>w. of_nat w), ro_timestamp = (\<lambda>w. [])\<rparr>"

theorem batch_results_in_order_witness:
  "\<exists>w' l s'. run_all example_config (noting_saves skip_in_retry) None ((0, []), new_runner) = (Inr (), ((w', l), s'))
     \<and> map rr_scenario (rs_results s') = [''s/a.json'', ''s/b.json''] \<and> last l = rs_results s'"
proof -
  obtain r w' l s' where run: "run_all example_config (noting_saves skip_in_retry) None ((0, []), new_runner)
      = (r, ((w', l), s'))" by (metis surj_pair)
  have files: "get_scenarios skip_in_retry 0 = [''s/a.json'', ''s/b.json'']" by code_simp
  have "fst (run_all example_config (noting_saves skip_in_retry) None ((0, []), new_runner)) = Inr ()
      \<and> \<not> rs_stop (snd (snd (run_all example_config (noting_saves skip_in_retry) None ((0, []), new_runner))))"
    by code_simp
  then have r: "r = Inr ()" "\<not> rs_stop s'" by (simp_all add: run)
  show ?thesis
    using batch_results_in_order [OF run] run r files by (auto simp: start_index_def)
qed

text \<open>
  The skip flag outlives the retry during which it was set: the entry of the next scenario says
  skipped although that scenario ran to the end with exit code 0.
\<close>

lemma skip_in_retry_skips_next:
  "map (\<lambda>x. (rr_scenario x, rr_success x, rr_skipped x, rr_retry x))
     (rs_results (snd (snd (run_all example_config skip_in_retry None (0, new_runner)))))
   = [(''s/a.json'', False, False, Some (False, 1)), (''s/b.json'', False, True, None)]"
  by code_simp

text \<open>What the retry of a failed run adds to its entry.\<close>

lemma cleanup_outcome:
  assumes "cleanup_kubernetes cfg ops (w, s) = (Inr b, (w3, s3))"
  shows "b \<longleftrightarrow> (\<exists>g2 w2 g3. ro_clean ops (clean_command cfg) w = (Inr 0, g2, w2)
            \<and> ro_sleep ops (rc_cleanup_wait cfg) w2 = (Inr (), g3, w3))"
    and "\<not> b \<Longrightarrow> \<not> (\<exists>g2 w2 g3 w4. ro_clean ops (clean_command cfg) w = (Inr 0, g2, w2)
            \<and> ro_sleep ops (rc_cleanup_wait cfg) w2 = (Inr (), g3, w4))"
  using assms unfolding cleanup_kubernetes_def io_catch_def io_bind_def io_seq_def io_ret_def delivered_def
  by (auto split: prod.splits sum.splits if_splits)

lemma run_outcome:
  assumes "run_scenario cfg ops f (w, s) = (Inr (ok, d), (w', s'))" "\<not> rc_in_cluster cfg"
  shows "ok \<longleftrightarrow> (\<exists>g w4. ro_run ops (run_command cfg f) w = (Inr 0, g, w4))"
  using assms unfolding run_scenario_def write_current_status_def io_catch_def io_bind_def io_seq_def
    io_ret_def delivered_def update_state_def read_state_def
  by (auto split: prod.splits sum.splits if_splits)

lemma retry_outcome:
  assumes run: "retry_scenario cfg ops f (w, s) = (Inr (), (w', s'))" and old: "rs_results s = old @ [x]"
    and "\<not> rc_in_cluster cfg" "rr_retry x = None"
  obtains t where "rs_results s' = old @ [x\<lparr>rr_retry := t\<rparr>]"
    "t \<noteq> None \<longleftrightarrow> (\<exists>g2 w2 g3 w3. ro_clean ops (clean_command cfg) w = (Inr 0, g2, w2)
        \<and> ro_sleep ops (rc_cleanup_wait cfg) w2 = (Inr (), g3, w3))"
    "\<And>g2 w2 g3 w3. ro_clean ops (clean_command cfg) w = (Inr 0, g2, w2) \<Longrightarrow>
        ro_sleep ops (rc_cleanup_wait cfg) w2 = (Inr (), g3, w3) \<Longrightarrow>
        \<exists>d. t = Some (\<exists>g4 w4. ro_run ops (run_command cfg f) w3 = (Inr 0, g4, w4), d)"
proof -
  obtain b w1 s1 where c: "cleanup_kubernetes cfg ops (w, s) = (Inr b, (w1, s1))"
    using run by (auto simp: retry_scenario_def io_bind_Inr_iff)
  have s1: "rs_results s1 = old @ [x]" using keepsD [OF cleanup_same c] old by (simp add: same_results_def)
  show thesis
  proof (cases b)
    case False
    then have "s' = s1" using run c by (simp add: retry_scenario_def io_bind_def io_ret_def)
    then have "rs_results s' = old @ [x\<lparr>rr_retry := None\<rparr>]"
      using s1 assms(4) by (metis (full_types) run_result.surjective run_result.update_convs(6))
    then show thesis using that [of None] cleanup_outcome(2) [OF c False] by blast
  next
    case True
    then obtain ok d w2 s2 where r: "run_scenario cfg ops f (w1, s1) = (Inr (ok, d), (w2, s2))"
      and s': "s' = note_retry ok d s2"
      using run c by (auto simp: retry_scenario_def io_bind_Inr_iff update_state_def)
    have "rs_results s2 = old @ [x]" using keepsD [OF run_same r] s1 by (simp add: same_results_def)
    then have "rs_results s' = old @ [x\<lparr>rr_retry := Some (ok, d)\<rparr>]" by (simp add: s' note_retry_def)
    moreover have "\<exists>g2 w2 g3. ro_clean ops (clean_command cfg) w = (Inr 0, g2, w2)
        \<and> ro_sleep ops (rc_cleanup_wait cfg) w2 = (Inr (), g3, w1)"
      using cleanup_outcome(1) [OF c] True by blast
    ultimately show thesis
      using that [of "Some (ok, d)"] run_outcome [OF r assms(3)] by fastforce
  qed
qed

text \<open>
  Claim C28. Outside a cluster a recorded run is marked as skipped exactly when a skip signal arrived
  during it or was left over from before it, and as a success exactly when its manager exited with 0
  and it was not skipped. It is retried exactly when it failed, was not skipped, no stop was
  requested before or during it, and the cleanup that follows exits with 0 and its wait is not
  cut short; the retry is noted as a success exactly when the manager, run again after that
  cleanup, exits with 0.
\<close>

theorem entry_tells_outcome:
  assumes "record_scenario cfg ops f (w, s) = (Inr (), (w', s'))" "\<not> rc_in_cluster cfg"
    and "ro_run ops (run_command cfg f) w = (Inr code, sigs, w1)"
  shows "\<exists>x. rs_results s' = rs_results s @ [x] \<and> rr_scenario x = f
    \<and> (rr_skipped x \<longleftrightarrow> rs_skip s \<or> SkipSignal \<in> set sigs)
    \<and> (rr_success x \<longleftrightarrow> code = 0 \<and> \<not> rr_skipped x)
    \<and> (rr_retry x \<noteq> None \<longleftrightarrow> code \<noteq> 0 \<and> \<not> rr_skipped x \<and> \<not> rs_stop s \<and> StopSignal \<notin> set sigs
         \<and> (\<exists>g2 w2 g3 w3. ro_clean ops (clean_command cfg) w1 = (Inr 0, g2, w2)
              \<and> ro_sleep ops (rc_cleanup_wait cfg) w2 = (Inr (), g3, w3)))
    \<and> (\<forall>g2 w2 g3 w3. rr_retry x \<noteq> None \<and> ro_clean ops (clean_command cfg) w1 = (Inr 0, g2, w2)
         \<and> ro_sleep ops (rc_cleanup_wait cfg) w2 = (Inr (), g3, w3)
         \<longrightarrow> (\<exists>d. rr_retry x = Some (\<exists>g4 w4. ro_run ops (run_command cfg f) w3 = (Inr 0, g4, w4), d)))"
proof -
  let ?s1 = "foldl handle_signal (s\<lparr>rs_current := Some f\<rparr>) sigs"
  define x where "x = \<lparr>rr_scenario = f, rr_success = code = 0 \<and> \<not> rs_skip ?s1, rr_skipped = rs_skip ?s1,
    rr_duration = ro_clock ops w1 - ro_clock ops w, rr_timestamp = ro_timestamp ops w1, rr_retry = None\<rparr>"
  have run: "run_scenario cfg ops f (w, s) = (Inr (code = 0, ro_clock ops w1 - ro_clock ops w), (w1, ?s1))"
    using assms(2, 3)
    by (simp add: run_scenario_def write_current_status_def io_seq_def io_bind_def io_ret_def update_state_def
        read_state_def delivered_def io_catch_def)
  show ?thesis
  proof (cases "rs_skip ?s1 \<or> code = 0 \<or> rs_stop ?s1")
    case True
    then have "rs_results s' = rs_results s @ [x]"
      using assms(1) run
      by (auto simp: record_scenario_def io_bind_def io_seq_def add_result_def update_state_def x_def split: if_splits)
    then show ?thesis using True by (intro exI [of _ x]) (auto simp: x_def)
  next
    case False
    then have "retry_scenario cfg ops f (w1, ?s1\<lparr>rs_results := rs_results ?s1 @ [x]\<rparr>) = (Inr (), (w', s'))"
      using assms(1) run by (simp add: record_scenario_def io_bind_def io_seq_def add_result_def x_def)
    from retry_outcome [OF this _ assms(2), of "rs_results s" x] obtain t
      where t: "rs_results s' = rs_results s @ [x\<lparr>rr_retry := t\<rparr>]"
        "t \<noteq> None \<longleftrightarrow> (\<exists>g2 w2 g3 w3. ro_clean ops (clean_command cfg) w1 = (Inr 0, g2, w2)
            \<and> ro_sleep ops (rc_cleanup_wait cfg) w2 = (Inr (), g3, w3))"
        "\<And>g2 w2 g3 w3. ro_clean ops (clean_command cfg) w1 = (Inr 0, g2, w2) \<Longrightarrow>
            ro_sleep ops (rc_cleanup_wait cfg) w2 = (Inr (), g3, w3) \<Longrightarrow>
            \<exists>d. t = Some (\<exists>g4 w4. ro_run ops (run_command cfg f) w3 = (Inr 0, g4, w4), d)"
      by (auto simp: x_def)
    have "rr_retry (x\<lparr>rr_retry := t\<rparr>) = t" by simp
    with t False show ?thesis by (intro exI [of _ "x\<lparr>rr_retry := t\<rparr>"]) (simp add: x_def)
  qed
qed

theorem entry_tells_outcome_witness:
  "\<exists>w' s' d. record_scenario example_config skip_in_retry ''s/a.json'' (0, new_runner) = (Inr (), (w', s'))
     \<and> map rr_skipped (rs_results s') = [False] \<and> map rr_success (rs_results s') = [False]
     \<and> map rr_retry (rs_results s') = [Some (False, d)]"
proof -
  obtain r w' s' where run: "record_scenario example_config skip_in_retry ''s/a.json'' (0, new_runner)
      = (r, (w', s'))" by (metis surj_pair)
  have "fst (record_scenario example_config skip_in_retry ''s/a.json'' (0, new_runner)) = Inr ()"
    by code_simp
  then have r: "r = Inr ()" by (simp add: run)
  have "\<not> rc_in_cluster example_config" by (simp add: example_config_def)
  from entry_tells_outcome [OF run [unfolded r] this, of 1 "[]" 1] run r
  show ?thesis by (auto simp: skip_in_retry_def new_runner_def)
qed

end
