(* ===== verification/WasabiRounds.thy ===== *)
theory WasabiRounds
  imports EngineBase "HOL-Library.Char_ord" "HOL-Library.List_Lexorder"
begin

text \<open>
  How the Wasabi engine counts rounds, from \<open>manager/engine/wasabi_engine.py\<close> and
  \<open>manager/wasabi_backend_factory.py\<close>: the choice of the backend architecture, the broadcast records
  in a coordinator log, the round count of either architecture, and the label evidence of a run.
\<close>

section \<open>Architecture\<close>

datatype architecture = Legacy | Split

definition detect_backend_architecture :: "string list \<Rightarrow> architecture" where
  "detect_backend_architecture versions = (if list_ex (\<lambda>v. ''2.6.0'' \<le> v) versions then Split else Legacy)"

fun get_backend_version :: "architecture \<Rightarrow> string" where
  "get_backend_version Legacy = ''2.0.4''"
| "get_backend_version Split = ''2.6.0''"

definition get_backend_image_names :: "architecture \<Rightarrow> string list" where
  "get_backend_image_names a =
     (if a = Split then [''wasabi-backend:'' @ get_backend_version a, ''wasabi-coordinator:'' @ get_backend_version a]
      else [''wasabi-backend:'' @ get_backend_version a])"

definition wasabi_infrastructure_names :: "architecture \<Rightarrow> string list" where
  "wasabi_infrastructure_names a =
     [''btc-node'', ''wasabi-backend''] @ (if a = Split then [''wasabi-coordinator''] else []) @ [''wasabi-client-distributor'']"

text \<open>The images of a run: the node, the clients of every version, the backend; each with its path.\<close>

definition wasabi_client_images :: "string list \<Rightarrow> (string \<times> string option) list" where
  "wasabi_client_images versions =
     map (\<lambda>v. (''wasabi-client:'' @ v, Some (''./containers/wasabi-clients/'' @ v))) versions"

definition wasabi_images :: "string list \<Rightarrow> (string \<times> string option) list" where
  "wasabi_images versions =
     (''btc-node'', None)
     # wasabi_client_images versions
     @ map (\<lambda>name. (name, Some (''./containers/'' @ join_with ''/'' (split_on (CHR '':'') name))))
         (get_backend_image_names (detect_backend_architecture versions))"

section \<open>Broadcast records\<close>

text \<open>
  The pattern of \<open>SUCCESSFUL_BROADCAST_RE\<close>, ignoring case:
  successfully, spaces, broadcast or broadcasted, spaces, optionally the and spaces, coinjoin,
  optionally spaces and transaction, a colon, any spaces, 64 hexadecimal digits. No choice of it has
  to be undone: the parts that may follow each other begin with different characters.
\<close>

definition eat :: "string \<Rightarrow> string \<Rightarrow> string option" where
  "eat p s = (if lower (take (length p) s) = p then Some (drop (length p) s) else None)"

definition eat_maybe :: "string \<Rightarrow> string \<Rightarrow> string" where
  "eat_maybe p s = (case eat p s of None \<Rightarrow> s | Some r \<Rightarrow> r)"

definition eat_spaces :: "string \<Rightarrow> string option" where
  "eat_spaces s = (if s \<noteq> [] \<and> is_space (hd s) then Some (dropWhile is_space s) else None)"

definition is_hex :: "char \<Rightarrow> bool" where
  "is_hex c = (let n = (of_char c :: nat) in (48 \<le> n \<and> n \<le> 57) \<or> (65 \<le> n \<and> n \<le> 70) \<or> (97 \<le> n \<and> n \<le> 102))"

definition eat_article :: "string \<Rightarrow> string option" where
  "eat_article s = (case eat ''the'' s of None \<Rightarrow> Some s | Some r \<Rightarrow> eat_spaces r)"

definition eat_noun :: "string \<Rightarrow> string option" where
  "eat_noun s = (case eat_spaces s of None \<Rightarrow> Some s | Some r \<Rightarrow> eat ''transaction'' r)"

definition eat_txid :: "string \<Rightarrow> (string \<times> string) option" where
  "eat_txid s = (let r = dropWhile is_space s; t = take 64 r
                 in if length t = 64 \<and> list_all is_hex t then Some (t, drop 64 r) else None)"

definition match_record :: "string \<Rightarrow> (string \<times> string) option" where
  "match_record s =
     Option.bind (eat ''successfully'' s) (\<lambda>s.
     Option.bind (eat_spaces s) (\<lambda>s.
     Option.bind (eat ''broadcast'' s) (\<lambda>s.
     Option.bind (eat_spaces (eat_maybe ''ed'' s)) (\<lambda>s.
     Option.bind (eat_article s) (\<lambda>s.
     Option.bind (eat ''coinjoin'' s) (\<lambda>s.
     Option.bind (eat_noun s) (\<lambda>s.
     Option.bind (eat '':'' s) eat_txid)))))))"

text \<open>A piece of the pattern takes a prefix away.\<close>

lemma eat_takes: "eat p s = Some r \<Longrightarrow> \<exists>u. s = u @ r \<and> lower u = p"
  by (metis eat_def append_take_drop_id option.distinct(1) option.inject)

lemma eat_spaces_takes: "eat_spaces s = Some r \<Longrightarrow> \<exists>u. s = u @ r \<and> list_all is_space u"
  by (auto simp: eat_spaces_def list_all_iff split: if_splits dest: set_takeWhileD
      intro!: exI [of _ "takeWhile is_space s"])

lemma eat_maybe_takes: "\<exists>u. s = u @ eat_maybe p s \<and> (lower u = p \<or> u = [])"
  by (cases "eat p s") (auto simp: eat_maybe_def dest: eat_takes)

lemma eat_article_takes: "eat_article s = Some r \<Longrightarrow> \<exists>u v. s = u @ v @ r \<and> (lower u = ''the'' \<or> u = []) \<and> list_all is_space v"
  using eat_takes [of "''the''" s] by (fastforce simp: eat_article_def split: option.splits dest: eat_spaces_takes)

lemma eat_noun_takes:
  "eat_noun s = Some r \<Longrightarrow> \<exists>u v. s = u @ v @ r \<and> list_all is_space u \<and> (lower v = ''transaction'' \<or> v = [])"
  by (fastforce simp: eat_noun_def split: option.splits dest: eat_spaces_takes eat_takes)

lemma eat_txid_takes:
  "eat_txid s = Some (t, r) \<Longrightarrow> \<exists>u. s = u @ t @ r \<and> list_all is_space u \<and> length t = 64 \<and> list_all is_hex t"
  by (auto simp: eat_txid_def Let_def list_all_iff split: if_splits dest: set_takeWhileD
      intro!: exI [of _ "takeWhile is_space s"])

text \<open>
  A text in which no record begins: each of its letters s is followed, in the text, by another
  letter than u.
\<close>

fun no_start :: "string \<Rightarrow> bool" where
  "no_start [] = True"
| "no_start [c] = (lower_char c \<noteq> CHR ''s'')"
| "no_start (c # d # r) = ((lower_char c = CHR ''s'' \<longrightarrow> lower_char d \<noteq> CHR ''u'') \<and> no_start (d # r))"

lemma no_start_Cons: "lower_char c \<noteq> CHR ''s'' \<Longrightarrow> no_start b \<Longrightarrow> no_start (c # b)"
  by (cases b) auto

lemma no_start_append: "no_start a \<Longrightarrow> no_start b \<Longrightarrow> no_start (a @ b)"
  by (induction a rule: no_start.induct) (auto intro: no_start_Cons)

lemma no_start_suffix: "no_start (a @ b) \<Longrightarrow> no_start b"
proof (induction a)
  case (Cons c a)
  then show ?case by (cases "a @ b") (auto simp: Cons_eq_append_conv)
qed simp

lemma no_start_lower: "no_start (lower u) = no_start u"
proof -
  have idem: "lower_char (lower_char c) = lower_char c" for c
    by (auto simp: lower_char_def Let_def of_char_of take_bit_nat_eq_self_iff)
  show ?thesis by (induction u rule: no_start.induct) (auto simp: lower_def idem)
qed

lemma no_start_words:
  "no_start ''uccessfully''" "no_start ''broadcast''" "no_start ''ed''" "no_start ''the''" "no_start ''coinjoin''"
  "no_start ''transaction''" "no_start '':''"
  by code_simp+

lemma no_start_word: "lower u = p \<or> u = [] \<Longrightarrow> no_start p \<Longrightarrow> no_start u"
  using no_start_lower [of u] by auto

lemma no_start_plain: "(\<And>c. c \<in> set u \<Longrightarrow> lower_char c \<noteq> CHR ''s'') \<Longrightarrow> no_start u"
  by (induction u rule: no_start.induct) auto

lemma of_char_lower:
  "(of_char (lower_char c) :: nat) = (let n = of_char c in if 65 \<le> n \<and> n \<le> 90 then n + 32 else n)"
  by (simp add: lower_char_def Let_def)

lemma lower_is_s: "lower_char c = CHR ''s'' \<Longrightarrow> (of_char c :: nat) \<in> {83, 115}"
  using of_char_lower [of c] by (auto simp: Let_def split: if_splits)

lemma no_start_spaces: "list_all is_space u \<Longrightarrow> no_start u"
  by (rule no_start_plain) (auto simp: list_all_iff is_space_def Let_def dest!: lower_is_s)

lemma no_start_hex: "list_all is_hex u \<Longrightarrow> no_start u"
  by (rule no_start_plain) (auto simp: list_all_iff is_hex_def Let_def dest!: lower_is_s)

lemma match_starts: "match_record s \<noteq> None \<Longrightarrow> \<exists>c d r. s = c # d # r \<and> lower_char c = CHR ''s'' \<and> lower_char d = CHR ''u''"
proof -
  assume "match_record s \<noteq> None"
  then obtain r where "eat ''successfully'' s = Some r"
    by (auto simp: match_record_def bind_eq_Some_conv)
  then obtain u where u: "s = u @ r" "lower u = ''successfully''" using eat_takes by blast
  then obtain c d v where "u = c # d # v" by (auto simp: lower_def)
  then show ?thesis using u by (auto simp: lower_def)
qed

lemma no_start_no_match:
  assumes "no_start b" "b \<noteq> []"
  shows "match_record (b @ rest) = None"
proof (rule ccontr)
  assume "match_record (b @ rest) \<noteq> None"
  from match_starts [OF this] obtain c d r where s: "b @ rest = c # d # r" "lower_char c = CHR ''s''" "lower_char d = CHR ''u''"
    by blast
  then show False using assms by (cases b rule: no_start.cases) auto
qed

lemma match_takes:
  assumes "match_record s = Some (t, rest)"
  shows "\<exists>c v. s = c # v @ t @ rest \<and> no_start (v @ t) \<and> length t = 64 \<and> list_all is_hex t"
proof -
  obtain s1 s2 s3 s4 s5 s6 s7 s8 where e:
    "eat ''successfully'' s = Some s1" "eat_spaces s1 = Some s2" "eat ''broadcast'' s2 = Some s3"
    "eat_spaces (eat_maybe ''ed'' s3) = Some s4" "eat_article s4 = Some s5" "eat ''coinjoin'' s5 = Some s6"
    "eat_noun s6 = Some s7" "eat '':'' s7 = Some s8" "eat_txid s8 = Some (t, rest)"
    using assms by (auto simp: match_record_def bind_eq_Some_conv)
  obtain u1 where u1: "s = u1 @ s1" "lower u1 = ''successfully''" using eat_takes [OF e(1)] by blast
  obtain u2 where u2: "s1 = u2 @ s2" "list_all is_space u2" using eat_spaces_takes [OF e(2)] by blast
  obtain u3 where u3: "s2 = u3 @ s3" "lower u3 = ''broadcast''" using eat_takes [OF e(3)] by blast
  obtain u4 where u4: "s3 = u4 @ eat_maybe ''ed'' s3" "lower u4 = ''ed'' \<or> u4 = []" using eat_maybe_takes by blast
  obtain u5 where u5: "eat_maybe ''ed'' s3 = u5 @ s4" "list_all is_space u5" using eat_spaces_takes [OF e(4)] by blast
  obtain u6 v6 where u6: "s4 = u6 @ v6 @ s5" "lower u6 = ''the'' \<or> u6 = []" "list_all is_space v6"
    using eat_article_takes [OF e(5)] by blast
  obtain u7 where u7: "s5 = u7 @ s6" "lower u7 = ''coinjoin''" using eat_takes [OF e(6)] by blast
  obtain u8 v8 where u8: "s6 = u8 @ v8 @ s7" "list_all is_space u8" "lower v8 = ''transaction'' \<or> v8 = []"
    using eat_noun_takes [OF e(7)] by blast
  obtain u9 where u9: "s7 = u9 @ s8" "lower u9 = '':''" using eat_takes [OF e(8)] by blast
  obtain u0 where u0: "s8 = u0 @ t @ rest" "list_all is_space u0" "length t = 64" "list_all is_hex t"
    using eat_txid_takes [OF e(9)] by blast
  obtain c w where w: "u1 = c # w" "lower w = ''uccessfully''" using u1(2) by (cases u1) (auto simp: lower_def)
  have words: "no_start w" "no_start u3" "no_start u4" "no_start u6" "no_start u7" "no_start v8" "no_start u9"
    using no_start_word w(2) u3(2) u4(2) u6(2) u7(2) u8(3) u9(2) no_start_words by blast+
  have "no_start ((w @ u2 @ u3 @ u4 @ u5 @ u6 @ v6 @ u7 @ u8 @ v8 @ u9 @ u0) @ t)"
    using words u2(2) u5(2) u6(3) u8(2) u0(2,4)
    by (intro no_start_append) (auto intro: no_start_spaces no_start_hex)
  moreover have "s = c # (w @ u2 @ u3 @ u4 @ u5 @ u6 @ v6 @ u7 @ u8 @ v8 @ u9 @ u0) @ t @ rest"
    using u1(1) u2(1) u3(1) u4(1) u5(1) u6(1) u7(1) u8(1) u9(1) u0(1) w(1) by simp
  ultimately show ?thesis using u0(3,4) by blast
qed

lemma match_shorter: "match_record s = Some (t, rest) \<Longrightarrow> length rest < length s"
  using match_takes by fastforce

text \<open>\<open>finditer\<close>: the search goes on after a match, and one character further without one.\<close>

function find_records :: "string \<Rightarrow> string list" where
  "find_records s =
     (if s = [] then []
      else case match_record s of
             None \<Rightarrow> find_records (tl s)
           | Some (t, rest) \<Rightarrow> t # find_records rest)"
  by pat_completeness auto
termination
  by (relation "measure length") (auto dest: match_shorter)

declare find_records.simps [simp del]

definition successful_broadcast_txids :: "string list \<Rightarrow> string list" where
  "successful_broadcast_txids texts = remdups (concat (map (\<lambda>text. map lower (find_records text)) texts))"

section \<open>Rounds and label evidence\<close>

text \<open>\<open>peek\<close> reads the coordinator log or the legacy store with one transaction id per line.\<close>

definition rounds_of_log :: "architecture \<Rightarrow> string \<Rightarrow> int" where
  "rounds_of_log a text =
     (if a = Split then int (length (successful_broadcast_txids [text]))
      else int (length (butlast (split_on (CHR 0x0A) text))))"

definition current_round :: "architecture \<Rightarrow> (string \<Rightarrow> string \<Rightarrow> ('w, string) io) \<Rightarrow> ('w, int) io" where
  "current_round a peek =
     io_bind (if a = Split then peek ''wasabi-coordinator'' ''/home/wasabi/.walletwasabi/coordinator/Logs.txt''
              else peek ''wasabi-backend'' ''/home/wasabi/.walletwasabi/backend/WabiSabi/CoinJoinIdStore.txt'')
       (\<lambda>text. io_ret (rounds_of_log a text))"

text \<open>
  The evidence of \<open>store_engine_logs\<close>: \<open>wl_download\<close> copies a directory out of a container,
  \<open>wl_logs\<close> lists the \<open>Logs.txt\<close> files below a directory with their contents.
\<close>

record wasabi_evidence =
  wv_complete :: bool
  wv_reason :: "string option"
  wv_count :: "nat option"
  wv_sources :: "string list"

record 'w wasabi_log_ops =
  wl_download :: "string \<Rightarrow> string \<Rightarrow> string \<Rightarrow> ('w, unit) io"
  wl_logs :: "string \<Rightarrow> ('w, (string \<times> string) list) io"

definition store_backend_logs :: "'w wasabi_log_ops \<Rightarrow> architecture \<Rightarrow> ('w, unit) io" where
  "store_backend_logs ops a =
     (if a = Split
      then io_seq (wl_download ops ''wasabi-backend'' ''/home/wasabi/.walletwasabi/backend/'' ''wasabi-backend-2.6'')
        (io_catch (wl_download ops ''wasabi-coordinator'' ''/home/wasabi/.walletwasabi/coordinator/'' ''wasabi-coordinator'')
           is_exception (\<lambda>_. io_ret ()))
      else wl_download ops ''wasabi-backend'' ''/home/wasabi/.walletwasabi/backend/'' ''wasabi-backend'')"

definition evidence_of_logs :: "(string \<times> string) list \<Rightarrow> wasabi_evidence" where
  "evidence_of_logs logs =
     (let sorted_logs = sort_key fst logs
      in \<lparr>wv_complete = (sorted_logs \<noteq> []),
          wv_reason = (if sorted_logs \<noteq> [] then None else Some ''captured Wasabi logs contain no Logs.txt source''),
          wv_count = Some (length (successful_broadcast_txids (map snd sorted_logs))),
          wv_sources = map fst sorted_logs\<rparr>)"

definition store_engine_logs :: "'w wasabi_log_ops \<Rightarrow> architecture \<Rightarrow> ('w, wasabi_evidence) io" where
  "store_engine_logs ops a =
     io_bind (io_catch (io_seq (store_backend_logs ops a) (io_ret True)) is_exception (\<lambda>_. io_ret False)) (\<lambda>stored.
       if stored
       then io_bind (wl_logs ops (if a = Split then ''wasabi-coordinator'' else ''wasabi-backend'')) (\<lambda>logs.
              io_ret (evidence_of_logs logs))
       else io_ret \<lparr>wv_complete = False, wv_reason = Some ''could not download Wasabi backend logs'', wv_count = None,
              wv_sources = []\<rparr>)"

section \<open>Every record counts once\<close>

lemma no_match_inside:
  assumes "match_record s = Some (t, rest)" "s = a @ b" "a \<noteq> []" "length rest < length b"
  shows "match_record b = None"
proof -
  obtain c v where s: "s = c # v @ t @ rest" and ok: "no_start (v @ t)" using match_takes [OF assms(1)] by blast
  obtain a' where a: "a = c # a'" "a' @ b = (v @ t) @ rest" using assms(2,3) s by (cases a) auto
  then have "length a' + length b = length (v @ t) + length rest" by (metis length_append)
  then have len: "length a' \<le> length (v @ t)" using assms(4) by linarith
  have b: "b = drop (length a') (v @ t) @ rest"
    using a(2) len by (metis append_eq_conv_conj drop_append diff_is_0_eq drop_0)
  have "no_start (drop (length a') (v @ t))" using ok no_start_suffix by (metis append_take_drop_id)
  moreover have "drop (length a') (v @ t) \<noteq> []" using assms(4) b by auto
  ultimately show ?thesis using no_start_no_match b by metis
qed

lemma shorter_suffix: "xs @ r = a @ b \<Longrightarrow> length b \<le> length r \<Longrightarrow> \<exists>a'. r = a' @ b"
  by (auto simp: append_eq_append_conv2)

lemma found_iff: "t \<in> set (find_records s) \<longleftrightarrow> (\<exists>a b rest. s = a @ b \<and> match_record b = Some (t, rest))"
proof (induction s rule: find_records.induct)
  case (1 s)
  have none: "match_record [] = None" by (simp add: match_record_def eat_def lower_def)
  show ?case
  proof (cases "s = []")
    case True
    then show ?thesis using none by (simp add: find_records.simps)
  next
    case ne: False
    show ?thesis
    proof (cases "match_record s")
      case None
      have "t \<in> set (find_records s) \<longleftrightarrow> (\<exists>a b rest. tl s = a @ b \<and> match_record b = Some (t, rest))"
        using "1.IH"(1) [OF ne None] None ne by (simp add: find_records.simps [of s])
      also have "\<dots> \<longleftrightarrow> (\<exists>a b rest. s = a @ b \<and> match_record b = Some (t, rest))"
      proof (intro iffI; elim exE conjE)
        fix a b rest assume "tl s = a @ b" "match_record b = Some (t, rest)"
        then show "\<exists>a b rest. s = a @ b \<and> match_record b = Some (t, rest)"
          using ne by (intro exI [of _ "hd s # a"] exI [of _ b] exI [of _ rest]) (auto simp: neq_Nil_conv)
      next
        fix a b rest assume b: "s = a @ b" "match_record b = Some (t, rest)"
        then obtain c a' where "a = c # a'" using None by (cases a) auto
        then show "\<exists>a b rest. tl s = a @ b \<and> match_record b = Some (t, rest)" using b by auto
      qed
      finally show ?thesis .
    next
      case (Some p)
      obtain t1 rest1 where p: "p = (t1, rest1)" by (cases p)
      have m: "match_record s = Some (t1, rest1)" using Some p by simp
      obtain c v where s: "s = c # v @ t1 @ rest1" using match_takes [OF m] by blast
      have step: "t \<in> set (find_records s) \<longleftrightarrow> t = t1 \<or> (\<exists>a b rest. rest1 = a @ b \<and> match_record b = Some (t, rest))"
        using "1.IH"(2) [OF ne m refl] m ne by (auto simp: find_records.simps [of s])
      show ?thesis unfolding step
      proof (intro iffI)
        assume "t = t1 \<or> (\<exists>a b rest. rest1 = a @ b \<and> match_record b = Some (t, rest))"
        then show "\<exists>a b rest. s = a @ b \<and> match_record b = Some (t, rest)"
        proof (elim disjE exE conjE)
          assume "t = t1"
          then show ?thesis using m by (intro exI [of _ "[]"] exI [of _ s] exI [of _ rest1]) simp
        next
          fix a b rest assume "rest1 = a @ b" "match_record b = Some (t, rest)"
          then show ?thesis using s
            by (intro exI [of _ "c # v @ t1 @ a"] exI [of _ b] exI [of _ rest]) simp
        qed
      next
        assume "\<exists>a b rest. s = a @ b \<and> match_record b = Some (t, rest)"
        then obtain a b rest where b: "s = a @ b" "match_record b = Some (t, rest)" by blast
        show "t = t1 \<or> (\<exists>a b rest. rest1 = a @ b \<and> match_record b = Some (t, rest))"
        proof (cases "a = []")
          case True
          then show ?thesis using b m by simp
        next
          case False
          have "length b \<le> length rest1" using no_match_inside [OF m b(1) False] b(2) by force
          then have "\<exists>a'. rest1 = a' @ b"
            using b(1) s shorter_suffix [of "c # v @ t1" rest1 a b] by simp
          then show ?thesis using b(2) by blast
        qed
      qed
    qed
  qed
qed

lemma broadcast_txids_iff:
  "txid \<in> set (successful_broadcast_txids texts) \<longleftrightarrow>
     (\<exists>text a b t rest. text \<in> set texts \<and> text = a @ b \<and> match_record b = Some (t, rest) \<and> txid = lower t)"
proof -
  have "txid \<in> set (successful_broadcast_txids texts)
      \<longleftrightarrow> (\<exists>doc t. doc \<in> set texts \<and> t \<in> set (find_records doc) \<and> txid = lower t)"
    by (auto simp: successful_broadcast_txids_def)
  then show ?thesis unfolding found_iff by blast
qed

text \<open>Text that comes after a record does not change it.\<close>

lemma eat_more: "eat p s = Some r \<Longrightarrow> eat p (s @ b) = Some (r @ b)"
proof -
  assume e: "eat p s = Some r"
  then have "length (take (length p) s) = length p" by (metis eat_def length_map lower_def option.distinct(1))
  then show ?thesis using e by (auto simp: eat_def split: if_splits)
qed

lemma eat_other: "s \<noteq> [] \<Longrightarrow> p \<noteq> [] \<Longrightarrow> lower_char (hd s) \<noteq> hd p \<Longrightarrow> eat p s = None"
  by (cases s; cases p) (auto simp: eat_def lower_def)

lemma eat_head: "eat p s = Some r \<Longrightarrow> p \<noteq> [] \<Longrightarrow> s \<noteq> [] \<and> lower_char (hd s) = hd p"
  by (cases s; cases p) (auto simp: eat_def lower_def split: if_splits)

lemma dropWhile_more: "dropWhile P xs \<noteq> [] \<Longrightarrow> dropWhile P (xs @ ys) = dropWhile P xs @ ys"
  by (induction xs) auto

lemma spaces_more: "eat_spaces s = Some r \<Longrightarrow> r \<noteq> [] \<Longrightarrow> eat_spaces (s @ b) = Some (r @ b)"
  by (auto simp: eat_spaces_def dropWhile_more split: if_splits)

lemma spaces_other: "s \<noteq> [] \<Longrightarrow> eat_spaces s = None \<Longrightarrow> eat_spaces (s @ b) = None"
  by (auto simp: eat_spaces_def split: if_splits)

lemma spaces_head: "eat_spaces s = Some r \<Longrightarrow> s \<noteq> [] \<and> is_space (hd s)"
  by (auto simp: eat_spaces_def split: if_splits)

lemma not_e_space: "is_space c \<Longrightarrow> lower_char c \<noteq> CHR ''e''"
proof
  assume "is_space c" "lower_char c = CHR ''e''"
  then show False using of_char_lower [of c] by (auto simp: is_space_def Let_def split: if_splits)
qed

lemma maybe_ed_more: "eat_spaces (eat_maybe ''ed'' s) = Some r \<Longrightarrow> eat_maybe ''ed'' (s @ b) = eat_maybe ''ed'' s @ b"
proof (cases "eat ''ed'' s")
  case None
  assume "eat_spaces (eat_maybe ''ed'' s) = Some r"
  with None have "s \<noteq> []" "is_space (hd s)" using spaces_head by (auto simp: eat_maybe_def)
  then have "eat ''ed'' (s @ b) = None" using not_e_space by (intro eat_other) auto
  then show ?thesis using None by (simp add: eat_maybe_def)
next
  case (Some q)
  then show ?thesis using eat_more [OF Some] by (simp add: eat_maybe_def)
qed

lemma article_more:
  assumes "eat_article s = Some r" "eat ''coinjoin'' r = Some q"
  shows "eat_article (s @ b) = Some (r @ b)"
proof (cases "eat ''the'' s")
  case None
  then have "r = s" using assms(1) by (simp add: eat_article_def)
  then have "s \<noteq> []" "lower_char (hd s) = CHR ''c''" using eat_head [OF assms(2)] by auto
  then have "eat ''the'' (s @ b) = None" by (intro eat_other) auto
  then show ?thesis using \<open>r = s\<close> by (simp add: eat_article_def)
next
  case (Some u)
  then have "eat_spaces u = Some r" using assms(1) by (simp add: eat_article_def)
  then have "eat_spaces (u @ b) = Some (r @ b)" using spaces_more eat_head [OF assms(2)] by simp
  then show ?thesis using eat_more [OF Some] by (simp add: eat_article_def)
qed

lemma noun_more:
  assumes "eat_noun s = Some r" "eat '':'' r = Some q"
  shows "eat_noun (s @ b) = Some (r @ b)"
proof (cases "eat_spaces s")
  case None
  then have "r = s" using assms(1) by (simp add: eat_noun_def)
  then have "s \<noteq> []" using eat_head [OF assms(2)] by auto
  then show ?thesis using spaces_other [OF _ None] \<open>r = s\<close> by (simp add: eat_noun_def)
next
  case (Some u)
  then have u: "eat ''transaction'' u = Some r" using assms(1) by (simp add: eat_noun_def)
  then have "eat_spaces (s @ b) = Some (u @ b)" using spaces_more [OF Some] eat_head by simp
  then show ?thesis using eat_more [OF u] by (simp add: eat_noun_def)
qed

lemma txid_more: "eat_txid s = Some (t, r) \<Longrightarrow> eat_txid (s @ b) = Some (t, r @ b)"
proof -
  assume e: "eat_txid s = Some (t, r)"
  then have "length (take 64 (dropWhile is_space s)) = 64" by (auto simp: eat_txid_def Let_def split: if_splits)
  moreover from this have "dropWhile is_space s \<noteq> []" by (metis list.size(3) take_Nil zero_neq_numeral)
  then have "dropWhile is_space (s @ b) = dropWhile is_space s @ b"
    by (rule dropWhile_more)
  ultimately show ?thesis using e by (auto simp: eat_txid_def Let_def split: if_splits)
qed

lemma match_more: "match_record s = Some (t, rest) \<Longrightarrow> match_record (s @ b) = Some (t, rest @ b)"
proof -
  assume "match_record s = Some (t, rest)"
  then obtain s1 s2 s3 s4 s5 s6 s7 s8 where e:
    "eat ''successfully'' s = Some s1" "eat_spaces s1 = Some s2" "eat ''broadcast'' s2 = Some s3"
    "eat_spaces (eat_maybe ''ed'' s3) = Some s4" "eat_article s4 = Some s5" "eat ''coinjoin'' s5 = Some s6"
    "eat_noun s6 = Some s7" "eat '':'' s7 = Some s8" "eat_txid s8 = Some (t, rest)"
    by (auto simp: match_record_def bind_eq_Some_conv)
  have "s2 \<noteq> []" using eat_head [OF e(3)] by simp
  moreover have "s4 \<noteq> []" using e(5,6) eat_head [OF e(6)] by (auto simp: eat_article_def eat_def lower_def)
  ultimately have "eat_spaces (s1 @ b) = Some (s2 @ b)" "eat_spaces (eat_maybe ''ed'' (s3 @ b)) = Some (s4 @ b)"
    using spaces_more e(2,4) maybe_ed_more [OF e(4)] by simp_all
  then show ?thesis
    using eat_more [OF e(1)] eat_more [OF e(3)] article_more [OF e(5,6)] eat_more [OF e(6)] noun_more [OF e(7,8)]
      eat_more [OF e(8)] txid_more [OF e(9)]
    by (simp add: match_record_def)
qed

lemma rounds_count_broadcasts_facts:
  "rounds_of_log Split doc
     = int (card {lower t |t. \<exists>a b rest. doc = a @ b \<and> match_record b = Some (t, rest)})"
  "rounds_of_log a doc \<le> rounds_of_log a (doc @ added)"
proof -
  have set: "set (successful_broadcast_txids [doc]) = {lower t |t. \<exists>a b rest. doc = a @ b \<and> match_record b = Some (t, rest)}" for doc
    unfolding set_eq_iff broadcast_txids_iff mem_Collect_eq list.set(2) empty_set [symmetric] by (simp, blast)
  have len: "rounds_of_log Split doc = int (card (set (successful_broadcast_txids [doc])))" for doc
    by (simp add: rounds_of_log_def length_remdups_card_conv successful_broadcast_txids_def)
  show "rounds_of_log Split doc = int (card {lower t |t. \<exists>a b rest. doc = a @ b \<and> match_record b = Some (t, rest)})"
    unfolding len set by (rule refl)
  have "set (successful_broadcast_txids [doc]) \<subseteq> set (successful_broadcast_txids [doc @ added])"
    unfolding set using match_more by fastforce
  then have "card (set (successful_broadcast_txids [doc])) \<le> card (set (successful_broadcast_txids [doc @ added]))"
    by (intro card_mono) auto
  moreover have "length (split_on c doc) \<le> length (split_on c (doc @ added))" for c
    by (induction doc) (auto simp: Suc_le_eq split: list.splits)
  ultimately show "rounds_of_log a doc \<le> rounds_of_log a (doc @ added)"
    by (cases "a = Split") (simp_all add: len, simp add: rounds_of_log_def diff_le_mono)
qed

text \<open>
  Claim C21. The rounds read from a coordinator log are the different transactions of the broadcast
  records anywhere in it, in either case of letters, each counted once; as a log grows, in either
  architecture, the count never falls.
\<close>

theorem rounds_count_broadcasts:
  "rounds_of_log Split doc
      = int (card {lower t |t. \<exists>a b rest. doc = a @ b \<and> match_record b = Some (t, rest)})
    \<and> rounds_of_log a doc \<le> rounds_of_log a (doc @ added)"
  by (intro conjI rounds_count_broadcasts_facts)


end
