(* ===== verification/WasabiClient.thy ===== *)
theory WasabiClient
  imports BtcNode Coins "HOL-Library.Char_ord" "HOL-Library.List_Lexorder"
begin

text \<open>
  The Wasabi wallet client of \<open>manager/wasabi_clients/\<close>: the JSON-RPC call with its retries, the
  requests of \<open>WasabiClientBase\<close>, plain and mixed payments, the settlement wait before a 2.6 sweep,
  and what the clients of the other versions do differently. The HTTP post, the clock and the order
  of a shuffle are the world \<open>'w\<close> of the calls in \<open>wasabi_env\<close>.
\<close>

section \<open>State\<close>

text \<open>
  \<open>we_post path request timeout\<close> is \<open>requests.post(...)\<close> with the decoded body; a timeout of the HTTP
  library is \<open>KHttpTimeout\<close>. \<open>timeout=None\<close> is \<open>None\<close>.
\<close>

record 'w wasabi_env =
  we_post :: "string \<Rightarrow> json \<Rightarrow> int option \<Rightarrow> ('w, json) io"
  we_clock :: "'w \<Rightarrow> rat"
  we_sleep :: "rat \<Rightarrow> 'w \<Rightarrow> 'w"
  we_shuffle :: "json list \<Rightarrow> 'w \<Rightarrow> json list \<times> 'w"
  we_float_text :: "rat \<Rightarrow> string"

record wasabi_client =
  wl_host :: string
  wl_port :: int
  wl_name :: string
  wl_version :: string
  wl_delay :: "int \<times> int"
  wl_stop :: "int \<times> int"
  wl_skip_rounds :: "json list"

definition WASABI_WALLET_NAME :: string where "WASABI_WALLET_NAME = ''wallet''"
definition RETRY_BACKOFF_SECONDS :: rat where "RETRY_BACKOFF_SECONDS = 1"
definition JSON_RPC_INTERNAL_ERROR :: int where "JSON_RPC_INTERNAL_ERROR = -32603"
definition POSTMIX_SETTLEMENT_TIMEOUT_SECONDS :: rat where "POSTMIX_SETTLEMENT_TIMEOUT_SECONDS = 300"

definition transient_internal_errors :: "string list" where
  "transient_internal_errors = [''Destination array was not long enough'', ''Collection was modified'']"

datatype client_version = ClientV1 | ClientV2 | ClientV204 | ClientV26

text \<open>\<open>WasabiClient(version)\<close>: versions are strings and compare by code points.\<close>

definition wasabi_client_class :: "string \<Rightarrow> client_version" where
  "wasabi_client_class version =
     (if version < ''2.0.0'' then ClientV1
      else if version < ''2.0.4'' then ClientV2
      else if version < ''2.6.0'' then ClientV204
      else ClientV26)"

section \<open>The RPC call\<close>

definition is_transient :: "(rat \<Rightarrow> string) \<Rightarrow> json \<Rightarrow> bool" where
  "is_transient ft error =
     (case error of
        JDict d \<Rightarrow> error_code_is (dget d ''code'') JSON_RPC_INTERNAL_ERROR
                   \<and> list_ex (\<lambda>f. contains f (py_str ft (dget_default d ''message'' (JStr [])))) transient_internal_errors
      | _ \<Rightarrow> False)"

text \<open>
  What the decoded body means: an answer, an error value, or a body the code cannot read. On a body
  that is no object, \<open>in\<close> looks for an element or a part, and indexing with a key raises.
\<close>

datatype answer = Answer json | ErrorAnswer json | Unreadable exn

definition body_answer :: "json \<Rightarrow> answer" where
  "body_answer body =
     (case body of
        JDict d \<Rightarrow> (case map_of d ''error'' of
            Some e \<Rightarrow> ErrorAnswer e
          | None \<Rightarrow> Answer (case map_of d ''result'' of Some r \<Rightarrow> r | None \<Rightarrow> JNull))
      | JList xs \<Rightarrow> if JStr ''error'' \<in> set xs \<or> JStr ''result'' \<in> set xs
                    then Unreadable (Exn KTypeError ''indices'') else Answer JNull
      | JStr s \<Rightarrow> if contains ''error'' s \<or> contains ''result'' s
                  then Unreadable (Exn KTypeError ''indices'') else Answer JNull
      | _ \<Rightarrow> Unreadable (Exn KTypeError ''not iterable''))"

definition no_answer :: "wasabi_client \<Rightarrow> nat \<Rightarrow> exn" where
  "no_answer c repeat = Exn KRpcError
     (''no answer from '' @ wl_host c @ '':'' @ str_int (wl_port c) @ '' after '' @ str_nat repeat @ '' attempts'')"

text \<open>\<open>left\<close> attempts are left; \<open>last_error\<close> is what is raised when none is.\<close>

fun wasabi_attempts ::
    "'w wasabi_env \<Rightarrow> string \<Rightarrow> json \<Rightarrow> int option \<Rightarrow> nat \<Rightarrow> exn \<Rightarrow> ('w, json) io" where
  "wasabi_attempts env path request timeout 0 last_error = io_raise last_error"
| "wasabi_attempts env path request timeout (Suc left) last_error = (\<lambda>w.
     case we_post env path request timeout w of
       (Inl e, w') \<Rightarrow>
         if exn_class e = KHttpTimeout
         then wasabi_attempts env path request timeout left e
                (if left = 0 then w' else we_sleep env RETRY_BACKOFF_SECONDS w')
         else (Inl e, w')
     | (Inr body, w') \<Rightarrow>
         (case body_answer body of
            Answer v \<Rightarrow> (Inr v, w')
          | Unreadable e \<Rightarrow> (Inl e, w')
          | ErrorAnswer err \<Rightarrow>
              if is_transient (we_float_text env) err \<and> left \<noteq> 0
              then wasabi_attempts env path request timeout left last_error (we_sleep env RETRY_BACKOFF_SECONDS w')
              else (Inl (Exn KRpcError (py_str (we_float_text env) err)), w')))"

definition rpc_path :: "wasabi_client \<Rightarrow> bool \<Rightarrow> string option \<Rightarrow> string" where
  "rpc_path c wallet wallet_name =
     (if \<not> wallet \<or> wl_version c < ''2.0.4'' then []
      else case wallet_name of None \<Rightarrow> WASABI_WALLET_NAME | Some n \<Rightarrow> if n = [] then WASABI_WALLET_NAME else n)"

definition rpc_request :: "dict \<Rightarrow> json" where
  "rpc_request request = JDict (dset (dset request ''jsonrpc'' (JStr ''2.0'')) ''id'' (JStr ''1''))"

definition wasabi_rpc ::
    "'w wasabi_env \<Rightarrow> wasabi_client \<Rightarrow> dict \<Rightarrow> bool \<Rightarrow> int option \<Rightarrow> nat \<Rightarrow> string option \<Rightarrow> ('w, json) io" where
  "wasabi_rpc env c request wallet timeout repeat wallet_name =
     wasabi_attempts env (rpc_path c wallet wallet_name) (rpc_request request) timeout repeat (no_answer c repeat)"

section \<open>Requests\<close>

definition rpc_method :: "string \<Rightarrow> dict" where
  "rpc_method m = [(''method'', JStr m)]"

definition rpc_method_with :: "string \<Rightarrow> json \<Rightarrow> dict" where
  "rpc_method_with m params = [(''method'', JStr m), (''params'', params)]"

text \<open>\<open>v[k]\<close> on an answer.\<close>

definition subscript :: "json \<Rightarrow> string \<Rightarrow> exn + json" where
  "subscript v k =
     (case v of
        JDict d \<Rightarrow> (case map_of d k of None \<Rightarrow> Inl (Exn KKeyError k) | Some x \<Rightarrow> Inr x)
      | _ \<Rightarrow> Inl (Exn KTypeError ''indices''))"

definition wasabi_get_status :: "'w wasabi_env \<Rightarrow> wasabi_client \<Rightarrow> ('w, json) io" where
  "wasabi_get_status env c = wasabi_rpc env c (rpc_method ''getstatus'') False (Some 5) 1 None"

definition wasabi_create_wallet :: "'w wasabi_env \<Rightarrow> wasabi_client \<Rightarrow> string option \<Rightarrow> ('w, json) io" where
  "wasabi_create_wallet env c wallet_name =
     wasabi_rpc env c (rpc_method_with ''createwallet'' (JList
       [JStr (case wallet_name of None \<Rightarrow> WASABI_WALLET_NAME | Some n \<Rightarrow> if n = [] then WASABI_WALLET_NAME else n), JStr []]))
       True (Some 5) 1 None"

definition wasabi_new_address :: "'w wasabi_env \<Rightarrow> wasabi_client \<Rightarrow> ('w, json) io" where
  "wasabi_new_address env c =
     io_bind (wasabi_rpc env c (rpc_method_with ''getnewaddress'' (JList [JStr ''label''])) True (Some 5) 3 None)
       (\<lambda>r. io_lift (subscript r ''address''))"

definition wasabi_wallet_info :: "'w wasabi_env \<Rightarrow> wasabi_client \<Rightarrow> int option \<Rightarrow> string option \<Rightarrow> ('w, json) io" where
  "wasabi_wallet_info env c timeout wallet_name =
     wasabi_rpc env c (rpc_method ''getwalletinfo'') True timeout 1 wallet_name"

definition wasabi_get_balance :: "'w wasabi_env \<Rightarrow> wasabi_client \<Rightarrow> int option \<Rightarrow> string option \<Rightarrow> ('w, json) io" where
  "wasabi_get_balance env c timeout wallet_name =
     io_bind (wasabi_wallet_info env c timeout wallet_name) (\<lambda>info. io_lift (subscript info ''balance''))"

text \<open>\<open>"balance" in info and info.get("state", "Started") == "Started"\<close>.\<close>

definition started_info :: "json \<Rightarrow> exn + bool" where
  "started_info info =
     (case info of
        JDict d \<Rightarrow> Inr (map_of d ''balance'' \<noteq> None \<and> dget_default d ''state'' (JStr ''Started'') = JStr ''Started'')
      | JList xs \<Rightarrow> if JStr ''balance'' \<in> set xs then Inl (Exn KAttributeError ''get'') else Inr False
      | JStr s \<Rightarrow> if contains ''balance'' s then Inl (Exn KAttributeError ''get'') else Inr False
      | _ \<Rightarrow> Inl (Exn KTypeError ''not iterable''))"

definition wallet_started :: "'w wasabi_env \<Rightarrow> wasabi_client \<Rightarrow> int option \<Rightarrow> ('w, bool) io" where
  "wallet_started env c timeout = io_bind (wasabi_wallet_info env c timeout None) (\<lambda>info. io_lift (started_info info))"

definition list_unspent :: "'w wasabi_env \<Rightarrow> wasabi_client \<Rightarrow> ('w, json) io" where
  "list_unspent env c = wasabi_rpc env c (rpc_method ''listunspentcoins'') True (Some 5) 1 None"

text \<open>The listings stored with a run: \<open>listcoins\<close>, \<open>listunspentcoins\<close>, \<open>listkeys\<close>, \<open>gethistory\<close>.\<close>

definition wasabi_listing :: "'w wasabi_env \<Rightarrow> wasabi_client \<Rightarrow> string \<Rightarrow> ('w, json) io" where
  "wasabi_listing env c m = wasabi_rpc env c (rpc_method m) True (Some 10) 3 None"

definition wasabi_list_coins :: "'w wasabi_env \<Rightarrow> wasabi_client \<Rightarrow> ('w, json) io" where
  "wasabi_list_coins env c =
     (if wasabi_client_class (wl_version c) = ClientV1
      then io_raise (Exn KException ''This method is not yet implemented in the wallet wasabi, need to be patched.'')
      else wasabi_listing env c ''listcoins'')"

definition select_wallet :: "'w wasabi_env \<Rightarrow> wasabi_client \<Rightarrow> int \<Rightarrow> nat \<Rightarrow> ('w, json) io" where
  "select_wallet env c timeout repeat =
     wasabi_rpc env c (rpc_method_with ''selectwallet'' (JList [JStr WASABI_WALLET_NAME])) False (Some timeout) repeat None"

section \<open>Waiting for the wallet\<close>

text \<open>
  Older clients select the wallet and read its balance, newer ones read its state; the 2.6 client
  waits a second between polls and the others a tenth. Every exception of a poll is ignored.
\<close>

definition selected_ready :: "'w wasabi_env \<Rightarrow> wasabi_client \<Rightarrow> ('w, bool) io" where
  "selected_ready env c =
     io_seq (select_wallet env c 5 10) (io_seq (wasabi_get_balance env c (Some 5) None) (io_ret True))"

definition wallet_ready :: "'w wasabi_env \<Rightarrow> wasabi_client \<Rightarrow> ('w, bool) io" where
  "wallet_ready env c =
     (if wasabi_client_class (wl_version c) \<in> {ClientV1, ClientV2}
      then selected_ready env c
      else wallet_started env c (Some 5))"

definition wallet_pause :: "wasabi_client \<Rightarrow> rat" where
  "wallet_pause c = (if wasabi_client_class (wl_version c) = ClientV26 then 1 else 1 / 10)"

definition wallet_poll :: "'w wasabi_env \<Rightarrow> wasabi_client \<Rightarrow> unit \<Rightarrow> ('w, unit + bool) io" where
  "wallet_poll env c = (\<lambda>_.
     io_seq (io_catch (io_seq (wasabi_create_wallet env c None) (io_ret ())) is_exception (\<lambda>_. io_ret ()))
       (io_catch (io_bind (wallet_ready env c) (\<lambda>ok. io_ret (if ok then Inr True else Inl ())))
          is_exception (\<lambda>_. io_ret (Inl ()))))"

definition wasabi_wait_wallet :: "nat \<Rightarrow> 'w wasabi_env \<Rightarrow> wasabi_client \<Rightarrow> int option \<Rightarrow> ('w, bool) io" where
  "wasabi_wait_wallet n env c timeout = (\<lambda>w.
     poll_while n
       (\<lambda>v. case timeout of None \<Rightarrow> True | Some t \<Rightarrow> we_clock env v - we_clock env w < of_int t)
       (wallet_poll env c) (we_sleep env (wallet_pause c)) (\<lambda>_. io_ret False) () w)"

definition status_poll :: "'w wasabi_env \<Rightarrow> wasabi_client \<Rightarrow> unit \<Rightarrow> ('w, unit + unit) io" where
  "status_poll env c = (\<lambda>_.
     io_catch (io_seq (wasabi_get_status env c) (io_ret (Inr ()))) is_exception (\<lambda>_. io_ret (Inl ())))"

definition wasabi_wait_ready :: "nat \<Rightarrow> 'w wasabi_env \<Rightarrow> wasabi_client \<Rightarrow> rat \<Rightarrow> ('w, unit) io" where
  "wasabi_wait_ready n env c timeout = (\<lambda>w.
     poll_while n (\<lambda>v. we_clock env v < we_clock env w + timeout)
       (status_poll env c) (we_sleep env (1 / 10))
       (\<lambda>_. io_raise (Exn KTimeoutError ''not ready'')) () w)"

section \<open>Plain payments\<close>

definition int_amount :: "json \<Rightarrow> exn + int" where
  "int_amount v = (case int_of v of None \<Rightarrow> Inl (Exn KTypeError ''amount'') | Some n \<Rightarrow> Inr n)"

definition as_list :: "json \<Rightarrow> exn + json list" where
  "as_list v = (case v of JList xs \<Rightarrow> Inr xs | _ \<Rightarrow> Inl (Exn KTypeError ''list''))"

definition coin_input :: "json \<Rightarrow> json \<Rightarrow> json" where
  "coin_input txid index = JDict [(''transactionid'', txid), (''index'', index)]"

text \<open>The loop of \<open>send\<close>: coins are taken until they exceed the cost; \<open>else\<close> is not enough.\<close>

fun pick_coins :: "json list \<Rightarrow> int \<Rightarrow> json list \<Rightarrow> exn + json list" where
  "pick_coins [] cost coins = Inl (Exn KException ''Not enough BTC'')"
| "pick_coins (c # cs) cost coins =
     ebind (subscript c ''txid'') (\<lambda>txid.
     ebind (subscript c ''index'') (\<lambda>index.
     ebind (ebind (subscript c ''amount'') int_amount) (\<lambda>amount.
       let coins' = coins @ [coin_input txid index]
       in if cost - amount < 0 then Inr coins' else pick_coins cs (cost - amount) coins')))"

definition send_request :: "json list \<Rightarrow> json list \<Rightarrow> dict" where
  "send_request payments coins = rpc_method_with ''send'' (JDict
     [(''payments'', JList payments), (''coins'', JList coins), (''feeTarget'', JInt 2), (''password'', JStr [])])"

definition wasabi_send :: "'w wasabi_env \<Rightarrow> wasabi_client \<Rightarrow> (json \<times> int) list \<Rightarrow> ('w, json) io" where
  "wasabi_send env c invoices =
     io_bind (list_unspent env c) (\<lambda>r.
     io_bind (io_lift (as_list r)) (\<lambda>unspent_coins.
     io_bind (\<lambda>w. case we_shuffle env unspent_coins w of (cs, w') \<Rightarrow> (Inr cs, w')) (\<lambda>shuffled.
     io_bind (io_lift (pick_coins shuffled (sum_list_by snd invoices) [])) (\<lambda>coins.
       wasabi_rpc env c
         (send_request (map (\<lambda>(a, v). JDict [(''sendto'', a), (''amount'', JInt v)]) invoices) coins)
         True None 1 None))))"

section \<open>Mixed payments\<close>

text \<open>
  The \<open>listunspentcoins\<close> fields of \<open>WasabiCoin\<close>; a coin of another shape is a TypeError here,
  also when the selection would not have read the field.
\<close>

definition coin_of_json :: "json \<Rightarrow> exn + wasabi_coin" where
  "coin_of_json v =
     ebind (subscript v ''txid'') (\<lambda>txid.
     ebind (subscript v ''index'') (\<lambda>index.
     ebind (subscript v ''amount'') (\<lambda>amount.
       case (v, txid, int_of index, int_of amount) of
         (JDict d, JStr t, Some i, Some a) \<Rightarrow>
           Inr \<lparr>co_txid = t, co_index = i, co_amount = a, co_score = num_of (dget d ''anonymityScore''),
             co_confirmed = truthy (dget d ''confirmed'')\<rparr>
       | _ \<Rightarrow> Inl (Exn KTypeError ''coin''))))"

definition coins_of_json :: "json \<Rightarrow> exn + wasabi_coin list" where
  "coins_of_json v = ebind (as_list v) (traverse coin_of_json)"

type_synonym 'w node_query = "string \<Rightarrow> int \<Rightarrow> ('w, bool) io"

text \<open>The generator of \<open>_select_mixed_coins\<close>: the node is asked about confirmed mixed coins only.\<close>

fun mixed_unspent :: "rat option \<Rightarrow> 'w node_query option \<Rightarrow> wasabi_coin list \<Rightarrow> ('w, wasabi_coin list) io" where
  "mixed_unspent m unspent [] = io_ret []"
| "mixed_unspent m unspent (c # cs) =
     (if co_confirmed c \<and> is_mixed m c
      then io_bind (case unspent of None \<Rightarrow> io_ret True | Some u \<Rightarrow> u (co_txid c) (co_index c)) (\<lambda>ok.
           io_bind (mixed_unspent m unspent cs) (\<lambda>rest. io_ret (if ok then c # rest else rest)))
      else mixed_unspent m unspent cs)"

definition select_mixed ::
    "'w wasabi_env \<Rightarrow> wasabi_client \<Rightarrow> int option \<Rightarrow> rat option \<Rightarrow> 'w node_query option \<Rightarrow> string
       \<Rightarrow> ('w, wasabi_coin list \<times> int) io" where
  "select_mixed env c v min_anon unspent selection =
     io_bind (list_unspent env c) (\<lambda>r.
     io_bind (io_lift (coins_of_json r)) (\<lambda>coins.
     io_bind (mixed_unspent min_anon unspent coins) (\<lambda>kept.
       io_lift (select_mixed_coins (wl_name c) kept v min_anon None selection))))"

text \<open>One turn of the settlement wait: settled (\<open>Inr ()\<close>), or the reason why not yet.\<close>

fun all_unspent :: "'w wasabi_env \<Rightarrow> rat \<Rightarrow> 'w node_query \<Rightarrow> json list \<Rightarrow> ('w, string + unit) io" where
  "all_unspent env deadline unspent [] = io_ret (Inr ())"
| "all_unspent env deadline unspent (v # vs) = (\<lambda>w.
     if deadline \<le> we_clock env w then (Inr (Inl ''checking the wallet's coins exceeded the timeout''), w)
     else io_bind (io_lift (subscript v ''txid'')) (\<lambda>txid.
          io_bind (io_lift (subscript v ''index'')) (\<lambda>index.
          io_bind (case (txid, int_of index) of
                     (JStr t, Some i) \<Rightarrow> unspent t i | _ \<Rightarrow> io_raise (Exn KTypeError ''coin'')) (\<lambda>ok.
            if ok then all_unspent env deadline unspent vs
            else io_ret (Inl ''wallet still lists inputs already spent by the node'')))) w)"

fun some_unconfirmed :: "json list \<Rightarrow> exn + bool" where
  "some_unconfirmed [] = Inr False"
| "some_unconfirmed (v # vs) =
     ebind (as_dict v) (\<lambda>d. if truthy (dget d ''confirmed'') then some_unconfirmed vs else Inr True)"

definition settlement_step ::
    "'w wasabi_env \<Rightarrow> wasabi_client \<Rightarrow> rat \<Rightarrow> 'w node_query \<Rightarrow> string \<Rightarrow> ('w, string + unit) io" where
  "settlement_step env c deadline unspent = (\<lambda>_.
     io_bind (wasabi_wallet_info env c (Some 5) None) (\<lambda>r.
     io_bind (io_lift (as_dict r)) (\<lambda>info.
       if dget info ''coinjoinStatus'' \<noteq> JStr ''Idle''
       then io_ret (Inl (''coinjoin status is '' @ py_str (we_float_text env)
              (dget_default info ''coinjoinStatus'' (JStr ''unavailable''))))
       else io_bind (list_unspent env c) (\<lambda>l.
            io_bind (io_lift (as_list l)) (\<lambda>coins.
            io_bind (io_lift (some_unconfirmed coins)) (\<lambda>waiting.
              if waiting then io_ret (Inl ''wallet still has unconfirmed coins'')
              else all_unspent env deadline unspent coins))))))"

definition wait_for_settlement ::
    "nat \<Rightarrow> 'w wasabi_env \<Rightarrow> wasabi_client \<Rightarrow> 'w node_query \<Rightarrow> ('w, unit) io" where
  "wait_for_settlement n env c unspent = (\<lambda>w.
     if wl_version c < ''2.6.0'' then (Inr (), w)
     else let deadline = we_clock env w + POSTMIX_SETTLEMENT_TIMEOUT_SECONDS
          in poll_while n (\<lambda>v. we_clock env v < deadline) (settlement_step env c deadline unspent)
               (we_sleep env 1)
               (\<lambda>reason. io_raise (Exn KTimeoutError (wl_name c
                  @ '' could not settle its all-mixed-coins spend within 300 s: '' @ reason)))
               ''coinjoin has not stopped'' w)"

record mixed_payment =
  mp_txid :: json
  mp_amount :: int
  mp_coins :: "wasabi_coin list"

definition send_mixed_coins ::
    "nat \<Rightarrow> 'w wasabi_env \<Rightarrow> wasabi_client \<Rightarrow> string \<Rightarrow> int option \<Rightarrow> rat option \<Rightarrow> 'w node_query option
       \<Rightarrow> string \<Rightarrow> ('w, mixed_payment) io" where
  "send_mixed_coins n env c destination v min_anon unspent selection =
     io_seq (case (v, unspent) of (None, Some u) \<Rightarrow> wait_for_settlement n env c u | _ \<Rightarrow> io_ret ())
     (io_bind (select_mixed env c v min_anon unspent selection) (\<lambda>(selected, tot).
      io_bind (wasabi_rpc env c
        (send_request
          [JDict [(''sendto'', JStr destination), (''amount'', JInt tot), (''label'', JStr ''postmix''),
                  (''subtractFee'', JBool True)]]
          (map (\<lambda>k. coin_input (JStr (co_txid k)) (JInt (co_index k))) selected)) True None 1 None) (\<lambda>r.
        io_ret \<lparr>mp_txid = (case r of JDict d \<Rightarrow> dget d ''txid'' | _ \<Rightarrow> JNull), mp_amount = tot,
                mp_coins = selected\<rparr>)))"

definition check_mixed_coins ::
    "'w wasabi_env \<Rightarrow> wasabi_client \<Rightarrow> int option \<Rightarrow> rat option \<Rightarrow> 'w node_query option \<Rightarrow> ('w, unit) io" where
  "check_mixed_coins env c v min_anon unspent =
     io_seq (select_mixed env c v min_anon unspent ''anon_score'') (io_ret ())"

section \<open>Mixing\<close>

text \<open>The 1.x client registers its confirmed coins one by one, newer clients switch mixing on and off.\<close>

fun confirmed_inputs :: "json list \<Rightarrow> exn + json list" where
  "confirmed_inputs [] = Inr []"
| "confirmed_inputs (v # vs) =
     ebind (subscript v ''confirmed'') (\<lambda>ok.
       if truthy ok
       then ebind (subscript v ''txid'') (\<lambda>txid. ebind (subscript v ''index'') (\<lambda>index.
            ebind (confirmed_inputs vs) (\<lambda>rest. Inr (coin_input txid index # rest))))
       else confirmed_inputs vs)"

definition queue_all :: "'w wasabi_env \<Rightarrow> wasabi_client \<Rightarrow> string \<Rightarrow> ('w, json) io" where
  "queue_all env c m =
     io_bind (wasabi_listing env c ''listunspentcoins'') (\<lambda>r.
     io_bind (io_lift (ebind (as_list r) confirmed_inputs)) (\<lambda>coins.
       wasabi_rpc env c (rpc_method_with m (JDict [(''coins'', JList coins), (''password'', JStr [])]))
         True (Some 5) 3 None))"

definition wasabi_start_coinjoin :: "'w wasabi_env \<Rightarrow> wasabi_client \<Rightarrow> ('w, json) io" where
  "wasabi_start_coinjoin env c =
     (if wasabi_client_class (wl_version c) = ClientV1 then queue_all env c ''enqueue''
      else wasabi_rpc env c (rpc_method_with ''startcoinjoin'' (JList [JStr [], JStr ''True'', JStr ''True'']))
             True None 1 None)"

definition wasabi_stop_coinjoin :: "'w wasabi_env \<Rightarrow> wasabi_client \<Rightarrow> ('w, json) io" where
  "wasabi_stop_coinjoin env c =
     (if wasabi_client_class (wl_version c) = ClientV1 then queue_all env c ''dequeue''
      else wasabi_rpc env c (rpc_method ''stopcoinjoin'') True (Some 5) 1 None)"

section \<open>What a call posts\<close>

text \<open>The client with the outcome of every post noted.\<close>

definition noting_posts :: "'w wasabi_env \<Rightarrow> ('w \<times> (exn + json) list) wasabi_env" where
  "noting_posts env = \<lparr>
     we_post = (\<lambda>path request timeout (w, l). case we_post env path request timeout w of (r, w') \<Rightarrow> (r, (w', l @ [r]))),
     we_clock = we_clock env \<circ> fst, we_sleep = (\<lambda>d (w, l). (we_sleep env d w, l)),
     we_shuffle = (\<lambda>xs (w, l). case we_shuffle env xs w of (ys, w') \<Rightarrow> (ys, (w', l))),
     we_float_text = we_float_text env\<rparr>"

text \<open>A post after which the call tries again, and what the call gives for its last post.\<close>

definition retryable :: "(rat \<Rightarrow> string) \<Rightarrow> exn + json \<Rightarrow> bool" where
  "retryable ft r =
     (case r of
        Inl e \<Rightarrow> exn_class e = KHttpTimeout
      | Inr body \<Rightarrow> (case body_answer body of ErrorAnswer err \<Rightarrow> is_transient ft err | _ \<Rightarrow> False))"

definition post_outcome :: "(rat \<Rightarrow> string) \<Rightarrow> exn + json \<Rightarrow> exn + json" where
  "post_outcome ft r =
     (case r of
        Inl e \<Rightarrow> Inl e
      | Inr body \<Rightarrow> (case body_answer body of
            Answer v \<Rightarrow> Inr v | Unreadable e \<Rightarrow> Inl e | ErrorAnswer err \<Rightarrow> Inl (Exn KRpcError (py_str ft err))))"

lemma noted_post:
  "we_post env path request timeout w = (a, w1) \<Longrightarrow>
     we_post (noting_posts env) path request timeout (w, l) = (a, (w1, l @ [a]))"
  by (simp add: noting_posts_def)

lemma noting_fields [simp]:
  "we_sleep (noting_posts env) d (w, l) = (we_sleep env d w, l)"
  "we_float_text (noting_posts env) = we_float_text env"
  by (simp_all add: noting_posts_def)

definition good_posts :: "(rat \<Rightarrow> string) \<Rightarrow> nat \<Rightarrow> exn + json \<Rightarrow> (exn + json) list \<Rightarrow> bool" where
  "good_posts ft repeat r posts =
     (posts \<noteq> [] \<and> length posts \<le> repeat \<and> (\<forall>p\<in>set (butlast posts). retryable ft p)
      \<and> (length posts < repeat \<longrightarrow> \<not> retryable ft (last posts)) \<and> r = post_outcome ft (last posts))"

lemma good_posts_Cons:
  "retryable ft a \<Longrightarrow> good_posts ft n r posts \<Longrightarrow> good_posts ft (Suc n) r (a # posts)"
  by (auto simp: good_posts_def)

lemma good_posts_last: "(n \<noteq> 0 \<Longrightarrow> \<not> retryable ft a) \<Longrightarrow> r = post_outcome ft a \<Longrightarrow> good_posts ft (Suc n) r [a]"
  by (auto simp: good_posts_def)

lemma attempts_posts:
  "wasabi_attempts (noting_posts env) path request timeout (Suc n) e0 (w, l) = (r, (w', l')) \<Longrightarrow>
     \<exists>posts. l' = l @ posts \<and> good_posts (we_float_text env) (Suc n) r posts"
proof (induction n arbitrary: w l e0)
  case (0 w l e0)
  obtain a w1 where a: "we_post env path request timeout w = (a, w1)" by fastforce
  have "l' = l @ [a]" "r = post_outcome (we_float_text env) a"
    using 0 noted_post [OF a, of l]
    by (auto simp: post_outcome_def io_raise_def split: sum.splits answer.splits if_splits)
  then show ?case by (intro exI [of _ "[a]"]) (simp add: good_posts_last)
next
  case (Suc n w l e0)
  obtain a w1 where a: "we_post env path request timeout w = (a, w1)" by fastforce
  show ?case
  proof (cases "retryable (we_float_text env) a")
    case False
    then have "l' = l @ [a]" "r = post_outcome (we_float_text env) a"
      using Suc.prems noted_post [OF a, of l]
      by (auto simp: post_outcome_def retryable_def split: sum.splits answer.splits if_splits)
    then show ?thesis using False by (intro exI [of _ "[a]"]) (simp add: good_posts_last)
  next
    case True
    then obtain e1 where "wasabi_attempts (noting_posts env) path request timeout (Suc n) e1
        (we_sleep env RETRY_BACKOFF_SECONDS w1, l @ [a]) = (r, (w', l'))"
      using Suc.prems noted_post [OF a, of l]
      by (cases a) (auto simp: retryable_def simp del: wasabi_attempts.simps(2) split: answer.splits
          dest: arg_cong [of _ _ "\<lambda>x. x"] simp: wasabi_attempts.simps(2) [of _ _ _ _ "Suc n"])
    from Suc.IH [OF this] obtain posts where "l' = (l @ [a]) @ posts"
      "good_posts (we_float_text env) (Suc n) r posts" by blast
    then show ?thesis using good_posts_Cons [OF True]
      by (intro exI [of _ "a # posts"]) simp
  qed
qed

text \<open>
  Claim C24. A call to the wallet posts at least once and at most as often as it may: every post but
  the last timed out or met a transient error, the last one decides the outcome, and it was worth
  no further attempt or there was none left.
\<close>

theorem rpc_outcome_is_last_post:
  assumes "wasabi_rpc (noting_posts env) c request wallet timeout repeat wallet_name (w, []) = (r, (w', posts))"
    and "0 < repeat"
  shows "posts \<noteq> [] \<and> length posts \<le> repeat
    \<and> (\<forall>p\<in>set (butlast posts). retryable (we_float_text env) p)
    \<and> (length posts < repeat \<longrightarrow> \<not> retryable (we_float_text env) (last posts))
    \<and> r = post_outcome (we_float_text env) (last posts)"
proof -
  obtain n where n: "repeat = Suc n" using assms(2) by (cases "repeat") simp_all
  from attempts_posts [OF assms(1) [unfolded wasabi_rpc_def n]] show ?thesis
    by (simp add: good_posts_def n)
qed

text \<open>A wallet that is busy, then silent, then answers.\<close>

definition example_client :: "string \<Rightarrow> wasabi_client" where
  "example_client version = \<lparr>wl_host = ''localhost'', wl_port = 8, wl_name = ''wasabi-client-000'', wl_version = version,
     wl_delay = (0, 0), wl_stop = (0, 0), wl_skip_rounds = []\<rparr>"

definition busy_error :: json where
  "busy_error = JDict [(''code'', JInt (-32603)), (''message'', JStr ''Collection was modified; enumeration'')]"

definition busy_wallet :: "nat wasabi_env" where
  "busy_wallet = \<lparr>we_post = (\<lambda>path request timeout n.
       (if n = 0 then Inr (JDict [(''error'', busy_error)])
        else if n = 1 then Inl (Exn KHttpTimeout ''read'')
        else Inr (JDict [(''result'', JDict [(''address'', JStr ''bcrt1q'')])]), n + 1)),
     we_clock = of_nat, we_sleep = (\<lambda>d w. w), we_shuffle = (\<lambda>xs w. (rev xs, w)), we_float_text = (\<lambda>x. [])\<rparr>"

theorem rpc_outcome_is_last_post_witness:
  "\<exists>w' posts. wasabi_rpc (noting_posts busy_wallet) (example_client ''2.6.0'') (rpc_method ''getnewaddress'') True (Some 5) 3 None
       (0, []) = (Inr (JDict [(''address'', JStr ''bcrt1q'')]), (w', posts)) \<and> length posts = 3"
proof -
  let ?run = "wasabi_rpc (noting_posts busy_wallet) (example_client ''2.6.0'') (rpc_method ''getnewaddress'') True (Some 5) 3 None
       (0, [])"
  obtain r w' posts where run: "?run = (r, (w', posts))" by (metis surj_pair)
  have "fst ?run = Inr (JDict [(''address'', JStr ''bcrt1q'')]) \<and> 3 \<le> length (snd (snd ?run))" by code_simp
  then have out: "r = Inr (JDict [(''address'', JStr ''bcrt1q'')])" "3 \<le> length posts" unfolding run by simp_all
  have "length posts \<le> 3" using rpc_outcome_is_last_post [OF run] by simp
  then show ?thesis using run out by (metis le_antisym)
qed

section \<open>Payments\<close>

text \<open>The coins of a listing as \<open>send\<close> reads them.\<close>

definition readable_coin :: "json \<Rightarrow> json \<times> int \<Rightarrow> bool" where
  "readable_coin v p = (\<exists>t i. subscript v ''txid'' = Inr t \<and> subscript v ''index'' = Inr i
     \<and> subscript v ''amount'' = Inr (JInt (snd p)) \<and> fst p = coin_input t i)"

lemma pick_coins_spec:
  "list_all2 readable_coin cs ps \<Longrightarrow>
     (\<exists>k<length ps. pick_coins cs cost acc = Inr (acc @ map fst (take (Suc k) ps))
        \<and> cost < sum_list_by snd (take (Suc k) ps) \<and> (\<forall>j. 0 < j \<longrightarrow> j \<le> k \<longrightarrow> sum_list_by snd (take j ps) \<le> cost))
     \<or> (pick_coins cs cost acc = Inl (Exn KException ''Not enough BTC'')
        \<and> (\<forall>j. 0 < j \<longrightarrow> j \<le> length ps \<longrightarrow> sum_list_by snd (take j ps) \<le> cost))"
proof (induction cs ps arbitrary: cost acc rule: list_all2_induct)
  case Nil
  then show ?case by simp
next
  case (Cons c cs p ps)
  obtain t i where c: "subscript c ''txid'' = Inr t" "subscript c ''index'' = Inr i"
    "subscript c ''amount'' = Inr (JInt (snd p))" "fst p = coin_input t i"
    using Cons.hyps(1) by (auto simp: readable_coin_def)
  show ?case
  proof (cases "cost < snd p")
    case True
    then show ?thesis using c by (intro disjI1 exI [of _ 0]) (simp add: int_amount_def)
  next
    case False
    have step: "pick_coins (c # cs) cost acc = pick_coins cs (cost - snd p) (acc @ [fst p])"
      using False c by (simp add: int_amount_def)
    have pre: "sum_list_by snd (take j (p # ps)) \<le> cost" if j: "0 < j" "j \<le> n"
      "\<And>j. 0 < j \<Longrightarrow> j < n \<Longrightarrow> sum_list_by snd (take j ps) \<le> cost - snd p" for j n
    proof (cases "j = 1")
      case True
      then show ?thesis using False by simp
    next
      case ne: False
      obtain i where i: "j = Suc i" using gr0_implies_Suc [OF j(1)] by blast
      then have "0 < i" using ne by simp
      then show ?thesis using j(3) [of i] j(2) i by simp
    qed
    from Cons.IH [of "cost - snd p" "acc @ [fst p]"] show ?thesis
    proof (elim disjE exE conjE)
      fix k assume k: "k < length ps" "pick_coins cs (cost - snd p) (acc @ [fst p]) = Inr ((acc @ [fst p]) @ map fst (take (Suc k) ps))"
        "cost - snd p < sum_list_by snd (take (Suc k) ps)"
        "\<forall>j. 0 < j \<longrightarrow> j \<le> k \<longrightarrow> sum_list_by snd (take j ps) \<le> cost - snd p"
      show ?thesis
      proof (intro disjI1 exI [of _ "Suc k"] conjI allI impI)
        show "Suc k < length (p # ps)" using k by simp
        show "pick_coins (c # cs) cost acc = Inr (acc @ map fst (take (Suc (Suc k)) (p # ps)))" using step k by simp
        show "cost < sum_list_by snd (take (Suc (Suc k)) (p # ps))" using k by simp
        show "sum_list_by snd (take j (p # ps)) \<le> cost" if "0 < j" "j \<le> Suc k" for j
          using pre [OF that] k(4) by auto
      qed
    next
      assume n: "pick_coins cs (cost - snd p) (acc @ [fst p]) = Inl (Exn KException ''Not enough BTC'')"
        "\<forall>j. 0 < j \<longrightarrow> j \<le> length ps \<longrightarrow> sum_list_by snd (take j ps) \<le> cost - snd p"
      show ?thesis
      proof (intro disjI2 conjI allI impI)
        show "pick_coins (c # cs) cost acc = Inl (Exn KException ''Not enough BTC'')" using step n by simp
        show "sum_list_by snd (take j (p # ps)) \<le> cost" if "0 < j" "j \<le> length (p # ps)" for j
          using pre [OF that] n(2) by auto
      qed
    qed
  qed
qed

text \<open>
  Claim C26. A plain payment is posted with the shortest run of shuffled coins whose sum exceeds the
  sum of the invoices, so a fee is left over; it is not posted, and raises, exactly when no run of
  them does.
\<close>

theorem payment_takes_shortest_run:
  assumes "list_unspent env c w = (Inr (JList listed), w1)" "we_shuffle env listed w1 = (cs, w2)"
    and "list_all2 readable_coin cs ps"
    and "payments = map (\<lambda>(a, v). JDict [(''sendto'', a), (''amount'', JInt v)]) invoices"
    and "cost = sum_list_by snd invoices"
  shows "(\<exists>k<length ps. cost < sum_list_by snd (take (Suc k) ps)
        \<and> (\<forall>j. 0 < j \<longrightarrow> j \<le> k \<longrightarrow> sum_list_by snd (take j ps) \<le> cost)
        \<and> wasabi_send env c invoices w
          = wasabi_rpc env c (send_request payments (map fst (take (Suc k) ps))) True None 1 None w2)
    \<or> ((\<forall>j. 0 < j \<longrightarrow> j \<le> length ps \<longrightarrow> sum_list_by snd (take j ps) \<le> cost)
        \<and> wasabi_send env c invoices w = (Inl (Exn KException ''Not enough BTC''), w2))"
proof -
  have run: "wasabi_send env c invoices w
      = (case pick_coins cs cost [] of Inl e \<Rightarrow> (Inl e, w2)
         | Inr coins \<Rightarrow> wasabi_rpc env c (send_request payments coins) True None 1 None w2)"
    using assms by (simp add: wasabi_send_def io_bind_def io_lift_def as_list_def split: sum.split)
  show ?thesis using pick_coins_spec [OF assms(3), of cost "[]"] run by auto
qed

text \<open>A wallet with three coins, shuffled to the front from the back.\<close>

definition coin_json :: "string \<Rightarrow> int \<Rightarrow> json" where
  "coin_json t a = JDict [(''txid'', JStr t), (''index'', JInt 0), (''amount'', JInt a), (''anonymityScore'', JFloat 5),
     (''confirmed'', JBool True)]"

definition coin_wallet :: "nat wasabi_env" where
  "coin_wallet = busy_wallet\<lparr>we_post := (\<lambda>path request timeout n.
     (Inr (JDict [(''result'', if n = 0 then JList [coin_json ''a'' 50, coin_json ''b'' 30, coin_json ''c'' 20] else JStr ''tx'')]),
      n + 1))\<rparr>"

theorem payment_takes_shortest_run_witness:
  "wasabi_send coin_wallet (example_client ''2.6.0'') [(JStr ''addr'', 50)] 0
   = wasabi_rpc coin_wallet (example_client ''2.6.0'')
       (send_request [JDict [(''sendto'', JStr ''addr''), (''amount'', JInt 50)]]
          [coin_input (JStr ''c'') (JInt 0), coin_input (JStr ''b'') (JInt 0), coin_input (JStr ''a'') (JInt 0)])
       True None 1 None 1"
proof -
  let ?coins = "[coin_json ''a'' 50, coin_json ''b'' 30, coin_json ''c'' 20]"
  let ?ps = "[(coin_input (JStr ''c'') (JInt 0), 20), (coin_input (JStr ''b'') (JInt 0), 30), (coin_input (JStr ''a'') (JInt 0), 50)]"
  have l: "list_unspent coin_wallet (example_client ''2.6.0'') 0 = (Inr (JList ?coins), 1)" by code_simp
  have s: "we_shuffle coin_wallet ?coins 1 = (rev ?coins, 1)" by (simp add: coin_wallet_def busy_wallet_def)
  have r: "list_all2 readable_coin (rev ?coins) ?ps"
    by (simp add: readable_coin_def coin_json_def subscript_def)
  from payment_takes_shortest_run [OF l s r refl refl, of "[(JStr ''addr'', 50)]"] show ?thesis
  proof (elim disjE exE conjE)
    fix k assume k: "k < length ?ps" "sum_list_by snd [(JStr ''addr'', 50)] < sum_list_by snd (take (Suc k) ?ps)"
      and run: "wasabi_send coin_wallet (example_client ''2.6.0'') [(JStr ''addr'', 50)] 0
        = wasabi_rpc coin_wallet (example_client ''2.6.0'')
            (send_request (map (\<lambda>(a, v). JDict [(''sendto'', a), (''amount'', JInt v)]) [(JStr ''addr'', 50)])
              (map fst (take (Suc k) ?ps))) True None 1 None 1"
    have "k = 0 \<or> k = 1 \<or> k = 2" using k(1) by auto
    with k(2) have "k = 2" by auto
    with run show ?thesis by (simp add: numeral_2_eq_2)
  next
    assume "\<forall>j. 0 < j \<longrightarrow> j \<le> length ?ps \<longrightarrow> sum_list_by snd (take j ?ps) \<le> sum_list_by snd [(JStr ''addr'', 50)]"
    from this [rule_format, of 3] show ?thesis by simp
  qed
qed

section \<open>Settlement\<close>

text \<open>
  What the wallet and the node said when a wait ended: mixing was idle, every listed coin confirmed,
  and the node saw each of them unspent, each asked in turn.
\<close>

fun seen_unspent :: "'w node_query \<Rightarrow> json list \<Rightarrow> 'w \<Rightarrow> 'w \<Rightarrow> bool" where
  "seen_unspent unspent [] w w' = (w' = w)"
| "seen_unspent unspent (v # vs) w w' =
     (\<exists>t i v1. subscript v ''txid'' = Inr (JStr t) \<and> subscript v ''index'' = Inr (JInt i)
        \<and> unspent t i w = (Inr True, v1) \<and> seen_unspent unspent vs v1 w')"

definition settled_at :: "'w wasabi_env \<Rightarrow> wasabi_client \<Rightarrow> 'w node_query \<Rightarrow> 'w \<Rightarrow> 'w \<Rightarrow> bool" where
  "settled_at env c unspent w0 w' =
     (\<exists>info w1 coins w2. wasabi_wallet_info env c (Some 5) None w0 = (Inr (JDict info), w1)
        \<and> dget info ''coinjoinStatus'' = JStr ''Idle''
        \<and> list_unspent env c w1 = (Inr (JList coins), w2)
        \<and> (\<forall>v\<in>set coins. \<exists>d. v = JDict d \<and> truthy (dget d ''confirmed''))
        \<and> seen_unspent unspent coins w2 w')"

lemma all_unspent_seen: "all_unspent env deadline unspent vs w = (Inr (Inr ()), w') \<Longrightarrow> seen_unspent unspent vs w w'"
proof (induction vs arbitrary: w)
  case Nil
  then show ?case by (simp add: io_ret_def)
next
  case (Cons v vs)
  then show ?case
    by (auto simp: io_bind_Inr_iff io_lift_def io_ret_def io_raise_def split: if_splits json.splits option.splits
        elim!: int_of.elims)
qed

lemma none_unconfirmed: "some_unconfirmed vs = Inr False \<Longrightarrow> \<forall>v\<in>set vs. \<exists>d. v = JDict d \<and> truthy (dget d ''confirmed'')"
  by (induction vs) (auto simp: ebind_Inr_iff as_dict_def split: json.splits if_splits)

lemma step_settles:
  assumes "settlement_step env c deadline unspent s w = (Inr (Inr ()), w')"
  shows "settled_at env c unspent w w'"
proof -
  obtain r w1 where i: "wasabi_wallet_info env c (Some 5) None w = (Inr r, w1)"
    using assms by (auto simp: settlement_step_def io_bind_Inr_iff)
  then obtain info where info: "r = JDict info" and idle: "dget info ''coinjoinStatus'' = JStr ''Idle''"
    using assms by (auto simp: settlement_step_def io_bind_Inr_iff io_lift_def io_ret_def as_dict_def
        split: json.splits if_splits)
  have rest: "io_bind (list_unspent env c) (\<lambda>l.
            io_bind (io_lift (as_list l)) (\<lambda>coins.
            io_bind (io_lift (some_unconfirmed coins)) (\<lambda>waiting.
              if waiting then io_ret (Inl ''wallet still has unconfirmed coins'')
              else all_unspent env deadline unspent coins))) w1 = (Inr (Inr ()), w')"
    using assms i info idle by (simp add: settlement_step_def io_bind_def io_lift_def as_dict_def)
  then obtain l w2 where l: "list_unspent env c w1 = (Inr l, w2)" by (auto simp: io_bind_Inr_iff)
  then obtain coins where coins: "l = JList coins"
    using rest by (auto simp: io_bind_Inr_iff io_lift_def as_list_def split: json.splits)
  have sofar: "io_bind (io_lift (some_unconfirmed coins)) (\<lambda>waiting.
              if waiting then io_ret (Inl ''wallet still has unconfirmed coins'')
              else all_unspent env deadline unspent coins) w2 = (Inr (Inr ()), w')"
    using rest l coins by (simp add: io_bind_def io_lift_def as_list_def)
  then have "some_unconfirmed coins = Inr False" "all_unspent env deadline unspent coins w2 = (Inr (Inr ()), w')"
    by (auto simp: io_bind_Inr_iff io_lift_def io_ret_def split: if_splits)
  then have "\<forall>v\<in>set coins. \<exists>d. v = JDict d \<and> truthy (dget d ''confirmed'')" "seen_unspent unspent coins w2 w'"
    using none_unconfirmed all_unspent_seen by fast+
  then show ?thesis unfolding settled_at_def
    using i [unfolded info] idle l [unfolded coins] by (intro exI conjI)
qed

text \<open>
  Claim C25. A 2.6 client that sweeps all its mixed coins has first seen, within the timeout, mixing
  idle, all its coins confirmed and each of them unspent by the node; the coins it then selects are
  the ones it pays out, with their sum.
\<close>

theorem sweep_is_settled:
  assumes "send_mixed_coins n env c destination None min_anon (Some unspent) selection w = (Inr p, w')"
    and "\<not> wl_version c < ''2.6.0''"
  shows "\<exists>w0 w1 w2. we_clock env w0 < we_clock env w + POSTMIX_SETTLEMENT_TIMEOUT_SECONDS
    \<and> settled_at env c unspent w0 w1
    \<and> select_mixed env c None min_anon (Some unspent) selection w1 = (Inr (mp_coins p, mp_amount p), w2)"
proof -
  obtain w1 where wait: "wait_for_settlement n env c unspent w = (Inr (), w1)"
    and rest: "io_bind (select_mixed env c None min_anon (Some unspent) selection) (\<lambda>(selected, tot).
      io_bind (wasabi_rpc env c
        (send_request
          [JDict [(''sendto'', JStr destination), (''amount'', JInt tot), (''label'', JStr ''postmix''),
                  (''subtractFee'', JBool True)]]
          (map (\<lambda>k. coin_input (JStr (co_txid k)) (JInt (co_index k))) selected)) True None 1 None) (\<lambda>r.
        io_ret \<lparr>mp_txid = (case r of JDict d \<Rightarrow> dget d ''txid'' | _ \<Rightarrow> JNull), mp_amount = tot,
                mp_coins = selected\<rparr>)) w1 = (Inr p, w')"
    using assms(1) by (auto simp: send_mixed_coins_def io_seq_def io_bind_Inr_iff)
  let ?deadline = "we_clock env w + POSTMIX_SETTLEMENT_TIMEOUT_SECONDS"
  have "poll_while n (\<lambda>v. we_clock env v < ?deadline) (settlement_step env c ?deadline unspent) (we_sleep env 1)
               (\<lambda>reason. io_raise (Exn KTimeoutError (wl_name c
                  @ '' could not settle its all-mixed-coins spend within 300 s: '' @ reason)))
               ''coinjoin has not stopped'' w = (Inr (), w1)"
    using wait assms(2) by (simp add: wait_for_settlement_def Let_def)
  from poll_while_result [OF this] obtain s0 w0 where "we_clock env w0 < ?deadline"
    "settlement_step env c ?deadline unspent s0 w0 = (Inr (Inr ()), w1)"
    by (auto simp: io_raise_def)
  then have "we_clock env w0 < ?deadline" "settled_at env c unspent w0 w1" by (simp_all add: step_settles)
  moreover obtain selected tot w2 where sel: "select_mixed env c None min_anon (Some unspent) selection w1 = (Inr (selected, tot), w2)"
    using rest by (auto simp: io_bind_Inr_iff)
  moreover have "selected = mp_coins p" "tot = mp_amount p"
    using rest sel by (auto simp: io_bind_Inr_iff io_ret_def)
  ultimately show ?thesis by blast
qed

text \<open>What the waits rely on: posts and queries come back, and time passes in a sleep.\<close>

definition wallet_clock_laws :: "'w wasabi_env \<Rightarrow> bool" where
  "wallet_clock_laws env =
     ((\<forall>path request timeout. timely (we_clock env) (we_post env path request timeout))
      \<and> (\<forall>d w. we_clock env w + d \<le> we_clock env (we_sleep env d w)))"

lemma attempts_timely:
  assumes "wallet_clock_laws env" "exn_class e \<noteq> KDiverged"
  shows "timely (we_clock env) (wasabi_attempts env path request timeout n e)"
  using assms(2)
proof (induction n arbitrary: e)
  case 0
  then show ?case by (simp add: timely_raise)
next
  case (Suc n)
  show ?case
  proof (rule timelyI)
    fix w r w'
    assume run: "wasabi_attempts env path request timeout (Suc n) e w = (r, w')"
    obtain a w1 where a: "we_post env path request timeout w = (a, w1)" by fastforce
    have 1: "\<not> diverged a" "we_clock env w \<le> we_clock env w1"
      using timelyD [where m = "we_post env path request timeout", OF _ a, of "we_clock env"] assms(1)
      by (auto simp: wallet_clock_laws_def)
    have 2: "we_clock env w1 \<le> we_clock env (we_sleep env RETRY_BACKOFF_SECONDS w1)"
      using assms(1) by (metis wallet_clock_laws_def RETRY_BACKOFF_SECONDS_def add_increasing2 order.trans zero_le_one order_refl)
    have nd: "body_answer body = Unreadable x \<Longrightarrow> exn_class x \<noteq> KDiverged" for body x
      by (auto simp: body_answer_def split: json.splits option.splits if_splits)
    have again: "\<not> diverged r \<and> we_clock env w \<le> we_clock env w'"
      if "wasabi_attempts env path request timeout n e' v = (r, w')" "exn_class e' \<noteq> KDiverged" "we_clock env w1 \<le> we_clock env v" for e' v
      using timelyD [OF Suc.IH [OF that(2)] that(1)] that(3) 1(2) by linarith
    show "\<not> diverged r \<and> we_clock env w \<le> we_clock env w'"
    proof (cases a)
      case (Inl x)
      then show ?thesis using run a 1 2 again [of x w1] again [of x "we_sleep env RETRY_BACKOFF_SECONDS w1"]
        by (auto split: if_splits)
    next
      case (Inr body)
      then show ?thesis using run a 1 2 nd [of body] again [of e "we_sleep env RETRY_BACKOFF_SECONDS w1"] Suc.prems
        by (cases "body_answer body") (auto split: if_splits)
    qed
  qed
qed

lemma wasabi_rpc_timely: "wallet_clock_laws env \<Longrightarrow> timely (we_clock env) (wasabi_rpc env c request wallet timeout repeat wn)"
  unfolding wasabi_rpc_def by (rule attempts_timely) (simp_all add: no_answer_def)

lemma readings_return:
  "\<not> diverged (subscript v k)" "\<not> diverged (started_info v)" "\<not> diverged (as_list v)" "\<not> diverged (int_amount v)"
  "\<not> diverged (some_unconfirmed vs)"
proof -
  show "\<not> diverged (some_unconfirmed vs)"
    by (induction vs) (auto simp: as_dict_def diverged_def split: json.splits sum.splits)
qed (auto simp: subscript_def started_info_def as_list_def int_amount_def split: json.splits option.splits)

lemmas wallet_timely = wasabi_rpc_timely readings_return as_dict_returns

lemma wallet_poll_timely: "wallet_clock_laws env \<Longrightarrow> timely (we_clock env) (wallet_poll env c u)"
  unfolding wallet_poll_def wallet_ready_def selected_ready_def wallet_started_def select_wallet_def wasabi_get_balance_def
    wasabi_wallet_info_def wasabi_create_wallet_def
  by (intro timely_intros wallet_timely)

lemma status_poll_timely: "wallet_clock_laws env \<Longrightarrow> timely (we_clock env) (status_poll env c u)"
  unfolding status_poll_def wasabi_get_status_def by (intro timely_intros wallet_timely)

lemma all_unspent_timely:
  assumes "\<And>t i. timely (we_clock env) (unspent t i)"
  shows "timely (we_clock env) (all_unspent env deadline unspent vs)"
proof (induction vs)
  case Nil
  show ?case by (simp add: timely_ret)
next
  case (Cons v vs)
  have inner: "timely (we_clock env) (io_bind (io_lift (subscript v ''txid'')) (\<lambda>txid.
          io_bind (io_lift (subscript v ''index'')) (\<lambda>index.
          io_bind (case (txid, int_of index) of
                     (JStr t, Some i) \<Rightarrow> unspent t i | _ \<Rightarrow> io_raise (Exn KTypeError ''coin'')) (\<lambda>ok.
            if ok then all_unspent env deadline unspent vs
            else io_ret (Inl ''wallet still lists inputs already spent by the node'')))))"
    by (intro timely_intros wallet_timely Cons.IH)
      (auto split: json.split option.split intro!: assms timely_raise)
  show ?case
    by (rule timelyI) (use timelyD [OF inner] in \<open>auto split: if_splits\<close>)
qed

lemma settlement_step_timely:
  assumes "wallet_clock_laws env" "\<And>t i. timely (we_clock env) (unspent t i)"
  shows "timely (we_clock env) (settlement_step env c deadline unspent s)"
  unfolding settlement_step_def wasabi_wallet_info_def list_unspent_def
  by (intro timely_intros wallet_timely all_unspent_timely assms)

lemma never_diverges: "(\<And>r w'. m w = (r, w') \<Longrightarrow> \<not> diverged r) \<Longrightarrow> \<not> diverged (fst (m w))"
  by (metis prod.collapse)

lemma wallet_waits_return_facts:
  assumes laws: "wallet_clock_laws env" and query: "\<And>t i. timely (we_clock env) (unspent t i)"
    and "0 \<le> t" "10 * t \<le> int n" "10 * s \<le> of_nat m"
  shows "\<not> diverged (fst (wasabi_wait_wallet (Suc n) env c (Some t) w))"
    and "\<not> diverged (fst (wasabi_wait_ready (Suc m) env c s w))"
    and "\<not> diverged (fst (wait_for_settlement (Suc 300) env c unspent w))"
proof -
  have sleep: "we_clock env v + d \<le> we_clock env (we_sleep env d v)" for v d
    using laws by (simp add: wallet_clock_laws_def)
  have pause: "1 / 10 \<le> wallet_pause c" by (simp add: wallet_pause_def)
  have "of_int (10 * t) \<le> (of_int (int n) :: rat)" using assms(4) of_int_le_iff by blast
  then have "of_int t \<le> (1 / 10) * (of_nat n :: rat)" by simp
  also have "\<dots> \<le> wallet_pause c * of_nat n" using pause by (rule mult_right_mono) simp
  finally have n: "of_int t \<le> wallet_pause c * (of_nat n :: rat)" .
  show "\<not> diverged (fst (wasabi_wait_wallet (Suc n) env c (Some t) w))"
    unfolding wasabi_wait_wallet_def
  proof (rule never_diverges)
    fix r w'
    assume run: "poll_while (Suc n) (\<lambda>v. case Some t of None \<Rightarrow> True | Some t \<Rightarrow> we_clock env v - we_clock env w < of_int t)
       (wallet_poll env c) (we_sleep env (wallet_pause c)) (\<lambda>_. io_ret False) () w = (r, w')"
    show "\<not> diverged r"
      using poll_while_returns [where clock = "we_clock env" and d = "wallet_pause c" and limit = "we_clock env w + of_int t",
          OF wallet_poll_timely [OF laws] timely_ret sleep _ _ _ run] n pause
      by (auto simp: algebra_simps)
  qed
  show "\<not> diverged (fst (wasabi_wait_ready (Suc m) env c s w))"
    unfolding wasabi_wait_ready_def
  proof (rule never_diverges)
    fix r w'
    assume run: "poll_while (Suc m) (\<lambda>v. we_clock env v < we_clock env w + s)
       (status_poll env c) (we_sleep env (1 / 10)) (\<lambda>_. io_raise (Exn KTimeoutError ''not ready'')) () w = (r, w')"
    have final: "timely (we_clock env) (io_raise (Exn KTimeoutError ''not ready''))" by (simp add: timely_raise)
    show "\<not> diverged r"
      using poll_while_returns [where clock = "we_clock env" and d = "1 / 10" and limit = "we_clock env w + s",
          OF status_poll_timely [OF laws] final sleep _ _ _ run] assms(5)
      by auto
  qed
  show "\<not> diverged (fst (wait_for_settlement (Suc 300) env c unspent w))"
  proof (cases "wl_version c < ''2.6.0''")
    case True
    then show ?thesis by (simp add: wait_for_settlement_def)
  next
    case False
    let ?deadline = "we_clock env w + POSTMIX_SETTLEMENT_TIMEOUT_SECONDS"
    let ?final = "\<lambda>reason. io_raise (Exn KTimeoutError (wl_name c
                  @ '' could not settle its all-mixed-coins spend within 300 s: '' @ reason))"
    have final: "timely (we_clock env) (?final reason)" for reason by (simp add: timely_raise)
    show ?thesis
    proof (rule never_diverges)
      fix r w'
      assume "wait_for_settlement (Suc 300) env c unspent w = (r, w')"
      then have run: "poll_while (Suc 300) (\<lambda>v. we_clock env v < ?deadline) (settlement_step env c ?deadline unspent)
          (we_sleep env 1) ?final ''coinjoin has not stopped'' w = (r, w')"
        using False by (simp only: wait_for_settlement_def Let_def if_False)
      show "\<not> diverged r"
        using poll_while_returns [where clock = "we_clock env" and d = 1 and limit = ?deadline,
            OF settlement_step_timely [OF laws query] final sleep _ _ _ run]
        by (simp add: POSTMIX_SETTLEMENT_TIMEOUT_SECONDS_def)
    qed
  qed
qed

text \<open>
  When posts and queries come back and time passes in a sleep, the waits of a client end:
  the wait for a wallet after ten polls per second of its timeout, the wait for an answer likewise,
  and the settlement wait after at most three hundred polls.
\<close>

theorem wallet_waits_return:
  assumes "wallet_clock_laws env" "\<And>t i. timely (we_clock env) (unspent t i)"
    and "0 \<le> t" "10 * t \<le> int n" "10 * s \<le> of_nat m"
  shows "\<not> diverged (fst (wasabi_wait_wallet (Suc n) env c (Some t) w))
    \<and> \<not> diverged (fst (wasabi_wait_ready (Suc m) env c s w))
    \<and> \<not> diverged (fst (wait_for_settlement (Suc 300) env c unspent w))"
  by (intro conjI wallet_waits_return_facts [OF assms])


text \<open>A wallet that never starts, with the time as the world, and a node that sees every coin unspent.\<close>

definition dead_wallet :: "rat wasabi_env" where
  "dead_wallet = \<lparr>we_post = (\<lambda>path request timeout. io_raise (Exn KConnection ''refused'')), we_clock = id,
     we_sleep = (\<lambda>d w. w + d), we_shuffle = (\<lambda>xs w. (xs, w)), we_float_text = (\<lambda>x. [])\<rparr>"

theorem wallet_waits_return_witness:
  "\<not> diverged (fst (wasabi_wait_wallet (Suc 1200) dead_wallet (example_client ''2.6.0'') (Some 120) 0))"
proof -
  have laws: "wallet_clock_laws dead_wallet"
    by (auto simp: wallet_clock_laws_def dead_wallet_def intro!: timely_raise)
  have query: "timely (we_clock dead_wallet) (io_ret True)" by (rule timely_ret)
  show ?thesis
    using wallet_waits_return [OF laws, of "\<lambda>t i. io_ret True" 120 1200 0 0] query by simp
qed

text \<open>A 2.6 wallet that is idle with one confirmed mixed coin.\<close>

definition settled_wallet :: "nat wasabi_env" where
  "settled_wallet = busy_wallet\<lparr>we_post := (\<lambda>path request timeout n.
     (Inr (JDict [(''result'',
        if n = 0 then JDict [(''coinjoinStatus'', JStr ''Idle'')]
        else if n < 3 then JList [coin_json ''a'' 50]
        else JDict [(''txid'', JStr ''t'')])]), n + 1))\<rparr>"

theorem sweep_is_settled_witness:
  "\<exists>p w' w0 w1. send_mixed_coins 3 settled_wallet (example_client ''2.6.0'') ''addr'' None None
       (Some (\<lambda>t i. io_ret True)) ''anon_score'' 0 = (Inr p, w')
     \<and> mp_amount p = 50 \<and> settled_at settled_wallet (example_client ''2.6.0'') (\<lambda>t i. io_ret True) w0 w1"
proof -
  let ?run = "send_mixed_coins 3 settled_wallet (example_client ''2.6.0'') ''addr'' None None
       (Some (\<lambda>t i. io_ret True)) ''anon_score'' 0"
  obtain r w' where run: "?run = (r, w')" by fastforce
  have "case fst ?run of Inr p \<Rightarrow> mp_amount p = 50 | Inl e \<Rightarrow> False" by code_simp
  then obtain p where p: "r = Inr p" "mp_amount p = 50" by (cases r) (simp_all add: run)
  have "\<not> wl_version (example_client ''2.6.0'') < ''2.6.0''" by (simp add: example_client_def)
  from sweep_is_settled [OF run [unfolded p] this] show ?thesis using run p by blast
qed

text \<open>
  Versions are compared as strings, so a two-digit minor or patch number is older than a one-digit
  one: a 2.10 client would be driven as a 2.0.4 one.
\<close>

lemma two_digit_version_is_old:
  "wasabi_client_class ''2.10.0'' = ClientV204" "wasabi_client_class ''2.0.10'' = ClientV2"
  by code_simp+

end
