(* ===== verification/WasabiEngine.thy ===== *)
theory WasabiEngine
  imports WasabiRounds WasabiClient Postmix RunStore
begin

text \<open>
  The Wasabi engine of \<open>manager/engine/wasabi_engine.py\<close>: starting the coordinator with its retries,
  starting clients and the distributor, the per-turn choice of which clients mix, and the loop of a
  run up to its settlement blocks. Driver, node and wallets are the world \<open>'w\<close> of the calls.
\<close>

section \<open>Default scenario\<close>

definition wasabi_wallet :: "int list \<Rightarrow> wasabi_config option \<Rightarrow> wallet_config" where
  "wasabi_wallet funds cfg = \<lparr>w_funds = map (FundPlain \<circ> JInt) funds, w_delay_blocks = JNull, w_delay_rounds = JNull,
     w_stop_blocks = JNull, w_stop_rounds = JNull, w_version = JNull, w_wasabi = cfg, w_joinmarket = None\<rparr>"

definition wasabi_settings :: "json \<Rightarrow> json \<Rightarrow> json \<Rightarrow> wasabi_config option" where
  "wasabi_settings target isolation skip = Some \<lparr>wc_anon_score_target = target, wc_redcoin_isolation = isolation,
     wc_skip_rounds = skip, wc_postmix = None\<rparr>"

definition wasabi_default_scenario :: scenario_config where
  "wasabi_default_scenario = \<lparr>sc_name = JStr ''default'', sc_rounds = JInt 10, sc_blocks = JInt 0,
     sc_default_version = JStr ''2.6.0'',
     sc_wallets = [wasabi_wallet [200000, 50000] (wasabi_settings (JInt 7) JNull JNull),
       wasabi_wallet [3000000] (wasabi_settings JNull (JBool True) JNull),
       wasabi_wallet [1000000, 500000] (wasabi_settings JNull JNull (JList [JInt 0, JInt 1, JInt 2])),
       wasabi_wallet [3000000, 15000] None, wasabi_wallet [1000000, 500000] None, wasabi_wallet [3000000, 600000] None],
     sc_description = JNull, sc_category = JNull, sc_distributor_version = JNull, sc_default_anon = JNull,
     sc_default_redcoin = JNull, sc_backend = JNull\<rparr>"

section \<open>Services\<close>

text \<open>
  \<open>WasabiBackend.wait_ready\<close> and \<open>WasabiCoordinator.wait_ready\<close>: the backend is ready when the status
  answers, the coordinator when its status is not null; its query turns every exception into null.
\<close>

definition backend_poll :: "('w, json) io \<Rightarrow> unit \<Rightarrow> ('w, unit + unit) io" where
  "backend_poll get_status = (\<lambda>_. io_catch (io_seq get_status (io_ret (Inr ()))) is_exception (\<lambda>_. io_ret (Inl ())))"

definition backend_wait_ready ::
    "nat \<Rightarrow> ('w \<Rightarrow> rat) \<Rightarrow> (rat \<Rightarrow> 'w \<Rightarrow> 'w) \<Rightarrow> architecture \<Rightarrow> ('w, json) io \<Rightarrow> rat \<Rightarrow> ('w, unit) io" where
  "backend_wait_ready n clock sleep a get_status timeout = (\<lambda>w.
     poll_while n (\<lambda>v. clock v < clock w + timeout) (backend_poll get_status)
       (sleep (if a = Split then 1 else 1 / 10)) (\<lambda>_. io_raise (Exn KTimeoutError ''not ready'')) () w)"

definition coordinator_status :: "('w, json) io \<Rightarrow> ('w, json) io" where
  "coordinator_status monitor = io_catch monitor is_exception (\<lambda>_. io_ret JNull)"

definition coordinator_poll :: "('w, json) io \<Rightarrow> unit \<Rightarrow> ('w, unit + unit) io" where
  "coordinator_poll monitor = (\<lambda>_.
     io_catch (io_bind (coordinator_status monitor) (\<lambda>s. io_ret (if s \<noteq> JNull then Inr () else Inl ())))
       is_exception (\<lambda>_. io_ret (Inl ())))"

definition coordinator_wait_ready ::
    "nat \<Rightarrow> ('w \<Rightarrow> rat) \<Rightarrow> (rat \<Rightarrow> 'w \<Rightarrow> 'w) \<Rightarrow> ('w, json) io \<Rightarrow> rat \<Rightarrow> ('w, unit) io" where
  "coordinator_wait_ready n clock sleep monitor timeout = (\<lambda>w.
     poll_while n (\<lambda>v. clock v < clock w + timeout) (coordinator_poll monitor) (sleep (1 / 10))
       (\<lambda>_. io_raise (Exn KTimeoutError ''not ready'')) () w)"

definition WASABI_COORDINATOR_START_ATTEMPTS :: nat where "WASABI_COORDINATOR_START_ATTEMPTS = 3"
definition WASABI_COORDINATOR_START_TIMEOUT_SECONDS :: rat where "WASABI_COORDINATOR_START_TIMEOUT_SECONDS = 120"

definition coordinator_retry_reason :: "string \<Rightarrow> string option" where
  "coordinator_retry_reason logs =
     (if contains ''Bitcoin Node is not fully synchronized'' logs then Some ''raced a freshly mined block''
      else if contains ''address already in use'' logs then Some ''could not bind port 37128''
      else None)"

text \<open>
  What starting a coordinator calls: the container, the upload of its configuration, the wait, its
  logs and its stop. \<open>su_config node_address\<close> is the configuration template parsed with the address
  filled in.
\<close>

record 'w startup_ops =
  su_run :: "container_request \<Rightarrow> ('w, container_endpoint) io"
  su_config :: "string \<Rightarrow> exn + dict"
  su_upload :: "string \<Rightarrow> string \<Rightarrow> json \<Rightarrow> ('w, unit) io"
  su_wait :: "string \<Rightarrow> int \<Rightarrow> rat \<Rightarrow> ('w, unit) io"
  su_logs :: "string \<Rightarrow> ('w, string) io"
  su_stop :: "string \<Rightarrow> ('w, unit) io"

text \<open>\<open>args.btc_node_ip\<close>, \<open>args.wasabi_backend_ip\<close> and the addresses of the running services.\<close>

record wasabi_site =
  si_images :: image_args
  si_endpoint :: endpoint_args
  si_btc_node_ip :: string
  si_backend_ip :: string
  si_node :: "string option"
  si_backend :: "string option"
  si_coordinator :: "string option"
  si_arch :: architecture
  si_scenario :: scenario_config

definition or_else :: "string \<Rightarrow> string \<Rightarrow> string" where
  "or_else a b = (if a \<noteq> [] then a else b)"

definition node_of :: "wasabi_site \<Rightarrow> exn + string" where
  "node_of site = (case si_node site of
     None \<Rightarrow> Inl (Exn KRuntimeError ''Bitcoin node is not initialized'') | Some ip \<Rightarrow> Inr ip)"

definition backend_of :: "wasabi_site \<Rightarrow> exn + string" where
  "backend_of site = (case si_backend site of
     None \<Rightarrow> Inl (Exn KRuntimeError ''Wasabi backend is not initialized'') | Some ip \<Rightarrow> Inr ip)"

text \<open>\<open>config.update(self.scenario.backend or {})\<close>.\<close>

definition with_overrides :: "dict \<Rightarrow> json \<Rightarrow> exn + dict" where
  "with_overrides config backend =
     (case py_or backend (JDict []) of
        JDict d \<Rightarrow> Inr (dict_union config d) | _ \<Rightarrow> Inl (Exn KTypeError ''update''))"

definition upload_coordinator_config :: "'w startup_ops \<Rightarrow> wasabi_site \<Rightarrow> ('w, unit) io" where
  "upload_coordinator_config ops site =
     io_bind (io_lift (node_of site)) (\<lambda>node_ip.
     io_bind (io_lift (su_config ops (or_else (or_else (si_btc_node_ip site) node_ip) ''btc-node''))) (\<lambda>config.
     io_bind (io_lift (with_overrides config (sc_backend (si_scenario site)))) (\<lambda>config'.
       io_seq (su_upload ops ''wasabi-coordinator'' ''/home/wasabi/coordinator-config.json'' (JDict config'))
         (su_upload ops ''wasabi-coordinator'' ''/home/wasabi/coordinator-config.ready'' JNull))))"

definition coordinator_request :: "wasabi_site \<Rightarrow> string \<Rightarrow> container_request" where
  "coordinator_request site node_ip =
     \<lparr>cr_name = ''wasabi-coordinator'',
      cr_image = ia_prefix (si_images site) @ ''wasabi-coordinator:'' @ get_backend_version (si_arch site),
      cr_env = [(''ADDR_BTC_NODE'', or_else (si_btc_node_ip site) node_ip), (''WASABI_BIND'', ''http://0.0.0.0:37128'')],
      cr_ports = [(37128, 37128)], cr_cpu = 4, cr_memory = 4096, cr_service_account = [], cr_run_as = (None, None),
      cr_proxy = []\<rparr>"

text \<open>One start: a coordinator (its host, port and internal address), or why it is not ready.\<close>

definition start_coordinator_once :: "'w startup_ops \<Rightarrow> wasabi_site \<Rightarrow> string \<Rightarrow> ('w, exn + (string \<times> int \<times> string)) io" where
  "start_coordinator_once ops site node_ip =
     io_bind (su_run ops (coordinator_request site node_ip)) (\<lambda>(ip, ports, route).
     io_seq (upload_coordinator_config ops site)
     (io_bind (io_lift (service_endpoint (si_endpoint site) ip 37128 ports route False)) (\<lambda>(host, port).
        io_catch (io_seq (su_wait ops host port WASABI_COORDINATOR_START_TIMEOUT_SECONDS) (io_ret (Inr (host, port, ip))))
          (\<lambda>e. exn_class e = KTimeoutError) (\<lambda>e. io_ret (Inl e)))))"

fun coordinator_attempts :: "nat \<Rightarrow> 'w startup_ops \<Rightarrow> wasabi_site \<Rightarrow> string \<Rightarrow> ('w, (string \<times> int \<times> string) option) io" where
  "coordinator_attempts 0 ops site node_ip = io_ret None"
| "coordinator_attempts (Suc left) ops site node_ip =
     io_bind (start_coordinator_once ops site node_ip) (\<lambda>started.
       case started of
         Inr c \<Rightarrow> io_ret (Some c)
       | Inl error \<Rightarrow>
           io_bind (io_catch (io_bind (su_logs ops ''wasabi-coordinator'') (\<lambda>l. io_ret (strip l))) is_exception
             (\<lambda>e. io_ret (''<unable to read coordinator logs: '' @ exn_msg e @ ''>''))) (\<lambda>logs.
             if left \<noteq> 0 \<and> coordinator_retry_reason logs \<noteq> None
             then io_seq (su_stop ops ''wasabi-coordinator'') (coordinator_attempts left ops site node_ip)
             else io_raise (Exn KException (''Wasabi coordinator failed to start: '' @ exn_msg error
                    @ [CHR 0x0A] @ ''Coordinator logs:'' @ [CHR 0x0A] @ logs))))"

definition start_wasabi_coordinator :: "'w startup_ops \<Rightarrow> wasabi_site \<Rightarrow> ('w, (string \<times> int \<times> string) option) io" where
  "start_wasabi_coordinator ops site =
     io_bind (io_lift (node_of site)) (\<lambda>node_ip. coordinator_attempts WASABI_COORDINATOR_START_ATTEMPTS ops site node_ip)"

definition backend_request :: "wasabi_site \<Rightarrow> string \<Rightarrow> container_request" where
  "backend_request site node_ip =
     \<lparr>cr_name = ''wasabi-backend'',
      cr_image = ia_prefix (si_images site) @ ''wasabi-backend:'' @ get_backend_version (si_arch site),
      cr_env = [(''WASABI_BIND'', ''http://0.0.0.0:37127''), (''ADDR_BTC_NODE'', or_else (si_btc_node_ip site) node_ip)],
      cr_ports = [(37127, 37127)], cr_cpu = 8, cr_memory = 8192, cr_service_account = [], cr_run_as = (None, None),
      cr_proxy = []\<rparr>"

text \<open>\<open>su_config\<close> gives the backend's \<open>WabiSabiConfig.json\<close>; the result is the backend's internal address.\<close>

definition start_wasabi_backend :: "'w startup_ops \<Rightarrow> wasabi_site \<Rightarrow> ('w, string) io" where
  "start_wasabi_backend ops site =
     io_bind (io_lift (node_of site)) (\<lambda>node_ip.
     io_bind (su_run ops (backend_request site node_ip)) (\<lambda>(ip, ports, route).
     io_bind (io_lift (su_config ops [])) (\<lambda>config.
     io_bind (io_lift (with_overrides config (sc_backend (si_scenario site)))) (\<lambda>config'.
     io_seq (su_upload ops ''wasabi-backend'' ''/home/wasabi/.walletwasabi/backend/WabiSabiConfig.json'' (JDict config'))
     (io_bind (io_lift (service_endpoint (si_endpoint site) ip 37127 ports route False)) (\<lambda>(host, port).
       io_seq (su_wait ops host port 120) (io_ret ip)))))))"

section \<open>Clients and the distributor\<close>

text \<open>\<open>wallet.version or self.scenario.default_version\<close>; versions are strings.\<close>

definition version_text :: "json \<Rightarrow> json \<Rightarrow> exn + string" where
  "version_text v dflt = (case py_or v dflt of JStr s \<Rightarrow> Inr s | _ \<Rightarrow> Inl (Exn KTypeError ''version''))"

text \<open>
  The settings a client container gets: the wallet's own section, or the scenario's defaults when the
  wallet has none, and only for the patched versions that read them.
\<close>

definition privacy_settings :: "wallet_config \<Rightarrow> scenario_config \<Rightarrow> string \<Rightarrow> json \<times> json" where
  "privacy_settings wallet scenario version =
     (let (target, isolation) = (case w_wasabi wallet of
            Some c \<Rightarrow> (wc_anon_score_target c, wc_redcoin_isolation c)
          | None \<Rightarrow> (sc_default_anon scenario, sc_default_redcoin scenario));
          target1 = (if target \<noteq> JNull \<and> version < ''2.0.3'' then JNull else target);
          isolation1 = (if isolation \<noteq> JNull \<and> version < ''2.0.3'' then JNull else isolation)
      in if (target1 \<noteq> JNull \<or> isolation1 \<noteq> JNull) \<and> ''2.6.0'' \<le> version then (JNull, JNull)
         else (target1, isolation1))"

definition wasabi_client_env ::
    "(rat \<Rightarrow> string) \<Rightarrow> wasabi_site \<Rightarrow> string \<Rightarrow> string \<Rightarrow> json \<times> json \<Rightarrow> (string \<times> string) list" where
  "wasabi_client_env ft site node_ip backend_ip settings =
     [(''ADDR_BTC_NODE'', or_else (si_btc_node_ip site) node_ip),
      (''ADDR_WASABI_BACKEND'', or_else (si_backend_ip site) backend_ip)]
     @ (if truthy (fst settings) then [(''WASABI_ANON_SCORE_TARGET'', py_str ft (fst settings))] else [])
     @ (if snd settings \<noteq> JNull then [(''WASABI_REDCOIN_ISOLATION'', py_str ft (snd settings))] else [])
     @ (case (si_arch site, si_coordinator site) of
          (Split, Some ip) \<Rightarrow> [(''ADDR_WASABI_COORDINATOR'', ip)] | _ \<Rightarrow> [])"

definition wasabi_client_name :: "nat \<Rightarrow> string" where
  "wasabi_client_name idx = ''wasabi-client-'' @ pad3 idx"

definition wasabi_client_request ::
    "(rat \<Rightarrow> string) \<Rightarrow> wasabi_site \<Rightarrow> string \<Rightarrow> string \<Rightarrow> nat \<Rightarrow> string \<Rightarrow> json \<times> json \<Rightarrow> container_request" where
  "wasabi_client_request ft site node_ip backend_ip idx version settings =
     \<lparr>cr_name = wasabi_client_name idx, cr_image = ia_prefix (si_images site) @ ''wasabi-client:'' @ version,
      cr_env = wasabi_client_env ft site node_ip backend_ip settings, cr_ports = [(37128, 37132 + int idx)],
      cr_cpu = (if version < ''2.0.4'' then 3 / 10 else 1 / 10), cr_memory = (if version < ''2.0.4'' then 1024 else 768),
      cr_service_account = [], cr_run_as = (None, None), cr_proxy = []\<rparr>"

definition skip_rounds_of :: "wallet_config \<Rightarrow> json list" where
  "skip_rounds_of wallet =
     (case w_wasabi wallet of
        Some c \<Rightarrow> (case wc_skip_rounds c of JList xs \<Rightarrow> xs | _ \<Rightarrow> [])
      | None \<Rightarrow> [])"

text \<open>\<open>wo_env host port\<close> is the connection to a client; \<open>n\<close> bounds the polls of its wait.\<close>

definition start_wasabi_client ::
    "nat \<Rightarrow> 'w startup_ops \<Rightarrow> (string \<Rightarrow> int \<Rightarrow> 'w wasabi_env) \<Rightarrow> (rat \<Rightarrow> string) \<Rightarrow> wasabi_site \<Rightarrow> nat \<Rightarrow> wallet_config
       \<Rightarrow> ('w, wasabi_client option) io" where
  "start_wasabi_client n ops wo_env ft site idx wallet =
     io_bind (io_lift (version_text (w_version wallet) (sc_default_version (si_scenario site)))) (\<lambda>version.
     io_bind (io_lift (node_of site)) (\<lambda>node_ip.
     io_bind (io_lift (backend_of site)) (\<lambda>backend_ip.
     io_bind (io_catch (io_bind (su_run ops (wasabi_client_request ft site node_ip backend_ip idx version
                  (privacy_settings wallet (si_scenario site) version))) (\<lambda>e. io_ret (Some e)))
         is_exception (\<lambda>_. io_ret None)) (\<lambda>started.
       case started of
         None \<Rightarrow> io_ret None
       | Some (ip, ports, route) \<Rightarrow>
           io_bind (io_lift (int_setting (w_delay_blocks wallet))) (\<lambda>db.
           io_bind (io_lift (int_setting (w_delay_rounds wallet))) (\<lambda>dr.
           io_bind (io_lift (int_setting (w_stop_blocks wallet))) (\<lambda>sb.
           io_bind (io_lift (int_setting (w_stop_rounds wallet))) (\<lambda>sr.
           io_bind (io_lift (service_endpoint (si_endpoint site) ip 37128 ports route False)) (\<lambda>(host, port).
             let c = \<lparr>wl_host = host, wl_port = port, wl_name = wasabi_client_name idx, wl_version = version,
                      wl_delay = (db, dr), wl_stop = (sb, sr), wl_skip_rounds = skip_rounds_of wallet\<rparr>
             in io_bind (wasabi_wait_wallet n (wo_env host port) c (Some 120)) (\<lambda>ok.
                  io_ret (if ok then Some c else None)))))))))))"

definition distributor_env :: "wasabi_site \<Rightarrow> string \<Rightarrow> string \<Rightarrow> exn + (string \<times> string) list" where
  "distributor_env site node_ip backend_ip =
     (let base = [(''ADDR_BTC_NODE'', or_else (si_btc_node_ip site) node_ip),
                  (''ADDR_WASABI_BACKEND'', or_else (si_backend_ip site) backend_ip)]
      in if si_arch site = Split
         then (case si_coordinator site of
                 None \<Rightarrow> Inl (Exn KRuntimeError ''Wasabi coordinator is not initialized for the split architecture'')
               | Some ip \<Rightarrow> Inr (base @ [(''ADDR_WASABI_COORDINATOR'', ip)]))
         else Inr base)"

definition start_wasabi_distributor ::
    "nat \<Rightarrow> 'w startup_ops \<Rightarrow> (string \<Rightarrow> int \<Rightarrow> 'w wasabi_env) \<Rightarrow> wasabi_site \<Rightarrow> int \<Rightarrow> ('w, wasabi_client) io" where
  "start_wasabi_distributor n ops wo_env site timeout =
     io_bind (io_lift (node_of site)) (\<lambda>node_ip.
     io_bind (io_lift (backend_of site)) (\<lambda>backend_ip.
     io_bind (io_lift (distributor_env site node_ip backend_ip)) (\<lambda>env.
     io_bind (io_lift (version_text (sc_distributor_version (si_scenario site)) (sc_default_version (si_scenario site)))) (\<lambda>version.
     io_bind (su_run ops \<lparr>cr_name = ''wasabi-client-distributor'', cr_image = ia_prefix (si_images site) @ ''wasabi-client:'' @ version,
         cr_env = env, cr_ports = [(37128, 37131)], cr_cpu = 1, cr_memory = 2048, cr_service_account = [],
         cr_run_as = (None, None), cr_proxy = []\<rparr>) (\<lambda>(ip, ports, route).
     io_bind (io_lift (service_endpoint (si_endpoint site) ip 37128 ports route False)) (\<lambda>(host, port).
       let c = \<lparr>wl_host = host, wl_port = port, wl_name = ''wasabi-client-distributor'', wl_version = version,
                wl_delay = (0, 0), wl_stop = (0, 0), wl_skip_rounds = []\<rparr>
       in io_bind (wasabi_wait_wallet n (wo_env host port) c (Some timeout)) (\<lambda>ok.
            if ok then io_ret c else io_raise (Exn KException ''Could not start distributor''))))))))"

section \<open>Which clients mix\<close>

record wasabi_engine =
  wg_clients :: "wasabi_client list"
  wg_rounds :: int
  wg_blocks :: int
  wg_round :: int
  wg_block :: int
  wg_invoices :: invoices
  wg_spends :: "postmix_spend list option"

record 'w wasabi_run_ops =
  wr_node :: bool
  wr_env :: "nat \<Rightarrow> 'w wasabi_env"
  wr_container_state :: "string \<Rightarrow> ('w, string) io"
  wr_peek :: "string \<Rightarrow> string \<Rightarrow> ('w, string) io"
  wr_height :: "('w, int) io"
  wr_mine :: "int \<Rightarrow> ('w, bool) io"
  wr_send :: "(invoice list \<Rightarrow> ('w, json) io) option"
  wr_spend :: "'w spend_ops"
  wr_sleep :: "rat \<Rightarrow> 'w \<Rightarrow> 'w"
  wr_arch :: architecture

definition run_limit_reached :: "wasabi_engine \<Rightarrow> bool" where
  "run_limit_reached en =
     ((0 < wg_rounds en \<and> wg_rounds en \<le> wg_round en) \<or> (0 < wg_blocks en \<and> wg_blocks en \<le> wg_block en))"

definition start_condition :: "wasabi_engine \<Rightarrow> wasabi_client \<Rightarrow> bool" where
  "start_condition en c =
     (if run_limit_reached en then False
      else if 0 < fst (wl_stop c) \<and> fst (wl_stop c) \<le> wg_block en then False
      else if 0 < snd (wl_stop c) \<and> snd (wl_stop c) \<le> wg_round en then False
      else if wg_block en < fst (wl_delay c) then False
      else if wg_round en < snd (wl_delay c) then False
      else \<not> list_ex (\<lambda>j. num_of j = Some (of_int (wg_round en))) (wl_skip_rounds c))"

definition client_gone_message :: "wasabi_client \<Rightarrow> string \<Rightarrow> string \<Rightarrow> string" where
  "client_gone_message c state err =
     ''client '' @ wl_name c @ '' is unreachable at '' @ wl_host c @ '':'' @ str_int (wl_port c) @ '' (''
     @ (if state \<noteq> [] then ''container state: '' @ state else ''container state unknown'')
     @ ''). A Wasabi client that hits a fatal error exits 0 and looks \"Completed\", so check that client's own log for the last exception before it stopped. Underlying error: ''
     @ err"

definition start_mixing :: "'w wasabi_run_ops \<Rightarrow> wasabi_engine \<Rightarrow> nat \<Rightarrow> ('w, unit) io" where
  "start_mixing ops en i =
     (let c = wg_clients en ! i
      in io_catch (io_seq (wasabi_start_coinjoin (wr_env ops i) c) (io_ret ()))
           (\<lambda>e. exn_class e = KConnection)
           (\<lambda>e. io_bind (io_catch (wr_container_state ops (wl_name c)) is_exception (\<lambda>_. io_ret [])) (\<lambda>state.
              io_raise (Exn KRuntimeError (client_gone_message c state (exn_msg e))))))"

definition stop_mixing :: "'w wasabi_run_ops \<Rightarrow> wasabi_engine \<Rightarrow> nat \<Rightarrow> ('w, unit) io" where
  "stop_mixing ops en i = io_seq (wasabi_stop_coinjoin (wr_env ops i) (wg_clients en ! i)) (io_ret ())"

definition starting :: "wasabi_engine \<Rightarrow> nat list" where
  "starting en = filter (\<lambda>i. start_condition en (wg_clients en ! i)) [0..<length (wg_clients en)]"

definition stopping :: "wasabi_engine \<Rightarrow> nat list" where
  "stopping en = filter (\<lambda>i. \<not> start_condition en (wg_clients en ! i)) [0..<length (wg_clients en)]"

definition update_mixing :: "'w wasabi_run_ops \<Rightarrow> wasabi_engine \<Rightarrow> ('w, unit) io" where
  "update_mixing ops en =
     io_seq (io_pool (start_mixing ops en) (starting en)) (io_pool (stop_mixing ops en) (stopping en))"

section \<open>A run\<close>

type_synonym ('w, 'a) wasabi_io = "('w \<times> wasabi_engine, 'a) io"

definition on_world :: "('w, 'a) io \<Rightarrow> ('w, 'a) wasabi_io" where
  "on_world m = (\<lambda>(w, en). case m w of (r, w') \<Rightarrow> (r, (w', en)))"

text \<open>A value is read up to three times; the error of the last attempt becomes a RuntimeError.\<close>

fun refresh_tries :: "nat \<Rightarrow> ('w, 'a) io \<Rightarrow> string \<Rightarrow> ('w, 'a) io" where
  "refresh_tries 0 m msg = io_raise (Exn KRuntimeError msg)"
| "refresh_tries (Suc left) m msg = io_catch m is_exception (\<lambda>_. refresh_tries left m msg)"

definition refresh_counters :: "'w wasabi_run_ops \<Rightarrow> int \<Rightarrow> ('w, unit) wasabi_io" where
  "refresh_counters ops initial_block =
     io_bind (on_world (refresh_tries 3 (current_round (wr_arch ops) (wr_peek ops))
         ''Could not refresh Wasabi round count after 3 attempts'')) (\<lambda>r (w, en).
       (case on_world (refresh_tries 3 (wr_height ops) ''Could not refresh Wasabi block count after 3 attempts'')
               (w, en\<lparr>wg_round := r\<rparr>) of
          (Inl e, s) \<Rightarrow> (Inl e, s)
        | (Inr h, (w', en')) \<Rightarrow> (Inr (), (w', en'\<lparr>wg_block := h - initial_block\<rparr>))))"

definition wasabi_payments :: "'w wasabi_run_ops \<Rightarrow> ('w, unit) wasabi_io" where
  "wasabi_payments ops = (\<lambda>(w, en).
     case update_invoice_payments (wr_send ops) (wg_block en) (wg_round en) (wg_invoices en) w of
       (r, invs, w') \<Rightarrow> (r, (w', en\<lparr>wg_invoices := invs\<rparr>)))"

definition wasabi_wallet_schedules :: "wallet_config list \<Rightarrow> wasabi_engine \<Rightarrow> wasabi_engine" where
  "wasabi_wallet_schedules wallets en = en\<lparr>wg_spends := Some (schedule (map wl_name (wg_clients en)) wallets ''wasabi'')\<rparr>"

definition wasabi_postmix_spends :: "'w wasabi_run_ops \<Rightarrow> ('w, unit) wasabi_io" where
  "wasabi_postmix_spends ops = (\<lambda>(w, en).
     case wg_spends en of
       None \<Rightarrow> (Inr (), (w, en))
     | Some sps \<Rightarrow>
         if \<not> wr_node ops then (Inl (Exn KRuntimeError ''Bitcoin node is not initialized''), (w, en))
         else (case update_spends (wr_spend ops) (wg_block en) (wg_round en) sps w of
                 (x, sps', w') \<Rightarrow>
                   ((case x of None \<Rightarrow> Inr () | Some e \<Rightarrow> Inl e), (w', en\<lparr>wg_spends := Some sps'\<rparr>))))"

definition wasabi_turn :: "'w wasabi_run_ops \<Rightarrow> int \<Rightarrow> ('w, unit) wasabi_io" where
  "wasabi_turn ops initial_block =
     io_seq (refresh_counters ops initial_block)
     (io_seq (wasabi_payments ops)
     (io_seq (wasabi_postmix_spends ops)
     (\<lambda>(w, en). io_seq (on_world (update_mixing ops en)) (\<lambda>(w, en). (Inr (), (wr_sleep ops 1 w, en))) (w, en))))"

fun wasabi_loop :: "nat \<Rightarrow> 'w wasabi_run_ops \<Rightarrow> int \<Rightarrow> ('w, unit) wasabi_io" where
  "wasabi_loop 0 ops initial_block = (\<lambda>(w, en). if run_limit_reached en then (Inr (), (w, en)) else diverge (w, en))"
| "wasabi_loop (Suc n) ops initial_block = (\<lambda>(w, en).
     if run_limit_reached en then (Inr (), (w, en))
     else io_seq (wasabi_turn ops initial_block) (wasabi_loop n ops initial_block) (w, en))"

definition WASABI_SETTLEMENT_BLOCKS_AFTER_LIMIT :: int where "WASABI_SETTLEMENT_BLOCKS_AFTER_LIMIT = 3"

definition mine_settlement_blocks :: "'w wasabi_run_ops \<Rightarrow> ('w, unit) io" where
  "mine_settlement_blocks ops =
     (if \<not> wr_node ops then io_raise (Exn KRuntimeError ''Bitcoin node is not initialized'')
      else io_bind (wr_mine ops WASABI_SETTLEMENT_BLOCKS_AFTER_LIMIT) (\<lambda>mined.
        if mined then io_ret () else io_raise (Exn KRuntimeError ''Bitcoin node did not mine 3 settlement blocks'')))"

definition wasabi_run_engine :: "nat \<Rightarrow> 'w wasabi_run_ops \<Rightarrow> ('w, unit) wasabi_io" where
  "wasabi_run_engine n ops =
     (if \<not> wr_node ops then io_raise (Exn KRuntimeError ''Bitcoin node is not initialized'')
      else io_bind (on_world (wr_height ops)) (\<lambda>initial_block.
        io_seq (wasabi_loop n ops initial_block) (on_world (mine_settlement_blocks ops))))"

section \<open>The settings a client gets\<close>

text \<open>Privacy settings reach a container only in the versions that read them.\<close>

lemma settings_only_patched:
  "privacy_settings wallet scenario version \<noteq> (JNull, JNull) \<Longrightarrow> \<not> version < ''2.0.3'' \<and> version < ''2.6.0''"
  by (auto simp: privacy_settings_def Let_def split: if_splits option.splits)

text \<open>
  The scenario's default target is lost on a wallet that has a section of its own without one, such
  as a wallet that only skips rounds.
\<close>

lemma own_section_drops_default:
  "w_wasabi wallet = Some c \<Longrightarrow> wc_anon_score_target c = JNull \<Longrightarrow>
     fst (privacy_settings wallet (scenario\<lparr>sc_default_anon := JInt 5\<rparr>) version) = JNull"
  by (auto simp: privacy_settings_def Let_def)

section \<open>Starting the coordinator\<close>

datatype coordinator_event = CoordinatorRun | CoordinatorStop

definition noting_startup :: "'w startup_ops \<Rightarrow> ('w \<times> coordinator_event list) startup_ops" where
  "noting_startup ops = \<lparr>
     su_run = (\<lambda>req (w, l). case su_run ops req w of (r, w') \<Rightarrow> (r, (w', l @ [CoordinatorRun]))),
     su_config = su_config ops,
     su_upload = (\<lambda>name path v (w, l). case su_upload ops name path v w of (r, w') \<Rightarrow> (r, (w', l))),
     su_wait = (\<lambda>host port t (w, l). case su_wait ops host port t w of (r, w') \<Rightarrow> (r, (w', l))),
     su_logs = (\<lambda>name (w, l). case su_logs ops name w of (r, w') \<Rightarrow> (r, (w', l))),
     su_stop = (\<lambda>name (w, l). case su_stop ops name w of (r, w') \<Rightarrow> (r, (w', l @ [CoordinatorStop])))\<rparr>"

definition started_times :: "nat \<Rightarrow> coordinator_event list" where
  "started_times k = concat (replicate k [CoordinatorRun, CoordinatorStop]) @ [CoordinatorRun]"

definition unchanged :: "'s \<Rightarrow> 's \<Rightarrow> bool" where
  "unchanged s s' = (s' = s)"

interpretation unchanging: kept_relation unchanged
  by unfold_locales (simp_all add: unchanged_def)

lemma silent_calls:
  "keeps unchanged (su_upload (noting_startup ops) name path v)"
  "keeps unchanged (su_wait (noting_startup ops) host port t)"
  "keeps unchanged (su_logs (noting_startup ops) name)"
  by (rule keepsI; auto simp: noting_startup_def unchanged_def split: prod.splits)+

lemma upload_silent: "keeps unchanged (upload_coordinator_config (noting_startup ops) site)"
  unfolding upload_coordinator_config_def by (intro unchanging.kept_intros silent_calls)

lemma start_once_notes:
  assumes "start_coordinator_once (noting_startup ops) site ip (w, l) = (Inr x, (w', l'))"
  shows "l' = l @ [CoordinatorRun]"
proof -
  let ?ops = "noting_startup ops"
  obtain q w1 where run: "su_run ops (coordinator_request site ip) w = (q, w1)" by fastforce
  then have noted: "su_run ?ops (coordinator_request site ip) (w, l) = (q, (w1, l @ [CoordinatorRun]))"
    by (simp add: noting_startup_def)
  let ?rest = "\<lambda>(cip, ports, route). io_seq (upload_coordinator_config ?ops site)
     (io_bind (io_lift (service_endpoint (si_endpoint site) cip 37128 ports route False)) (\<lambda>(host, port).
        io_catch (io_seq (su_wait ?ops host port WASABI_COORDINATOR_START_TIMEOUT_SECONDS) (io_ret (Inr (host, port, cip))))
          (\<lambda>e. exn_class e = KTimeoutError) (\<lambda>e. io_ret (Inl e))))"
  have rest: "keeps unchanged (?rest e)" for e
    by (cases e) (auto intro!: unchanging.kept_intros silent_calls upload_silent)
  obtain e where q: "q = Inr e" using assms noted by (cases q) (auto simp: start_coordinator_once_def io_bind_def)
  then have "?rest e (w1, l @ [CoordinatorRun]) = (Inr x, (w', l'))"
    using assms noted by (simp add: start_coordinator_once_def io_bind_def)
  from keepsD [OF rest this] show ?thesis by (simp add: unchanged_def)
qed

lemma attempts_notes:
  "coordinator_attempts (Suc n) (noting_startup ops) site ip (w, l) = (Inr x, (w', l')) \<Longrightarrow>
     x \<noteq> None \<and> (\<exists>k\<le>n. l' = l @ started_times k)"
proof (induction n arbitrary: w l)
  case (0 w l)
  obtain q w1 l1 where once: "start_coordinator_once (noting_startup ops) site ip (w, l) = (Inr q, (w1, l1))"
    using 0 by (auto simp: io_bind_Inr_iff)
  note l1 = start_once_notes [OF once]
  have "\<exists>c. q = Inr c"
    using 0 once by (cases q) (auto simp: io_bind_Inr_iff io_raise_def)
  then show ?case using 0 once l1
    by (auto simp: io_bind_Inr_iff io_ret_def started_times_def)
next
  case (Suc n w l)
  obtain q w1 l1 where once: "start_coordinator_once (noting_startup ops) site ip (w, l) = (Inr q, (w1, l1))"
    using Suc.prems by (auto simp: io_bind_Inr_iff)
  note l1 = start_once_notes [OF once]
  show ?case
  proof (cases q)
    case (Inr c)
    then show ?thesis using Suc.prems once l1
      by (cases c) (auto simp: io_bind_Inr_iff io_ret_def started_times_def intro!: exI [of _ 0])
  next
    case (Inl e)
    let ?logs = "io_catch (io_bind (su_logs (noting_startup ops) ''wasabi-coordinator'') (\<lambda>l. io_ret (strip l))) is_exception
             (\<lambda>e. io_ret (''<unable to read coordinator logs: '' @ exn_msg e @ ''>''))"
    have logs: "keeps unchanged ?logs" by (intro unchanging.kept_intros silent_calls)
    obtain t w2 l2 where t: "?logs (w1, l1) = (Inr t, (w2, l2))"
      using Suc.prems once Inl by (auto simp: io_bind_Inr_iff)
    have l2: "l2 = l1" using keepsD [OF logs t] by (simp add: unchanged_def)
    have retry: "io_seq (su_stop (noting_startup ops) ''wasabi-coordinator'') (coordinator_attempts (Suc n) (noting_startup ops) site ip)
        (w2, l2) = (Inr x, (w', l'))"
      using Suc.prems once Inl t
      by (auto simp: io_bind_def io_raise_def split: if_splits simp del: coordinator_attempts.simps(2)
          simp: coordinator_attempts.simps(2) [of "Suc n"])
    obtain s w3 where s: "su_stop ops ''wasabi-coordinator'' w2 = (Inr s, w3)"
      using retry by (auto simp: io_seq_def io_bind_Inr_iff noting_startup_def split: prod.splits)
    then have "coordinator_attempts (Suc n) (noting_startup ops) site ip (w3, l2 @ [CoordinatorStop]) = (Inr x, (w', l'))"
      using retry by (simp add: io_seq_def io_bind_def noting_startup_def del: coordinator_attempts.simps)
    from Suc.IH [OF this] obtain k where k: "x \<noteq> None" "k \<le> n" "l' = (l2 @ [CoordinatorStop]) @ started_times k" by blast
    then have "l' = l @ started_times (Suc k)" using l1 l2 by (simp add: started_times_def)
    then show ?thesis using k by (intro conjI exI [of _ "Suc k"]) simp_all
  qed
qed

lemma coordinator_started_once_left_facts:
  assumes "start_wasabi_coordinator (noting_startup ops) site (w, []) = (Inr x, (w', l))"
  shows "x \<noteq> None" and "\<exists>k\<le>2. l = started_times k"
proof -
  obtain ip where "coordinator_attempts (Suc 2) (noting_startup ops) site ip (w, []) = (Inr x, (w', l))"
    using assms by (auto simp: start_wasabi_coordinator_def io_bind_Inr_iff io_lift_def WASABI_COORDINATOR_START_ATTEMPTS_def
        numeral_3_eq_3 numeral_2_eq_2)
  from attempts_notes [OF this] show "x \<noteq> None" "\<exists>k\<le>2. l = started_times k" by auto
qed

text \<open>
  A coordinator that is reported as started was started at most three times; every start
  before the last was stopped again before the next one was made.
\<close>

theorem coordinator_started_once_left:
  assumes "start_wasabi_coordinator (noting_startup ops) site (w, []) = (Inr x, (w', l))"
  shows "x \<noteq> None \<and> (\<exists>k\<le>2. l = started_times k)"
  by (intro conjI coordinator_started_once_left_facts [OF assms])


text \<open>A coordinator that loses the race with a fresh block twice.\<close>

definition example_site :: wasabi_site where
  "example_site = \<lparr>si_images = \<lparr>ia_prefix = [], ia_override = (\<lambda>n. []), ia_local_build = False, ia_force_rebuild = False\<rparr>,
     si_endpoint = \<lparr>ea_in_cluster = True, ea_proxy = [], ea_control_ip = ''localhost''\<rparr>, si_btc_node_ip = [],
     si_backend_ip = [], si_node = Some ''btc-node'', si_backend = Some ''wasabi-backend'', si_coordinator = None,
     si_arch = Split, si_scenario = wasabi_default_scenario\<rparr>"

definition racing_startup :: "nat startup_ops" where
  "racing_startup = \<lparr>su_run = (\<lambda>req n. (Inr (''coordinator'', [], []), n + 1)), su_config = (\<lambda>ip. Inr []),
     su_upload = (\<lambda>name path v. io_ret ()),
     su_wait = (\<lambda>host port t n. (if n < 3 then Inl (Exn KTimeoutError ''not ready'') else Inr (), n)),
     su_logs = (\<lambda>name. io_ret ''Bitcoin Node is not fully synchronized''), su_stop = (\<lambda>name. io_ret ())\<rparr>"

theorem coordinator_started_once_left_witness:
  "\<exists>x w' k. start_wasabi_coordinator (noting_startup racing_startup) example_site (0, []) = (Inr x, (w', started_times k))
     \<and> x \<noteq> None"
proof -
  let ?run = "start_wasabi_coordinator (noting_startup racing_startup) example_site (0, [])"
  obtain r w' l where run: "?run = (r, (w', l))" by (metis surj_pair)
  have "\<not> isl (fst ?run)" by code_simp
  then obtain x where x: "r = Inr x" by (cases r) (simp_all add: run)
  from coordinator_started_once_left [OF run [unfolded x]] obtain k where "x \<noteq> None" "l = started_times k" by blast
  with run x show ?thesis by blast
qed

section \<open>Mixing follows the schedule\<close>

text \<open>Every post of a client noted with the client and its method.\<close>

definition method_of :: "json \<Rightarrow> string" where
  "method_of request = (case request of JDict d \<Rightarrow> (case dget d ''method'' of JStr m \<Rightarrow> m | _ \<Rightarrow> []) | _ \<Rightarrow> [])"

definition noting_env :: "nat \<Rightarrow> 'w wasabi_env \<Rightarrow> ('w \<times> (nat \<times> string) list) wasabi_env" where
  "noting_env i env = \<lparr>
     we_post = (\<lambda>path request timeout (w, l).
       case we_post env path request timeout w of (r, w') \<Rightarrow> (r, (w', l @ [(i, method_of request)]))),
     we_clock = we_clock env \<circ> fst, we_sleep = (\<lambda>d (w, l). (we_sleep env d w, l)),
     we_shuffle = (\<lambda>xs (w, l). case we_shuffle env xs w of (ys, w') \<Rightarrow> (ys, (w', l))),
     we_float_text = we_float_text env\<rparr>"

definition noting_run :: "'w wasabi_run_ops \<Rightarrow> ('w \<times> (nat \<times> string) list) wasabi_run_ops" where
  "noting_run ops = \<lparr>wr_node = wr_node ops, wr_env = (\<lambda>i. noting_env i (wr_env ops i)),
     wr_container_state = (\<lambda>n (w, l). case wr_container_state ops n w of (r, w') \<Rightarrow> (r, (w', l))),
     wr_peek = (\<lambda>n p (w, l). case wr_peek ops n p w of (r, w') \<Rightarrow> (r, (w', l))),
     wr_height = (\<lambda>(w, l). case wr_height ops w of (r, w') \<Rightarrow> (r, (w', l))),
     wr_mine = (\<lambda>b (w, l). case wr_mine ops b w of (r, w') \<Rightarrow> (r, (w', l))),
     wr_send = map_option (\<lambda>f xs (w, l). case f xs w of (r, w') \<Rightarrow> (r, (w', l))) (wr_send ops),
     wr_spend = \<lparr>op_check = (\<lambda>i v m (w, l). case op_check (wr_spend ops) i v m w of (r, w') \<Rightarrow> (r, (w', l))),
       op_stop = (\<lambda>i (w, l). case op_stop (wr_spend ops) i w of (r, w') \<Rightarrow> (r, (w', l))),
       op_new_address = (\<lambda>(w, l). case op_new_address (wr_spend ops) w of (r, w') \<Rightarrow> (r, (w', l))),
       op_send = (\<lambda>i d v m s (w, l). case op_send (wr_spend ops) i d v m s w of (r, w') \<Rightarrow> (r, (w', l))),
       op_time = op_time (wr_spend ops) \<circ> fst\<rparr>,
     wr_sleep = (\<lambda>d (w, l). (wr_sleep ops d w, l)), wr_arch = wr_arch ops\<rparr>"

lemma noted_env_post:
  "we_post env path request timeout w = (a, w1) \<Longrightarrow>
     we_post (noting_env i env) path request timeout (w, l) = (a, (w1, l @ [(i, method_of request)]))"
  "we_sleep (noting_env i env) d (w, l) = (we_sleep env d w, l)"
  "we_float_text (noting_env i env) = we_float_text env"
  by (simp_all add: noting_env_def)

text \<open>What a single post leads to: the call ends, or goes on from there.\<close>

lemma attempts_step:
  assumes "wasabi_attempts (noting_env i env) path request timeout (Suc n) e (w, l) = (r, (w', l'))"
  shows "l' = l @ [(i, method_of request)]
    \<or> (\<exists>e' v. wasabi_attempts (noting_env i env) path request timeout n e' (v, l @ [(i, method_of request)]) = (r, (w', l')))"
proof -
  obtain a w1 where a: "we_post env path request timeout w = (a, w1)" by fastforce
  show ?thesis
    using assms noted_env_post(1) [OF a, of i l]
    by (cases a) (auto simp: noted_env_post(2,3) split: answer.splits if_splits)
qed

lemma attempts_note:
  "keeps (adds (\<lambda>x. x = (i, method_of request))) (wasabi_attempts (noting_env i env) path request timeout n e)"
proof (induction n arbitrary: e)
  case 0
  show ?case by (simp add: adding.kept_raise)
next
  case (Suc n)
  show ?case
  proof (rule keepsI)
    fix w l r w' l'
    assume run: "wasabi_attempts (noting_env i env) path request timeout (Suc n) e (w, l) = (r, (w', l'))"
    have one: "adds (\<lambda>x. x = (i, method_of request)) l (l @ [(i, method_of request)])" by (auto simp: adds_def)
    show "adds (\<lambda>x. x = (i, method_of request)) l l'"
      using attempts_step [OF run] one adding.trans_R [OF one keepsD [OF Suc.IH]] by blast
  qed
qed

lemma rpc_notes:
  "keeps (adds (\<lambda>x. x = (i, method_of (rpc_request request)))) (wasabi_rpc (noting_env i env) c request wallet timeout n wn)"
  unfolding wasabi_rpc_def by (rule attempts_note)

lemma method_rpc [simp]:
  "method_of (rpc_request (rpc_method m)) = m" "method_of (rpc_request (rpc_method_with m params)) = m"
  by (simp_all add: method_of_def rpc_request_def rpc_method_def rpc_method_with_def)

text \<open>Every call posts at least once.\<close>

lemma rpc_posts:
  assumes "wasabi_rpc (noting_env i env) c request wallet timeout n wn (w, l) = (r, (w', l'))" "n \<noteq> 0"
  shows "(i, method_of (rpc_request request)) \<in> set l'"
proof -
  obtain k where n: "n = Suc k" using assms(2) by (cases n) auto
  from attempts_step [OF assms(1) [unfolded wasabi_rpc_def n]] show ?thesis
    using keepsD [OF attempts_note] by (fastforce simp: adds_def)
qed

definition start_methods :: "string set" where "start_methods = {''startcoinjoin'', ''enqueue''}"
definition stop_methods :: "string set" where "stop_methods = {''stopcoinjoin'', ''dequeue''}"

text \<open>A post that starts the client \<open>i\<close>, or that reads its coins; likewise for stopping.\<close>

definition note_of :: "string set \<Rightarrow> nat \<Rightarrow> nat \<times> string \<Rightarrow> bool" where
  "note_of ms i x = (fst x = i \<and> (snd x \<in> ms \<or> snd x = ''listunspentcoins''))"

lemma rpc_note_of:
  "method_of (rpc_request request) \<in> ms \<or> method_of (rpc_request request) = ''listunspentcoins'' \<Longrightarrow>
     keeps (adds (note_of ms i)) (wasabi_rpc (noting_env i env) c request wallet timeout n wn)"
  using rpc_notes by (rule keeps_mono) (auto elim!: adds_mono simp: note_of_def)

lemma queue_all_notes:
  "m \<in> ms \<Longrightarrow> keeps (adds (note_of ms i)) (queue_all (noting_env i env) c m)"
  unfolding queue_all_def wasabi_listing_def
  by (intro adding.kept_intros rpc_note_of) simp_all

lemma queue_all_posts: "queue_all (noting_env i env) c m (w, l) = (Inr v, (w', l')) \<Longrightarrow> (i, m) \<in> set l'"
  unfolding queue_all_def io_bind_Inr_iff by (auto dest!: rpc_posts)

lemma start_notes:
  "keeps (adds (note_of start_methods i)) (wasabi_start_coinjoin (noting_env i env) c)"
  "wasabi_start_coinjoin (noting_env i env) c (w, l) = (Inr v, (w', l')) \<Longrightarrow> \<exists>m\<in>start_methods. (i, m) \<in> set l'"
proof -
  show "keeps (adds (note_of start_methods i)) (wasabi_start_coinjoin (noting_env i env) c)"
    unfolding wasabi_start_coinjoin_def
    by (intro adding.kept_if queue_all_notes rpc_note_of) (simp_all add: start_methods_def)
  show "wasabi_start_coinjoin (noting_env i env) c (w, l) = (Inr v, (w', l')) \<Longrightarrow> \<exists>m\<in>start_methods. (i, m) \<in> set l'"
    unfolding wasabi_start_coinjoin_def
    by (auto simp: start_methods_def dest: queue_all_posts rpc_posts split: if_splits)
qed

lemma stop_notes:
  "keeps (adds (note_of stop_methods i)) (wasabi_stop_coinjoin (noting_env i env) c)"
  "wasabi_stop_coinjoin (noting_env i env) c (w, l) = (Inr v, (w', l')) \<Longrightarrow> \<exists>m\<in>stop_methods. (i, m) \<in> set l'"
proof -
  show "keeps (adds (note_of stop_methods i)) (wasabi_stop_coinjoin (noting_env i env) c)"
    unfolding wasabi_stop_coinjoin_def
    by (intro adding.kept_if queue_all_notes rpc_note_of) (simp_all add: stop_methods_def)
  show "wasabi_stop_coinjoin (noting_env i env) c (w, l) = (Inr v, (w', l')) \<Longrightarrow> \<exists>m\<in>stop_methods. (i, m) \<in> set l'"
    unfolding wasabi_stop_coinjoin_def
    by (auto simp: stop_methods_def dest: queue_all_posts rpc_posts split: if_splits)
qed

lemma start_mixing_notes:
  "keeps (adds (note_of start_methods i)) (start_mixing (noting_run ops) en i)"
  "start_mixing (noting_run ops) en i (w, l) = (Inr u, (w', l')) \<Longrightarrow> \<exists>m\<in>start_methods. (i, m) \<in> set l'"
proof -
  have env: "wr_env (noting_run ops) i = noting_env i (wr_env ops i)" by (simp add: noting_run_def)
  have state: "keeps (adds (note_of start_methods i)) (wr_container_state (noting_run ops) n)" for n
    by (rule keepsI) (auto simp: noting_run_def adding.refl_R split: prod.splits)
  show "keeps (adds (note_of start_methods i)) (start_mixing (noting_run ops) en i)"
    unfolding start_mixing_def Let_def env by (intro adding.kept_intros start_notes state)
  show "start_mixing (noting_run ops) en i (w, l) = (Inr u, (w', l')) \<Longrightarrow> \<exists>m\<in>start_methods. (i, m) \<in> set l'"
    unfolding start_mixing_def Let_def env
    by (auto simp: io_catch_def io_seq_def io_bind_def io_ret_def io_raise_def dest: start_notes(2)
        split: prod.splits sum.splits if_splits)
qed

lemma stop_mixing_notes:
  "keeps (adds (note_of stop_methods i)) (stop_mixing (noting_run ops) en i)"
  "stop_mixing (noting_run ops) en i (w, l) = (Inr u, (w', l')) \<Longrightarrow> \<exists>m\<in>stop_methods. (i, m) \<in> set l'"
proof -
  have env: "wr_env (noting_run ops) i = noting_env i (wr_env ops i)" by (simp add: noting_run_def)
  show "keeps (adds (note_of stop_methods i)) (stop_mixing (noting_run ops) en i)"
    unfolding stop_mixing_def env by (intro adding.kept_intros stop_notes)
  show "stop_mixing (noting_run ops) en i (w, l) = (Inr u, (w', l')) \<Longrightarrow> \<exists>m\<in>stop_methods. (i, m) \<in> set l'"
    unfolding stop_mixing_def env by (auto simp: io_seq_def io_bind_Inr_iff io_ret_def dest: stop_notes(2))
qed

text \<open>A pool whose tasks note themselves: every task of a successful pool has.\<close>

lemma pool_notes:
  assumes keep: "\<And>i. keeps (adds (note_of ms i)) (f i)"
    and self: "\<And>i w l u w' l'. f i (w, l) = (Inr u, (w', l')) \<Longrightarrow> \<exists>m\<in>ms. (i, m) \<in> set l'"
  shows "io_pool f xs (w, l) = (r, (w', l')) \<Longrightarrow>
     adds (\<lambda>x. \<exists>i\<in>set xs. note_of ms i x) l l' \<and> (\<not> isl r \<longrightarrow> (\<forall>i\<in>set xs. \<exists>m\<in>ms. (i, m) \<in> set l'))"
proof (induction xs arbitrary: w l r w' l')
  case Nil
  then show ?case by (auto simp: io_ret_def adding.refl_R)
next
  case (Cons x xs)
  obtain q w1 l1 where q: "f x (w, l) = (q, (w1, l1))" by (metis surj_pair)
  obtain p w2 l2 where p: "io_pool f xs (w1, l1) = (p, (w2, l2))" by (metis surj_pair)
  have r: "r = (case q of Inl e \<Rightarrow> Inl e | Inr _ \<Rightarrow> p)" "l' = l2" using Cons.prems q p by auto
  note ih = Cons.IH [OF p]
  have 1: "adds (\<lambda>y. \<exists>i\<in>set (x # xs). note_of ms i y) l l1" by (rule adds_mono [OF keepsD [OF keep q]]) simp
  have 2: "adds (\<lambda>y. \<exists>i\<in>set (x # xs). note_of ms i y) l1 l2" by (rule adds_mono [OF conjunct1 [OF ih]]) auto
  have sub: "set l1 \<subseteq> set l2" using 2 by (auto simp: adds_def)
  show ?case
  proof (intro conjI impI)
    show "adds (\<lambda>y. \<exists>i\<in>set (x # xs). note_of ms i y) l l'" unfolding r(2) by (rule adding.trans_R [OF 1 2])
    assume "\<not> isl r"
    then obtain u where u: "q = Inr u" "\<not> isl p" using r(1) by (cases q) auto
    then show "\<forall>i\<in>set (x # xs). \<exists>m\<in>ms. (i, m) \<in> set l'"
      using ih self [OF q [unfolded u(1)]] sub r(2) by auto
  qed
qed

lemma mixing_follows_schedule_facts:
  assumes "update_mixing (noting_run ops) en (w, []) = (r, (w', l))"
  shows "\<forall>(i, m)\<in>set l. i < length (wg_clients en) \<and> (m \<in> start_methods \<longrightarrow> start_condition en (wg_clients en ! i))
       \<and> (m \<in> stop_methods \<longrightarrow> \<not> start_condition en (wg_clients en ! i))"
    and "\<not> isl r \<longrightarrow> (\<forall>i<length (wg_clients en).
       \<exists>m \<in> (if start_condition en (wg_clients en ! i) then start_methods else stop_methods). (i, m) \<in> set l)"
    and "run_limit_reached en \<longrightarrow> (\<forall>(i, m)\<in>set l. m \<notin> start_methods)"
proof -
  let ?ops = "noting_run ops"
  have disj: "start_methods \<inter> stop_methods = {}" "''listunspentcoins'' \<notin> start_methods \<union> stop_methods"
    by (auto simp: start_methods_def stop_methods_def)
  obtain q w1 l1 where q: "io_pool (start_mixing ?ops en) (starting en) (w, []) = (q, (w1, l1))" by (metis surj_pair)
  have 1: "adds (\<lambda>x. \<exists>i\<in>set (starting en). note_of start_methods i x) [] l1
      \<and> (\<not> isl q \<longrightarrow> (\<forall>i\<in>set (starting en). \<exists>m\<in>start_methods. (i, m) \<in> set l1))"
    by (rule pool_notes [OF _ _ q]) (rule start_mixing_notes(1), erule start_mixing_notes(2))
  obtain p w2 l2 where p: "io_pool (stop_mixing ?ops en) (stopping en) (w1, l1) = (p, (w2, l2))" by (metis surj_pair)
  have 2: "adds (\<lambda>x. \<exists>i\<in>set (stopping en). note_of stop_methods i x) l1 l2
      \<and> (\<not> isl p \<longrightarrow> (\<forall>i\<in>set (stopping en). \<exists>m\<in>stop_methods. (i, m) \<in> set l2))"
    by (rule pool_notes [OF _ _ p]) (rule stop_mixing_notes(1), erule stop_mixing_notes(2))
  have l1: "\<forall>x\<in>set l1. \<exists>i\<in>set (starting en). note_of start_methods i x" using 1 by (auto simp: adds_def)
  have l2: "\<forall>x\<in>set l2. (\<exists>i\<in>set (starting en). note_of start_methods i x) \<or> (\<exists>i\<in>set (stopping en). note_of stop_methods i x)"
    and sub: "set l1 \<subseteq> set l2" using 2 l1 by (auto simp: adds_def)
  have run: "(r, l) = (case q of Inl e \<Rightarrow> (Inl e, l1) | Inr u \<Rightarrow> (p, l2))"
    using assms q p by (cases q) (auto simp: update_mixing_def io_seq_def io_bind_def)
  have all: "\<forall>x\<in>set l. (\<exists>i\<in>set (starting en). note_of start_methods i x) \<or> (\<exists>i\<in>set (stopping en). note_of stop_methods i x)"
    using run l1 l2 by (cases q) auto
  show windows: "\<forall>(i, m)\<in>set l. i < length (wg_clients en) \<and> (m \<in> start_methods \<longrightarrow> start_condition en (wg_clients en ! i))
       \<and> (m \<in> stop_methods \<longrightarrow> \<not> start_condition en (wg_clients en ! i))"
    using all disj by (fastforce simp: note_of_def starting_def stopping_def)
  show "run_limit_reached en \<longrightarrow> (\<forall>(i, m)\<in>set l. m \<notin> start_methods)"
    using windows by (auto simp: start_condition_def)
  show "\<not> isl r \<longrightarrow> (\<forall>i<length (wg_clients en).
       \<exists>m \<in> (if start_condition en (wg_clients en ! i) then start_methods else stop_methods). (i, m) \<in> set l)"
  proof (intro impI allI)
    fix i assume "\<not> isl r" and i: "i < length (wg_clients en)"
    then have "\<not> isl q" "\<not> isl p" "l = l2" using run by (cases q; simp)+
    then show "\<exists>m \<in> (if start_condition en (wg_clients en ! i) then start_methods else stop_methods). (i, m) \<in> set l"
      using 1 2 sub i by (auto simp: starting_def stopping_def) (meson subsetD)
  qed
qed

text \<open>
  Claim C23. An update of the mixing posts a start only for clients inside their window and a stop
  only for the others, and when it succeeds every client was told; at the limit of the run no client
  is started.
\<close>

theorem mixing_follows_schedule:
  assumes "update_mixing (noting_run ops) en (w, []) = (r, (w', l))"
  shows "(\<forall>(i, m)\<in>set l. i < length (wg_clients en) \<and> (m \<in> start_methods \<longrightarrow> start_condition en (wg_clients en ! i))
       \<and> (m \<in> stop_methods \<longrightarrow> \<not> start_condition en (wg_clients en ! i)))
    \<and> (\<not> isl r \<longrightarrow> (\<forall>i<length (wg_clients en).
       \<exists>m \<in> (if start_condition en (wg_clients en ! i) then start_methods else stop_methods). (i, m) \<in> set l))
    \<and> (run_limit_reached en \<longrightarrow> (\<forall>(i, m)\<in>set l. m \<notin> start_methods))"
  by (intro conjI mixing_follows_schedule_facts [OF assms])


text \<open>Two clients after one round, the second of which skips round one.\<close>

definition example_engine :: wasabi_engine where
  "example_engine = \<lparr>wg_clients = [example_client ''2.6.0'', (example_client ''2.6.0'')\<lparr>wl_skip_rounds := [JInt 1]\<rparr>],
     wg_rounds = 2, wg_blocks = 0, wg_round = 1, wg_block = 4, wg_invoices = [], wg_spends = None\<rparr>"

text \<open>A node of five blocks and a legacy store that holds the ids of one and then two coinjoins.\<close>

definition example_run_ops :: "nat wasabi_run_ops" where
  "example_run_ops = \<lparr>wr_node = True,
     wr_env = (\<lambda>i. busy_wallet\<lparr>we_post := (\<lambda>path request timeout. io_ret (JDict [(''result'', JNull)]))\<rparr>),
     wr_container_state = (\<lambda>n. io_ret []),
     wr_peek = (\<lambda>n p w. (Inr (if w = 0 then ''a'' @ [CHR 0x0A] else ''a'' @ [CHR 0x0A] @ ''b'' @ [CHR 0x0A]), w)),
     wr_height = io_ret 5, wr_mine = (\<lambda>b. io_ret True), wr_send = None,
     wr_spend = \<lparr>op_check = (\<lambda>i v m. io_ret ()), op_stop = (\<lambda>i. io_ret ()), op_new_address = io_ret [],
       op_send = (\<lambda>i d v m s. io_ret []), op_time = (\<lambda>w. 0)\<rparr>,
     wr_sleep = (\<lambda>d w. w + 1), wr_arch = Legacy\<rparr>"

theorem mixing_follows_schedule_witness:
  "\<exists>w' l. update_mixing (noting_run example_run_ops) example_engine (0, []) = (Inr (), (w', l))
     \<and> (\<exists>m\<in>start_methods. (0, m) \<in> set l) \<and> (\<exists>m\<in>stop_methods. (1, m) \<in> set l)"
proof -
  let ?run = "update_mixing (noting_run example_run_ops) example_engine (0, [])"
  obtain r w' l where run: "?run = (r, (w', l))" by (metis surj_pair)
  have "\<not> isl (fst ?run)" by code_simp
  then have r: "r = Inr ()" by (cases r) (simp_all add: run)
  have "start_condition example_engine (wg_clients example_engine ! 0)" "\<not> start_condition example_engine (wg_clients example_engine ! 1)"
    "length (wg_clients example_engine) = 2" by code_simp+
  moreover have "\<not> isl r" by (simp add: r)
  note told = mixing_follows_schedule [OF run, THEN conjunct2, THEN conjunct1, rule_format, OF this]
  ultimately show ?thesis using told [of 0] told [of 1] run r by auto
qed

section \<open>How a run ends\<close>

definition same_plan_engine :: "wasabi_engine \<Rightarrow> wasabi_engine \<Rightarrow> bool" where
  "same_plan_engine en en' =
     (wg_clients en' = wg_clients en \<and> wg_rounds en' = wg_rounds en \<and> wg_blocks en' = wg_blocks en)"

lemma same_plan_refl: "same_plan_engine en en" by (simp add: same_plan_engine_def)

lemma same_plan_trans: "same_plan_engine a b \<Longrightarrow> same_plan_engine b c \<Longrightarrow> same_plan_engine a c"
  by (simp add: same_plan_engine_def)

text \<open>The two reads at the head of a turn: the rounds so far, then the height of the chain.\<close>

definition counters_read :: "'w wasabi_run_ops \<Rightarrow> 'w \<Rightarrow> int \<Rightarrow> int \<Rightarrow> bool" where
  "counters_read ops w r h =
     (\<exists>w1 w2. refresh_tries 3 (current_round (wr_arch ops) (wr_peek ops))
           ''Could not refresh Wasabi round count after 3 attempts'' w = (Inr r, w1)
        \<and> refresh_tries 3 (wr_height ops) ''Could not refresh Wasabi block count after 3 attempts'' w1 = (Inr h, w2))"

text \<open>The turns of a run: each starts below the limit and succeeds.\<close>

inductive wasabi_turns :: "'w wasabi_run_ops \<Rightarrow> int \<Rightarrow> 'w \<times> wasabi_engine \<Rightarrow> 'w \<times> wasabi_engine \<Rightarrow> bool"
  for ops b where
  no_turn: "wasabi_turns ops b s s"
| one_more: "wasabi_turns ops b s (w, en) \<Longrightarrow> \<not> run_limit_reached en \<Longrightarrow>
    wasabi_turn ops b (w, en) = (Inr (), s') \<Longrightarrow> wasabi_turns ops b s s'"

lemma turns_front:
  assumes "wasabi_turns ops b s1 s'" "\<not> run_limit_reached en" "wasabi_turn ops b (w, en) = (Inr (), s1)"
  shows "wasabi_turns ops b (w, en) s'"
  using assms by (induction rule: wasabi_turns.induct) (blast intro: wasabi_turns.intros)+

lemma turn_counts:
  assumes "wasabi_turn ops b (w, en) = (Inr (), (w', en'))"
  shows "\<exists>r h. same_plan_engine en en' \<and> counters_read ops w r h \<and> wg_round en' = r \<and> wg_block en' = h - b"
proof -
  obtain w1 en1 where refresh: "refresh_counters ops b (w, en) = (Inr (), (w1, en1))"
    and rest: "io_seq (wasabi_payments ops) (io_seq (wasabi_postmix_spends ops)
     (\<lambda>(w, en). io_seq (on_world (update_mixing ops en)) (\<lambda>(w, en). (Inr (), (wr_sleep ops 1 w, en))) (w, en))) (w1, en1)
      = (Inr (), (w', en'))"
    using assms by (auto simp: wasabi_turn_def io_seq_def io_bind_Inr_iff)
  obtain r w0 where r: "refresh_tries 3 (current_round (wr_arch ops) (wr_peek ops))
         ''Could not refresh Wasabi round count after 3 attempts'' w = (Inr r, w0)"
    using refresh by (auto simp: refresh_counters_def io_bind_Inr_iff on_world_def split: prod.splits)
  then obtain h v where h: "refresh_tries 3 (wr_height ops) ''Could not refresh Wasabi block count after 3 attempts'' w0 = (Inr h, v)"
    "en1 = en\<lparr>wg_round := r, wg_block := h - b\<rparr>"
    using refresh by (auto simp: refresh_counters_def io_bind_def on_world_def split: prod.splits sum.splits)
  obtain w2 en2 where pay: "wasabi_payments ops (w1, en1) = (Inr (), (w2, en2))"
    and rest2: "io_seq (wasabi_postmix_spends ops)
     (\<lambda>(w, en). io_seq (on_world (update_mixing ops en)) (\<lambda>(w, en). (Inr (), (wr_sleep ops 1 w, en))) (w, en)) (w2, en2)
      = (Inr (), (w', en'))"
    using rest by (auto simp: io_seq_def io_bind_Inr_iff [of "wasabi_payments ops"])
  have 2: "same_plan_engine en1 en2 \<and> wg_round en2 = wg_round en1 \<and> wg_block en2 = wg_block en1"
    using pay by (auto simp: wasabi_payments_def same_plan_engine_def split: prod.splits)
  obtain w3 en3 where spend: "wasabi_postmix_spends ops (w2, en2) = (Inr (), (w3, en3))"
    and last: "io_seq (on_world (update_mixing ops en3)) (\<lambda>(w, en). (Inr (), (wr_sleep ops 1 w, en))) (w3, en3) = (Inr (), (w', en'))"
    using rest2 by (auto simp: io_seq_def io_bind_Inr_iff [of "wasabi_postmix_spends ops"])
  have 3: "same_plan_engine en2 en3 \<and> wg_round en3 = wg_round en2 \<and> wg_block en3 = wg_block en2"
    using spend by (auto simp: wasabi_postmix_spends_def same_plan_engine_def split: prod.splits option.splits if_splits)
  have "en' = en3"
    using last by (auto simp: io_seq_def io_bind_Inr_iff on_world_def split: prod.splits)
  moreover have "same_plan_engine en en1" by (simp add: h(2) same_plan_engine_def)
  ultimately have "same_plan_engine en en'" "wg_round en' = r" "wg_block en' = h - b"
    using 2 3 by (simp_all add: same_plan_engine_def h(2))
  then show ?thesis using r h(1) by (auto simp: counters_read_def)
qed

lemma loop_turns:
  "wasabi_loop n ops b (w, en) = (Inr (), (w', en')) \<Longrightarrow>
     run_limit_reached en' \<and> wasabi_turns ops b (w, en) (w', en')"
proof (induction n arbitrary: w en)
  case 0
  then show ?case by (auto simp: diverge_def io_raise_def split: if_splits intro: no_turn)
next
  case (Suc n)
  show ?case
  proof (cases "run_limit_reached en")
    case True
    then show ?thesis using Suc.prems by (simp add: no_turn)
  next
    case False
    then obtain w1 en1 where turn: "wasabi_turn ops b (w, en) = (Inr (), (w1, en1))"
      and loop: "wasabi_loop n ops b (w1, en1) = (Inr (), (w', en'))"
      using Suc.prems by (auto simp: io_seq_def io_bind_Inr_iff simp del: wasabi_loop.simps(1))
    from Suc.IH [OF loop] turns_front [OF _ False turn] show ?thesis by blast
  qed
qed

lemma turns_same_plan: "wasabi_turns ops b s s' \<Longrightarrow> same_plan_engine (snd s) (snd s')"
proof (induction rule: wasabi_turns.induct)
  case (one_more s w en s')
  obtain v en' where s': "s' = (v, en')" by (cases s')
  show ?case using turn_counts [OF one_more.hyps(3) [unfolded s']] one_more.IH same_plan_trans
    by (fastforce simp: s')
qed (simp add: same_plan_refl)

inductive_cases turns_last: "wasabi_turns ops b (w, en) (w', en')"

lemma run_ends_at_limit_facts:
  assumes "wasabi_run_engine n ops (w, en) = (Inr (), (w', en'))" "\<not> run_limit_reached en"
  shows "\<exists>b w1 v en1 r h v'. wr_height ops w = (Inr b, w1)
    \<and> wasabi_turns ops b (w1, en) (v, en1) \<and> \<not> run_limit_reached en1
    \<and> wasabi_turn ops b (v, en1) = (Inr (), (v', en'))
    \<and> counters_read ops v r h \<and> wg_round en' = r \<and> wg_block en' = h - b
    \<and> run_limit_reached en' \<and> same_plan_engine en en' \<and> wr_mine ops 3 v' = (Inr True, w')"
proof -
  obtain b w1 where b: "wr_height ops w = (Inr b, w1)"
    and rest: "io_seq (wasabi_loop n ops b) (on_world (mine_settlement_blocks ops)) (w1, en) = (Inr (), (w', en'))"
    using assms(1)
    by (auto simp: wasabi_run_engine_def io_bind_Inr_iff on_world_def io_raise_def split: if_splits prod.splits)
  obtain w2 en2 where loop: "wasabi_loop n ops b (w1, en) = (Inr (), (w2, en2))"
    and mine: "on_world (mine_settlement_blocks ops) (w2, en2) = (Inr (), (w', en'))"
    using rest by (auto simp: io_seq_def io_bind_Inr_iff)
  have en: "en' = en2" and mined: "mine_settlement_blocks ops w2 = (Inr (), w')"
    using mine by (auto simp: on_world_def split: prod.splits)
  have limit: "run_limit_reached en'" and turns: "wasabi_turns ops b (w1, en) (w2, en')"
    using loop_turns [OF loop] en by simp_all
  from turns obtain v en1 where "wasabi_turns ops b (w1, en) (v, en1)" "\<not> run_limit_reached en1"
    and turn: "wasabi_turn ops b (v, en1) = (Inr (), (w2, en'))"
    using limit assms(2) by (cases rule: turns_last) auto
  moreover have "wr_mine ops 3 w2 = (Inr True, w')"
    using mined by (auto simp: mine_settlement_blocks_def io_bind_Inr_iff io_ret_def io_raise_def
        WASABI_SETTLEMENT_BLOCKS_AFTER_LIMIT_def split: if_splits)
  ultimately show ?thesis
    using b limit turns_same_plan [OF turns] turn_counts [OF turn] by auto
qed

text \<open>
  Claim C22. A Wasabi run ends normally only at its limit: it reads the height \<open>b\<close> once at its
  start, then makes turns, each begun below the limit, and stops after the turn whose reads of the
  coordinator and the node, \<open>r\<close> rounds and height \<open>h\<close>, put \<open>r\<close> at the round limit or \<open>h - b\<close> at
  the block limit; these are the counters it ends with, its clients and limits are those it began
  with, and the three settlement blocks are mined right after that turn.
\<close>

theorem run_ends_at_limit:
  assumes "wasabi_run_engine n ops (w, en) = (Inr (), (w', en'))" "\<not> run_limit_reached en"
  shows "\<exists>b w1 v en1 r h v'. wr_height ops w = (Inr b, w1)
    \<and> wasabi_turns ops b (w1, en) (v, en1) \<and> \<not> run_limit_reached en1
    \<and> wasabi_turn ops b (v, en1) = (Inr (), (v', en'))
    \<and> counters_read ops v r h \<and> wg_round en' = r \<and> wg_block en' = h - b
    \<and> (0 < wg_rounds en \<and> wg_rounds en \<le> r \<or> 0 < wg_blocks en \<and> wg_blocks en \<le> h - b)
    \<and> same_plan_engine en en' \<and> wr_mine ops 3 v' = (Inr True, w')"
proof -
  obtain b w1 v en1 r h v' where run: "wr_height ops w = (Inr b, w1)" "wasabi_turns ops b (w1, en) (v, en1)"
      "\<not> run_limit_reached en1" "wasabi_turn ops b (v, en1) = (Inr (), (v', en'))"
      "counters_read ops v r h" "wg_round en' = r" "wg_block en' = h - b"
    and limit: "run_limit_reached en'" and plan: "same_plan_engine en en'" and mine: "wr_mine ops 3 v' = (Inr True, w')"
    using run_ends_at_limit_facts [OF assms] by blast
  have "0 < wg_rounds en \<and> wg_rounds en \<le> r \<or> 0 < wg_blocks en \<and> wg_blocks en \<le> h - b"
    using limit plan run(6,7) by (simp add: run_limit_reached_def same_plan_engine_def)
  with run plan mine show ?thesis by blast
qed

theorem run_ends_at_limit_witness:
  "\<exists>w' en'. wasabi_run_engine 3 example_run_ops (0, example_engine) = (Inr (), (w', en')) \<and> 2 \<le> wg_round en' \<and> wg_block en' = 0"
proof -
  let ?run = "wasabi_run_engine 3 example_run_ops (0, example_engine)"
  obtain r w' en' where run: "?run = (r, (w', en'))" by (metis surj_pair)
  have "\<not> isl (fst ?run)" by code_simp
  then have r: "r = Inr ()" by (cases r; simp add: run)
  have "\<not> run_limit_reached example_engine" by code_simp
  from run_ends_at_limit [OF run [unfolded r] this] obtain b r0 h v v1
    where at: "wr_height example_run_ops 0 = (Inr b, v)" "counters_read example_run_ops v1 r0 h"
      "wg_round en' = r0" "wg_block en' = h - b" "2 \<le> r0"
    by (auto simp: example_engine_def)
  have "b = 5" "h = 5"
    using at(1,2) by (auto simp: counters_read_def example_run_ops_def io_ret_def io_catch_def numeral_3_eq_3)
  then show ?thesis using at(3-5) run r by auto
qed

end
