(* ===== verification/Draws.thy ===== *)
theory Draws
  imports Kept
begin

text \<open>
  What the scenario generators (\<open>manager/commands/\<close>) use of Python's \<open>random\<close> and of the file
  system. The world of a generator is the stream of raw numbers its generator will give and the
  files on disk, by path; every function of \<open>random\<close> is computed from the raw numbers, so that the
  theorems over all streams cover every outcome of the generator. Floats are exact rationals here.
\<close>

section \<open>World\<close>

type_synonym gen_world = "nat list \<times> (string \<times> json) list"

definition draw :: "(gen_world, nat) io" where
  "draw = (\<lambda>(raw, files). case raw of [] \<Rightarrow> (Inr 0, [], files) | k # ks \<Rightarrow> (Inr k, ks, files))"

definition path_exists :: "string \<Rightarrow> (gen_world, bool) io" where
  "path_exists p = (\<lambda>(raw, files). (Inr (p \<in> fst ` set files), raw, files))"

definition write_file :: "string \<Rightarrow> json \<Rightarrow> (gen_world, unit) io" where
  "write_file p j = (\<lambda>(raw, files). (Inr (), raw, AList.update p j files))"

section \<open>The functions of the random module\<close>

definition randint :: "int \<Rightarrow> int \<Rightarrow> (gen_world, int) io" where
  "randint a b =
     (if b < a then io_raise (Exn KValueError ''empty range for randrange'')
      else io_bind draw (\<lambda>k. io_ret (a + int k mod (b - a + 1))))"

text \<open>\<open>random()\<close> is a multiple of \<open>2 ** -53\<close> below one.\<close>

definition unit_random :: "(gen_world, rat) io" where
  "unit_random = io_bind draw (\<lambda>k. io_ret (of_int (int k mod 2 ^ 53) / 2 ^ 53))"

definition uniform :: "rat \<Rightarrow> rat \<Rightarrow> (gen_world, rat) io" where
  "uniform a b = io_bind unit_random (\<lambda>r. io_ret (a + (b - a) * r))"

definition swap :: "nat \<Rightarrow> nat \<Rightarrow> 'a list \<Rightarrow> 'a list" where
  "swap i j xs = xs[i := xs ! j, j := xs ! i]"

text \<open>\<open>for i in reversed(range(1, len(x))): j = randbelow(i + 1); x[i], x[j] = x[j], x[i]\<close>\<close>

fun shuffle_from :: "nat \<Rightarrow> 'a list \<Rightarrow> (gen_world, 'a list) io" where
  "shuffle_from 0 xs = io_ret xs"
| "shuffle_from (Suc i) xs = io_bind draw (\<lambda>k. shuffle_from i (swap (Suc i) (k mod (i + 2)) xs))"

definition shuffle_list :: "'a list \<Rightarrow> (gen_world, 'a list) io" where
  "shuffle_list xs = shuffle_from (length xs - 1) xs"

text \<open>\<open>sample(pool, k)\<close> takes \<open>k\<close> elements out of the pool one after the other.\<close>

fun sample_from :: "nat \<Rightarrow> 'a list \<Rightarrow> (gen_world, 'a list) io" where
  "sample_from 0 pool = io_ret []"
| "sample_from (Suc n) pool = io_bind draw (\<lambda>k.
     let j = k mod length pool
     in io_bind (sample_from n (take j pool @ drop (Suc j) pool)) (\<lambda>rest. io_ret (pool ! j # rest)))"

definition sample :: "'a list \<Rightarrow> int \<Rightarrow> (gen_world, 'a list) io" where
  "sample pool k =
     (if k < 0 \<or> int (length pool) < k
      then io_raise (Exn KValueError ''Sample larger than population or is negative'')
      else sample_from (nat k) pool)"

section \<open>Numbers\<close>

text \<open>\<open>round(x)\<close> of a float: to the nearest integer, a tie to the even one.\<close>

definition py_round :: "rat \<Rightarrow> int" where
  "py_round x =
     (let f = \<lfloor>x\<rfloor>; d = x - of_int f
      in if d < 1 / 2 then f else if 1 / 2 < d then f + 1 else if even f then f else f + 1)"

definition round_places :: "nat \<Rightarrow> rat \<Rightarrow> rat" where
  "round_places n x = of_int (py_round (x * 10 ^ n)) / 10 ^ n"

lemma py_round_close: "\<bar>of_int (py_round x) - x\<bar> \<le> 1 / 2"
  unfolding py_round_def Let_def by (auto simp: abs_if) linarith+

lemma py_round_of_int [simp]: "py_round (of_int n) = n"
  by (simp add: py_round_def)

lemma py_round_mono: "x \<le> y \<Longrightarrow> py_round x \<le> py_round y"
proof (rule ccontr)
  assume le: "x \<le> y" and less: "\<not> py_round x \<le> py_round y"
  have f: "\<lfloor>x\<rfloor> \<le> \<lfloor>y\<rfloor>" using le by (rule floor_mono)
  have bounds: "\<lfloor>x\<rfloor> \<le> py_round x" "py_round x \<le> \<lfloor>x\<rfloor> + 1" "\<lfloor>y\<rfloor> \<le> py_round y"
    by (auto simp: py_round_def Let_def)
  then have "\<lfloor>x\<rfloor> = \<lfloor>y\<rfloor>" using f less by linarith
  then show False using le less by (auto simp: py_round_def Let_def split: if_splits)
qed

section \<open>What the functions give\<close>

lemma keeps_draw: "keeps (=) draw"
  by (auto simp: keeps_def draw_def split: list.split)

lemma randint_bounds: 
  assumes run: "randint a b w = (Inr k, w')"
  shows "a \<le> k \<and> k \<le> b"
proof -
  have "a \<le> b" using run by (auto simp: randint_def io_raise_def split: if_splits)
  moreover obtain d where "k = a + int d mod (b - a + 1)"
    using run by (auto simp: randint_def io_bind_Inr_iff io_ret_Inr_iff io_raise_def split: if_splits)
  ultimately show ?thesis
    using pos_mod_bound [of "b - a + 1" "int d"] pos_mod_sign [of "b - a + 1" "int d"] by linarith
qed

lemma unit_random_bounds: "unit_random w = (Inr r, w') \<Longrightarrow> 0 \<le> r \<and> r < 1"
  by (force simp: unit_random_def io_simps draw_def divide_less_eq split: prod.splits list.splits)

lemma uniform_bounds: "uniform a b w = (Inr x, w') \<Longrightarrow> a \<le> b \<Longrightarrow> a \<le> x \<and> x \<le> b"
proof -
  assume "uniform a b w = (Inr x, w')" "a \<le> b"
  then obtain r where "x = a + (b - a) * r" "0 \<le> r" "r < 1"
    by (auto simp: uniform_def io_bind_Inr_iff io_ret_Inr_iff dest: unit_random_bounds)
  moreover have "(b - a) * r \<le> (b - a) * 1"
    using \<open>a \<le> b\<close> \<open>r < 1\<close> by (intro mult_left_mono) auto
  ultimately show "a \<le> x \<and> x \<le> b" using \<open>a \<le> b\<close> by auto
qed

lemma mset_swap': "i < length xs \<Longrightarrow> j < length xs \<Longrightarrow> mset (swap i j xs) = mset xs"
  unfolding swap_def by (rule mset_swap)

lemma shuffle_from_mset:
  "shuffle_from i xs w = (Inr ys, w') \<Longrightarrow> i < length xs \<Longrightarrow> mset ys = mset xs"
proof (induction i arbitrary: xs w)
  case (Suc i)
  then obtain k v where "shuffle_from i (swap (Suc i) (k mod (i + 2)) xs) v = (Inr ys, w')"
    by (auto simp: io_bind_Inr_iff)
  then have "mset ys = mset (swap (Suc i) (k mod (i + 2)) xs)"
    using Suc by (auto simp: swap_def)
  moreover have "k mod (i + 2) < length xs"
    using Suc.prems(2) mod_less_divisor [of "i + 2" k] by linarith
  ultimately show ?case using Suc.prems(2) by (simp add: mset_swap')
qed (simp add: io_ret_def)

lemma shuffle_mset: "shuffle_list xs w = (Inr ys, w') \<Longrightarrow> mset ys = mset xs"
  by (cases xs) (auto simp: shuffle_list_def io_ret_def dest: shuffle_from_mset)

lemma sample_from_subset:
  "sample_from n pool w = (Inr ys, w') \<Longrightarrow> n \<le> length pool \<Longrightarrow> distinct pool \<Longrightarrow>
   length ys = n \<and> distinct ys \<and> set ys \<subseteq> set pool"
proof (induction n arbitrary: pool w ys w')
  case (Suc n)
  then obtain k v rest v' where
    rest: "sample_from n (take (k mod length pool) pool @ drop (Suc (k mod length pool)) pool) v = (Inr rest, v')"
    and ys: "ys = pool ! (k mod length pool) # rest"
    by (auto simp: io_bind_Inr_iff io_ret_Inr_iff Let_def)
  let ?j = "k mod length pool"
  have j: "?j < length pool" using Suc.prems(2) by (intro mod_less_divisor) auto
  have pool: "pool = take ?j pool @ pool ! ?j # drop (Suc ?j) pool" using j by (rule id_take_nth_drop)
  have d: "distinct (take ?j pool @ pool ! ?j # drop (Suc ?j) pool)" using Suc.prems(3) pool by simp
  have "length rest = n \<and> distinct rest \<and> set rest \<subseteq> set (take ?j pool @ drop (Suc ?j) pool)"
    using Suc.IH [OF rest] j Suc.prems(2) d by auto
  moreover have "set (take ?j pool @ drop (Suc ?j) pool) \<subseteq> set pool"
    by (auto dest: in_set_takeD in_set_dropD)
  ultimately show ?case using ys d j by auto
qed (simp add: io_ret_def)

lemma sample_subset:
  "sample pool k w = (Inr ys, w') \<Longrightarrow> distinct pool \<Longrightarrow>
   0 \<le> k \<and> k \<le> int (length pool) \<and> length ys = nat k \<and> distinct ys \<and> set ys \<subseteq> set pool"
  by (auto simp: sample_def io_raise_def split: if_splits dest!: sample_from_subset)

end
