(* ===== verification/Floats.thy ===== *)
theory Floats
  imports Draws
begin

text \<open>
  Binary floating point where its rounding decides a whole number: Python's \<open>float\<close> has 53
  significant bits, and a product or quotient is the exact one rounded to the nearest such number,
  ties to an even significand. A float is the rational number it stands for. Overflow to infinity
  and the reduced precision below \<open>2 ** -1022\<close> are left out; the numbers here are counts and shares.
\<close>

section \<open>Rounding to 53 bits\<close>

text \<open>\<open>int.bit_length\<close> of a positive number.\<close>

function bit_length :: "int \<Rightarrow> int" where
  "bit_length n = (if n \<le> 0 then 0 else 1 + bit_length (n div 2))"
  by pat_completeness auto
termination by (relation "measure nat") auto

declare bit_length.simps [simp del]

text \<open>The exponent \<open>e\<close> with \<open>2 ^ e \<le> \<bar>x\<bar> < 2 ^ (e + 1)\<close>.\<close>

definition binary_exponent :: "rat \<Rightarrow> int" where
  "binary_exponent x =
     (case quotient_of \<bar>x\<bar> of (p, q) \<Rightarrow>
        let e = bit_length p - bit_length q in if 2 powi e \<le> \<bar>x\<bar> then e else e - 1)"

definition float64 :: "rat \<Rightarrow> rat" where
  "float64 x =
     (if x = 0 then 0
      else let unit = 2 powi (binary_exponent x - 52) in of_int (py_round (x / unit)) * unit)"

definition float_mul :: "rat \<Rightarrow> rat \<Rightarrow> rat" where
  "float_mul x y = float64 (x * y)"

definition float_div :: "rat \<Rightarrow> rat \<Rightarrow> rat" where
  "float_div x y = float64 (x / y)"

text \<open>The conversion an integer operand undergoes.\<close>

definition float_of_int :: "int \<Rightarrow> rat" where
  "float_of_int n = float64 (of_int n)"

section \<open>The rounding error\<close>

lemma powi_Suc: "(2 :: rat) powi (1 + n) = 2 * 2 powi n"
  by (simp add: power_int_add)

lemma bit_length_powi:
  "0 < n \<Longrightarrow> 2 powi (bit_length n - 1) \<le> (of_int n :: rat) \<and> (of_int n :: rat) < 2 powi (bit_length n)"
proof (induction n rule: bit_length.induct)
  case (1 n)
  show ?case
  proof (cases "n = 1")
    case True
    then show ?thesis by (simp add: bit_length.simps)
  next
    case False
    then have h: "0 < n div 2" using "1.prems" by simp
    let ?k = "bit_length (n div 2)"
    have k: "bit_length n = 1 + ?k" using "1.prems" by (simp add: bit_length.simps [of n])
    have IH: "2 powi (?k - 1) \<le> (of_int (n div 2) :: rat)" "(of_int (n div 2) :: rat) < 2 powi ?k"
      using "1.IH" "1.prems" h by auto
    have n: "of_int (2 * (n div 2)) \<le> (of_int n :: rat)" "(of_int n :: rat) \<le> of_int (2 * (n div 2) + 1)"
      unfolding of_int_le_iff by linarith+
    have "0 \<le> ?k"
    proof (rule ccontr)
      assume "\<not> 0 \<le> ?k"
      then have "(2 :: rat) powi ?k \<le> 1" using power_int_increasing [of ?k 0 "2 :: rat"] by simp
      then show False using IH(2) h by (metis less_le_trans not_less of_int_1_le_iff zless_imp_add1_zle add_0)
    qed
    then have "(2 :: rat) powi ?k = of_int (2 ^ nat ?k)" by (simp add: power_int_def)
    then have "(of_int (n div 2 + 1) :: rat) \<le> 2 powi ?k"
      using IH(2) by (metis of_int_less_iff of_int_le_iff zless_imp_add1_zle)
    then have "(of_int n :: rat) < 2 * 2 powi ?k" using n(2) by simp
    moreover have "2 * 2 powi (?k - 1) = (2 :: rat) powi ?k" using powi_Suc [of "?k - 1"] by simp
    ultimately show ?thesis using IH(1) n(1) by (simp add: k powi_Suc)
  qed
qed

lemma binary_exponent:
  assumes "x \<noteq> 0"
  shows "2 powi (binary_exponent x) \<le> \<bar>x\<bar>" "\<bar>x\<bar> < 2 powi (binary_exponent x + 1)"
proof -
  obtain p q where pq: "quotient_of \<bar>x\<bar> = (p, q)" by fastforce
  have q: "0 < q" using quotient_of_denom_pos [OF pq] .
  have x: "\<bar>x\<bar> = of_int p / of_int q" using quotient_of_div [OF pq] .
  have p: "0 < p" using x q assms by (metis abs_0_eq abs_ge_zero divide_nonpos_pos not_less of_int_0_less_iff of_int_le_0_iff order_antisym)
  define a b where "a = bit_length p" and "b = bit_length q"
  have P: "2 powi (a - 1) \<le> (of_int p :: rat)" "(of_int p :: rat) < 2 powi a"
    and Q: "2 powi (b - 1) \<le> (of_int q :: rat)" "(of_int q :: rat) < 2 powi b"
    using bit_length_powi [OF p] bit_length_powi [OF q] by (simp_all add: a_def b_def)
  have pos: "(0 :: rat) < of_int q" "(0 :: rat) < 2 powi b" "(0 :: rat) < 2 powi (b - 1)" using q by simp_all
  have "2 powi (a - 1) * of_int q \<le> (of_int p :: rat) * 2 powi b"
    using P(1) Q(2) pos p by (intro mult_mono) simp_all
  then have low: "2 powi (a - 1) / 2 powi b \<le> \<bar>x\<bar>"
    unfolding x using pos by (simp add: field_simps)
  have "(of_int p :: rat) * 2 powi (b - 1) < 2 powi a * of_int q"
    using P(2) Q(1) pos p by (intro mult_less_le_imp_less) simp_all
  then have high: "\<bar>x\<bar> < 2 powi a / 2 powi (b - 1)"
    unfolding x using pos by (simp add: field_simps)
  have l: "2 powi (a - b - 1) \<le> \<bar>x\<bar>" using low by (simp add: power_int_diff [symmetric] algebra_simps)
  have h: "\<bar>x\<bar> < 2 powi (a - b + 1)" using high by (simp add: power_int_diff [symmetric] algebra_simps)
  have e: "binary_exponent x = (if 2 powi (a - b) \<le> \<bar>x\<bar> then a - b else a - b - 1)"
    by (simp add: binary_exponent_def pq a_def b_def Let_def)
  show "2 powi (binary_exponent x) \<le> \<bar>x\<bar>" using l by (simp add: e)
  show "\<bar>x\<bar> < 2 powi (binary_exponent x + 1)" using h by (simp add: e not_le)
qed

text \<open>Rounding moves a number by at most one part in \<open>2 ^ 53\<close>.\<close>

theorem float64_error: "\<bar>float64 x - x\<bar> \<le> \<bar>x\<bar> / 2 ^ 53"
proof (cases "x = 0")
  case False
  define u :: rat where "u = 2 powi (binary_exponent x - 52)"
  have u: "0 < u" by (simp add: u_def)
  have "float64 x - x = (of_int (py_round (x / u)) - x / u) * u"
    using False u by (simp add: float64_def Let_def u_def left_diff_distrib)
  then have "\<bar>float64 x - x\<bar> = \<bar>of_int (py_round (x / u)) - x / u\<bar> * u" using u by (simp add: abs_mult)
  also have "\<dots> \<le> 1 / 2 * u" using py_round_close [of "x / u"] u by (intro mult_right_mono) simp_all
  also have "u = 2 powi (binary_exponent x) / 2 ^ 52"
    by (simp add: u_def power_int_diff)
  also have "1 / 2 * (2 powi (binary_exponent x) / 2 ^ 52) \<le> \<bar>x\<bar> / 2 ^ 53"
    using binary_exponent(1) [OF False] by simp
  finally show ?thesis .
qed (simp add: float64_def)

lemma float64_between:
  assumes "0 \<le> x"
  shows "x * (1 - 1 / 2 ^ 53) \<le> float64 x \<and> float64 x \<le> x * (1 + 1 / 2 ^ 53)"
proof -
  have "\<bar>float64 x - x\<bar> \<le> x / 2 ^ 53" using float64_error [of x] assms by simp
  then have "float64 x - x \<le> x / 2 ^ 53" "x - float64 x \<le> x / 2 ^ 53" by linarith+
  then show ?thesis by (simp add: algebra_simps)
qed

text \<open>The rounding shows: 29 percent of 100, in floats, is less than 29.\<close>

lemma percent_product_rounds_down: "\<lfloor>float_mul (float_of_int 100) (float64 (29 / 100))\<rfloor> = 28"
  by code_simp

lemma seven_tenths_rounds_up: "float_mul (float_of_int 10) (float64 (7 / 10)) = 7"
  by code_simp

end
