(* ===== verification/GenScenJm.thy ===== *)
theory GenScenJm
  imports Floats EngineBase
begin

text \<open>
  The JoinMarket scenario generator, \<open>manager/commands/genscen_joinmarket.py\<close>: the command's handler
  and the \<open>JoinMarketConfigGenerator\<close> class. Random choices come from \<open>Draws\<close>; numpy's \<open>randint\<close>
  and the current date are parameters. Printed statistics and the argument parser are left out.
\<close>

section \<open>numpy and system exits\<close>

type_synonym np_randint = "int \<Rightarrow> int \<Rightarrow> int \<Rightarrow> (gen_world, int list) io"

text \<open>
  \<open>numpy.random.randint(low, high, size)\<close> gives \<open>size\<close> integers of \<open>[low, high)\<close>; it raises for a
  negative size. It does not touch the files.
\<close>

definition numpy_ok :: "np_randint \<Rightarrow> bool" where
  "numpy_ok np \<longleftrightarrow>
     (\<forall>a b n w xs w'. np a b n w = (Inr xs, w') \<longrightarrow>
        0 \<le> n \<and> length xs = nat n \<and> (\<forall>x\<in>set xs. a \<le> x \<and> x < b))
     \<and> (\<forall>a b n. keeps (=) (np a b n))"

definition exit_one :: "(gen_world, 'a) io" where
  "exit_one = io_raise (Exn (KSystemExit 1) '''')"

section \<open>Lists and quantiles\<close>

fun differences :: "int list \<Rightarrow> int list" where
  "differences (a # b # cs) = (b - a) # differences (b # cs)"
| "differences _ = []"

definition random_partition :: "np_randint \<Rightarrow> int \<Rightarrow> int \<Rightarrow> (gen_world, int list) io" where
  "random_partition np sats n =
     (if n = 1 then io_ret [sats]
      else io_bind (np 1 sats (n - 1)) (\<lambda>unsorted.
        case sort unsorted of
          [] \<Rightarrow> io_raise (Exn KIndexError ''list index out of range'')
        | c # cs \<Rightarrow> io_ret (c # differences (c # cs) @ [sats - last (c # cs)])))"

text \<open>\<open>int(x)\<close> of a string, and \<open>float(x)\<close>.\<close>

definition int_str :: "string \<Rightarrow> exn + int" where
  "int_str s = (case parse_int s of None \<Rightarrow> Inl (Exn KValueError s) | Some n \<Rightarrow> Inr n)"

definition float_str :: "string \<Rightarrow> exn + rat" where
  "float_str s = (case parse_decimal s of None \<Rightarrow> Inl (Exn KValueError s) | Some x \<Rightarrow> Inr x)"

text \<open>\<open>xs[:count]\<close>, where a negative count drops from the end.\<close>

definition slice_to :: "int \<Rightarrow> 'a list \<Rightarrow> 'a list" where
  "slice_to n xs = (if 0 \<le> n then take (nat n) xs else take (length xs - nat (- n)) xs)"

text \<open>A missing option is the empty string, which the code treats alike.\<close>

definition parse_delays :: "string \<Rightarrow> int \<Rightarrow> exn + int list" where
  "parse_delays delays_str n =
     (if delays_str = [] then Inr (replicate (nat n) 0)
      else ebind (traverse int_str (split_on (CHR '','') delays_str)) (\<lambda>delays.
        Inr (slice_to n (delays @ replicate (nat (n - int (length delays))) 0))))"

definition parse_list_int :: "string \<Rightarrow> exn + int list" where
  "parse_list_int s = traverse int_str (filter (\<lambda>x. x \<noteq> []) (split_on (CHR '','') s))"

definition parse_list_float :: "string \<Rightarrow> exn + rat list" where
  "parse_list_float s = traverse float_str (filter (\<lambda>x. x \<noteq> []) (split_on (CHR '','') s))"

definition quantile_value :: "rat list \<Rightarrow> rat \<Rightarrow> rat" where
  "quantile_value q p =
     (if p \<le> 2 / 10 then q ! 0 + p / (2 / 10) * (q ! 1 - q ! 0)
      else if p \<le> 4 / 10 then q ! 1 + (p - 2 / 10) / (2 / 10) * (q ! 2 - q ! 1)
      else if p \<le> 6 / 10 then q ! 2 + (p - 4 / 10) / (2 / 10) * (q ! 3 - q ! 2)
      else if p \<le> 8 / 10 then q ! 3 + (p - 6 / 10) / (2 / 10) * (q ! 4 - q ! 3)
      else q ! 4 + (p - 8 / 10) / (2 / 10) * (q ! 5 - q ! 4))"

text \<open>\<open>all(quantiles[i] <= quantiles[i+1] for i in range(len(quantiles)-1))\<close>\<close>

fun ascending :: "rat list \<Rightarrow> bool" where
  "ascending (a # b # cs) = (a \<le> b \<and> ascending (b # cs))"
| "ascending _ = True"

definition sample_from_quantiles :: "rat list \<Rightarrow> nat \<Rightarrow> (gen_world, rat list) io" where
  "sample_from_quantiles q n =
     (if length q \<noteq> 6 then io_raise (Exn KValueError ''Quantiles must have exactly 6 values'')
      else if \<not> ascending q then io_raise (Exn KValueError ''Quantiles must be in ascending order'')
      else io_traverse (\<lambda>_. io_bind unit_random (\<lambda>p. io_ret (quantile_value q p))) [0..<n])"

definition sample_from_int_quantiles :: "int list \<Rightarrow> nat \<Rightarrow> (gen_world, int list) io" where
  "sample_from_int_quantiles q n =
     io_bind (sample_from_quantiles (map of_int q) n) (\<lambda>samples. io_ret (map py_round samples))"

section \<open>Arguments\<close>

record tumbler_args =
  ta_addrcount :: int
  ta_minmakercount :: int
  ta_makercountrange :: string
  ta_mixdepthcount :: int
  ta_mintxcount :: int
  ta_txcountparams :: string
  ta_timelambda :: int
  ta_stage1_increase :: int
  ta_liquiditywait :: int
  ta_waittime :: int
  ta_mixdepthsrc :: int
  ta_restart :: bool
  ta_schedulefile :: string
  ta_mincjamount :: int
  ta_amtmixdepths :: int
  ta_rounding_chance :: rat
  ta_rounding_weights :: string

record jm_gen_args =
  ga_name :: string
  ga_maker_count :: int
  ga_relative_makers :: int
  ga_taker_count :: int
  ga_tumbler_count :: int
  ga_round_count :: int
  ga_block_count :: int
  ga_taker_delays :: string
  ga_tumbler_delays :: string
  ga_max_coinjoins :: int
  ga_force :: bool
  ga_out_dir :: string
  ga_absolute_fee :: "int \<times> int"
  ga_relative_fee :: "rat \<times> rat"
  ga_min_utxos :: int
  ga_max_utxos :: int
  ga_min_btc :: rat
  ga_max_btc :: rat
  ga_min_utxo_size :: int
  ga_tumbler :: tumbler_args
  ga_bonds :: bool
  ga_bond_share :: rat
  ga_bond_amount :: "int \<times> int"
  ga_bond_months :: "int \<times> int"
  ga_extra_utxos :: bool
  ga_utxo_multiplier :: rat
  ga_use_quantiles :: bool
  ga_absolute_quantiles :: string
  ga_relative_quantiles :: string
  ga_btc_quantiles :: string
  ga_taker_quantiles :: string
  ga_bond_quantiles :: string

record gen_quantiles =
  gq_absolute :: "int list"
  gq_relative :: "rat list"
  gq_btc :: "rat list"
  gq_bond :: "int list"
  gq_taker_btc :: "rat list"

definition quantiles_valid :: "rat list \<Rightarrow> bool" where
  "quantiles_valid q = (length q = 6 \<and> ascending q)"

definition read_quantiles :: "jm_gen_args \<Rightarrow> (gen_world, gen_quantiles option) io" where
  "read_quantiles a =
     (if \<not> ga_use_quantiles a then io_ret None
      else io_bind (io_lift (parse_list_int (ga_absolute_quantiles a))) (\<lambda>absolute.
           io_bind (io_lift (parse_list_float (ga_relative_quantiles a))) (\<lambda>relative.
           io_bind (io_lift (parse_list_float (ga_btc_quantiles a))) (\<lambda>btc.
           io_bind (io_lift (parse_list_int (ga_bond_quantiles a))) (\<lambda>bond.
           io_bind (if ga_taker_quantiles a \<noteq> [] then io_lift (parse_list_float (ga_taker_quantiles a))
                    else io_ret (map (\<lambda>q. q / 3) btc)) (\<lambda>taker.
             if list_all quantiles_valid ([map of_int absolute, relative, btc, map of_int bond]
                  @ (if ga_taker_quantiles a \<noteq> [] then [taker] else []))
             then io_ret (Some \<lparr>gq_absolute = absolute, gq_relative = relative, gq_btc = btc,
                                gq_bond = bond, gq_taker_btc = taker\<rparr>)
             else exit_one))))))"

definition check_population :: "jm_gen_args \<Rightarrow> (gen_world, unit) io" where
  "check_population a =
     io_bind (io_lift (parse_list_int (ta_makercountrange (ga_tumbler a)))) (\<lambda>range.
       case range of
         [] \<Rightarrow> io_ret ()
       | r # _ \<Rightarrow> if ga_maker_count a < r * ga_tumbler_count a then exit_one else io_ret ())"

section \<open>Fidelity bonds\<close>

text \<open>\<open>while future_month > 12: future_month -= 12; future_year += 1\<close>\<close>

function roll_months :: "int \<Rightarrow> int \<Rightarrow> int \<times> int" where
  "roll_months year month = (if 12 < month then roll_months (year + 1) (month - 12) else (year, month))"
  by pat_completeness auto
termination
  by (relation "measure (\<lambda>(year, month). nat month)") auto

declare roll_months.simps [simp del]

text \<open>\<open>{n:02d}\<close>\<close>

definition pad2 :: "int \<Rightarrow> string" where
  "pad2 n = (if 0 \<le> n \<and> n < 10 then CHR ''0'' # str_int n else str_int n)"

definition locktime_str :: "int \<times> int \<Rightarrow> int \<Rightarrow> string" where
  "locktime_str today months =
     (case roll_months (fst today) (snd today + months) of (y, m) \<Rightarrow> str_int y @ ''-'' @ pad2 m)"

definition bond_json :: "int \<Rightarrow> string \<Rightarrow> json" where
  "bond_json amount locktime =
     JDict [(''enabled'', JBool True), (''amount'', JInt amount), (''locktime'', JStr locktime)]"

text \<open>Today's year and month are a parameter.\<close>

definition generate_fidelity_bond_config ::
    "jm_gen_args \<Rightarrow> int \<times> int \<Rightarrow> (gen_world, json option) io" where
  "generate_fidelity_bond_config a today =
     (if \<not> ga_bonds a then io_ret None
      else io_bind (randint (fst (ga_bond_months a)) (snd (ga_bond_months a))) (\<lambda>months.
           io_bind (randint (fst (ga_bond_amount a)) (snd (ga_bond_amount a))) (\<lambda>amount.
           io_ret (Some (bond_json amount (locktime_str today months))))))"

definition generate_fidelity_bond_config_quantile ::
    "jm_gen_args \<Rightarrow> int list \<Rightarrow> int \<times> int \<Rightarrow> (gen_world, json option) io" where
  "generate_fidelity_bond_config_quantile a quantiles today =
     (if \<not> ga_bonds a then io_ret None
      else io_bind (randint (fst (ga_bond_months a)) (snd (ga_bond_months a))) (\<lambda>months.
           io_bind (sample_from_int_quantiles quantiles 1) (\<lambda>amounts.
           io_ret (Some (bond_json (hd amounts) (locktime_str today months))))))"

text \<open>Which makers get a bond, and the coins and liquidity of a bond maker.\<close>

record bond_plan =
  bp_indices :: "int list"
  bp_min_utxos :: int
  bp_multiplier :: rat

text \<open>
  \<open>int(total_makers * percentage)\<close> in floats, cut off towards zero; the options
  \<open>--bond-percentage-makers\<close> and \<open>--bond-maker-utxo-multiplier\<close> are the floats \<open>float\<close> makes of
  their text.
\<close>

definition bond_count :: "jm_gen_args \<Rightarrow> int" where
  "bond_count a = (if ga_bonds a then truncate_rat (float_mul (float_of_int (ga_maker_count a)) (ga_bond_share a)) else 0)"

definition plan_bonds :: "jm_gen_args \<Rightarrow> (gen_world, bond_plan) io" where
  "plan_bonds a =
     (let n = bond_count a;
          takers = ga_taker_count a + ga_tumbler_count a;
          average = float_div (float_of_int (ga_min_utxos a + ga_max_utxos a)) 2
      in io_bind (if 0 < n then sample [0..ga_maker_count a - 1] n else io_ret []) (\<lambda>indices.
         if ga_extra_utxos a \<and> 0 < n
         then let utxos = max (truncate_rat (float_mul (float_of_int takers) (3 / 2)))
                              (truncate_rat (float_div (float_mul (float_of_int takers) (ga_utxo_multiplier a)) (float_of_int n)))
              in if average = 0 then io_raise (Exn KZeroDivision ''division by zero'')
                 else io_ret \<lparr>bp_indices = indices, bp_min_utxos = utxos,
                              bp_multiplier = float_div (float_of_int utxos) average\<rparr>
         else io_ret \<lparr>bp_indices = indices, bp_min_utxos = ga_min_utxos a, bp_multiplier = 1\<rparr>))"

section \<open>Wallets\<close>

definition satoshi :: rat where
  "satoshi = 100000000"

definition ints_json :: "int list \<Rightarrow> json" where
  "ints_json xs = JList (map JInt xs)"

definition taker_min_utxos :: "jm_gen_args \<Rightarrow> int" where
  "taker_min_utxos a = max 1 (ga_min_utxos a div 3)"

definition taker_max_utxos :: "jm_gen_args \<Rightarrow> int" where
  "taker_max_utxos a = max (taker_min_utxos a + 1) (ga_max_utxos a div 3)"

text \<open>The funds of a taker: a third of the coins and of the amount of a maker.\<close>

definition taker_funds :: "jm_gen_args \<Rightarrow> np_randint \<Rightarrow> gen_quantiles option \<Rightarrow> (gen_world, int list) io" where
  "taker_funds a np q =
     io_bind (randint (taker_min_utxos a) (taker_max_utxos a)) (\<lambda>n_utxos.
     io_bind (case q of
                Some qs \<Rightarrow> io_bind (sample_from_quantiles (gq_taker_btc qs) 1) (\<lambda>xs. io_ret (hd xs))
              | None \<Rightarrow> uniform (ga_min_btc a / 3) (ga_max_btc a / 3)) (\<lambda>total_btc.
       random_partition np (truncate_rat (total_btc * satoshi)) n_utxos))"

definition with_delay :: "int \<Rightarrow> dict \<Rightarrow> dict" where
  "with_delay delay w = (if delay \<noteq> 0 then dset w ''delay_blocks'' (JInt delay) else w)"

definition taker_wallet :: "int list \<Rightarrow> int \<Rightarrow> int \<Rightarrow> json" where
  "taker_wallet funds delay max_coinjoins =
     (let jm = [(''role'', JStr ''taker''),
                (''offers'', JList [JDict [(''mixdepth'', JInt 0), (''amount_sats'', JInt 0),
                                           (''counterparties'', JInt 4)]])];
          jm = (if 0 < max_coinjoins then dset jm ''max_coinjoins'' (JInt max_coinjoins) else jm)
      in JDict (with_delay delay [(''funds'', ints_json funds), (''joinmarket'', JDict jm)]))"

definition gen_tumbler_options :: "tumbler_args \<Rightarrow> exn + json" where
  "gen_tumbler_options t =
     ebind (parse_list_int (ta_makercountrange t)) (\<lambda>makercountrange.
     ebind (parse_list_int (ta_txcountparams t)) (\<lambda>txcountparams.
     ebind (parse_list_int (ta_rounding_weights t)) (\<lambda>weights.
     Inr (JDict [(''addrcount'', JInt (ta_addrcount t)), (''minmakercount'', JInt (ta_minmakercount t)),
       (''makercountrange'', ints_json makercountrange), (''mixdepthcount'', JInt (ta_mixdepthcount t)),
       (''mintxcount'', JInt (ta_mintxcount t)), (''txcountparams'', ints_json txcountparams),
       (''timelambda'', JInt (ta_timelambda t)),
       (''stage1_timelambda_increase'', JInt (ta_stage1_increase t)),
       (''liquiditywait'', JInt (ta_liquiditywait t)), (''waittime'', JInt (ta_waittime t)),
       (''mixdepthsrc'', JInt (ta_mixdepthsrc t)), (''restart'', JBool (ta_restart t)),
       (''schedulefile'', JStr (ta_schedulefile t)), (''mincjamount'', JInt (ta_mincjamount t)),
       (''amtmixdepths'', JInt (ta_amtmixdepths t)), (''rounding_chance'', JFloat (ta_rounding_chance t)),
       (''rounding_sigfig_weights'', ints_json weights)]))))"

definition tumbler_wallet :: "int list \<Rightarrow> json \<Rightarrow> int \<Rightarrow> json" where
  "tumbler_wallet funds options delay =
     JDict (with_delay delay [(''funds'', ints_json funds),
       (''joinmarket'', JDict [(''role'', JStr ''taker''), (''tumbler_options'', options)])])"

definition delay_of :: "int list \<Rightarrow> nat \<Rightarrow> int" where
  "delay_of delays idx = (if idx < length delays then delays ! idx else 0)"

definition generate_takers ::
    "jm_gen_args \<Rightarrow> np_randint \<Rightarrow> gen_quantiles option \<Rightarrow> (gen_world, json list) io" where
  "generate_takers a np q =
     io_bind (io_lift (parse_delays (ga_taker_delays a) (ga_taker_count a))) (\<lambda>delays.
       io_traverse (\<lambda>idx. io_bind (taker_funds a np q) (\<lambda>funds.
           io_ret (taker_wallet funds (delay_of delays idx) (ga_max_coinjoins a))))
         [0..<nat (ga_taker_count a)])"

definition generate_tumblers ::
    "jm_gen_args \<Rightarrow> np_randint \<Rightarrow> gen_quantiles option \<Rightarrow> (gen_world, json list) io" where
  "generate_tumblers a np q =
     io_bind (io_lift (parse_delays (ga_tumbler_delays a) (ga_tumbler_count a))) (\<lambda>delays.
       io_traverse (\<lambda>idx. io_bind (taker_funds a np q) (\<lambda>funds.
           io_bind (io_lift (gen_tumbler_options (ga_tumbler a))) (\<lambda>options.
           io_ret (tumbler_wallet funds options (delay_of delays idx)))))
         [0..<nat (ga_tumbler_count a)])"

section \<open>Makers\<close>

datatype gen_offer_type = ABSOLUTE | RELATIVE

fun offer_value :: "gen_offer_type \<Rightarrow> string" where
  "offer_value ABSOLUTE = ''sw0absoffer''"
| "offer_value RELATIVE = ''sw0reloffer''"

definition draw_absolute_fee :: "jm_gen_args \<Rightarrow> gen_quantiles option \<Rightarrow> (gen_world, json) io" where
  "draw_absolute_fee a q =
     (case q of
        Some qs \<Rightarrow> io_bind (sample_from_int_quantiles (gq_absolute qs) 1) (\<lambda>xs. io_ret (JInt (hd xs)))
      | None \<Rightarrow> io_bind (randint (fst (ga_absolute_fee a)) (snd (ga_absolute_fee a))) (\<lambda>x. io_ret (JInt x)))"

definition draw_relative_fee :: "jm_gen_args \<Rightarrow> gen_quantiles option \<Rightarrow> (gen_world, json) io" where
  "draw_relative_fee a q =
     (case q of
        Some qs \<Rightarrow> io_bind (sample_from_quantiles (gq_relative qs) 1)
          (\<lambda>xs. io_ret (JFloat (round_places 6 (hd xs))))
      | None \<Rightarrow> io_bind (uniform (fst (ga_relative_fee a)) (snd (ga_relative_fee a)))
          (\<lambda>x. io_ret (JFloat (round_places 6 x))))"

definition fee_fields :: "gen_offer_type \<Rightarrow> json \<Rightarrow> dict" where
  "fee_fields t fee = (case t of
      ABSOLUTE \<Rightarrow> [(''cjfee_a'', fee), (''cjfee_r'', JInt 0)]
    | RELATIVE \<Rightarrow> [(''cjfee_a'', JInt 0), (''cjfee_r'', fee)])"

definition maker_wallet :: "jm_gen_args \<Rightarrow> gen_offer_type \<Rightarrow> int list \<Rightarrow> json \<Rightarrow> json option \<Rightarrow> json" where
  "maker_wallet a t funds fee bond =
     (let offer = [(''txfee'', JInt 0)] @ fee_fields t fee @
                  [(''ordertype'', JStr (offer_value t)), (''minsize'', JInt (ga_min_utxo_size a)),
                   (''maxsize'', JInt (truncate_rat (of_int (sum_list funds) * (9 / 10))))];
          jm = [(''role'', JStr ''maker''), (''offers'', JList [JDict offer])];
          jm = (case bond of None \<Rightarrow> jm | Some b \<Rightarrow> dset jm ''fidelity_bond'' b)
      in JDict [(''funds'', ints_json funds), (''joinmarket'', JDict jm)])"

definition generate_maker ::
    "jm_gen_args \<Rightarrow> np_randint \<Rightarrow> int \<times> int \<Rightarrow> gen_quantiles option \<Rightarrow> bond_plan \<Rightarrow> gen_offer_type
     \<Rightarrow> int \<Rightarrow> (gen_world, json) io" where
  "generate_maker a np today q plan t maker_idx =
     (let is_bond_maker = (maker_idx \<in> set (bp_indices plan));
          enlarged = (is_bond_maker \<and> ga_extra_utxos a)
      in io_bind (if enlarged then io_ret (bp_min_utxos plan) else randint (ga_min_utxos a) (ga_max_utxos a))
           (\<lambda>n_utxos.
         io_bind (case q of
                    Some qs \<Rightarrow> io_bind (sample_from_quantiles (gq_btc qs) 1) (\<lambda>xs. io_ret (hd xs))
                  | None \<Rightarrow> uniform (ga_min_btc a) (ga_max_btc a)) (\<lambda>total_btc.
         io_bind (case t of ABSOLUTE \<Rightarrow> draw_absolute_fee a q | RELATIVE \<Rightarrow> draw_relative_fee a q) (\<lambda>fee.
         let total_btc = (if enlarged then total_btc * bp_multiplier plan else total_btc)
         in io_bind (random_partition np (truncate_rat (total_btc * satoshi)) n_utxos) (\<lambda>funds.
            io_bind (if is_bond_maker
                     then (case q of
                             Some qs \<Rightarrow> generate_fidelity_bond_config_quantile a (gq_bond qs) today
                           | None \<Rightarrow> generate_fidelity_bond_config a today)
                     else io_ret None) (\<lambda>bond.
            io_ret (maker_wallet a t funds fee bond)))))))"

definition generate_makers ::
    "jm_gen_args \<Rightarrow> np_randint \<Rightarrow> int \<times> int \<Rightarrow> gen_quantiles option \<Rightarrow> (gen_world, json list) io" where
  "generate_makers a np today q =
     (let abs_makers = ga_maker_count a - ga_relative_makers a
      in io_bind (plan_bonds a) (\<lambda>plan.
         io_bind (io_traverse (\<lambda>idx. generate_maker a np today q plan ABSOLUTE (int idx)) [0..<nat abs_makers])
           (\<lambda>absolute.
         io_bind (io_traverse (\<lambda>idx. generate_maker a np today q plan RELATIVE (abs_makers + int idx))
                    [0..<nat (ga_relative_makers a)]) (\<lambda>relative.
         io_ret (absolute @ relative)))))"

section \<open>The command\<close>

definition gen_scenario_name :: "jm_gen_args \<Rightarrow> string" where
  "gen_scenario_name a =
     (if ga_name a \<noteq> [] then ga_name a
      else ''tumbler_'' @ str_int (ga_tumbler_count a) @ ''_maker_'' @ str_int (ga_maker_count a))"

definition generate_scenario ::
    "jm_gen_args \<Rightarrow> np_randint \<Rightarrow> int \<times> int \<Rightarrow> (gen_world, json) io" where
  "generate_scenario a np today =
     io_bind (read_quantiles a) (\<lambda>q.
     io_seq (check_population a)
       (io_bind (generate_takers a np q) (\<lambda>takers.
        io_bind (generate_tumblers a np q) (\<lambda>tumblers.
        io_bind (generate_makers a np today q) (\<lambda>makers.
        io_ret (JDict [(''name'', JStr (gen_scenario_name a)), (''default_version'', JStr ''joinmarket''),
          (''rounds'', JInt (ga_round_count a)), (''blocks'', JInt (ga_block_count a)),
          (''wallets'', JList (takers @ tumblers @ makers))]))))))"

definition ends_with :: "string \<Rightarrow> string \<Rightarrow> bool" where
  "ends_with s t = starts_with (rev t) (rev s)"

definition scenario_path :: "string \<Rightarrow> string \<Rightarrow> string" where
  "scenario_path out_dir name =
     (let p = path_join out_dir name in if ends_with p ''.json'' then p else p @ ''.json'')"

definition save_scenario :: "bool \<Rightarrow> string \<Rightarrow> json \<Rightarrow> (gen_world, unit) io" where
  "save_scenario force p scenario =
     io_bind (path_exists p) (\<lambda>there. if there \<and> \<not> force then exit_one else write_file p scenario)"

definition jm_gen_handler :: "jm_gen_args \<Rightarrow> np_randint \<Rightarrow> int \<times> int \<Rightarrow> (gen_world, unit) io" where
  "jm_gen_handler a np today =
     io_bind (generate_scenario a np today) (\<lambda>scenario.
       save_scenario (ga_force a) (scenario_path (ga_out_dir a) (gen_scenario_name a)) scenario)"

section \<open>Generated wallets in the scenario parser\<close>

lemma traverse_ints: "traverse parse_fund (map JInt fs) = Inr (map (\<lambda>n. FundPlain (JInt n)) fs)"
  by (induction fs) auto

definition plain_wallet :: "role \<Rightarrow> int list \<Rightarrow> json \<Rightarrow> wallet_config \<Rightarrow> bool" where
  "plain_wallet r fs t w \<longleftrightarrow>
     w_funds w = map (\<lambda>n. FundPlain (JInt n)) fs \<and> w_wasabi w = None \<and>
     (\<exists>jm. w_joinmarket w = Some jm \<and> jc_role jm = Some r \<and> jc_tumbler_options jm = t)"

lemmas parse_wallet_simps = parse_wallet_def parse_wallet_dict_def parse_wasabi_def parse_joinmarket_def
  parse_opt_spends_def parse_role_def iter_of_def has_key_of_def legacy_wasabi_fields_def
  legacy_joinmarket_fields_def raise_if_def dget_default_def py_or_def bad_value_def plain_wallet_def

lemma taker_wallet_parses:
  "\<exists>w. parse_wallet (taker_wallet fs delay m) = Inr w \<and> plain_wallet TAKER fs JNull w"
  by (simp add: taker_wallet_def with_delay_def ints_json_def dset_def Let_def parse_wallet_simps traverse_ints)

lemma tumbler_wallet_parses:
  "\<exists>w. parse_wallet (tumbler_wallet fs options delay) = Inr w \<and> plain_wallet TAKER fs options w"
  by (simp add: tumbler_wallet_def with_delay_def ints_json_def dset_def Let_def parse_wallet_simps traverse_ints)

lemma maker_wallet_parses:
  "\<exists>w. parse_wallet (maker_wallet a t fs fee bond) = Inr w \<and> plain_wallet MAKER fs JNull w"
  by (cases bond) (simp_all add: maker_wallet_def ints_json_def dset_def Let_def parse_wallet_simps traverse_ints)

lemma io_traverse_each:
  assumes "io_traverse f xs w = (Inr ys, w')"
  shows "length ys = length xs \<and> (\<forall>y\<in>set ys. \<exists>x\<in>set xs. \<exists>v v'. f x v = (Inr y, v'))"
  using io_traverse_Inr [OF assms] by (force simp: list_all2_conv_all_nth in_set_conv_nth)

lemma generate_takers_Inr:
  assumes "generate_takers a np q w = (Inr js, w')"
  shows "length js = nat (ga_taker_count a) \<and> (\<forall>j\<in>set js. \<exists>fs d m. j = taker_wallet fs d m)"
  using assms
  by (fastforce simp: generate_takers_def io_bind_Inr_iff io_ret_Inr_iff dest!: io_traverse_each)

lemma generate_tumblers_Inr:
  assumes "generate_tumblers a np q w = (Inr js, w')"
  shows "length js = nat (ga_tumbler_count a)
    \<and> (\<forall>j\<in>set js. \<exists>fs x d. j = tumbler_wallet fs x d \<and> gen_tumbler_options (ga_tumbler a) = Inr x)"
  using assms
  by (fastforce simp: generate_tumblers_def io_bind_Inr_iff io_ret_Inr_iff io_lift_def dest!: io_traverse_each)

lemma tumbler_options_truthy: "gen_tumbler_options t = Inr x \<Longrightarrow> truthy x"
  by (auto simp: gen_tumbler_options_def ebind_Inr_iff)

text \<open>The bond entry of a maker wallet, from its amount and lock time.\<close>

definition bond_entry :: "(int \<times> string) option \<Rightarrow> json option" where
  "bond_entry b = map_option (\<lambda>(n, l). bond_json n l) b"

lemma bond_entry_ex: "\<exists>x. Some (bond_json n l) = bond_entry x \<and> x \<noteq> None"
  by (rule exI [of _ "Some (n, l)"]) (simp add: bond_entry_def)

lemma bond_entry_None: "bond_entry None = None"
  by (simp add: bond_entry_def)

lemma bond_config_given:
  "generate_fidelity_bond_config a today w = (Inr b, w') \<Longrightarrow> \<exists>x. b = bond_entry x \<and> (x \<noteq> None) = ga_bonds a"
  "generate_fidelity_bond_config_quantile a qs today w = (Inr b, w') \<Longrightarrow>
     \<exists>x. b = bond_entry x \<and> (x \<noteq> None) = ga_bonds a"
  using bond_entry_ex bond_entry_None
  by (auto simp: generate_fidelity_bond_config_def generate_fidelity_bond_config_quantile_def
      io_bind_Inr_iff io_ret_Inr_iff simp del: not_None_eq split: if_splits)

lemma generate_maker_Inr:
  assumes "generate_maker a np today q plan t i w = (Inr j, w')"
  obtains fs fee x where "j = maker_wallet a t fs fee (bond_entry x)"
    "(x \<noteq> None) = (i \<in> set (bp_indices plan) \<and> ga_bonds a)"
proof -
  obtain fs fee bond v v' where j: "j = maker_wallet a t fs fee bond"
    and run: "(if i \<in> set (bp_indices plan)
               then (case q of Some qs \<Rightarrow> generate_fidelity_bond_config_quantile a (gq_bond qs) today
                       | None \<Rightarrow> generate_fidelity_bond_config a today)
               else io_ret None) v = (Inr bond, v')"
    using assms unfolding generate_maker_def Let_def
    by (auto simp only: io_bind_Inr_iff io_ret_Inr_iff)
  have "\<exists>x. bond = bond_entry x \<and> (x \<noteq> None) = (i \<in> set (bp_indices plan) \<and> ga_bonds a)"
  proof (cases "i \<in> set (bp_indices plan)")
    case True
    then show ?thesis using run bond_config_given by (cases q) auto
  next
    case False
    then show ?thesis using run by (auto simp: io_ret_Inr_iff bond_entry_def)
  qed
  then show thesis using j that by blast
qed

definition maker_at :: "jm_gen_args \<Rightarrow> bond_plan \<Rightarrow> gen_offer_type \<Rightarrow> int \<Rightarrow> json \<Rightarrow> bool" where
  "maker_at a plan t i j \<longleftrightarrow>
     (\<exists>fs fee x. j = maker_wallet a t fs fee (bond_entry x)
        \<and> (x \<noteq> None) = (i \<in> set (bp_indices plan) \<and> ga_bonds a))"

lemma generate_maker_at: "generate_maker a np today q plan t i w = (Inr j, w') \<Longrightarrow> maker_at a plan t i j"
  unfolding maker_at_def by (erule generate_maker_Inr) blast

lemma plan_bonds_Inr:
  assumes "plan_bonds a w = (Inr plan, w')"
  shows "distinct (bp_indices plan) \<and> set (bp_indices plan) \<subseteq> {0..<ga_maker_count a}
    \<and> length (bp_indices plan) = nat (bond_count a)"
proof -
  obtain v where "(if 0 < bond_count a then sample [0..ga_maker_count a - 1] (bond_count a) else io_ret []) w
      = (Inr (bp_indices plan), v)"
    using assms by (auto simp: plan_bonds_def Let_def io_bind_Inr_iff io_ret_Inr_iff io_raise_def split: if_splits)
  then show ?thesis
    by (auto simp: io_ret_Inr_iff split: if_splits dest!: sample_subset)
qed

lemma generate_makers_Inr:
  assumes "generate_makers a np today q w = (Inr js, w')"
  obtains plan v v' where "plan_bonds a v = (Inr plan, v')"
    "length js = nat (ga_maker_count a - ga_relative_makers a) + nat (ga_relative_makers a)"
    "0 \<le> ga_maker_count a - ga_relative_makers a \<longrightarrow> (\<forall>i<length js.
       maker_at a plan (if int i < ga_maker_count a - ga_relative_makers a then ABSOLUTE else RELATIVE) (int i) (js ! i))"
proof -
  let ?abs = "ga_maker_count a - ga_relative_makers a"
  obtain plan v xs v1 v2 ys v3 where plan: "plan_bonds a w = (Inr plan, v)" and js: "js = xs @ ys"
    and xs: "io_traverse (\<lambda>idx. generate_maker a np today q plan ABSOLUTE (int idx)) [0..<nat ?abs] v1 = (Inr xs, v2)"
    and ys: "io_traverse (\<lambda>idx. generate_maker a np today q plan RELATIVE (?abs + int idx))
               [0..<nat (ga_relative_makers a)] v2 = (Inr ys, v3)"
    using assms by (auto simp: generate_makers_def Let_def io_bind_Inr_iff io_ret_Inr_iff)
  have x: "length xs = nat ?abs" "\<And>i. i < nat ?abs \<Longrightarrow> maker_at a plan ABSOLUTE (int i) (xs ! i)"
    using io_traverse_Inr [OF xs] by (auto simp: list_all2_conv_all_nth dest!: generate_maker_at)
  have y: "length ys = nat (ga_relative_makers a)"
    "\<And>i. i < nat (ga_relative_makers a) \<Longrightarrow> maker_at a plan RELATIVE (?abs + int i) (ys ! i)"
    using io_traverse_Inr [OF ys] by (auto simp: list_all2_conv_all_nth dest!: generate_maker_at)
  show thesis
  proof (rule that [OF plan])
    show "length js = nat ?abs + nat (ga_relative_makers a)" using js x(1) y(1) by simp
    show "0 \<le> ?abs \<longrightarrow>
        (\<forall>i<length js. maker_at a plan (if int i < ?abs then ABSOLUTE else RELATIVE) (int i) (js ! i))"
    proof (intro impI allI)
      fix i assume i: "0 \<le> ?abs" "i < length js"
      show "maker_at a plan (if int i < ?abs then ABSOLUTE else RELATIVE) (int i) (js ! i)"
    proof (cases "int i < ?abs")
      case True
      then show ?thesis using x(1) x(2) [of i] js by (auto simp: nth_append)
    next
      case False
      then have "?abs + int (i - length xs) = int i" using x(1) i(1) by auto
      then show ?thesis using False y(2) [of "i - length xs"] i js x(1) y(1) by (auto simp: nth_append)
    qed
    qed
  qed
qed

lemma makers_are_makers:
  assumes "generate_makers a np today q w = (Inr js, w')"
  shows "\<forall>j\<in>set js. \<exists>t fs fee bond. j = maker_wallet a t fs fee bond"
  using assms
  by (fastforce simp: generate_makers_def Let_def io_bind_Inr_iff io_ret_Inr_iff elim!: generate_maker_Inr
      dest!: io_traverse_each)

lemma makers_length:
  assumes "generate_makers a np today q w = (Inr js, w')"
  shows "length js = nat (ga_maker_count a - ga_relative_makers a) + nat (ga_relative_makers a)"
  using assms by (rule generate_makers_Inr)

lemma traverse_total:
  "(\<And>j. j \<in> set js \<Longrightarrow> \<exists>x. f j = Inr x \<and> P x) \<Longrightarrow> \<exists>xs. traverse f js = Inr xs \<and> length xs = length js \<and> list_all P xs"
proof (induction js)
  case (Cons j js)
  obtain x where x: "f j = Inr x" "P x" using Cons.prems [of j] by auto
  obtain xs where xs: "traverse f js = Inr xs" "length xs = length js" "list_all P xs" 
    using Cons by (metis list.set_intros(2))
  show ?case using x xs by simp
qed simp

lemma traverse_nth: "traverse f xs = Inr ys \<Longrightarrow> length ys = length xs \<and> (\<forall>i<length xs. f (xs ! i) = Inr (ys ! i))"
  by (auto simp: traverse_Inr_iff list_all2_conv_all_nth)

lemma traverse_mem: "traverse f xs = Inr ys \<Longrightarrow> y \<in> set ys \<Longrightarrow> \<exists>x\<in>set xs. f x = Inr y"
  by (metis in_set_conv_nth traverse_nth)

lemma traverse_append: "traverse f (xs @ ys) = ebind (traverse f xs) (\<lambda>a. ebind (traverse f ys) (\<lambda>b. Inr (a @ b)))"
proof (induction xs)
  case (Cons x xs)
  then show ?case by (cases "f x"; cases "traverse f xs"; cases "traverse f ys") auto
next
  case Nil
  show ?case by (cases "traverse f ys") auto
qed

text \<open>The role a wallet is given, and what the generated wallets are parsed to.\<close>

definition wallet_role :: "wallet_config \<Rightarrow> role option" where
  "wallet_role w = (case w_joinmarket w of None \<Rightarrow> None | Some jm \<Rightarrow> jc_role jm)"

definition generated_as :: "role \<Rightarrow> bool \<Rightarrow> wallet_config \<Rightarrow> bool" where
  "generated_as r tumbler w \<longleftrightarrow> w_wasabi w = None \<and> wallet_role w = Some r \<and> is_tumbler w = tumbler"

lemma generated_roles: "list_all (generated_as r t) ws \<Longrightarrow> map wallet_role ws = replicate (length ws) (Some r)"
  by (induction ws) (auto simp: generated_as_def)

lemma generated_tumblers: "list_all (generated_as r t) ws \<Longrightarrow> list_ex is_tumbler ws \<longleftrightarrow> t \<and> ws \<noteq> []"
  by (induction ws) (auto simp: generated_as_def)

lemma plain_wallet_generated:
  "plain_wallet r fs x w \<Longrightarrow> generated_as r (r = TAKER \<and> truthy x) w"
  by (auto simp: plain_wallet_def generated_as_def wallet_role_def is_tumbler_def)

lemma generated_wallets_parse:
  assumes "generate_takers a np q w0 = (Inr takers, w1)" "generate_tumblers a np q w1 = (Inr tumblers, w2)"
    "generate_makers a np today q w2 = (Inr makers, w3)"
  obtains ts us ms where "traverse parse_wallet takers = Inr ts" "traverse parse_wallet tumblers = Inr us"
    "traverse parse_wallet makers = Inr ms"
    "length ts = nat (ga_taker_count a)" "length us = nat (ga_tumbler_count a)"
    "length ms = nat (ga_maker_count a - ga_relative_makers a) + nat (ga_relative_makers a)"
    "list_all (generated_as TAKER False) ts" "list_all (generated_as TAKER True) us"
    "list_all (generated_as MAKER False) ms"
proof -
  have "\<And>j. j \<in> set takers \<Longrightarrow> \<exists>x. parse_wallet j = Inr x \<and> generated_as TAKER False x"
    using generate_takers_Inr [OF assms(1)] taker_wallet_parses plain_wallet_generated [of TAKER _ JNull]
    by fastforce
  then obtain ts where ts: "traverse parse_wallet takers = Inr ts" "length ts = length takers"
      "list_all (generated_as TAKER False) ts"
    using traverse_total by metis
  have "\<And>j. j \<in> set tumblers \<Longrightarrow> \<exists>x. parse_wallet j = Inr x \<and> generated_as TAKER True x"
    using generate_tumblers_Inr [OF assms(2)] tumbler_wallet_parses plain_wallet_generated [of TAKER]
      tumbler_options_truthy by fastforce
  then obtain us where us: "traverse parse_wallet tumblers = Inr us" "length us = length tumblers"
      "list_all (generated_as TAKER True) us"
    using traverse_total by metis
  have "\<And>j. j \<in> set makers \<Longrightarrow> \<exists>x. parse_wallet j = Inr x \<and> generated_as MAKER False x"
    using makers_are_makers [OF assms(3)] maker_wallet_parses plain_wallet_generated [of MAKER _ JNull]
    by fastforce
  then obtain ms where ms: "traverse parse_wallet makers = Inr ms" "length ms = length makers"
      "list_all (generated_as MAKER False) ms"
    using traverse_total by metis
  show thesis
    using ts us ms generate_takers_Inr [OF assms(1)] generate_tumblers_Inr [OF assms(2)] makers_length [OF assms(3)]
    by (intro that) simp_all
qed

lemma indexes_none: "list_all (\<lambda>x. \<not> p x) xs \<Longrightarrow> indexes_where p xs = []"
  by (simp add: indexes_where_Nil list_all_iff)

text \<open>
  Claim C29. Whatever the random choices, a scenario the command generates is accepted by the
  scenario parser: it holds the requested takers and tumblers first and then the makers, and it passes
  the JoinMarket engine's validation unless a round limit was asked for without a block limit while
  there are tumblers.
\<close>

theorem generated_scenario_is_accepted:
  assumes "generate_scenario a np today w = (Inr j, w')"
  shows "\<exists>s. from_json_config j = Inr s
    \<and> map wallet_role (sc_wallets s) =
        replicate (nat (ga_taker_count a) + nat (ga_tumbler_count a)) (Some TAKER)
        @ replicate (nat (ga_maker_count a - ga_relative_makers a) + nat (ga_relative_makers a)) (Some MAKER)
    \<and> validate_for_engine s ''joinmarket'' =
        (if 0 < ga_round_count a \<and> ga_block_count a = 0 \<and> 0 < ga_tumbler_count a
         then Inl TumblerNeedsBlocks else Inr ())"
proof -
  obtain q takers tumblers makers w0 w1 w2 w3
    where g: "generate_takers a np q w0 = (Inr takers, w1)" "generate_tumblers a np q w1 = (Inr tumblers, w2)"
      "generate_makers a np today q w2 = (Inr makers, w3)"
    and j: "j = JDict [(''name'', JStr (gen_scenario_name a)), (''default_version'', JStr ''joinmarket''),
          (''rounds'', JInt (ga_round_count a)), (''blocks'', JInt (ga_block_count a)),
          (''wallets'', JList (takers @ tumblers @ makers))]"
    using assms unfolding generate_scenario_def io_seq_def
    by (auto simp only: io_bind_Inr_iff io_ret_Inr_iff)
  obtain ts us ms where parsed: "traverse parse_wallet takers = Inr ts" "traverse parse_wallet tumblers = Inr us"
    "traverse parse_wallet makers = Inr ms"
    and ws: "length ts = nat (ga_taker_count a)" "length us = nat (ga_tumbler_count a)"
    "length ms = nat (ga_maker_count a - ga_relative_makers a) + nat (ga_relative_makers a)"
    and as: "list_all (generated_as TAKER False) ts" "list_all (generated_as TAKER True) us"
    "list_all (generated_as MAKER False) ms"
    using g by (rule generated_wallets_parse)
  let ?s = "\<lparr>sc_name = JStr (gen_scenario_name a), sc_rounds = JInt (ga_round_count a),
    sc_blocks = JInt (ga_block_count a), sc_default_version = JStr ''joinmarket'', sc_wallets = ts @ us @ ms,
    sc_description = JNull, sc_category = JNull, sc_distributor_version = JNull, sc_default_anon = JNull,
    sc_default_redcoin = JNull, sc_backend = JNull\<rparr>"
  have accepted: "from_json_config j = Inr ?s"
    using parsed by (simp add: j from_json_config_def parse_scenario_dict_def raise_if_def dget_default_def
        iter_of_def key_of_def traverse_append)
  have "list_all (\<lambda>x. \<not> w_wasabi x \<noteq> None) (ts @ us @ ms)" "list_all (\<lambda>x. \<not> role_missing x) (ts @ us @ ms)"
    using as by (auto simp: list_all_iff generated_as_def wallet_role_def role_missing_def split: option.splits)
  then have none: "indexes_where (\<lambda>x. w_wasabi x \<noteq> None) (ts @ us @ ms) = []"
    "indexes_where role_missing (ts @ us @ ms) = []"
    by (simp_all only: indexes_none)
  have "list_ex is_tumbler (ts @ us @ ms) \<longleftrightarrow> us \<noteq> []"
    using as by (simp add: generated_tumblers)
  moreover have "us \<noteq> [] \<longleftrightarrow> 0 < ga_tumbler_count a" using ws(2) by (cases us) auto
  moreover have "validate_for_engine ?s ''joinmarket'' =
      (if 0 < ga_round_count a \<and> ga_block_count a = 0 \<and> list_ex is_tumbler (ts @ us @ ms)
       then Inl TumblerNeedsBlocks else Inr ())"
    using none by (simp add: validate_for_engine_def Let_def raise_if_def gt_zero_def eq_zero_def del: list_ex_append)
  ultimately have "validate_for_engine ?s ''joinmarket'' =
      (if 0 < ga_round_count a \<and> ga_block_count a = 0 \<and> 0 < ga_tumbler_count a
       then Inl TumblerNeedsBlocks else Inr ())"
    by simp
  then show ?thesis
    using accepted as ws by (intro exI [of _ ?s]) (simp add: generated_roles replicate_add)
qed

lemma maker_wallet_bond:
  "parse_wallet (maker_wallet a t fs fee (bond_entry x)) = Inr w \<Longrightarrow> wallet_has_bond w = Inr (x \<noteq> None)"
  by (cases x) (auto simp: maker_wallet_def bond_entry_def bond_json_def ints_json_def dset_def Let_def
      parse_wallet_simps traverse_ints wallet_has_bond_def)

lemma taker_wallet_bond:
  "parse_wallet (taker_wallet fs delay m) = Inr w \<Longrightarrow> wallet_has_bond w = Inr False"
  by (auto simp: taker_wallet_def with_delay_def ints_json_def dset_def Let_def parse_wallet_simps traverse_ints
      wallet_has_bond_def split: if_splits)

lemma tumbler_wallet_bond:
  "parse_wallet (tumbler_wallet fs x delay) = Inr w \<Longrightarrow> wallet_has_bond w = Inr False"
  by (auto simp: tumbler_wallet_def with_delay_def ints_json_def dset_def Let_def parse_wallet_simps traverse_ints
      wallet_has_bond_def split: if_splits)

lemma bonded_makers:
  assumes gen: "generate_makers a np today q w = (Inr js, w')" and parsed: "traverse parse_wallet js = Inr ms"
    and range: "0 \<le> ga_relative_makers a" "ga_relative_makers a \<le> ga_maker_count a"
  shows "length (filter (\<lambda>w. wallet_has_bond w = Inr True) ms) = nat (bond_count a)"
proof -
  obtain plan v v' where plan: "plan_bonds a v = (Inr plan, v')"
    and len: "length js = nat (ga_maker_count a - ga_relative_makers a) + nat (ga_relative_makers a)"
    and at: "0 \<le> ga_maker_count a - ga_relative_makers a \<longrightarrow> (\<forall>i<length js.
       maker_at a plan (if int i < ga_maker_count a - ga_relative_makers a then ABSOLUTE else RELATIVE) (int i) (js ! i))"
    using gen by (rule generate_makers_Inr)
  have ms: "length ms = length js" "\<And>i. i < length js \<Longrightarrow> parse_wallet (js ! i) = Inr (ms ! i)"
    using traverse_nth [OF parsed] by auto
  let ?I = "set (bp_indices plan)"
  have idx: "distinct (bp_indices plan)" "?I \<subseteq> {0..<ga_maker_count a}" "length (bp_indices plan) = nat (bond_count a)"
    using plan_bonds_Inr [OF plan] by auto
  have bonds: "ga_bonds a" if "i \<in> ?I" for i
    using that idx(3) by (cases "ga_bonds a") (auto simp: bond_count_def)
  have has: "wallet_has_bond (ms ! i) = Inr True \<longleftrightarrow> int i \<in> ?I" if "i < length ms" for i
  proof -
    have "maker_at a plan (if int i < ga_maker_count a - ga_relative_makers a then ABSOLUTE else RELATIVE)
        (int i) (js ! i)"
      using at that ms(1) range by simp
    then obtain t fs fee x where "js ! i = maker_wallet a t fs fee (bond_entry x)"
      "(x \<noteq> None) = (int i \<in> ?I \<and> ga_bonds a)"
      unfolding maker_at_def by blast
    moreover have "parse_wallet (js ! i) = Inr (ms ! i)" using ms that by simp
    ultimately have "parse_wallet (maker_wallet a t fs fee (bond_entry x)) = Inr (ms ! i)"
      "(x \<noteq> None) = (int i \<in> ?I \<and> ga_bonds a)" by simp_all
    then have "wallet_has_bond (ms ! i) = Inr (int i \<in> ?I \<and> ga_bonds a)"
      using maker_wallet_bond by force
    then show ?thesis using bonds [of "int i"] by auto
  qed
  have "length ms = nat (ga_maker_count a)" using ms(1) len range by simp
  then have "{i. i < length ms \<and> wallet_has_bond (ms ! i) = Inr True} = nat ` ?I"
    using has idx(2) by (force simp: image_iff)
  moreover have "card (nat ` ?I) = card ?I"
    using idx(2) by (intro card_image) (force intro!: inj_onI dest: eq_nat_nat_iff [THEN iffD1, rotated 2])
  ultimately show ?thesis
    using idx(1,3) by (simp add: length_filter_conv_card distinct_card)
qed

lemma bond_count_bounds:
  assumes "ga_bonds a" "0 \<le> ga_maker_count a" "0 \<le> ga_bond_share a"
  shows "of_int (bond_count a) \<le> of_int (ga_maker_count a) * ga_bond_share a * (1 + 1 / 2 ^ 53) ^ 2"
    and "of_int (ga_maker_count a) * ga_bond_share a * (1 - 1 / 2 ^ 53) ^ 2 < of_int (bond_count a) + 1"
    and "0 \<le> bond_count a"
proof -
  let ?n = "of_int (ga_maker_count a) :: rat" and ?f = "float_of_int (ga_maker_count a)"
  let ?p = "float_mul ?f (ga_bond_share a)" and ?lo = "1 - 1 / 2 ^ 53 :: rat" and ?hi = "1 + 1 / 2 ^ 53 :: rat"
  have n: "?n * ?lo \<le> ?f" "?f \<le> ?n * ?hi"
    using float64_between [of ?n] assms(2) by (simp_all add: float_of_int_def)
  have "0 \<le> ?n * ?lo" using assms(2) by (intro mult_nonneg_nonneg) simp_all
  then have f: "0 \<le> ?f" using n(1) by linarith
  have p: "?f * ga_bond_share a * ?lo \<le> ?p" "?p \<le> ?f * ga_bond_share a * ?hi"
    using float64_between [of "?f * ga_bond_share a"] f assms(3) by (simp_all add: float_mul_def)
  have "?f * ga_bond_share a * ?hi \<le> ?n * ?hi * ga_bond_share a * ?hi"
    using n(2) assms(3) by (intro mult_right_mono) simp_all
  then have hi: "?p \<le> ?n * ga_bond_share a * ?hi ^ 2" using p(2) by (simp add: power2_eq_square algebra_simps)
  have "?n * ?lo * ga_bond_share a * ?lo \<le> ?f * ga_bond_share a * ?lo"
    using n(1) assms(3) by (intro mult_right_mono) simp_all
  then have lo: "?n * ga_bond_share a * ?lo ^ 2 \<le> ?p" using p(1) by (simp add: power2_eq_square algebra_simps)
  have "0 \<le> ?f * ga_bond_share a * ?lo" using f assms(3) by (intro mult_nonneg_nonneg) simp_all
  then have "0 \<le> ?p" using p(1) by linarith
  then have "bond_count a = \<lfloor>?p\<rfloor>" using assms(1) by (simp add: bond_count_def truncate_rat_def)
  moreover have "of_int \<lfloor>?p\<rfloor> \<le> ?p" "?p < of_int \<lfloor>?p\<rfloor> + 1" by linarith+
  ultimately show "of_int (bond_count a) \<le> ?n * ga_bond_share a * ?hi ^ 2"
    "?n * ga_bond_share a * ?lo ^ 2 < of_int (bond_count a) + 1" "0 \<le> bond_count a"
    using hi lo \<open>0 \<le> ?p\<close> by (simp_all only: zero_le_floor)
qed

lemma bonded_wallets:
  assumes gen: "generate_scenario a np today w = (Inr j, w')"
    and range: "0 \<le> ga_relative_makers a" "ga_relative_makers a \<le> ga_maker_count a"
  shows "\<exists>s. from_json_config j = Inr s
    \<and> length (filter (\<lambda>w. wallet_has_bond w = Inr True) (sc_wallets s)) = nat (bond_count a)
    \<and> (\<forall>w\<in>set (sc_wallets s). wallet_role w = Some TAKER \<longrightarrow> wallet_has_bond w = Inr False)"
proof -
  obtain q takers tumblers makers w0 w1 w2 w3
    where g: "generate_takers a np q w0 = (Inr takers, w1)" "generate_tumblers a np q w1 = (Inr tumblers, w2)"
      "generate_makers a np today q w2 = (Inr makers, w3)"
    and j: "j = JDict [(''name'', JStr (gen_scenario_name a)), (''default_version'', JStr ''joinmarket''),
          (''rounds'', JInt (ga_round_count a)), (''blocks'', JInt (ga_block_count a)),
          (''wallets'', JList (takers @ tumblers @ makers))]"
    using gen unfolding generate_scenario_def io_seq_def
    by (auto simp only: io_bind_Inr_iff io_ret_Inr_iff)
  obtain ts us ms where parsed: "traverse parse_wallet takers = Inr ts" "traverse parse_wallet tumblers = Inr us"
      "traverse parse_wallet makers = Inr ms"
      and roles: "list_all (generated_as MAKER False) ms"
    using g by (rule generated_wallets_parse)
  have "wallet_has_bond x = Inr False" if "x \<in> set ts" for x
    using traverse_mem [OF parsed(1) that] generate_takers_Inr [OF g(1)] taker_wallet_bond by metis
  moreover have "wallet_has_bond x = Inr False" if "x \<in> set us" for x
    using traverse_mem [OF parsed(2) that] generate_tumblers_Inr [OF g(2)] tumbler_wallet_bond by metis
  ultimately have none: "wallet_has_bond x = Inr False" if "x \<in> set ts \<union> set us" for x
    using that by blast
  have "filter (\<lambda>w. wallet_has_bond w = Inr True) (ts @ us) = []"
    using none by (auto simp: filter_empty_conv)
  then have "length (filter (\<lambda>w. wallet_has_bond w = Inr True) (ts @ us @ ms)) = nat (bond_count a)"
    using bonded_makers [OF g(3) parsed(3) range] by simp
  moreover have "wallet_has_bond x = Inr False" if "x \<in> set (ts @ us @ ms)" "wallet_role x = Some TAKER" for x
    using that none roles by (auto simp: list_all_iff generated_as_def)
  ultimately show ?thesis
    using parsed by (simp add: j from_json_config_def parse_scenario_dict_def raise_if_def dget_default_def
        iter_of_def key_of_def traverse_append)
qed

text \<open>
  Claim C30. Whichever makers the random choice picks, the number of generated wallets with a
  fidelity bond the engine will fund is the requested share of the makers rounded down, up to the
  rounding of two float operations (of one part in \<open>2 ^ 53\<close> each); there are none when bonds are not
  enabled, and no taker has one.
\<close>

theorem bonded_share_of_makers:
  assumes gen: "generate_scenario a np today w = (Inr j, w')"
    and range: "0 \<le> ga_relative_makers a" "ga_relative_makers a \<le> ga_maker_count a" "0 \<le> ga_bond_share a"
  shows "\<exists>s n. from_json_config j = Inr s
    \<and> length (filter (\<lambda>w. wallet_has_bond w = Inr True) (sc_wallets s)) = n
    \<and> (if ga_bonds a
       then of_nat n \<le> of_int (ga_maker_count a) * ga_bond_share a * (1 + 1 / 2 ^ 53) ^ 2
          \<and> of_int (ga_maker_count a) * ga_bond_share a * (1 - 1 / 2 ^ 53) ^ 2 < of_nat n + 1
       else n = 0)
    \<and> (\<forall>w\<in>set (sc_wallets s). wallet_role w = Some TAKER \<longrightarrow> wallet_has_bond w = Inr False)"
proof -
  have count: "if ga_bonds a
       then of_nat (nat (bond_count a)) \<le> of_int (ga_maker_count a) * ga_bond_share a * (1 + 1 / 2 ^ 53) ^ 2
          \<and> of_int (ga_maker_count a) * ga_bond_share a * (1 - 1 / 2 ^ 53) ^ 2 < of_nat (nat (bond_count a)) + 1
       else nat (bond_count a) = 0"
    using bond_count_bounds [of a] range by (simp add: bond_count_def [of a])
  have "\<exists>s. from_json_config j = Inr s
    \<and> length (filter (\<lambda>w. wallet_has_bond w = Inr True) (sc_wallets s)) = nat (bond_count a)
    \<and> (\<forall>w\<in>set (sc_wallets s). wallet_role w = Some TAKER \<longrightarrow> wallet_has_bond w = Inr False)"
    by (rule bonded_wallets [OF gen range(1,2)])
  with count show ?thesis by blast
qed

section \<open>Partitions\<close>

lemma differences_sum: "sum_list (differences (c # cs)) = last (c # cs) - c"
  by (induction cs arbitrary: c) auto

lemma differences_length: "length (differences (c # cs)) = length cs"
  by (induction cs arbitrary: c) auto

lemma differences_nonneg: "sorted (c # cs) \<Longrightarrow> x \<in> set (differences (c # cs)) \<Longrightarrow> 0 \<le> x"
  by (induction cs arbitrary: c) auto

text \<open>
  A random partition has the requested number of parts, all of them whole numbers that are
  never negative and sum to exactly the total.
\<close>

theorem random_partition_exact:
  assumes np: "numpy_ok np" and run: "random_partition np sats n w = (Inr parts, w')"
  shows "0 < n \<and> length parts = nat n \<and> sum_list parts = sats \<and> (0 \<le> sats \<longrightarrow> (\<forall>p\<in>set parts. 0 \<le> p))"
proof (cases "n = 1")
  case True
  then show ?thesis using run by (auto simp: random_partition_def io_ret_def)
next
  case False
  obtain cuts v where cuts: "np 1 sats (n - 1) w = (Inr cuts, v)"
    and parts: "(case sort cuts of [] \<Rightarrow> io_raise (Exn KIndexError ''list index out of range'')
        | c # cs \<Rightarrow> io_ret (c # differences (c # cs) @ [sats - last (c # cs)])) v = (Inr parts, w')"
    using run False by (auto simp: random_partition_def io_bind_Inr_iff)
  have ok: "0 \<le> n - 1" "length cuts = nat (n - 1)" "\<forall>x\<in>set cuts. 1 \<le> x \<and> x < sats"
    using np cuts unfolding numpy_ok_def by blast+
  obtain c cs where s: "sort cuts = c # cs"
    using parts by (cases "sort cuts") (auto simp: io_raise_def)
  have mem: "set (c # cs) = set cuts" "length (c # cs) = length cuts" "sorted (c # cs)"
    by (simp_all add: s [symmetric] del: set_simps)
  have p: "parts = c # differences (c # cs) @ [sats - last (c # cs)]"
    using parts s by (simp add: io_ret_def)
  have "last (c # cs) \<in> set cuts" "c \<in> set cuts" using mem(1) last_in_set [of "c # cs"] by auto
  then have ends: "1 \<le> c" "last (c # cs) < sats" using ok(3) by auto
  have "\<forall>x\<in>set parts. 0 \<le> x"
    using ends differences_nonneg [OF mem(3)] unfolding p by fastforce
  moreover have "length parts = nat n" using p ok(1,2) mem(2) by (simp add: differences_length)
  moreover have "sum_list parts = sats" using p by (simp add: differences_sum)
  ultimately show ?thesis using ok(1) False by simp
qed

text \<open>A generator that always gives the lower bound; its second part shows that parts may be zero.\<close>

definition lowest_randint :: np_randint where
  "lowest_randint a b n =
     (if n < 0 \<or> b \<le> a then io_raise (Exn KValueError ''low >= high'') else io_ret (replicate (nat n) a))"

lemma lowest_randint_ok: "numpy_ok lowest_randint"
  by (auto simp: numpy_ok_def lowest_randint_def io_simps keeps_def)

theorem random_partition_exact_witness:
  "random_partition lowest_randint 10 3 ([], []) = (Inr [1, 0, 9], ([], [])) \<and> sum_list [1, 0, 9 :: int] = 10"
proof -
  have run: "random_partition lowest_randint 10 3 ([], []) = (Inr [1, 0, 9], ([], []))" by code_simp
  show ?thesis using run random_partition_exact [OF lowest_randint_ok run] by simp
qed

section \<open>The file of the command\<close>

interpretation unchanged: kept_relation "(=)"
  by unfold_locales auto

lemma keeps_io:
  "keeps (=) (randint x y)" "keeps (=) unit_random" "keeps (=) (uniform u v)"
  "keeps (=) (sample pool k)"
proof -
  have from_pool: "keeps (=) (sample_from n p)" for n and p :: "'a list"
    by (induction n arbitrary: p) (auto intro!: unchanged.kept_intros keeps_draw simp: Let_def)
  show "keeps (=) (randint x y)" "keeps (=) (sample pool k)" "keeps (=) unit_random"
    by (auto simp: randint_def sample_def unit_random_def intro!: unchanged.kept_intros keeps_draw from_pool)
  then show "keeps (=) (uniform u v)" by (auto simp: uniform_def intro!: unchanged.kept_intros)
qed

lemma keeps_quantiles: "keeps (=) (sample_from_quantiles q n)" "keeps (=) (sample_from_int_quantiles qi n)"
proof -
  show a: "keeps (=) (sample_from_quantiles q n)" for q
    by (auto simp: sample_from_quantiles_def intro!: unchanged.kept_intros keeps_io)
  show "keeps (=) (sample_from_int_quantiles qi n)"
    unfolding sample_from_int_quantiles_def by (intro unchanged.kept_intros a)
qed

lemma keeps_partition: "numpy_ok np \<Longrightarrow> keeps (=) (random_partition np s n)"
  by (auto simp: random_partition_def numpy_ok_def intro!: unchanged.kept_intros split: list.split)

lemma keeps_bond_configs:
  "keeps (=) (generate_fidelity_bond_config a today)"
  "keeps (=) (generate_fidelity_bond_config_quantile a qs today)"
  by (simp_all add: generate_fidelity_bond_config_def generate_fidelity_bond_config_quantile_def
      unchanged.kept_intros keeps_io keeps_quantiles)

lemma keeps_generate_scenario:
  assumes np: "numpy_ok np"
  shows "keeps (=) (generate_scenario a np today)"
proof -
  note intros = unchanged.kept_intros keeps_io keeps_quantiles keeps_partition [OF np] keeps_bond_configs
  have q: "keeps (=) (read_quantiles a)"
    by (simp add: read_quantiles_def exit_one_def intros)
  have p: "keeps (=) (check_population a)"
    by (auto simp: check_population_def exit_one_def intro!: intros split: list.split)
  have f: "keeps (=) (taker_funds a np q)" for q
    by (auto simp: taker_funds_def intro!: intros split: option.split)
  have t: "keeps (=) (generate_takers a np q)" "keeps (=) (generate_tumblers a np q)" for q
    by (auto simp: generate_takers_def generate_tumblers_def intro!: intros f)
  have plan: "keeps (=) (plan_bonds a)"
    by (simp add: plan_bonds_def Let_def intros)
  have fees: "keeps (=) (draw_absolute_fee a q)" "keeps (=) (draw_relative_fee a q)" for q
    by (auto simp: draw_absolute_fee_def draw_relative_fee_def intro!: intros split: option.split)
  have one: "keeps (=) (generate_maker a np today q plan t i)" for q plan t i
    by (auto simp: generate_maker_def Let_def intro!: intros fees split: option.split gen_offer_type.split)
  have "keeps (=) (generate_makers a np today q)" for q
    by (auto simp: generate_makers_def Let_def intro!: intros one plan)
  then show ?thesis
    by (auto simp: generate_scenario_def intro!: intros q p t)
qed

text \<open>
  A run of the command either fails and leaves every file as it was, or writes the generated
  scenario to its own path and to no other, and an existing file there only when told to.
\<close>

theorem generator_writes_one_new_file:
  assumes np: "numpy_ok np" and run: "jm_gen_handler a np today (raw, files) = (r, (raw', files'))"
  shows "case r of
      Inl e \<Rightarrow> files' = files
    | Inr u \<Rightarrow> (\<exists>j v. generate_scenario a np today (raw, files) = (Inr j, v)
        \<and> files' = AList.update (scenario_path (ga_out_dir a) (gen_scenario_name a)) j files
        \<and> (ga_force a \<or> scenario_path (ga_out_dir a) (gen_scenario_name a) \<notin> fst ` set files))"
proof -
  obtain g raw1 files1 where g: "generate_scenario a np today (raw, files) = (g, (raw1, files1))"
    by (metis prod_cases3)
  have "files1 = files" using keepsD [OF keeps_generate_scenario [OF np] g] by simp
  then show ?thesis
    using run g by (cases g) (auto simp: jm_gen_handler_def save_scenario_def path_exists_def write_file_def
        exit_one_def io_simps split: if_splits)
qed

section \<open>An example\<close>

definition example_tumbler :: tumbler_args where
  "example_tumbler = \<lparr>ta_addrcount = 3, ta_minmakercount = 1, ta_makercountrange = ''1,1'', ta_mixdepthcount = 4,
     ta_mintxcount = 2, ta_txcountparams = ''2,1'', ta_timelambda = 6, ta_stage1_increase = 3,
     ta_liquiditywait = 6, ta_waittime = 2, ta_mixdepthsrc = 0, ta_restart = True,
     ta_schedulefile = ''TUMBLE.schedule'', ta_mincjamount = 1, ta_amtmixdepths = 4,
     ta_rounding_chance = 1 / 4, ta_rounding_weights = ''5,1''\<rparr>"

text \<open>Two makers, one of them bonded, a taker and a tumbler.\<close>

definition example_gen_args :: jm_gen_args where
  "example_gen_args = \<lparr>ga_name = [], ga_maker_count = 2, ga_relative_makers = 1, ga_taker_count = 1,
     ga_tumbler_count = 1, ga_round_count = 0, ga_block_count = 0, ga_taker_delays = ''3'',
     ga_tumbler_delays = [], ga_max_coinjoins = 2, ga_force = False, ga_out_dir = ''out'',
     ga_absolute_fee = (1, 5), ga_relative_fee = (1 / 100, 4 / 100), ga_min_utxos = 3, ga_max_utxos = 3,
     ga_min_btc = 1, ga_max_btc = 2, ga_min_utxo_size = 1, ga_tumbler = example_tumbler, ga_bonds = True,
     ga_bond_share = 1 / 2, ga_bond_amount = (10, 20), ga_bond_months = (3, 12), ga_extra_utxos = False,
     ga_utxo_multiplier = 1, ga_use_quantiles = False, ga_absolute_quantiles = [],
     ga_relative_quantiles = [], ga_btc_quantiles = [], ga_taker_quantiles = [], ga_bond_quantiles = []\<rparr>"

definition generation :: "(exn + json) \<times> gen_world" where
  "generation = generate_scenario example_gen_args lowest_randint (2025, 11) ([1, 2, 3], [])"

lemma generation_succeeds:
  obtains j v where "generate_scenario example_gen_args lowest_randint (2025, 11) ([1, 2, 3], []) = (Inr j, v)"
proof -
  have "\<not> isl (fst generation)" by code_simp
  then show thesis
    unfolding generation_def
    by (cases "generate_scenario example_gen_args lowest_randint (2025, 11) ([1, 2, 3], [])";
        cases "fst (generate_scenario example_gen_args lowest_randint (2025, 11) ([1, 2, 3], []))")
      (auto intro: that)
qed

theorem generated_scenario_is_accepted_witness:
  "\<exists>j v s. generate_scenario example_gen_args lowest_randint (2025, 11) ([1, 2, 3], []) = (Inr j, v)
     \<and> from_json_config j = Inr s
     \<and> map wallet_role (sc_wallets s) = [Some TAKER, Some TAKER, Some MAKER, Some MAKER]
     \<and> validate_for_engine s ''joinmarket'' = Inr ()"
proof -
  obtain j v where run: "generate_scenario example_gen_args lowest_randint (2025, 11) ([1, 2, 3], []) = (Inr j, v)"
    by (rule generation_succeeds)
  show ?thesis
    using generated_scenario_is_accepted [OF run] run
    by (fastforce simp: example_gen_args_def numeral_eq_Suc)
qed

theorem bonded_share_of_makers_witness:
  "\<exists>j v s. generate_scenario example_gen_args lowest_randint (2025, 11) ([1, 2, 3], []) = (Inr j, v)
     \<and> from_json_config j = Inr s
     \<and> length (filter (\<lambda>w. wallet_has_bond w = Inr True) (sc_wallets s)) \<le> 1"
proof -
  obtain j v where run: "generate_scenario example_gen_args lowest_randint (2025, 11) ([1, 2, 3], []) = (Inr j, v)"
    by (rule generation_succeeds)
  from bonded_share_of_makers [OF run] obtain s n where s: "from_json_config j = Inr s"
    "length (filter (\<lambda>w. wallet_has_bond w = Inr True) (sc_wallets s)) = n"
    and "of_nat n \<le> (of_int (ga_maker_count example_gen_args) * ga_bond_share example_gen_args * (1 + 1 / 2 ^ 53) ^ 2 :: rat)"
    by (auto simp: example_gen_args_def)
  then have "(of_nat n :: rat) \<le> (1 + 1 / 2 ^ 53) ^ 2" by (simp add: example_gen_args_def)
  also have "\<dots> < of_nat 2" by (simp add: power2_eq_square)
  finally have "n \<le> 1" unfolding of_nat_less_iff by simp
  with s show ?thesis using run by blast
qed

theorem generator_writes_one_new_file_witness:
  "\<exists>raw j v. jm_gen_handler example_gen_args lowest_randint (2025, 11) ([1, 2, 3], [(''a'', JNull)])
       = (Inr (), raw, [(''a'', JNull), (''out/tumbler_1_maker_2.json'', j)])
     \<and> generate_scenario example_gen_args lowest_randint (2025, 11) ([1, 2, 3], [(''a'', JNull)]) = (Inr j, v)"
proof -
  let ?run = "jm_gen_handler example_gen_args lowest_randint (2025, 11) ([1, 2, 3], [(''a'', JNull)])"
  obtain r raw files where run: "?run = (r, raw, files)" by (metis prod_cases3)
  have "\<not> isl (fst ?run)" by code_simp
  then have "r = Inr ()" using run by (cases r) auto
  moreover have "scenario_path (ga_out_dir example_gen_args) (gen_scenario_name example_gen_args)
      = ''out/tumbler_1_maker_2.json''" by code_simp
  ultimately show ?thesis
    using generator_writes_one_new_file [OF lowest_randint_ok run] run by auto
qed

section \<open>Quantiles and lock times\<close>

lemma interpolate:
  fixes a b t :: rat
  assumes "a \<le> b" "0 \<le> t" "t \<le> 1"
  shows "a \<le> a + t * (b - a) \<and> a + t * (b - a) \<le> b"
  using mult_left_le_one_le [of "b - a" t] assms by auto

lemma interpolate_mono:
  fixes a b s t :: rat
  assumes "a \<le> b" "s \<le> t"
  shows "a + s * (b - a) \<le> a + t * (b - a)"
  using assms by (intro add_left_mono mult_right_mono) auto

text \<open>The piece of the distribution a percentile falls into.\<close>

definition quantile_piece :: "rat \<Rightarrow> nat" where
  "quantile_piece p = (if p \<le> 2 / 10 then 0 else if p \<le> 4 / 10 then 1 else if p \<le> 6 / 10 then 2
     else if p \<le> 8 / 10 then 3 else 4)"

lemma quantile_value_piece:
  "quantile_value q p = q ! quantile_piece p
     + (p - of_nat (quantile_piece p) / 5) * 5 * (q ! Suc (quantile_piece p) - q ! quantile_piece p)"
  by (simp add: quantile_value_def quantile_piece_def eval_nat_numeral)

lemma quantile_piece_bounds:
  "0 \<le> p \<Longrightarrow> p \<le> 1 \<Longrightarrow> quantile_piece p < 5 \<and> of_nat (quantile_piece p) / 5 \<le> p \<and> p \<le> (of_nat (quantile_piece p) + 1) / 5"
  by (auto simp: quantile_piece_def)

lemma ascending_sorted: "ascending q \<longleftrightarrow> sorted q"
  by (induction q rule: ascending.induct) (auto intro: order_trans)
lemma quantile_in_piece:
  assumes q: "length q = 6" "ascending q" and p: "0 \<le> p" "p \<le> 1"
  shows "q ! quantile_piece p \<le> quantile_value q p \<and> quantile_value q p \<le> q ! Suc (quantile_piece p)"
proof -
  have "q ! quantile_piece p \<le> q ! Suc (quantile_piece p)"
    using q quantile_piece_bounds [OF p] by (intro sorted_nth_mono) (auto simp: ascending_sorted)
  moreover have "0 \<le> (p - of_nat (quantile_piece p) / 5) * 5" "(p - of_nat (quantile_piece p) / 5) * 5 \<le> 1"
    using quantile_piece_bounds [OF p] by (simp_all add: field_simps)
  ultimately show ?thesis unfolding quantile_value_piece by (rule interpolate)
qed

lemma quantile_value_mono:
  assumes q: "length q = 6" "ascending q" and p: "0 \<le> p" "p \<le> r" "r \<le> 1"
  shows "quantile_value q p \<le> quantile_value q r"
proof (cases "quantile_piece p = quantile_piece r")
  case True
  have "q ! quantile_piece p \<le> q ! Suc (quantile_piece p)"
    using q quantile_piece_bounds [of p] p by (intro sorted_nth_mono) (auto simp: ascending_sorted)
  then show ?thesis
    using p(2) unfolding quantile_value_piece True by (intro interpolate_mono) auto
next
  case False
  have "quantile_piece p \<le> quantile_piece r" using p by (auto simp: quantile_piece_def)
  then have "q ! Suc (quantile_piece p) \<le> q ! quantile_piece r"
    using False q quantile_piece_bounds [of r] p by (intro sorted_nth_mono) (auto simp: ascending_sorted)
  then show ?thesis using quantile_in_piece [OF q, of p] quantile_in_piece [OF q, of r] p by linarith
qed

lemma unit_random_total: obtains r v where "unit_random w = (Inr r, v)" "0 \<le> r" "r < 1"
proof -
  obtain k ks files where "draw w = (Inr k, ks, files)"
    by (cases w; cases "fst w") (auto simp: draw_def)
  then have "unit_random w = (Inr (of_int (int k mod 2 ^ 53) / 2 ^ 53), ks, files)"
    by (simp add: unit_random_def io_simps)
  then show thesis using that unit_random_bounds by blast
qed

lemma io_traverse_total:
  assumes "\<And>x w. \<exists>y v. f x w = (Inr y, v) \<and> P y"
  shows "\<exists>ys v. io_traverse f xs w = (Inr ys, v) \<and> length ys = length xs \<and> (\<forall>y\<in>set ys. P y)"
proof (induction xs arbitrary: w)
  case (Cons x xs)
  obtain y v where y: "f x w = (Inr y, v)" "P y" using assms by blast
  obtain ys v' where ys: "io_traverse f xs v = (Inr ys, v')" "length ys = length xs" "\<forall>y\<in>set ys. P y"
    using Cons by blast
  show ?case using y ys by (simp add: io_bind_def io_ret_def)
qed (simp add: io_ret_def)

text \<open>
  Sampling from quantiles raises a ValueError exactly for lists that are not six ascending
  values; otherwise it gives the requested number of values, all between the first and the last quantile.
\<close>

theorem samples_within_quantiles:
  "if length q = 6 \<and> ascending q
   then \<exists>xs v. sample_from_quantiles q n w = (Inr xs, v) \<and> length xs = n \<and> (\<forall>x\<in>set xs. q ! 0 \<le> x \<and> x \<le> q ! 5)
   else \<exists>m. sample_from_quantiles q n w = (Inl (Exn KValueError m), w)"
proof (cases "length q = 6 \<and> ascending q")
  case True
  then have q: "length q = 6" "ascending q" by auto
  have "\<exists>y v. io_bind unit_random (\<lambda>p. io_ret (quantile_value q p)) w = (Inr y, v) \<and> (q ! 0 \<le> y \<and> y \<le> q ! 5)" for w
  proof -
    obtain r v where r: "unit_random w = (Inr r, v)" "0 \<le> r" "r < 1" by (rule unit_random_total)
    have "quantile_piece r < 5" using quantile_piece_bounds [of r] r by simp
    then have "q ! 0 \<le> q ! quantile_piece r" "q ! Suc (quantile_piece r) \<le> q ! 5"
      using q by (auto intro!: sorted_nth_mono simp: ascending_sorted)
    then show ?thesis
      using quantile_in_piece [OF q, of r] r by (simp add: io_bind_def io_ret_def)
  qed
  then have "\<exists>xs v. io_traverse (\<lambda>_. io_bind unit_random (\<lambda>p. io_ret (quantile_value q p))) [0..<n] w = (Inr xs, v)
      \<and> length xs = length [0..<n] \<and> (\<forall>x\<in>set xs. q ! 0 \<le> x \<and> x \<le> q ! 5)"
    by (intro io_traverse_total)
  then show ?thesis using q by (simp add: sample_from_quantiles_def)
qed (auto simp: sample_from_quantiles_def io_raise_def)

text \<open>The lock time lies the drawn number of months ahead, as a month of the calendar.\<close>

lemma roll_months_spec:
  "1 \<le> m \<Longrightarrow> roll_months y m = (y', m') \<Longrightarrow> 1 \<le> m' \<and> m' \<le> 12 \<and> 12 * y' + m' = 12 * y + m"
proof (induction y m arbitrary: y' m' rule: roll_months.induct)
  case (1 y m)
  show ?case using 1 by (subst (asm) (2) roll_months.simps) (force split: if_splits)
qed

end
