(* ===== verification/GenScenClass.thy ===== *)
theory GenScenClass
  imports GenScenJm
begin

text \<open>
  The class \<open>JoinMarketConfigGenerator\<close> of \<open>manager/commands/genscen_joinmarket.py\<close>: its settings,
  the distribution of a wallet's amount over coins, its wallets and its whole configurations.
\<close>

section \<open>Settings\<close>

record fee_config =
  fc_min_absolute :: int
  fc_max_absolute :: int
  fc_min_relative :: rat
  fc_max_relative :: rat

record wallet_gen_config =
  wg_min_utxos :: int
  wg_max_utxos :: int
  wg_min_total_btc :: rat
  wg_max_total_btc :: rat
  wg_min_utxo_size :: int

record tumbler_options_class =
  to_addrcount :: int
  to_minmakercount :: int
  to_makercountrange :: "int list"
  to_mixdepthcount :: int
  to_mintxcount :: int
  to_txcountparams :: "int list"
  to_timelambda :: int
  to_stage1_increase :: int
  to_liquiditywait :: int
  to_waittime :: int
  to_mixdepthsrc :: int
  to_restart :: bool
  to_schedulefile :: string
  to_mincjamount :: int
  to_amtmixdepths :: int
  to_rounding_chance :: rat
  to_rounding_weights :: "int list"

record config_generator =
  cg_fee :: fee_config
  cg_wallet :: wallet_gen_config
  cg_tumbler :: tumbler_options_class

definition fee_defaults :: fee_config where
  "fee_defaults = \<lparr>fc_min_absolute = 1000, fc_max_absolute = 5000, fc_min_relative = 1 / 10000,
     fc_max_relative = 4 / 1000\<rparr>"

definition wallet_gen_defaults :: wallet_gen_config where
  "wallet_gen_defaults = \<lparr>wg_min_utxos = 9, wg_max_utxos = 11, wg_min_total_btc = 1, wg_max_total_btc = 10,
     wg_min_utxo_size = 100000\<rparr>"

definition tumbler_class_defaults :: tumbler_options_class where
  "tumbler_class_defaults = \<lparr>to_addrcount = 3, to_minmakercount = 4, to_makercountrange = [9, 1],
     to_mixdepthcount = 4, to_mintxcount = 2, to_txcountparams = [2, 1], to_timelambda = 60,
     to_stage1_increase = 3, to_liquiditywait = 60, to_waittime = 20, to_mixdepthsrc = 0,
     to_restart = True, to_schedulefile = ''TUMBLE.schedule'', to_mincjamount = 100000,
     to_amtmixdepths = 4, to_rounding_chance = 1 / 4, to_rounding_weights = [55, 15, 25, 65, 40]\<rparr>"

definition new_config_generator :: config_generator where
  "new_config_generator =
     \<lparr>cg_fee = fee_defaults, cg_wallet = wallet_gen_defaults, cg_tumbler = tumbler_class_defaults\<rparr>"

section \<open>Coins of a wallet\<close>

text \<open>
  The loop of \<open>generate_utxos\<close>: \<open>left\<close> turns to go leave \<open>left\<close> coins for after this one, each of
  the minimal size; a coin takes at most three tenths of the total when there is a choice.
\<close>

fun utxo_draws :: "int \<Rightarrow> int \<Rightarrow> nat \<Rightarrow> int \<Rightarrow> (gen_world, int list \<times> int) io" where
  "utxo_draws sats least 0 remaining = io_ret ([], remaining)"
| "utxo_draws sats least (Suc left) remaining =
     (let max_utxo = remaining - int (Suc left) * least
      in io_bind (if least < max_utxo then randint least (min max_utxo (truncate_rat (of_int sats * (3 / 10))))
                  else io_ret least) (\<lambda>utxo.
         io_bind (utxo_draws sats least left (remaining - utxo)) (\<lambda>(utxos, rest).
         io_ret (utxo # utxos, rest))))"

text \<open>\<open>utxos[-1] -= d\<close>\<close>

definition take_from_last :: "int \<Rightarrow> int list \<Rightarrow> exn + int list" where
  "take_from_last d xs =
     (if xs = [] then Inl (Exn KIndexError ''list index out of range'')
      else Inr (butlast xs @ [last xs - d]))"

definition generate_utxos :: "wallet_gen_config \<Rightarrow> rat \<Rightarrow> int \<Rightarrow> (gen_world, int list) io" where
  "generate_utxos c total_btc num_utxos =
     (let least = wg_min_utxo_size c;
          sats = max (truncate_rat (total_btc * satoshi)) (num_utxos * least)
      in io_bind (utxo_draws sats least (nat (num_utxos - 1)) sats) (\<lambda>(utxos, remaining).
         io_bind (if least \<le> remaining then io_ret (utxos @ [remaining])
                  else io_bind (io_lift (take_from_last (least - remaining) utxos)) (\<lambda>us. io_ret (us @ [least])))
           shuffle_list))"

section \<open>Wallets and configurations\<close>

definition class_tumbler_options :: "tumbler_options_class \<Rightarrow> json" where
  "class_tumbler_options t =
     JDict [(''addrcount'', JInt (to_addrcount t)), (''minmakercount'', JInt (to_minmakercount t)),
       (''makercountrange'', ints_json (to_makercountrange t)), (''mixdepthcount'', JInt (to_mixdepthcount t)),
       (''mintxcount'', JInt (to_mintxcount t)), (''txcountparams'', ints_json (to_txcountparams t)),
       (''timelambda'', JInt (to_timelambda t)),
       (''stage1_timelambda_increase'', JInt (to_stage1_increase t)),
       (''liquiditywait'', JInt (to_liquiditywait t)), (''waittime'', JInt (to_waittime t)),
       (''mixdepthsrc'', JInt (to_mixdepthsrc t)), (''restart'', JBool (to_restart t)),
       (''schedulefile'', JStr (to_schedulefile t)), (''mincjamount'', JInt (to_mincjamount t)),
       (''amtmixdepths'', JInt (to_amtmixdepths t)), (''rounding_chance'', JFloat (to_rounding_chance t)),
       (''rounding_sigfig_weights'', ints_json (to_rounding_weights t))]"

definition draw_wallet_funds :: "wallet_gen_config \<Rightarrow> (gen_world, int list) io" where
  "draw_wallet_funds c =
     io_bind (randint (wg_min_utxos c) (wg_max_utxos c)) (\<lambda>num_utxos.
     io_bind (uniform (wg_min_total_btc c) (wg_max_total_btc c)) (\<lambda>total_btc.
     generate_utxos c total_btc num_utxos))"

definition create_taker_wallet :: "config_generator \<Rightarrow> int \<Rightarrow> (gen_world, json) io" where
  "create_taker_wallet g delay_blocks =
     io_bind (draw_wallet_funds (cg_wallet g)) (\<lambda>funds.
     let w = [(''funds'', ints_json funds),
              (''joinmarket'', JDict [(''role'', JStr ''taker''),
                 (''tumbler_options'', class_tumbler_options (cg_tumbler g))])]
     in io_ret (JDict (if 0 < delay_blocks then dset w ''delay_blocks'' (JInt delay_blocks) else w)))"

definition create_maker_wallet ::
    "config_generator \<Rightarrow> gen_offer_type \<Rightarrow> rat option \<Rightarrow> (gen_world, json) io" where
  "create_maker_wallet g offer_type fee_value =
     io_bind (draw_wallet_funds (cg_wallet g)) (\<lambda>funds.
     io_bind (case offer_type of
         ABSOLUTE \<Rightarrow>
           io_bind (case fee_value of
               Some x \<Rightarrow> io_ret (truncate_rat x)
             | None \<Rightarrow> randint (fc_min_absolute (cg_fee g)) (fc_max_absolute (cg_fee g)))
             (\<lambda>fee. io_ret [(''cjfee_a'', JInt fee), (''cjfee_r'', JInt 0)])
       | RELATIVE \<Rightarrow>
           io_bind (case fee_value of
               Some x \<Rightarrow> io_ret x
             | None \<Rightarrow> uniform (fc_min_relative (cg_fee g)) (fc_max_relative (cg_fee g)))
             (\<lambda>fee. io_ret [(''cjfee_a'', JInt 0), (''cjfee_r'', JFloat fee)])) (\<lambda>fees.
     let offer = [(''txfee'', JInt 0), (''ordertype'', JStr (offer_value offer_type)),
                  (''minsize'', JInt (wg_min_utxo_size (cg_wallet g))),
                  (''maxsize'', JInt (truncate_rat (of_int (sum_list funds) * (9 / 10))))] @ fees
     in io_ret (JDict [(''funds'', ints_json funds),
          (''joinmarket'', JDict [(''role'', JStr ''maker''), (''offers'', JList [JDict offer])])])))"

text \<open>The relative fees fall evenly from the greatest to the least; a single one divides by zero.\<close>

definition relative_fees :: "fee_config \<Rightarrow> nat \<Rightarrow> exn + rat list" where
  "relative_fees f n =
     (if n = 1 then Inl (Exn KZeroDivision ''float division by zero'')
      else Inr (map (\<lambda>i. fc_max_relative f
             - (fc_max_relative f - fc_min_relative f) * of_nat i / (of_nat n - 1)) [0..<n]))"

definition default_taker_delays :: "int list" where
  "default_taker_delays = [0, 30, 60, 90, 120]"

definition generate_config ::
    "config_generator \<Rightarrow> string \<Rightarrow> int \<Rightarrow> int \<Rightarrow> int list option \<Rightarrow> rat \<Rightarrow> int \<Rightarrow> int \<Rightarrow> (gen_world, json) io" where
  "generate_config g name num_takers num_makers taker_delays maker_fee_split rounds blocks =
     (let delays = (case taker_delays of None \<Rightarrow> slice_to num_takers default_taker_delays | Some ds \<Rightarrow> ds);
          num_absolute = truncate_rat (float_mul (float_of_int num_makers) maker_fee_split);
          num_relative = num_makers - num_absolute
      in io_bind (io_traverse (\<lambda>i. create_taker_wallet g (delay_of delays i)) [0..<nat num_takers]) (\<lambda>takers.
         io_bind (io_traverse (\<lambda>_. create_maker_wallet g ABSOLUTE None) [0..<nat num_absolute]) (\<lambda>absolute.
         io_bind (if 0 < num_relative
                  then io_bind (io_lift (relative_fees (cg_fee g) (nat num_relative))) (\<lambda>fees.
                       io_traverse (\<lambda>fee. create_maker_wallet g RELATIVE (Some fee)) fees)
                  else io_ret []) (\<lambda>relative.
         io_ret (JDict [(''name'', JStr name), (''default_version'', JStr ''joinmarket''),
           (''rounds'', JInt rounds), (''blocks'', JInt blocks),
           (''wallets'', JList (takers @ absolute @ relative))])))))"

section \<open>The coins hold the amount\<close>

lemma draw_total: obtains k v where "draw w = (Inr k, v)"
  by (cases w; cases "fst w") (auto simp: draw_def)

lemma randint_total:
  assumes "a \<le> b" obtains k v where "randint a b w = (Inr k, v)" "a \<le> k" "k \<le> b"
proof -
  obtain d v where "draw w = (Inr d, v)" by (rule draw_total)
  then have "randint a b w = (Inr (a + int d mod (b - a + 1)), v)"
    using assms by (simp add: randint_def io_simps)
  then show thesis using that randint_bounds by blast
qed

lemma shuffle_from_total: "\<exists>ys v. shuffle_from i xs w = (Inr ys, v)"
proof (induction i arbitrary: xs w)
  case (Suc i)
  obtain k v where "draw w = (Inr k, v)" by (rule draw_total)
  then show ?case using Suc by (simp add: io_bind_def)
qed (simp add: io_ret_def)

lemma shuffle_total: obtains ys v where "shuffle_list xs w = (Inr ys, v)" "mset ys = mset xs"
  using shuffle_from_total [of "length xs - 1" xs w] shuffle_mset unfolding shuffle_list_def by blast

lemma three_tenths: "4 * least \<le> sats \<Longrightarrow> 0 < least \<Longrightarrow> least \<le> truncate_rat (of_int sats * (3 / 10))"
proof -
  assume "4 * least \<le> sats" "0 < least"
  then have "of_int (4 * least) \<le> (of_int sats :: rat)" by (simp only: of_int_le_iff)
  then have "(of_int least :: rat) \<le> of_int sats * (3 / 10)" using \<open>0 < least\<close> by simp
  moreover have "0 \<le> (of_int sats :: rat) * (3 / 10)" using \<open>4 * least \<le> sats\<close> \<open>0 < least\<close> by simp
  ultimately show ?thesis by (simp add: truncate_rat_def le_floor_iff)
qed

lemma utxo_draws_result:
  assumes "0 < least" "4 * least \<le> sats" "int (Suc left) * least \<le> remaining"
  shows "\<exists>us r v. utxo_draws sats least left remaining w = (Inr (us, r), v) \<and> length us = left
    \<and> sum_list us + r = remaining \<and> least \<le> r \<and> (\<forall>u\<in>set us. least \<le> u)"
  using assms(3)
proof (induction left arbitrary: remaining w)
  case 0
  then show ?case by (simp add: io_ret_def)
next
  case (Suc left)
  let ?max = "remaining - int (Suc left) * least"
  let ?cap = "min ?max (truncate_rat (of_int sats * (3 / 10)))"
  have least_max: "least \<le> ?max" using Suc.prems by (simp add: algebra_simps)
  obtain u v where u: "(if least < ?max then randint least ?cap else io_ret least) w = (Inr u, v)"
      "least \<le> u" "u \<le> ?max"
  proof (cases "least < ?max")
    case True
    then have "least \<le> ?cap" using three_tenths [OF assms(2,1)] by simp
    then obtain k v where "randint least ?cap w = (Inr k, v)" "least \<le> k" "k \<le> ?cap"
      by (rule randint_total)
    then show ?thesis using that True by simp
  next
    case False
    then show ?thesis using that [of least w] least_max by (simp add: io_ret_def)
  qed
  have "int (Suc left) * least \<le> remaining - u" using u(3) by simp
  then obtain us r v' where us: "utxo_draws sats least left (remaining - u) v = (Inr (us, r), v')" "length us = left"
      "sum_list us + r = remaining - u" "least \<le> r" "\<forall>u\<in>set us. least \<le> u"
    using Suc.IH by blast
  have "utxo_draws sats least (Suc left) remaining w = (Inr (u # us, r), v')"
    by (simp only: utxo_draws.simps Let_def io_bind_def u(1) us(1) prod.case sum.case) (simp add: io_ret_def)
  then show ?case using u(2) us by simp
qed

text \<open>
  Claim C31. With at least four coins and a positive minimal size, the distribution of an amount over
  coins always succeeds, whatever is drawn: it gives that many coins, none below the minimal size, and
  their sum is the amount in satoshis, raised to what that many minimal coins need.
\<close>

theorem generate_utxos_distributes:
  assumes n: "4 \<le> n" and least: "0 < wg_min_utxo_size c"
  shows "\<exists>us v. generate_utxos c total_btc n w = (Inr us, v) \<and> length us = nat n
    \<and> sum_list us = max (truncate_rat (total_btc * satoshi)) (n * wg_min_utxo_size c)
    \<and> (\<forall>u\<in>set us. wg_min_utxo_size c \<le> u)"
proof -
  let ?l = "wg_min_utxo_size c"
  let ?sats = "max (truncate_rat (total_btc * satoshi)) (n * ?l)"
  have "4 * ?l \<le> n * ?l" using n least by simp
  then have 4: "4 * ?l \<le> ?sats" by simp
  have "int (Suc (nat (n - 1))) * ?l \<le> ?sats" using n by simp
  then obtain us r v where us: "utxo_draws ?sats ?l (nat (n - 1)) ?sats w = (Inr (us, r), v)"
      "length us = nat (n - 1)" "sum_list us + r = ?sats" "?l \<le> r" "\<forall>u\<in>set us. ?l \<le> u"
    using utxo_draws_result [OF least 4] by blast
  obtain ys v' where ys: "shuffle_list (us @ [r]) v = (Inr ys, v')" "mset ys = mset (us @ [r])"
    by (rule shuffle_total)
  have "generate_utxos c total_btc n w = (Inr ys, v')"
    using us(1,4) ys(1) by (simp add: generate_utxos_def Let_def io_bind_def io_ret_def)
  moreover have "length ys = nat n" "sum_list ys = ?sats" "set ys = set (us @ [r])"
    using us n ys(2) mset_eq_length [OF ys(2)] mset_eq_setD [OF ys(2)]
    by (simp_all add: sum_mset_sum_list [symmetric])
  ultimately show ?thesis using us(4,5) by auto
qed

theorem generate_utxos_distributes_witness:
  "\<exists>us v. generate_utxos \<lparr>wg_min_utxos = 4, wg_max_utxos = 5, wg_min_total_btc = 1, wg_max_total_btc = 2,
       wg_min_utxo_size = 100\<rparr> (1 / 1000) 5 ([7, 99, 3, 2], []) = (Inr us, v) \<and> length us = 5 \<and> sum_list us = 100000"
proof -
  let ?c = "\<lparr>wg_min_utxos = 4, wg_max_utxos = 5, wg_min_total_btc = 1, wg_max_total_btc = 2,
       wg_min_utxo_size = 100\<rparr>"
  have "max (truncate_rat (1 / 1000 * satoshi)) (5 * wg_min_utxo_size ?c) = 100000"
    by (simp add: satoshi_def truncate_rat_def)
  moreover have "4 \<le> (5 :: int)" "0 < wg_min_utxo_size ?c" by simp_all
  ultimately show ?thesis
    using generate_utxos_distributes [of 5 ?c "1 / 1000" "([7, 99, 3, 2], [])"] by (simp only: nat_numeral) blast
qed

text \<open>With two coins the cap of three tenths can leave no choice at all, and the draw raises.\<close>

lemma two_small_coins_raise:
  "isl (fst (generate_utxos \<lparr>wg_min_utxos = 2, wg_max_utxos = 2, wg_min_total_btc = 1, wg_max_total_btc = 2,
     wg_min_utxo_size = 100\<rparr> (251 / 100000000) 2 ([], [])))"
  by code_simp

lemma ends_map_upt: "0 < n \<Longrightarrow> hd (map f [0..<n]) = f 0 \<and> last (map f [0..<n]) = f (n - 1)"
  by (simp add: hd_map last_map)

theorem relative_fees_spread:
  assumes "2 \<le> n" "fc_min_relative f \<le> fc_max_relative f"
  shows "\<exists>fees. relative_fees f n = Inr fees \<and> length fees = n \<and> hd fees = fc_max_relative f
    \<and> last fees = fc_min_relative f \<and> sorted_wrt (\<ge>) fees"
proof -
  let ?fee = "\<lambda>i::nat. fc_max_relative f
    - (fc_max_relative f - fc_min_relative f) * of_nat i / (of_nat n - 1)"
  have pos: "(0::rat) < of_nat (n - 1)" "of_nat n - 1 = (of_nat (n - 1) :: rat)"
    using assms(1) by (simp_all add: of_nat_diff)
  have ends: "hd (map ?fee [0..<n]) = ?fee 0" "last (map ?fee [0..<n]) = ?fee (n - 1)"
    using assms(1) ends_map_upt [of n ?fee] by linarith+
  have "?fee (n - 1) = fc_min_relative f" unfolding pos(2) using pos(1) by simp
  moreover have "?fee 0 = fc_max_relative f" by simp
  moreover have "?fee j \<le> ?fee i" if "i < j" for i j
    unfolding pos(2) using that assms(2) by (intro diff_left_mono divide_right_mono mult_left_mono) auto
  then have "sorted_wrt (\<ge>) (map ?fee [0..<n])"
    unfolding sorted_wrt_map by (intro sorted_wrt_mono_rel [OF _ sorted_wrt_upt]) blast
  moreover have "relative_fees f n = Inr (map ?fee [0..<n])" using assms(1) by (simp add: relative_fees_def)
  moreover have "length (map ?fee [0..<n]) = n" by simp
  ultimately show ?thesis using ends by metis
qed

end
