(* ===== verification/GenScen.thy ===== *)
theory GenScen
  imports GenScenClass
begin

text \<open>
  The Wasabi scenario generator, \<open>manager/commands/genscen.py\<close>: the distribution of funds, the
  rounds a wallet skips, the kinds of scenarios and the command. numpy's random functions are
  parameters; the argument parser and the printed lines are left out.
\<close>

section \<open>Arguments and parameters\<close>

text \<open>
  \<open>numpy.random\<close>: \<open>uniform(low, high, n)\<close>, \<open>pareto(a, n)\<close>, \<open>lognormal(mean, sigma, n)\<close> and
  \<open>choice(range(0, stop), size=n, replace=False)\<close>.
\<close>

record numpy_random =
  np_uniform :: "rat \<Rightarrow> rat \<Rightarrow> int \<Rightarrow> (gen_world, rat list) io"
  np_pareto :: "rat \<Rightarrow> int \<Rightarrow> (gen_world, rat list) io"
  np_lognormal :: "rat \<Rightarrow> rat \<Rightarrow> int \<Rightarrow> (gen_world, rat list) io"
  np_choice :: "int \<Rightarrow> int \<Rightarrow> (gen_world, int list) io"

record gen_args =
  gs_name :: string
  gs_client_count :: int
  gs_type :: string
  gs_distribution :: string
  gs_utxo_count :: int
  gs_max_coinjoin :: int
  gs_min_coinjoin :: int
  gs_stop_round :: int
  gs_stop_block :: int
  gs_skip_rounds :: string
  gs_force :: bool
  gs_out_dir :: string
  gs_distributor_version :: "string option"
  gs_client_version :: "string option"
  gs_anon_target :: "int option"
  gs_redcoin :: "bool option"

definition json_opt :: "('a \<Rightarrow> json) \<Rightarrow> 'a option \<Rightarrow> json" where
  "json_opt f x = (case x of None \<Rightarrow> JNull | Some y \<Rightarrow> f y)"

section \<open>Backend and name\<close>

definition create_backend_config :: "gen_args \<Rightarrow> exn + json" where
  "create_backend_config a =
     (if gs_max_coinjoin a = 0 then Inl (Exn KZeroDivision ''division by zero'')
      else Inr (JDict [(''MaxInputCountByRound'', JInt (gs_max_coinjoin a)),
        (''MinInputCountByRoundMultiplier'',
           JFloat (of_int (gs_min_coinjoin a) / of_int (gs_max_coinjoin a))),
        (''StandardInputRegistrationTimeout'', JStr ''0d 0h 20m 0s''),
        (''ConnectionConfirmationTimeout'', JStr ''0d 0h 6m 0s''),
        (''OutputRegistrationTimeout'', JStr ''0d 0h 6m 0s''),
        (''TransactionSigningTimeout'', JStr ''0d 0h 6m 0s''),
        (''FailFastTransactionSigningTimeout'', JStr ''0d 0h 6m 0s''),
        (''RoundExpiryTimeout'', JStr ''0d 0h 10m 0s'')]))"

definition format_name :: "gen_args \<Rightarrow> string" where
  "format_name a =
     (let base = gs_distribution a @ ''-'' @ gs_type a @ ''-'' @ str_int (gs_client_count a)
      in if gs_name a \<noteq> [] then gs_name a
         else if gs_type a = ''static'' then base @ ''-'' @ str_int (gs_utxo_count a) @ ''utxo''
         else base)"

section \<open>Text in brackets\<close>

text \<open>\<open>s.split("[")[1].split("]")[0]\<close>; None is the IndexError.\<close>

definition bracketed :: "string \<Rightarrow> string option" where
  "bracketed s =
     (case split_on (CHR ''['') s of
        a # b # rest \<Rightarrow> Some (hd (split_on (CHR '']'') b))
      | _ \<Rightarrow> None)"

section \<open>Skipped rounds\<close>

datatype skip_plan = SkipRandom rat | SkipListed string

definition prepare_skip_rounds :: "gen_args \<Rightarrow> (gen_world, skip_plan option) io" where
  "prepare_skip_rounds a =
     (if gs_skip_rounds a = [] then io_ret None
      else if starts_with ''random'' (gs_skip_rounds a)
      then (if gs_stop_round a = 0 then exit_one
            else if gs_skip_rounds a = ''random'' then io_ret (Some (SkipRandom (2 / 3)))
            else (case bracketed (gs_skip_rounds a) of
                    None \<Rightarrow> exit_one
                  | Some s \<Rightarrow> io_bind (io_lift (float_str s)) (\<lambda>x. io_ret (Some (SkipRandom x)))))
      else io_ret (Some (SkipListed (gs_skip_rounds a))))"

text \<open>The function the plan stands for; the listed rounds are parsed when it is called.\<close>

definition planned_skip_rounds :: "gen_args \<Rightarrow> numpy_random \<Rightarrow> skip_plan \<Rightarrow> int \<Rightarrow> (gen_world, int list) io" where
  "planned_skip_rounds a np plan idx =
     (case plan of
        SkipRandom fraction \<Rightarrow>
          io_bind (np_choice np (gs_stop_round a) (truncate_rat (float_mul (float_of_int (gs_stop_round a)) (float64 fraction))))
            (\<lambda>xs. io_ret (sort xs))
      | SkipListed s \<Rightarrow>
          if idx < gs_client_count a div 2
          then io_bind (io_lift (traverse int_str (split_on (CHR '','') s))) (\<lambda>xs. io_ret (sort xs))
          else io_ret [])"

section \<open>Distribution of funds\<close>

datatype fund_distribution = Uniform "rat list" | Pareto "rat list" | Lognorm "rat list"

definition prepare_distribution :: "string \<Rightarrow> exn + fund_distribution option" where
  "prepare_distribution s =
     ebind (case bracketed s of
              None \<Rightarrow> Inr None
            | Some t \<Rightarrow> ebind (traverse float_str (split_on (CHR '','') t)) (\<lambda>xs. Inr (Some xs)))
       (\<lambda>params.
        let name = hd (split_on (CHR ''['') s);
            or_else = (\<lambda>d. case params of None \<Rightarrow> d | Some xs \<Rightarrow> xs)
        in Inr (if name = ''uniform'' then Some (Uniform (or_else [0, 10000000]))
                else if name = ''pareto'' then Some (Pareto (or_else [116 / 100]))
                else if name = ''lognorm'' then Some (Lognorm (or_else [141 / 10, 229 / 100]))
                else None))"

definition param_at :: "rat list \<Rightarrow> nat \<Rightarrow> exn + rat" where
  "param_at xs i = (if i < length xs then Inr (xs ! i) else Inl (Exn KIndexError ''list index out of range''))"

definition draw_funds :: "numpy_random \<Rightarrow> fund_distribution \<Rightarrow> int \<Rightarrow> (gen_world, int list) io" where
  "draw_funds np d n =
     (case d of
        Uniform ps \<Rightarrow> io_bind (io_lift (param_at ps 0)) (\<lambda>a. io_bind (io_lift (param_at ps 1)) (\<lambda>b.
          io_bind (np_uniform np a b n) (\<lambda>xs. io_ret (map py_round xs))))
      | Pareto ps \<Rightarrow> io_bind (io_lift (param_at ps 0)) (\<lambda>a.
          io_bind (np_pareto np a n) (\<lambda>xs. io_ret (map (\<lambda>x. py_round (x * 1000000)) xs)))
      | Lognorm ps \<Rightarrow> io_bind (io_lift (param_at ps 0)) (\<lambda>a. io_bind (io_lift (param_at ps 1)) (\<lambda>b.
          io_bind (np_lognormal np a b n) (\<lambda>xs. io_ret (map py_round xs)))))"

section \<open>Wallets\<close>

text \<open>The settings drawn for a wallet: anonymity target, red coin isolation and skipped rounds.\<close>

type_synonym wallet_settings = "int option \<times> bool option \<times> int list option"

definition picky :: "(gen_world, wallet_settings) io" where
  "picky = io_bind (randint 27 75) (\<lambda>t. io_ret (Some t, Some True, None))"

definition relaxed :: wallet_settings where
  "relaxed = (Some 5, None, None)"

text \<open>\<open>list(range(random.randint(1, 5)))\<close>\<close>

definition first_rounds :: "(gen_world, int list) io" where
  "first_rounds = io_bind (randint 1 5) (\<lambda>n. io_ret [0..n - 1])"

definition draw_settings :: "gen_args \<Rightarrow> int \<Rightarrow> (gen_world, wallet_settings) io" where
  "draw_settings a idx =
     (let fifth = idx < gs_client_count a div 5; tenth = idx < gs_client_count a div 10
      in if gs_type a = ''default'' then (if fifth then picky else io_ret relaxed)
         else if gs_type a = ''overmixing''
         then (if tenth then io_ret (Some 1000000, None, None) else if fifth then picky else io_ret relaxed)
         else if gs_type a = ''delayed''
         then io_bind first_rounds (\<lambda>skip.
                io_bind (if fifth then picky else io_ret relaxed) (\<lambda>(t, r, _). io_ret (t, r, Some skip)))
         else if gs_type a = ''delayed-overmixing''
         then (if tenth then io_ret (Some 1000000, None, None)
               else io_bind first_rounds (\<lambda>skip.
                io_bind (if fifth then picky else io_ret relaxed) (\<lambda>(t, r, _). io_ret (t, r, Some skip))))
         else io_ret (None, None, None))"

definition wallet_kinds :: "string list" where
  "wallet_kinds = [''default'', ''overmixing'', ''delayed'', ''delayed-overmixing'']"

definition wallet_with :: "int list \<Rightarrow> wallet_settings \<Rightarrow> wallet_config" where
  "wallet_with funds settings =
     (case settings of (target, redcoin, skip) \<Rightarrow>
       \<lparr>w_funds = map (\<lambda>n. FundPlain (JInt n)) funds, w_delay_blocks = JNull, w_delay_rounds = JNull,
        w_stop_blocks = JNull, w_stop_rounds = JNull, w_version = JNull,
        w_wasabi = (if target \<noteq> None \<or> redcoin \<noteq> None \<or> skip \<noteq> None
                    then Some \<lparr>wc_anon_score_target = json_opt JInt target,
                               wc_redcoin_isolation = json_opt JBool redcoin,
                               wc_skip_rounds = json_opt ints_json skip, wc_postmix = None\<rparr>
                    else None),
        w_joinmarket = None\<rparr>)"

definition prepare_wallet ::
    "gen_args \<Rightarrow> numpy_random \<Rightarrow> int \<Rightarrow> fund_distribution \<Rightarrow> skip_plan option \<Rightarrow> (gen_world, wallet_config) io" where
  "prepare_wallet a np idx d plan =
     io_bind (if gs_type a \<in> set wallet_kinds
              then io_bind (randint 1 10) (draw_funds np d)
              else draw_funds np d (gs_utxo_count a)) (\<lambda>funds.
     io_bind (draw_settings a idx) (\<lambda>(target, redcoin, skip).
     io_bind (case plan of
                None \<Rightarrow> io_ret skip
              | Some p \<Rightarrow> io_bind (planned_skip_rounds a np p idx) (\<lambda>xs. io_ret (Some xs))) (\<lambda>skip.
     io_ret (wallet_with funds (target, redcoin, skip)))))"

section \<open>The command\<close>

definition gen_scenario :: "gen_args \<Rightarrow> numpy_random \<Rightarrow> (gen_world, scenario_config) io" where
  "gen_scenario a np =
     io_bind (io_lift (prepare_distribution (gs_distribution a))) (\<lambda>found.
       case found of
         None \<Rightarrow> exit_one
       | Some d \<Rightarrow>
           io_bind (prepare_skip_rounds a) (\<lambda>plan.
           io_bind (io_traverse (\<lambda>idx. prepare_wallet a np idx d plan) [0..gs_client_count a - 1]) (\<lambda>wallets.
           io_bind (io_lift (create_backend_config a)) (\<lambda>backend.
           io_ret \<lparr>sc_name = JStr (format_name a), sc_rounds = JInt (gs_stop_round a),
             sc_blocks = JInt (gs_stop_block a),
             sc_default_version = JStr (case gs_client_version a of None \<Rightarrow> ''2.0.4''
               | Some v \<Rightarrow> if v = [] then ''2.0.4'' else v),
             sc_wallets = wallets, sc_description = JNull, sc_category = JNull,
             sc_distributor_version = json_opt JStr (gs_distributor_version a),
             sc_default_anon = json_opt JInt (gs_anon_target a),
             sc_default_redcoin = json_opt JBool (gs_redcoin a), sc_backend = backend\<rparr>))))"

definition gen_path :: "gen_args \<Rightarrow> string" where
  "gen_path a = gs_out_dir a @ ''/'' @ format_name a @ ''.json''"

definition gen_handler :: "gen_args \<Rightarrow> numpy_random \<Rightarrow> (gen_world, unit) io" where
  "gen_handler a np =
     io_bind (gen_scenario a np) (\<lambda>s. save_scenario (gs_force a) (gen_path a) (to_dict s))"

section \<open>The written scenario\<close>

lemma wf_wallet_with: "wf_wallet (wallet_with funds settings)"
proof (cases settings)
  case (fields target redcoin skip)
  then show ?thesis
    by (auto simp: wallet_with_def wf_wallet_def wf_wasabi_def wf_spends_def json_opt_def ints_json_def list_all_iff
        split: option.split)
qed

lemma prepare_wallet_Inr:
  assumes "prepare_wallet a np idx d plan w = (Inr x, w')"
  obtains funds settings where "x = wallet_with funds settings"
  using assms by (auto simp: prepare_wallet_def io_bind_Inr_iff io_ret_Inr_iff)

lemma gen_scenario_Inr:
  assumes "gen_scenario a np w = (Inr s, w')"
  shows "wf_scenario s \<and> length (sc_wallets s) = nat (gs_client_count a)"
proof -
  obtain d plan v ws v' where
    ws: "io_traverse (\<lambda>idx. prepare_wallet a np idx d plan) [0..gs_client_count a - 1] v = (Inr ws, v')"
    and s: "sc_wallets s = ws" "sc_description s = JNull" "sc_category s = JNull"
    using assms
    by (auto simp: gen_scenario_def exit_one_def io_raise_def io_bind_Inr_iff io_ret_Inr_iff split: option.splits)
  have "wf_wallet x" if "x \<in> set ws" for x
    using io_traverse_each [OF ws] that by (metis prepare_wallet_Inr wf_wallet_with)
  moreover have "length ws = nat (gs_client_count a)"
    using io_traverse_each [OF ws] by simp
  ultimately show ?thesis using s by (simp add: wf_scenario_def list_all_iff)
qed

lemma save_scenario_Inr:
  assumes "save_scenario force p j (raw, files) = (Inr u, (raw', files'))"
  shows "files' = AList.update p j files \<and> (force \<or> p \<notin> fst ` set files)"
  using assms by (auto simp: save_scenario_def path_exists_def write_file_def exit_one_def io_simps split: if_splits)

text \<open>
  Claim C32. A scenario the command wrote is read back by the scenario parser as exactly the
  configuration it generated, with the requested number of wallets and its name, and the Wasabi engine
  accepts it.
\<close>

theorem written_wasabi_scenario_reparses:
  assumes "gen_handler a np w = (Inr u, (raw, files))"
  shows "\<exists>s j. map_of files (gen_path a) = Some j \<and> from_json_config j = Inr s
    \<and> length (sc_wallets s) = nat (gs_client_count a) \<and> sc_name s = JStr (format_name a)
    \<and> (\<exists>v. gen_scenario a np w = (Inr s, v)) \<and> validate_for_engine s ''wasabi'' = Inr ()"
proof -
  obtain s raw1 files1 where s: "gen_scenario a np w = (Inr s, (raw1, files1))"
    and save: "save_scenario (gs_force a) (gen_path a) (to_dict s) (raw1, files1) = (Inr u, (raw, files))"
    using assms by (auto simp: gen_handler_def io_bind_Inr_iff)
  have "map_of files (gen_path a) = Some (to_dict s)"
    using save_scenario_Inr [OF save] by (simp add: update_conv)
  moreover have "sc_name s = JStr (format_name a)"
    using s by (auto simp: gen_scenario_def exit_one_def io_raise_def io_bind_Inr_iff io_ret_Inr_iff split: option.splits)
  ultimately show ?thesis
    using gen_scenario_Inr [OF s] from_json_enc [of s] s by (auto simp: validate_for_engine_def)
qed

text \<open>The settings a wallet of each kind of scenario may get, from its place among the wallets.\<close>

definition cohort_settings :: "gen_args \<Rightarrow> int \<Rightarrow> wallet_settings \<Rightarrow> bool" where
  "cohort_settings a idx s =
     (case s of (target, redcoin, skip) \<Rightarrow>
       let over = gs_type a \<in> {''overmixing'', ''delayed-overmixing''} \<and> idx < gs_client_count a div 10;
           delayed = gs_type a \<in> {''delayed'', ''delayed-overmixing''}
       in if gs_type a \<notin> set wallet_kinds then s = (None, None, None)
          else if over then s = (Some 1000000, None, None)
          else ((if idx < gs_client_count a div 5
                 then (\<exists>t. target = Some t \<and> 27 \<le> t \<and> t \<le> 75) \<and> redcoin = Some True
                 else target = Some 5 \<and> redcoin = None)
                \<and> (if delayed then (\<exists>n. 1 \<le> n \<and> n \<le> 5 \<and> skip = Some [0..n - 1]) else skip = None)))"

lemma picky_total: obtains t v where "picky w = (Inr (Some t, Some True, None), v)" "27 \<le> t" "t \<le> 75"
proof -
  obtain t v where "randint 27 75 w = (Inr t, v)" "27 \<le> t" "t \<le> 75" by (rule randint_total [of 27 75]) auto
  then show thesis using that by (simp add: picky_def io_bind_def io_ret_def)
qed

lemma cohort_total:
  obtains t r v where "(if fifth then picky else io_ret relaxed) w = (Inr (t, r, None), v)"
    "if fifth then (\<exists>x. t = Some x \<and> 27 \<le> x \<and> x \<le> 75) \<and> r = Some True else t = Some 5 \<and> r = None"
  by (cases fifth) (auto simp: relaxed_def io_ret_def intro: picky_total [of w])

lemma delayed_total:
  obtains t r n v where "io_bind first_rounds (\<lambda>skip. io_bind (if fifth then picky else io_ret relaxed)
      (\<lambda>(t, r, _). io_ret (t, r, Some skip))) w = (Inr (t, r, Some [0..n - 1]), v)" "1 \<le> n" "n \<le> 5"
    "if fifth then (\<exists>x. t = Some x \<and> 27 \<le> x \<and> x \<le> 75) \<and> r = Some True else t = Some 5 \<and> r = None"
proof -
  obtain n v where n: "randint 1 5 w = (Inr n, v)" "1 \<le> n" "n \<le> 5" by (rule randint_total [of 1 5]) auto
  obtain t r v' where "(if fifth then picky else io_ret relaxed) v = (Inr (t, r, None), v')"
    "if fifth then (\<exists>x. t = Some x \<and> 27 \<le> x \<and> x \<le> 75) \<and> r = Some True else t = Some 5 \<and> r = None"
    by (rule cohort_total)
  then show thesis using n that by (simp add: first_rounds_def io_bind_def io_ret_def)
qed

text \<open>
  Drawing the settings never fails: the first tenth of the wallets overmixes where the kind says so, the
  rest of the first fifth gets a strict target with red coin isolation, the others the target five, and
  the delayed kinds skip one to five first rounds.
\<close>

theorem settings_follow_cohort:
  "\<exists>s v. draw_settings a idx w = (Inr s, v) \<and> cohort_settings a idx s"
proof -
  let ?fifth = "idx < gs_client_count a div 5"
  obtain t r v where c: "(if ?fifth then picky else io_ret relaxed) w = (Inr (t, r, None), v)"
    "if ?fifth then (\<exists>x. t = Some x \<and> 27 \<le> x \<and> x \<le> 75) \<and> r = Some True else t = Some 5 \<and> r = None"
    by (rule cohort_total)
  obtain t' r' n v' where d: "io_bind first_rounds (\<lambda>skip. io_bind (if ?fifth then picky else io_ret relaxed)
      (\<lambda>(t, r, _). io_ret (t, r, Some skip))) w = (Inr (t', r', Some [0..n - 1]), v')" "1 \<le> n" "n \<le> 5"
    "if ?fifth then (\<exists>x. t' = Some x \<and> 27 \<le> x \<and> x \<le> 75) \<and> r' = Some True else t' = Some 5 \<and> r' = None"
    by (rule delayed_total)
  show ?thesis
    using c d by (auto simp: draw_settings_def cohort_settings_def Let_def wallet_kinds_def io_ret_def)
qed

section \<open>An example\<close>

definition lowest_numpy :: numpy_random where
  "lowest_numpy = \<lparr>np_uniform = (\<lambda>a b n. io_ret (replicate (nat n) a)), np_pareto = (\<lambda>a n. io_ret (replicate (nat n) a)),
     np_lognormal = (\<lambda>a b n. io_ret (replicate (nat n) a)), np_choice = (\<lambda>m n. io_ret [0..n - 1])\<rparr>"

definition example_args :: gen_args where
  "example_args = \<lparr>gs_name = [], gs_client_count = 5, gs_type = ''delayed'', gs_distribution = ''uniform[7,9]'',
     gs_utxo_count = 3, gs_max_coinjoin = 4, gs_min_coinjoin = 2, gs_stop_round = 3, gs_stop_block = 0,
     gs_skip_rounds = ''random[0.5]'', gs_force = False, gs_out_dir = ''o'', gs_distributor_version = None,
     gs_client_version = None, gs_anon_target = None, gs_redcoin = None\<rparr>"

theorem written_wasabi_scenario_reparses_witness:
  "\<exists>raw files s j. gen_handler example_args lowest_numpy ([1, 2], []) = (Inr (), (raw, files))
     \<and> map_of files ''o/uniform[7,9]-delayed-5.json'' = Some j \<and> from_json_config j = Inr s
     \<and> length (sc_wallets s) = 5"
proof -
  obtain r raw files where run: "gen_handler example_args lowest_numpy ([1, 2], []) = (r, (raw, files))"
    by (metis prod_cases3)
  have "\<not> isl (fst (gen_handler example_args lowest_numpy ([1, 2], [])))" by code_simp
  then have r: "r = Inr ()" using run by (cases r) auto
  have path: "gen_path example_args = ''o/uniform[7,9]-delayed-5.json''" by code_simp
  have "nat (gs_client_count example_args) = 5" by (simp add: example_args_def)
  then show ?thesis
    using written_wasabi_scenario_reparses [OF run [unfolded r]] run [unfolded r] unfolding path by metis
qed


end
