(* ===== verification/Base64.thy ===== *)
theory Base64
  imports Prelude
begin

text \<open>
  The base64 transfers of the Kubernetes driver (\<open>manager/driver/kubernetes.py\<close>): the standard
  library's encoder and validating decoder, and the spool that decodes a stream arriving in arbitrary
  pieces. Bytes are numbers below 256.
\<close>

section \<open>The alphabet\<close>

definition b64_alphabet :: string where
  "b64_alphabet = ''ABCDEFGHIJKLMNOPQRSTUVWXYZabcdefghijklmnopqrstuvwxyz0123456789+/''"

definition b64_char :: "nat \<Rightarrow> char" where
  "b64_char n = b64_alphabet ! n"

definition b64_value :: "char \<Rightarrow> nat option" where
  "b64_value c = map_of (zip b64_alphabet [0..<64]) c"

text \<open>\<open>base64.b64encode\<close>: three bytes give four characters, the rest is padded.\<close>

fun b64encode :: "nat list \<Rightarrow> string" where
  "b64encode [] = []"
| "b64encode [a] = [b64_char (a div 4), b64_char (a mod 4 * 16), CHR ''='', CHR ''='']"
| "b64encode [a, b] =
     [b64_char (a div 4), b64_char (a mod 4 * 16 + b div 16), b64_char (b mod 16 * 4), CHR ''='']"
| "b64encode (a # b # c # xs) =
     [b64_char (a div 4), b64_char (a mod 4 * 16 + b div 16), b64_char (b mod 16 * 4 + c div 64),
      b64_char (c mod 64)] @ b64encode xs"

text \<open>
  \<open>base64.b64decode(s, validate=True)\<close>: alphabet characters and at most two padding characters at the
  end; an incomplete last group needs its padding. None is the ValueError.
\<close>

fun b64_bytes :: "nat list \<Rightarrow> nat list" where
  "b64_bytes (a # b # c # d # xs) = (a * 4 + b div 16) # (b mod 16 * 16 + c div 4) # (c mod 4 * 64 + d) # b64_bytes xs"
| "b64_bytes [a, b, c] = [a * 4 + b div 16, b mod 16 * 16 + c div 4]"
| "b64_bytes [a, b] = [a * 4 + b div 16]"
| "b64_bytes _ = []"

definition is_pad :: "char \<Rightarrow> bool" where
  "is_pad c = (c = CHR ''='')"

definition padding_ok :: "nat \<Rightarrow> nat \<Rightarrow> bool" where
  "padding_ok n pads =
     (pads \<le> 2 \<and> (n mod 4 = 0 \<or> n mod 4 = 2 \<and> pads = 2 \<or> n mod 4 = 3 \<and> 1 \<le> pads))"

fun values_of :: "string \<Rightarrow> (nat list) option" where
  "values_of [] = Some []"
| "values_of (c # cs) =
     (case b64_value c of None \<Rightarrow> None
      | Some v \<Rightarrow> (case values_of cs of None \<Rightarrow> None | Some vs \<Rightarrow> Some (v # vs)))"

definition b64decode :: "string \<Rightarrow> (nat list) option" where
  "b64decode s =
     (let digits = takeWhile (\<lambda>c. \<not> is_pad c) s;
          pads = dropWhile (\<lambda>c. \<not> is_pad c) s
      in if list_all is_pad pads \<and> padding_ok (length digits) (length pads)
         then map_option b64_bytes (values_of digits) else None)"

section \<open>The spool\<close>

text \<open>
  \<open>_Base64Spool\<close>: characters that wait for the rest of their group, what was written to the file, and
  whether a piece was invalid.
\<close>

record spool =
  bs_pending :: string
  bs_file :: "nat list"
  bs_invalid :: bool

definition new_spool :: spool where
  "new_spool = \<lparr>bs_pending = [], bs_file = [], bs_invalid = False\<rparr>"

definition spool_decode :: "string \<Rightarrow> spool \<Rightarrow> spool" where
  "spool_decode encoded s =
     (if encoded = [] then s
      else case b64decode encoded of
        None \<Rightarrow> s\<lparr>bs_invalid := True\<rparr>
      | Some payload \<Rightarrow> s\<lparr>bs_file := bs_file s @ payload\<rparr>)"

text \<open>\<open>"".join(chunk.split())\<close>\<close>

definition without_space :: "string \<Rightarrow> string" where
  "without_space s = filter (\<lambda>c. \<not> is_space c) s"

definition spool_feed :: "string \<Rightarrow> spool \<Rightarrow> spool" where
  "spool_feed chunk s =
     (if bs_invalid s then s
      else let pending = bs_pending s @ without_space chunk;
               usable = length pending - length pending mod 4
           in (spool_decode (take usable pending) s)\<lparr>bs_pending := drop usable pending\<rparr>)"

definition spool_finish :: "string \<Rightarrow> spool \<Rightarrow> exn + nat list" where
  "spool_finish source s =
     (let s = (if \<not> bs_invalid s \<and> bs_pending s \<noteq> []
               then (spool_decode (bs_pending s) s)\<lparr>bs_pending := []\<rparr> else s)
      in if bs_invalid s then Inl (Exn KRuntimeError (''download of '' @ source @ '' returned invalid base64''))
         else if bs_file s = [] then Inl (Exn KRuntimeError (''download of '' @ source @ '' produced an empty archive''))
         else Inr (bs_file s))"

section \<open>Encoding and decoding\<close>

lemma alphabet_checked:
  "list_all (\<lambda>n. b64_value (b64_char n) = Some n \<and> \<not> is_pad (b64_char n)) [0..<64]"
  by code_simp

lemma b64_char_value: "n < 64 \<Longrightarrow> b64_value (b64_char n) = Some n"
  and b64_char_not_pad: "n < 64 \<Longrightarrow> \<not> is_pad (b64_char n)"
  using alphabet_checked by (auto simp: list_all_iff)

lemma values_of_chars: "\<forall>d\<in>set ds. d < 64 \<Longrightarrow> values_of (map b64_char ds) = Some ds"
  by (induction ds) (simp_all add: b64_char_value)

text \<open>The digits of an encoding and its padding.\<close>

fun b64_digits :: "nat list \<Rightarrow> nat list" where
  "b64_digits [] = []"
| "b64_digits [a] = [a div 4, a mod 4 * 16]"
| "b64_digits [a, b] = [a div 4, a mod 4 * 16 + b div 16, b mod 16 * 4]"
| "b64_digits (a # b # c # xs) =
     [a div 4, a mod 4 * 16 + b div 16, b mod 16 * 4 + c div 64, c mod 64] @ b64_digits xs"

fun b64_pads :: "nat list \<Rightarrow> nat" where
  "b64_pads [] = 0"
| "b64_pads [a] = 2"
| "b64_pads [a, b] = 1"
| "b64_pads (a # b # c # xs) = b64_pads xs"

lemma encode_digits: "b64encode bs = map b64_char (b64_digits bs) @ replicate (b64_pads bs) (CHR ''='')"
  by (induction bs rule: b64encode.induct) (simp_all add: numeral_2_eq_2)

lemma digits_small: "\<forall>b\<in>set bs. b < 256 \<Longrightarrow> \<forall>d\<in>set (b64_digits bs). d < 64"
proof (induction bs rule: b64_digits.induct)
  case (4 a b c xs)
  then show ?case by auto
qed auto

lemma byte_group:
  fixes a b c :: nat
  assumes "b < 256" "c < 256"
  shows "a div 4 * 4 + (a mod 4 * 16 + b div 16) div 16 = a"
    "(a mod 4 * 16 + b div 16) mod 16 * 16 + (b mod 16 * 4 + c div 64) div 4 = b"
    "(b mod 16 * 4 + c div 64) mod 4 * 64 + c mod 64 = c"
proof -
  have q: "b div 16 < 16" "c div 64 < 4" using assms by auto
  have "(a mod 4 * 16 + b div 16) div 16 = a mod 4" "(a mod 4 * 16 + b div 16) mod 16 = b div 16"
    "(b mod 16 * 4 + c div 64) div 4 = b mod 16" "(b mod 16 * 4 + c div 64) mod 4 = c div 64"
    using q by (simp_all only: div_mult_self3 mod_mult_self3 div_less mod_less add_0_right add_0)
  then show "a div 4 * 4 + (a mod 4 * 16 + b div 16) div 16 = a"
    "(a mod 4 * 16 + b div 16) mod 16 * 16 + (b mod 16 * 4 + c div 64) div 4 = b"
    "(b mod 16 * 4 + c div 64) mod 4 * 64 + c mod 64 = c"
    by (simp_all only: div_mult_mod_eq)
qed

lemma digits_bytes: "\<forall>b\<in>set bs. b < 256 \<Longrightarrow> b64_bytes (b64_digits bs) = bs"
proof (induction bs rule: b64_digits.induct)
  case (2 a)
  then show ?case using byte_group(1) [of 0 0 a] by simp
next
  case (3 a b)
  then show ?case using byte_group(1,2) [of b 0 a] by simp
next
  case (4 a b c xs)
  then show ?case using byte_group(1,2) [of b c a] byte_group(3) [of b c] by (simp del: div_mult_self3 mod_mult_self3 add_mult_distrib)
qed simp

lemma padding_ok_group: "padding_ok (Suc (Suc (Suc (Suc n)))) p = padding_ok n p"
proof -
  have "Suc (Suc (Suc (Suc n))) mod 4 = n mod 4" by presburger
  then show ?thesis by (simp only: padding_ok_def)
qed

lemma padding_digits: "padding_ok (length (b64_digits bs)) (b64_pads bs)"
  by (induction bs rule: b64_digits.induct) (simp_all add: padding_ok_group, simp_all add: padding_ok_def)

lemma is_pad_eq: "is_pad (CHR ''='')"
  by (simp add: is_pad_def)

lemma takeWhile_chars: "\<forall>d\<in>set ds. d < 64 \<Longrightarrow>
  takeWhile (\<lambda>c. \<not> is_pad c) (map b64_char ds @ replicate n (CHR ''='')) = map b64_char ds
  \<and> dropWhile (\<lambda>c. \<not> is_pad c) (map b64_char ds @ replicate n (CHR ''='')) = replicate n (CHR ''='')"
  by (induction ds; cases n) (simp_all add: b64_char_not_pad is_pad_eq)

lemma decode_encode:
  assumes "\<forall>b\<in>set bs. b < 256" shows "b64decode (b64encode bs) = Some bs"
proof -
  note small = digits_small [OF assms]
  have "list_all is_pad (replicate (b64_pads bs) (CHR ''=''))" by (simp add: list_all_iff is_pad_eq)
  then show ?thesis
    unfolding b64decode_def encode_digits Let_def takeWhile_chars [OF small, THEN conjunct1]
      takeWhile_chars [OF small, THEN conjunct2]
    by (simp only: length_map length_replicate padding_digits values_of_chars [OF small] digits_bytes [OF assms]
        option.map simp_thms if_True)
qed

lemma four_more: "Suc (Suc (Suc (Suc n))) mod 4 = n mod 4"
  by presburger

lemma encode_length: "length (b64encode bs) mod 4 = 0"
  by (induction bs rule: b64encode.induct) (simp_all add: four_more)

lemma encode_empty: "b64encode bs = [] \<longleftrightarrow> bs = []"
  by (cases bs rule: b64encode.cases) simp_all

lemma encode_group: "xs \<noteq> [] \<Longrightarrow>
  take 4 (b64encode xs) = b64encode (take 3 xs) \<and> drop 4 (b64encode xs) = b64encode (drop 3 xs)"
  by (cases xs rule: b64encode.cases) simp_all

lemma encode_drop: "drop (4 * k) (b64encode bs) = b64encode (drop (3 * k) bs)"
proof (induction k arbitrary: bs)
  case (Suc k)
  show ?case
  proof (cases "bs = []")
    case False
    have "drop (4 * Suc k) (b64encode bs) = drop (4 * k) (drop 4 (b64encode bs))" by (simp add: add.commute)
    also have "\<dots> = b64encode (drop (3 * k) (drop 3 bs))" using encode_group [OF False] Suc by simp
    finally show ?thesis by (simp add: add.commute)
  qed simp
qed simp

lemma encode_append3: "length xs = 3 \<Longrightarrow> b64encode (xs @ ys) = b64encode xs @ b64encode ys"
  by (cases xs rule: b64encode.cases) (auto simp: numeral_3_eq_3)

lemma encode_take: "take (4 * k) (b64encode bs) = b64encode (take (3 * k) bs)"
proof (induction k arbitrary: bs)
  case (Suc k)
  show ?case
  proof (cases "bs = []")
    case False
    have "take (4 * Suc k) (b64encode bs) = take 4 (b64encode bs) @ take (4 * k) (drop 4 (b64encode bs))"
      by (simp only: mult_Suc_right take_add)
    also have "\<dots> = b64encode (take 3 bs) @ b64encode (take (3 * k) (drop 3 bs))"
      using encode_group [OF False] Suc by simp
    also have "\<dots> = b64encode (take 3 bs @ take (3 * k) (drop 3 bs))"
    proof (cases "3 \<le> length bs")
      case True
      then show ?thesis by (simp add: encode_append3)
    qed simp
    also have "\<dots> = b64encode (take (3 * Suc k) bs)" by (simp only: mult_Suc_right take_add)
    finally show ?thesis .
  qed simp
qed simp

text \<open>What the spool holds when it was fed the first \<open>n\<close> characters of an encoding.\<close>

definition spooled :: "nat list \<Rightarrow> nat \<Rightarrow> spool \<Rightarrow> bool" where
  "spooled bytes n s \<longleftrightarrow> \<not> bs_invalid s \<and> bs_file s = take (3 * (n div 4)) bytes
     \<and> bs_pending s = drop (4 * (n div 4)) (take n (b64encode bytes))"

lemma spool_decode_encode:
  "\<forall>b\<in>set bs. b < 256 \<Longrightarrow> spool_decode (b64encode bs) s = s\<lparr>bs_file := bs_file s @ bs\<rparr>"
  by (cases "bs = []") (simp_all add: spool_decode_def encode_empty decode_encode)

lemma spool_feed_spooled:
  assumes bytes: "\<forall>b\<in>set bytes. b < 256" and s: "spooled bytes n s"
    and chunk: "without_space chunk = take m (drop n (b64encode bytes))" and m: "n + m \<le> length (b64encode bytes)"
  shows "spooled bytes (n + m) (spool_feed chunk s)"
proof -
  let ?e = "b64encode bytes" and ?k = "n div 4" and ?k' = "(n + m) div 4"
  have pending: "bs_pending s @ without_space chunk = drop (4 * ?k) (take (n + m) ?e)"
    using s m unfolding spooled_def chunk by (simp add: take_add)
  have le: "?k \<le> ?k'" by (simp add: div_le_mono)
  have len: "length (bs_pending s @ without_space chunk) = n + m - 4 * ?k"
    using m by (simp add: pending)
  have usable: "length (bs_pending s @ without_space chunk) - length (bs_pending s @ without_space chunk) mod 4 = 4 * (?k' - ?k)"
  proof -
    have n: "n = 4 * ?k + n mod 4" by simp
    define r where "r = n mod 4 + m"
    have nm: "n + m = 4 * ?k + r" unfolding r_def using n by linarith
    have "?k' = ?k + r div 4" unfolding nm by simp
    then have "?k' - ?k = r div 4" by simp
    moreover have "n + m - 4 * ?k = r" using nm by simp
    ultimately have "n + m - 4 * ?k = r" "?k' - ?k = r div 4" by blast+
    then show ?thesis unfolding len by (simp add: minus_mod_eq_mult_div)
  qed
  have "take (4 * (?k' - ?k)) (drop (4 * ?k) (take (n + m) ?e)) = take (4 * (?k' - ?k)) (drop (4 * ?k) ?e)"
  proof -
    have "4 * ?k' \<le> n + m" by simp
    then have "4 * (?k' - ?k) \<le> n + m - 4 * ?k" unfolding right_diff_distrib' by linarith
    then show ?thesis by (simp add: drop_take min_absorb1)
  qed
  also have "\<dots> = b64encode (take (3 * (?k' - ?k)) (drop (3 * ?k) bytes))"
    by (simp add: encode_drop encode_take)
  finally have decoded: "spool_decode (take (4 * (?k' - ?k)) (drop (4 * ?k) (take (n + m) ?e))) s
      = s\<lparr>bs_file := bs_file s @ take (3 * (?k' - ?k)) (drop (3 * ?k) bytes)\<rparr>"
    using bytes by (simp only:) (intro spool_decode_encode, auto dest: in_set_takeD in_set_dropD)
  have whole: "take (3 * ?k) bytes @ take (3 * (?k' - ?k)) (drop (3 * ?k) bytes) = take (3 * ?k') bytes"
    using le by (simp flip: take_add add: right_diff_distrib')
  have rest: "drop (4 * (?k' - ?k)) (drop (4 * ?k) (take (n + m) ?e)) = drop (4 * ?k') (take (n + m) ?e)"
    using le by (simp add: right_diff_distrib')
  show ?thesis
    using s whole unfolding spool_feed_def spooled_def Let_def usable
    unfolding pending decoded rest by simp
qed

lemma spool_chunks_spooled:
  assumes "\<forall>b\<in>set bytes. b < 256"
  shows "spooled bytes n s \<Longrightarrow> drop n (b64encode bytes) = concat (map without_space chunks) \<Longrightarrow>
    n \<le> length (b64encode bytes) \<Longrightarrow> spooled bytes (length (b64encode bytes)) (fold spool_feed chunks s)"
proof (induction chunks arbitrary: n s)
  case Nil
  then show ?case by simp
next
  case (Cons c cs)
  let ?m = "length (without_space c)"
  have d: "drop n (b64encode bytes) = without_space c @ concat (map without_space cs)" using Cons.prems(2) by simp
  then have len: "length (b64encode bytes) - n = ?m + length (concat (map without_space cs))"
    by (metis length_append length_drop)
  then have m: "n + ?m \<le> length (b64encode bytes)" using Cons.prems(3) by linarith
  have chunk: "without_space c = take ?m (drop n (b64encode bytes))" unfolding d by simp
  have "drop (n + ?m) (b64encode bytes) = concat (map without_space cs)"
    using d by (metis add.commute append_eq_conv_conj drop_drop)
  then show ?case
    using Cons.IH [OF spool_feed_spooled [OF assms Cons.prems(1) chunk m] _ m] by simp
qed

text \<open>
  Claim C35. Whatever pieces an encoded archive arrives in, and whatever white space is between its
  characters, the spool writes exactly the bytes that were encoded.
\<close>

theorem spool_ignores_chunking:
  assumes "\<forall>b\<in>set bytes. b < 256" "bytes \<noteq> []" "concat (map without_space chunks) = b64encode bytes"
  shows "spool_finish source (fold spool_feed chunks new_spool) = Inr bytes"
proof -
  let ?e = "b64encode bytes"
  have "spooled bytes 0 new_spool" by (simp add: spooled_def new_spool_def)
  then have s: "spooled bytes (length ?e) (fold spool_feed chunks new_spool)"
    using assms by (intro spool_chunks_spooled [of bytes 0]) simp_all
  have "4 * (length ?e div 4) = length ?e" using encode_length [of bytes] by presburger
  moreover from this have "take (3 * (length ?e div 4)) bytes = bytes"
    using encode_take [of "length ?e div 4" bytes] encode_drop [of "length ?e div 4" bytes] encode_empty
    by (metis append_Nil2 append_take_drop_id drop_all order_refl)
  ultimately show ?thesis using s assms(2) by (simp add: spooled_def spool_finish_def Let_def)
qed

theorem spool_ignores_chunking_witness:
  "spool_finish ''p:/d'' (fold spool_feed [''AQI'', CHR 0x0A # ''DBA'', ''=='', []] new_spool) = Inr [1, 2, 3, 4]"
  by (rule spool_ignores_chunking) (simp, simp, code_simp)

text \<open>Data behind padding is refused in one piece and accepted when the pieces split there.\<close>

lemma padding_between_pieces:
  "b64decode ''QQ==QUJD'' = None \<and>
   spool_finish ''p'' (fold spool_feed [''QQ=='', ''QUJD''] new_spool) = Inr [65, 65, 66, 67]"
  by code_simp

lemma invalid_spool_stays: "bs_invalid s \<Longrightarrow> bs_invalid (fold spool_feed chunks s)"
  by (induction chunks arbitrary: s) (simp_all add: spool_feed_def)

theorem invalid_piece_fails:
  assumes "bs_invalid (spool_feed c s)"
  shows "spool_finish source (fold spool_feed (c # cs) s)
    = Inl (Exn KRuntimeError (''download of '' @ source @ '' returned invalid base64''))"
  using invalid_spool_stays [OF assms] by (simp add: spool_finish_def)

end
