(* ===== verification/Shell.thy ===== *)
theory Shell
  imports Prelude
begin

text \<open>
  Texts for a shell: quoting as \<open>shlex\<close> does it, and how a POSIX shell splits a quoted text into words
  (\<open>sh_words\<close>). The Kubernetes driver and the local proxy send such texts.
\<close>

section \<open>Quoting\<close>

text \<open>\<open>shlex.quote\<close> and \<open>shlex.join\<close>\<close>

definition sh_safe :: "char \<Rightarrow> bool" where
  "sh_safe ch = (let n = (of_char ch :: nat) in
     (48 \<le> n \<and> n \<le> 57) \<or> (65 \<le> n \<and> n \<le> 90) \<or> (97 \<le> n \<and> n \<le> 122) \<or> ch \<in> set ''_@%+=:,./-'')"

fun quote_escape :: "string \<Rightarrow> string" where
  "quote_escape [] = []"
| "quote_escape (ch # s) =
     (if ch = CHR 0x27 then [CHR 0x27, CHR 0x22, CHR 0x27, CHR 0x22, CHR 0x27] else [ch]) @ quote_escape s"

definition shlex_quote :: "string \<Rightarrow> string" where
  "shlex_quote s = (if s = [] then [CHR 0x27, CHR 0x27]
     else if list_all sh_safe s then s
     else [CHR 0x27] @ quote_escape s @ [CHR 0x27])"

definition shlex_join :: "string list \<Rightarrow> string" where
  "shlex_join ws = join_with '' '' (map shlex_quote ws)"

text \<open>
  The words of a simple command: blanks separate, quotes of both kinds protect. None stands for texts
  that are not words only, where the shell would expand, redirect or separate commands.
\<close>

definition word_so_far :: "string option \<Rightarrow> string" where
  "word_so_far cur = (case cur of None \<Rightarrow> [] | Some w \<Rightarrow> w)"

definition finish :: "string option \<Rightarrow> string list option \<Rightarrow> string list option" where
  "finish cur rest = (case cur of None \<Rightarrow> rest | Some w \<Rightarrow> map_option (\<lambda>ws. w # ws) rest)"

datatype sh_mode = Bare | Single | Double

fun sh_scan :: "sh_mode \<Rightarrow> string option \<Rightarrow> string \<Rightarrow> string list option" where
  "sh_scan Bare cur [] = finish cur (Some [])"
| "sh_scan Bare cur (ch # s) =
     (if ch \<in> {CHR '' '', CHR 0x09} then finish cur (sh_scan Bare None s)
      else if ch = CHR 0x27 then sh_scan Single (Some (word_so_far cur)) s
      else if ch = CHR 0x22 then sh_scan Double (Some (word_so_far cur)) s
      else if sh_safe ch then sh_scan Bare (Some (word_so_far cur @ [ch])) s
      else None)"
| "sh_scan Single cur [] = None"
| "sh_scan Single cur (ch # s) =
     (if ch = CHR 0x27 then sh_scan Bare cur s else sh_scan Single (Some (word_so_far cur @ [ch])) s)"
| "sh_scan Double cur [] = None"
| "sh_scan Double cur (ch # s) =
     (if ch = CHR 0x22 then sh_scan Bare cur s
      else if ch \<in> {CHR ''$'', CHR 0x60, CHR 0x5C} then None
      else sh_scan Double (Some (word_so_far cur @ [ch])) s)"

definition sh_words :: "string \<Rightarrow> string list option" where
  "sh_words s = sh_scan Bare None s"

lemma word_so_far_simps [simp]: "word_so_far None = []" "word_so_far (Some w) = w"
  by (simp_all add: word_so_far_def)

lemma finish_simps [simp]: "finish None r = r" "finish (Some w) r = map_option (\<lambda>ws. w # ws) r"
  by (simp_all add: finish_def)

lemma sh_safe_not_special: "sh_safe ch \<Longrightarrow> ch \<notin> {CHR '' '', CHR 0x09, CHR 0x27, CHR 0x22}"
  by (auto simp: sh_safe_def)

lemma scan_safe: "list_all sh_safe s \<Longrightarrow> s \<noteq> [] \<Longrightarrow> sh_scan Bare cur (s @ t) = sh_scan Bare (Some (word_so_far cur @ s)) t"
proof (induction s arbitrary: cur)
  case (Cons ch s)
  then show ?case using sh_safe_not_special[of ch] by (cases "s = []") auto
qed simp

lemma scan_escaped: "sh_scan Single (Some w) (quote_escape s @ CHR 0x27 # t) = sh_scan Bare (Some (w @ s)) t"
  by (induction s arbitrary: w) auto

lemma scan_quoted: "sh_scan Bare cur (shlex_quote s @ t) = sh_scan Bare (Some (word_so_far cur @ s)) t"
  by (auto simp: shlex_quote_def scan_safe scan_escaped)

lemma words_quoted: "sh_words (shlex_quote s) = Some [s]"
  using scan_quoted[of None s "[]"] by (simp add: sh_words_def)

lemma words_joined: "sh_words (shlex_join ws) = Some ws"
proof (induction ws rule: induct_list012)
  case (3 x y ys)
  then show ?case by (simp add: sh_words_def shlex_join_def scan_quoted)
qed (simp_all add: sh_words_def shlex_join_def words_quoted[unfolded sh_words_def])

text \<open>A plain join loses the words that are empty.\<close>

lemma words_of_plain_join:
  "list_all (list_all sh_safe) ws \<Longrightarrow> sh_words (join_with '' '' ws) = Some (filter (\<lambda>w. w \<noteq> []) ws)"
proof (induction ws rule: induct_list012)
  case (2 x)
  then show ?case using scan_safe[of x None "[]"] by (cases "x = []") (auto simp: sh_words_def)
next
  case (3 x y ys)
  then show ?case using scan_safe[of x None] by (cases "x = []") (auto simp: sh_words_def)
qed (simp add: sh_words_def)

section \<open>Pieces of scripts\<close>

definition in_quotes :: "string \<Rightarrow> string" where
  "in_quotes s = [CHR 0x22] @ s @ [CHR 0x22]"

definition newline :: string where
  "newline = [CHR 0x0A]"

definition in_ticks :: "string \<Rightarrow> string" where
  "in_ticks s = [CHR 0x27] @ s @ [CHR 0x27]"

end
