(* ===== verification/Kubernetes.thy ===== *)
theory Kubernetes
  imports EngineBase Base64 Kept Shell
begin

text \<open>
  The Kubernetes driver, \<open>manager/driver/kubernetes.py\<close>: names and labels of a run's resources, pod
  manifests, the start of a pod and its service, deletion, transfers over exec, and the cleanup. The
  Kubernetes API, the clock, the archive tools and the hash are the operations of \<open>k8s_ops\<close> and a field of the
  configuration.
\<close>

section \<open>Names and labels\<close>

text \<open>Missing strings are empty, which the code treats alike.\<close>

record k8s_config =
  kc_namespace :: string
  kc_reuse_namespace :: bool
  kc_pull_secret :: string
  kc_in_cluster :: bool
  kc_run_id :: string
  kc_owner_name :: string
  kc_owner_uid :: string
  kc_owner_namespace :: string
  kc_pull_policy :: string
  kc_sha256_hex :: "string \<Rightarrow> string"

definition managed_by_label :: string where
  "managed_by_label = ''app.kubernetes.io/managed-by''"

definition managed_by_value :: string where
  "managed_by_value = ''coinjoin-emulator''"

definition k8s_run_id_label :: string where
  "k8s_run_id_label = ''coinjoin.run-id''"

definition max_resource_name_length :: nat where
  "max_resource_name_length = 63"

definition run_suffix_length :: nat where
  "run_suffix_length = 16"

definition resource_labels :: "k8s_config \<Rightarrow> string \<Rightarrow> (string \<times> string) list" where
  "resource_labels c name =
     [(''app'', name), (managed_by_label, managed_by_value)]
     @ (if kc_run_id c \<noteq> [] then [(k8s_run_id_label, kc_run_id c)] else [])"

definition owner_reference :: "k8s_config \<Rightarrow> exn + json option" where
  "owner_reference c =
     (let name = kc_owner_name c; uid = kc_owner_uid c; ns = kc_owner_namespace c
      in if \<not> kc_in_cluster c then Inr None
         else if name = [] \<and> uid = [] \<and> ns = [] then Inr None
         else if name = [] \<or> uid = [] \<or> ns = [] \<or> ns \<noteq> kc_namespace c
         then Inl (Exn KValueError
           ''controller pod ownership requires a complete identity in the emulator namespace'')
         else Inr (Some (JDict [(''apiVersion'', JStr ''v1''), (''kind'', JStr ''Pod''),
           (''name'', JStr name), (''uid'', JStr uid)])))"

definition resource_name :: "k8s_config \<Rightarrow> string \<Rightarrow> string" where
  "resource_name c name =
     (if \<not> (kc_reuse_namespace c \<and> kc_run_id c \<noteq> []) then name
      else take (max_resource_name_length - run_suffix_length - 1) name @ ''-''
           @ take run_suffix_length (kc_sha256_hex c (kc_run_id c)))"

definition service_selector :: "k8s_config \<Rightarrow> string \<Rightarrow> (string \<times> string) list" where
  "service_selector c name =
     (''app'', name) # (if kc_run_id c \<noteq> [] then [(k8s_run_id_label, kc_run_id c)] else [])"

definition str_pairs :: "(string \<times> string) list \<Rightarrow> json" where
  "str_pairs kvs = JDict (map (\<lambda>(k, v). (k, JStr v)) kvs)"

definition resource_metadata :: "k8s_config \<Rightarrow> string \<Rightarrow> exn + json" where
  "resource_metadata c name =
     ebind (owner_reference c) (\<lambda>owner.
     Inr (JDict ([(''name'', JStr (resource_name c name)), (''labels'', str_pairs (resource_labels c name))]
       @ (case owner of None \<Rightarrow> [] | Some r \<Rightarrow> [(''ownerReferences'', JList [r])]))))"

definition cleanup_selector :: "k8s_config \<Rightarrow> string" where
  "cleanup_selector c =
     managed_by_label @ ''='' @ managed_by_value
     @ (if kc_run_id c \<noteq> [] then '','' @ k8s_run_id_label @ ''='' @ kc_run_id c else [])"

section \<open>Pod manifests\<close>

definition reserved_ports_sysctl :: string where
  "reserved_ports_sysctl = ''net.ipv4.ip_local_reserved_ports''"

definition reserved_port_range :: string where
  "reserved_port_range = ''37127-37260''"

text \<open>\<open>x or {}\<close> followed by \<open>.get\<close>; in the manifests this driver builds these are objects.\<close>

definition sub_dict :: "dict \<Rightarrow> string \<Rightarrow> dict" where
  "sub_dict d k = (case dget d k of JDict x \<Rightarrow> x | _ \<Rightarrow> [])"

fun sysctl_name :: "json \<Rightarrow> json" where
  "sysctl_name (JDict d) = dget d ''name''"
| "sysctl_name _ = JNull"

text \<open>The stripped manifest, or None where the code answers False and leaves it as it was.\<close>

definition strip_reserved_ports_sysctl :: "dict \<Rightarrow> dict option" where
  "strip_reserved_ports_sysctl pod =
     (let spec = sub_dict pod ''spec'';
          security = sub_dict spec ''securityContext'';
          sysctls = (case dget security ''sysctls'' of JList xs \<Rightarrow> xs | _ \<Rightarrow> []);
          remaining = filter (\<lambda>x. sysctl_name x \<noteq> JStr reserved_ports_sysctl) sysctls
      in if length remaining = length sysctls then None
         else if remaining \<noteq> []
         then Some (dset pod ''spec'' (JDict (dset spec ''securityContext''
                (JDict (dset security ''sysctls'' (JList remaining))))))
         else Some (dset pod ''spec'' (JDict (AList.delete ''securityContext'' spec))))"

record host_mount =
  hm_path :: string
  hm_bind :: string
  hm_mode :: string

definition host_path_volumes :: "host_mount list \<Rightarrow> json list \<times> json list" where
  "host_path_volumes volumes =
     (let named = map (\<lambda>(i, m). (''host-volume-'' @ str_nat i, m)) (enumerate 0 volumes)
      in (map (\<lambda>(n, m). JDict [(''name'', JStr n), (''mountPath'', JStr (hm_bind m)),
                (''readOnly'', JBool (hm_mode m = ''ro''))]) named,
          map (\<lambda>(n, m). JDict [(''name'', JStr n), (''hostPath'', JDict [(''path'', JStr (hm_path m)),
                (''type'', JStr ''DirectoryOrCreate'')])]) named))"

text \<open>\<open>f"{memory * 1.5}Mi"\<close> for a number of whole mebibytes.\<close>

definition memory_limit :: "int \<Rightarrow> string" where
  "memory_limit m = str_int (3 * m div 2) @ (if even m then ''.0'' else ''.5'') @ ''Mi''"

record pod_request =
  pr_name :: string
  pr_image :: string
  pr_env :: "(string \<times> string) list"
  pr_ports :: "((int \<times> int) list) option"
  pr_cpu :: rat
  pr_memory :: int
  pr_user :: "int option"
  pr_group :: "int option"
  pr_volumes :: "host_mount list"
  pr_command :: "(string list) option"

definition security_context :: "int option \<Rightarrow> int option \<Rightarrow> json" where
  "security_context user gid =
     JDict ([(''allowPrivilegeEscalation'', JBool False),
             (''capabilities'', JDict [(''drop'', JList [JStr ''ALL''])]),
             (''runAsNonRoot'', JBool True),
             (''seccompProfile'', JDict [(''type'', JStr ''RuntimeDefault'')])]
       @ (case user of None \<Rightarrow> []
          | Some u \<Rightarrow> [(''runAsUser'', JInt u), (''runAsGroup'', JInt (case gid of None \<Rightarrow> u | Some g \<Rightarrow> g))]))"

definition host_aliases :: "k8s_config \<Rightarrow> (string \<times> string) list \<Rightarrow> string \<Rightarrow> json list" where
  "host_aliases c aliases name =
     (if resource_name c name \<noteq> name
      then map (\<lambda>(service, ip). JDict [(''ip'', JStr ip), (''hostnames'', JList [JStr service])]) aliases
      else [])"

definition build_pod_manifest ::
    "k8s_config \<Rightarrow> (string \<times> string) list \<Rightarrow> pod_request \<Rightarrow> exn + dict" where
  "build_pod_manifest c aliases r =
     (let ports = (case pr_ports r of None \<Rightarrow> [] | Some ps \<Rightarrow> ps);
          mounts = fst (host_path_volumes (pr_volumes r));
          pod_volumes = snd (host_path_volumes (pr_volumes r));
          hosts = host_aliases c aliases (pr_name r);
          container = JDict ([(''image'', JStr (pr_image r)), (''imagePullPolicy'', JStr (kc_pull_policy c)),
            (''name'', JStr (resource_name c (pr_name r))),
            (''ports'', JList (map (\<lambda>(p, q). JDict [(''containerPort'', JInt p)]) ports)),
            (''env'', JList (map (\<lambda>(k, v). JDict [(''name'', JStr k), (''value'', JStr v)]) (pr_env r))),
            (''volumeMounts'', JList mounts),
            (''securityContext'', security_context (pr_user r) (pr_group r)),
            (''resources'', JDict [
               (''limits'', JDict [(''cpu'', JFloat (pr_cpu r * (3 / 2))), (''memory'', JStr (memory_limit (pr_memory r)))]),
               (''requests'', JDict [(''cpu'', JFloat (pr_cpu r)), (''memory'', JStr (str_int (pr_memory r) @ ''Mi''))])])]
            @ (case pr_command r of None \<Rightarrow> [] | Some cmd \<Rightarrow> [(''command'', JList (map JStr cmd))]))
      in ebind (resource_metadata c (pr_name r)) (\<lambda>metadata.
         Inr [(''apiVersion'', JStr ''v1''), (''kind'', JStr ''Pod''), (''metadata'', metadata),
              (''spec'', JDict ([(''restartPolicy'', JStr ''Never'')]
                 @ (if hosts \<noteq> [] then [(''hostAliases'', JList hosts)] else [])
                 @ [(''containers'', JList [container]), (''volumes'', JList pod_volumes),
                    (''securityContext'', JDict [(''sysctls'', JList [JDict [
                       (''name'', JStr reserved_ports_sysctl), (''value'', JStr reserved_port_range)]])])]
                 @ (if kc_pull_secret c \<noteq> []
                    then [(''imagePullSecrets'', JList [JDict [(''name'', JStr ''regcred'')]])] else [])))]))"

text \<open>The service of a pod; its ports name the container's port and the port it is reached at.\<close>

definition service_manifest :: "k8s_config \<Rightarrow> string \<Rightarrow> (int \<times> int) list \<Rightarrow> exn + json" where
  "service_manifest c name ports =
     ebind (resource_metadata c name) (\<lambda>metadata.
     Inr (JDict [(''apiVersion'', JStr ''v1''), (''kind'', JStr ''Service''), (''metadata'', metadata),
       (''spec'', JDict [(''type'', JStr ''NodePort''), (''selector'', str_pairs (service_selector c name)),
         (''ports'', JList (map (\<lambda>(target_port, container_port).
            JDict [(''name'', JStr (name @ ''-'' @ str_int container_port)), (''protocol'', JStr ''TCP''),
                   (''port'', JInt container_port), (''targetPort'', JInt target_port)]) ports))])]))"

section \<open>The API\<close>

record container_status =
  cs_name :: string
  cs_waiting :: "(string \<times> string) option"
  cs_running :: bool
  cs_terminated :: "(string \<times> int) option"

record pod_condition =
  pc_type :: string
  pc_status :: string
  pc_reason :: string
  pc_message :: string

record pod_status =
  ps_ip :: string
  ps_node :: string
  ps_phase :: "string option"
  ps_reason :: string
  ps_message :: string
  ps_conditions :: "pod_condition list"
  ps_containers :: "container_status list"

record service_info =
  si_cluster_ip :: string
  si_ports :: "(int \<times> int) list"

text \<open>
  The calls of \<open>CoreV1Api\<close>, with the namespace first; an \<open>ApiException\<close> is \<open>KApi\<close> with its status and
  its body. \<open>ko_backoff\<close> is the decorator of the backoff package, \<open>ko_exec\<close> opens an exec session, and
  the other session calls are its loop: whether it is open, what it wrote to the two outputs, its code
  and its end.
\<close>

record 'w k8s_ops =
  ko_create_namespace :: "string \<Rightarrow> ('w, unit) io"
  ko_delete_namespace :: "string \<Rightarrow> ('w, unit) io"
  ko_namespace_phase :: "string \<Rightarrow> ('w, string) io"
  ko_backoff :: "('w, unit) io \<Rightarrow> ('w, unit) io"
  ko_read_secret_file :: "string \<Rightarrow> ('w, string) io"
  ko_create_secret :: "string \<Rightarrow> string \<Rightarrow> ('w, unit) io"
  ko_replace_secret :: "string \<Rightarrow> string \<Rightarrow> ('w, unit) io"
  ko_create_pod :: "string \<Rightarrow> dict \<Rightarrow> ('w, unit) io"
  ko_pod_status :: "string \<Rightarrow> string \<Rightarrow> ('w, pod_status) io"
  ko_create_service :: "string \<Rightarrow> json \<Rightarrow> ('w, service_info) io"
  ko_read_pod :: "string \<Rightarrow> string \<Rightarrow> ('w, unit) io"
  ko_read_service :: "string \<Rightarrow> string \<Rightarrow> ('w, unit) io"
  ko_delete_pod :: "string \<Rightarrow> string \<Rightarrow> ('w, unit) io"
  ko_delete_service :: "string \<Rightarrow> string \<Rightarrow> ('w, unit) io"
  ko_list_pods :: "string \<Rightarrow> string \<Rightarrow> ('w, string list) io"
  ko_list_services :: "string \<Rightarrow> string \<Rightarrow> ('w, string list) io"
  ko_exec :: "string \<Rightarrow> string \<Rightarrow> string list \<Rightarrow> ('w, unit) io"
  ko_is_open :: "('w, bool) io"
  ko_update :: "('w, string \<times> string) io"
  ko_returncode :: "('w, int option) io"
  ko_close :: "('w, unit) io"
  ko_extract :: "nat list \<Rightarrow> string \<Rightarrow> ('w, unit) io"
  ko_archive :: "string \<Rightarrow> string \<Rightarrow> ('w, nat list) io"
  ko_uuid :: "('w, string) io"
  ko_clock :: "'w \<Rightarrow> rat"
  ko_sleep :: "rat \<Rightarrow> 'w \<Rightarrow> 'w"

text \<open>The driver's own state: whether the namespace was prepared, and the addresses of its services.\<close>

record k8s_state =
  ks_ready :: bool
  ks_aliases :: "(string \<times> string) list"

definition api :: "('w, 'a) io \<Rightarrow> ('w \<times> k8s_state, 'a) io" where
  "api m = (\<lambda>(w, s). case m w of (r, w') \<Rightarrow> (r, (w', s)))"

fun is_api :: "exn \<Rightarrow> bool" where
  "is_api (Exn (KApi _) _) = True"
| "is_api _ = False"

fun api_status :: "exn \<Rightarrow> int" where
  "api_status (Exn (KApi n) _) = n"
| "api_status _ = 0"

section \<open>The namespace\<close>

definition wait_for_active :: "k8s_config \<Rightarrow> 'w k8s_ops \<Rightarrow> ('w, unit) io" where
  "wait_for_active c ops =
     io_bind (ko_namespace_phase ops (kc_namespace c)) (\<lambda>phase.
       if phase \<noteq> ''Active'' then io_raise (Exn KException (''Namespace '' @ kc_namespace c @ '' not Active yet.''))
       else io_ret ())"

definition create_namespace :: "k8s_config \<Rightarrow> 'w k8s_ops \<Rightarrow> ('w, unit) io" where
  "create_namespace c ops =
     io_seq (ko_create_namespace ops (kc_namespace c)) (ko_backoff ops (wait_for_active c ops))"

definition create_image_pull_secret :: "k8s_config \<Rightarrow> 'w k8s_ops \<Rightarrow> ('w, unit) io" where
  "create_image_pull_secret c ops =
     io_catch
       (io_bind (ko_read_secret_file ops (kc_pull_secret c)) (\<lambda>content.
          io_catch (ko_create_secret ops (kc_namespace c) content) is_api
            (\<lambda>e. if api_status e = 409 then ko_replace_secret ops (kc_namespace c) content else io_raise e)))
       is_exception (\<lambda>_. io_ret ())"

text \<open>The cached property: prepared at its first use, and again after a failure.\<close>

definition namespace :: "k8s_config \<Rightarrow> 'w k8s_ops \<Rightarrow> ('w \<times> k8s_state, string) io" where
  "namespace c ops =
     (\<lambda>(w, s). if ks_ready s then (Inr (kc_namespace c), (w, s))
        else io_seq
          (if \<not> kc_reuse_namespace c
           then io_seq (api (create_namespace c ops))
                  (if kc_pull_secret c \<noteq> [] then api (create_image_pull_secret c ops) else io_ret ())
           else io_ret ())
          (\<lambda>(w', s'). (Inr (kc_namespace c), (w', s'\<lparr>ks_ready := True\<rparr>))) (w, s))"

section \<open>Starting a pod\<close>

definition is_sysctl_rejection :: "exn \<Rightarrow> bool" where
  "is_sysctl_rejection e = (api_status e \<in> {400, 403, 422} \<and> contains ''sysctl'' (lower (exn_msg e)))"

definition create_pod ::
    "k8s_config \<Rightarrow> 'w k8s_ops \<Rightarrow> string \<Rightarrow> dict \<Rightarrow> ('w \<times> k8s_state, dict) io" where
  "create_pod c ops name manifest =
     io_catch
       (io_bind (namespace c ops) (\<lambda>ns. io_seq (api (ko_create_pod ops ns manifest)) (io_ret manifest)))
       is_api
       (\<lambda>e. if api_status e = 403 \<and> contains ''exceeded quota'' (lower (exn_msg e))
            then io_bind (namespace c ops) (\<lambda>ns. io_raise (Exn KQuota
              (''Kubernetes quota rejected pod '' @ name @ '' in namespace '' @ ns @ '': '' @ exn_msg e)))
            else if \<not> is_sysctl_rejection e then io_raise e
            else case strip_reserved_ports_sysctl manifest of
                None \<Rightarrow> io_raise e
              | Some stripped \<Rightarrow> io_bind (namespace c ops) (\<lambda>ns.
                  io_seq (api (ko_create_pod ops ns stripped)) (io_ret stripped)))"

text \<open>The reason and message of a terminal pod, those that are there, separated by a space.\<close>

definition status_detail :: "pod_status \<Rightarrow> string" where
  "status_detail st = join_with '' '' (filter (\<lambda>x. x \<noteq> []) [ps_reason st, ps_message st])"

definition str_phase :: "string option \<Rightarrow> string" where
  "str_phase p = (case p of None \<Rightarrow> ''None'' | Some x \<Rightarrow> x)"

definition is_terminal :: "string option \<Rightarrow> bool" where
  "is_terminal p = (p = Some ''Failed'' \<or> p = Some ''Succeeded'')"

definition pod_ip_timeout :: rat where
  "pod_ip_timeout = 1800"

definition pod_ip_step ::
    "k8s_config \<Rightarrow> 'w k8s_ops \<Rightarrow> string \<Rightarrow> rat \<Rightarrow> unit \<Rightarrow> ('w \<times> k8s_state, unit + string) io" where
  "pod_ip_step c ops name deadline u =
     io_bind (namespace c ops) (\<lambda>ns.
     io_bind (api (ko_pod_status ops ns name)) (\<lambda>st.
       if ps_ip st \<noteq> [] then io_ret (Inr (ps_ip st))
       else if is_terminal (ps_phase st)
       then io_raise (Exn KStartupError (''Pod '' @ name @ '' entered terminal phase '' @ str_phase (ps_phase st)
              @ '' before receiving an IP'' @ (if status_detail st \<noteq> [] then '': '' @ status_detail st else [])))
       else (\<lambda>(w, s). if deadline \<le> ko_clock ops w
              then (Inl (Exn KTimeoutError (''Pod '' @ name @ '' did not receive an IP'')), (w, s))
              else (Inr (Inl ()), (w, s)))))"

definition sleeping :: "'w k8s_ops \<Rightarrow> 'w \<times> k8s_state \<Rightarrow> 'w \<times> k8s_state" where
  "sleeping ops = (\<lambda>(w, s). (ko_sleep ops 1 w, s))"

definition wait_for_pod_ip ::
    "nat \<Rightarrow> k8s_config \<Rightarrow> 'w k8s_ops \<Rightarrow> string \<Rightarrow> ('w \<times> k8s_state, string) io" where
  "wait_for_pod_ip fuel c ops name =
     (\<lambda>(w, s). poll_until fuel (pod_ip_step c ops name (ko_clock ops w + pod_ip_timeout)) (sleeping ops) () (w, s))"

section \<open>Deleting\<close>

definition resource_exists :: "('w \<times> k8s_state, unit) io \<Rightarrow> ('w \<times> k8s_state, bool) io" where
  "resource_exists read =
     io_catch (io_seq read (io_ret True)) is_api
       (\<lambda>e. if api_status e = 404 then io_ret False else io_raise e)"

definition stop_wait_timeout :: rat where
  "stop_wait_timeout = 120"

definition gone_step ::
    "k8s_config \<Rightarrow> 'w k8s_ops \<Rightarrow> string \<Rightarrow> unit \<Rightarrow> ('w \<times> k8s_state, unit + unit) io" where
  "gone_step c ops name u =
     io_bind (resource_exists (io_bind (namespace c ops) (\<lambda>ns. api (ko_read_pod ops ns name)))) (\<lambda>pod.
       if pod then io_ret (Inl ())
       else io_bind (resource_exists (io_bind (namespace c ops) (\<lambda>ns. api (ko_read_service ops ns name))))
         (\<lambda>service. io_ret (if service then Inl () else Inr ())))"

definition wait_until_gone ::
    "nat \<Rightarrow> k8s_config \<Rightarrow> 'w k8s_ops \<Rightarrow> string \<Rightarrow> ('w \<times> k8s_state, unit) io" where
  "wait_until_gone fuel c ops name =
     (\<lambda>(w, s). poll_while fuel (\<lambda>(w', s'). ko_clock ops w' < ko_clock ops w + stop_wait_timeout)
        (gone_step c ops name) (sleeping ops) (\<lambda>_. io_ret ()) () (w, s))"

definition delete_resource ::
    "nat \<Rightarrow> k8s_config \<Rightarrow> 'w k8s_ops \<Rightarrow> string \<Rightarrow> ('w \<times> k8s_state, unit) io" where
  "delete_resource fuel c ops name =
     io_seq
       (io_catch
         (io_seq (io_bind (namespace c ops) (\<lambda>ns. api (ko_delete_pod ops ns name)))
                 (io_bind (namespace c ops) (\<lambda>ns. api (ko_delete_service ops ns name))))
         is_exception (\<lambda>_. io_ret ()))
       (wait_until_gone fuel c ops name)"

definition k8s_stop :: "nat \<Rightarrow> k8s_config \<Rightarrow> 'w k8s_ops \<Rightarrow> string \<Rightarrow> ('w \<times> k8s_state, unit) io" where
  "k8s_stop fuel c ops name = delete_resource fuel c ops (resource_name c name)"

section \<open>Running a container\<close>

fun is_startup :: "exn \<Rightarrow> bool" where
  "is_startup (Exn KStartupError _) = True"
| "is_startup _ = False"

text \<open>The start of the pod, which drops the sysctl when the node forbids it.\<close>

definition start_pod ::
    "nat \<Rightarrow> k8s_config \<Rightarrow> 'w k8s_ops \<Rightarrow> string \<Rightarrow> dict \<Rightarrow> ('w \<times> k8s_state, string) io" where
  "start_pod fuel c ops resource manifest =
     io_bind (create_pod c ops resource manifest) (\<lambda>created.
     io_catch (wait_for_pod_ip fuel c ops resource) is_startup
       (\<lambda>e. if \<not> contains ''SysctlForbidden'' (exn_msg e) then io_raise e
            else case strip_reserved_ports_sysctl created of
                None \<Rightarrow> io_raise e
              | Some stripped \<Rightarrow>
                  io_seq (delete_resource fuel c ops resource)
                    (io_seq (create_pod c ops resource stripped) (wait_for_pod_ip fuel c ops resource))))"

definition add_alias :: "string \<Rightarrow> string \<Rightarrow> ('w \<times> k8s_state, unit) io" where
  "add_alias name ip = (\<lambda>(w, s). (Inr (), (w, s\<lparr>ks_aliases := AList.update name ip (ks_aliases s)\<rparr>)))"

text \<open>Without ports the code fails at \<open>ports.items()\<close>, after the pod was started.\<close>

definition ports_of :: "pod_request \<Rightarrow> exn + (int \<times> int) list" where
  "ports_of r = (case pr_ports r of None \<Rightarrow> Inl (Exn KAttributeError ''items'') | Some ps \<Rightarrow> Inr ps)"

definition run_container ::
    "nat \<Rightarrow> k8s_config \<Rightarrow> 'w k8s_ops \<Rightarrow> pod_request \<Rightarrow> ('w \<times> k8s_state, container_endpoint) io" where
  "run_container fuel c ops r =
     (let name = pr_name r; resource = resource_name c name
      in (\<lambda>(w, s).
       io_bind (io_lift (build_pod_manifest c (ks_aliases s) r)) (\<lambda>manifest.
       io_bind (start_pod fuel c ops resource manifest) (\<lambda>ip.
       io_bind (io_lift (ebind (ports_of r) (\<lambda>ports. ebind (service_manifest c name ports) (\<lambda>m. Inr (ports, m)))))
         (\<lambda>(ports, m).
       io_bind (io_bind (namespace c ops) (\<lambda>ns. api (ko_create_service ops ns m))) (\<lambda>service.
       io_seq (if resource \<noteq> name \<and> si_cluster_ip service \<noteq> [] then add_alias name (si_cluster_ip service)
               else io_ret ())
         (if kc_in_cluster c
          then io_bind (namespace c ops) (\<lambda>ns. io_ret (resource @ ''.'' @ ns @ ''.svc.cluster.local'', ports, []))
          else io_ret (ip, si_ports service, [])))))) (w, s)))"

section \<open>Commands in a pod\<close>

definition require_exec_ready :: "k8s_config \<Rightarrow> 'w k8s_ops \<Rightarrow> string \<Rightarrow> ('w \<times> k8s_state, unit) io" where
  "require_exec_ready c ops name =
     io_bind (namespace c ops) (\<lambda>ns.
     io_bind (api (ko_pod_status ops ns name)) (\<lambda>st.
       if ps_node st = [] then io_raise (Exn KRuntimeError (''pod '' @ name @ '' is not scheduled onto a node''))
       else if ps_phase st \<noteq> Some ''Running''
       then io_raise (Exn KRuntimeError (''pod '' @ name @ '' is in phase '' @ str_phase (ps_phase st)
              @ ''; exec requires Running''))
       else io_ret ()))"

definition exec_stream ::
    "k8s_config \<Rightarrow> 'w k8s_ops \<Rightarrow> string \<Rightarrow> string list \<Rightarrow> string \<Rightarrow> ('w \<times> k8s_state, unit) io" where
  "exec_stream c ops name command action =
     io_catch (io_bind (namespace c ops) (\<lambda>ns. api (ko_exec ops ns name command))) is_api
       (\<lambda>e. io_raise (Exn KRuntimeError (''could not '' @ action @ '' on pod '' @ name)))"

definition exec_step ::
    "'w k8s_ops \<Rightarrow> rat \<Rightarrow> string \<Rightarrow> string \<Rightarrow> ('w, string + int option \<times> string) io" where
  "exec_step ops deadline action err =
     io_bind (ko_is_open ops) (\<lambda>still.
       if \<not> still then io_bind (ko_returncode ops) (\<lambda>code. io_ret (Inr (code, err)))
       else (\<lambda>w. if deadline \<le> ko_clock ops w
              then (Inl (Exn KTimeoutError (''Timed out: '' @ action)), w)
              else io_bind (ko_update ops) (\<lambda>(out, e). io_ret (Inl (err @ e))) w))"

text \<open>Each turn of the loop waits in \<open>update\<close>, so nothing sleeps between the turns.\<close>

definition exec_checked ::
    "nat \<Rightarrow> k8s_config \<Rightarrow> 'w k8s_ops \<Rightarrow> string \<Rightarrow> string \<Rightarrow> rat \<Rightarrow> string list \<Rightarrow> ('w \<times> k8s_state, unit) io" where
  "exec_checked fuel c ops name action deadline command =
     io_seq (exec_stream c ops name command action)
       (io_bind (api (io_finally (poll_until fuel (exec_step ops deadline action) (\<lambda>w. w) []) (ko_close ops)))
         (\<lambda>(code, err).
            if (code \<noteq> None \<and> code \<noteq> Some 0) \<or> strip err \<noteq> []
            then io_raise (Exn KRuntimeError (action @ '' failed'' @ (if strip err \<noteq> [] then '': '' @ strip err else [])))
            else io_ret ()))"

definition signal_timeout :: rat where
  "signal_timeout = 120"

definition exec_signal ::
    "nat \<Rightarrow> k8s_config \<Rightarrow> 'w k8s_ops \<Rightarrow> string \<Rightarrow> string \<Rightarrow> string \<Rightarrow> ('w \<times> k8s_state, unit) io" where
  "exec_signal fuel c ops name verb signal =
     (let resource = resource_name c name
      in (\<lambda>(w, s). exec_checked fuel c ops resource (verb @ '' '' @ resource) (ko_clock ops w + signal_timeout)
            [''sh'', ''-c'', ''kill -'' @ signal @ '' -1''] (w, s)))"

definition k8s_pause :: "nat \<Rightarrow> k8s_config \<Rightarrow> 'w k8s_ops \<Rightarrow> string \<Rightarrow> ('w \<times> k8s_state, unit) io" where
  "k8s_pause fuel c ops name = exec_signal fuel c ops name ''pause'' ''STOP''"

definition k8s_unpause :: "nat \<Rightarrow> k8s_config \<Rightarrow> 'w k8s_ops \<Rightarrow> string \<Rightarrow> ('w \<times> k8s_state, unit) io" where
  "k8s_unpause fuel c ops name = exec_signal fuel c ops name ''unpause'' ''CONT''"

text \<open>Reading a file has no deadline: its loop ends only with the session.\<close>

definition peek_step :: "'w k8s_ops \<Rightarrow> string \<Rightarrow> ('w, string + string) io" where
  "peek_step ops out =
     io_bind (ko_is_open ops) (\<lambda>still.
       if \<not> still then io_ret (Inr out)
       else io_bind (ko_update ops) (\<lambda>(o1, e). io_ret (Inl (out @ o1))))"

definition k8s_peek :: "nat \<Rightarrow> k8s_config \<Rightarrow> 'w k8s_ops \<Rightarrow> string \<Rightarrow> string \<Rightarrow> ('w \<times> k8s_state, string) io" where
  "k8s_peek fuel c ops name path =
     (let resource = resource_name c name
      in io_seq (require_exec_ready c ops resource)
        (io_seq (exec_stream c ops resource [''cat'', path] (''read '' @ path))
          (io_bind (api (poll_until fuel (peek_step ops) (\<lambda>w. w) [])) (\<lambda>out.
            io_seq (api (ko_close ops)) (io_ret out)))))"

section \<open>Downloads\<close>

text \<open>Lines, whatever ends them; empty lines are skipped by the caller.\<close>

definition is_line_end :: "char \<Rightarrow> bool" where
  "is_line_end ch = (let n = (of_char ch :: nat) in (10 \<le> n \<and> n \<le> 13) \<or> (28 \<le> n \<and> n \<le> 30) \<or> n = 133)"

fun lines_of :: "string \<Rightarrow> string list" where
  "lines_of [] = [[]]"
| "lines_of (ch # s) =
     (if is_line_end ch then [] # lines_of s
      else (case lines_of s of l # ls \<Rightarrow> (ch # l) # ls | [] \<Rightarrow> [[ch]]))"

definition strip_prefix :: "string \<Rightarrow> string \<Rightarrow> string option" where
  "strip_prefix p s = (if starts_with p s then Some (drop (length p) s) else None)"

definition between :: "string \<Rightarrow> string \<Rightarrow> string \<Rightarrow> bool" where
  "between p q s = (starts_with p s \<and> starts_with (rev q) (rev s) \<and> length p + length q \<le> length s)"

text \<open>
  \<open>BENIGN_TAR_WARNING_RE\<close>: the two warnings of \<open>tar\<close> about files that change or sockets, and its notice
  about leading slashes, with or without a quote before the slash and after it.
\<close>

definition quote_chars :: "char list" where
  "quote_chars = [CHR 0x60, CHR 0x27, CHR 0x22]"

definition drop_quote :: "string \<Rightarrow> string list" where
  "drop_quote s = (case s of ch # r \<Rightarrow> if ch \<in> set quote_chars then [s, r] else [s] | [] \<Rightarrow> [s])"

definition benign_removal :: "string \<Rightarrow> bool" where
  "benign_removal s =
     (case strip_prefix ''tar: Removing leading '' s of
        None \<Rightarrow> False
      | Some r \<Rightarrow> list_ex (\<lambda>a. case strip_prefix ''/'' a of
            None \<Rightarrow> False
          | Some b \<Rightarrow> list_ex (\<lambda>d. d = '' from member names'' \<or> d = '' from hard link targets'') (drop_quote b))
          (drop_quote r))"

definition benign_tar_warning :: "string \<Rightarrow> bool" where
  "benign_tar_warning s =
     (between ''tar: '' '': file changed as we read it'' s \<or> between ''tar: '' '': socket ignored'' s
      \<or> benign_removal s)"

definition check_tar_stderr :: "string \<Rightarrow> string \<Rightarrow> string \<Rightarrow> exn + unit" where
  "check_tar_stderr name src_path err =
     (case find (\<lambda>l. \<not> benign_tar_warning l) (filter (\<lambda>l. l \<noteq> []) (map strip (lines_of err))) of
        None \<Rightarrow> Inr ()
      | Some l \<Rightarrow> Inl (Exn KRuntimeError (''download of '' @ name @ '':'' @ src_path @ '' failed: '' @ l)))"

text \<open>\<open>os.path.split\<close> and \<open>shlex.quote\<close>.\<close>

definition path_split :: "string \<Rightarrow> string \<times> string" where
  "path_split p =
     (let tail = rev (takeWhile (\<lambda>ch. ch \<noteq> CHR ''/'') (rev p));
          head = take (length p - length tail) p;
          bare = rev (dropWhile (\<lambda>ch. ch = CHR ''/'') (rev head))
      in (if bare = [] then head else bare, tail))"

definition download_timeout :: rat where
  "download_timeout = 1800"

definition download_step ::
    "'w k8s_ops \<Rightarrow> rat \<Rightarrow> string \<Rightarrow> spool \<times> string \<Rightarrow> ('w, spool \<times> string + spool \<times> string) io" where
  "download_step ops deadline label se =
     io_bind (ko_is_open ops) (\<lambda>still.
       if \<not> still then io_ret (Inr se)
       else (\<lambda>w. if deadline \<le> ko_clock ops w
              then (Inl (Exn KTimeoutError (''Timed out downloading '' @ label)), w)
              else io_bind (ko_update ops) (\<lambda>(out, e). io_ret (Inl
                     (if out \<noteq> [] then spool_feed out (fst se) else fst se, snd se @ e))) w))"

definition without_last_slash :: "string \<Rightarrow> exn + string" where
  "without_last_slash p =
     (if p = [] then Inl (Exn KIndexError ''string index out of range'')
      else Inr (if last p = CHR ''/'' then butlast p else p))"

definition download_command :: "string \<Rightarrow> string" where
  "download_command src_path =
     (case path_split src_path of (parent, target) \<Rightarrow>
       ''tar cf - -C '' @ shlex_quote parent @ '' '' @ shlex_quote target @ '' | base64 | tr -d ''
       @ [CHR 0x27, CHR 0x5C, CHR ''n'', CHR 0x27])"

definition k8s_download ::
    "nat \<Rightarrow> k8s_config \<Rightarrow> 'w k8s_ops \<Rightarrow> string \<Rightarrow> string \<Rightarrow> string \<Rightarrow> ('w \<times> k8s_state, unit) io" where
  "k8s_download fuel c ops name src_path dst_path =
     (let resource = resource_name c name
      in io_seq (require_exec_ready c ops resource)
        (io_bind (io_lift (without_last_slash src_path)) (\<lambda>src.
         io_seq (exec_stream c ops resource [''sh'', ''-c'', download_command src] (''download '' @ src))
           (\<lambda>(w, s). io_bind (api (io_finally
                (poll_until fuel (download_step ops (ko_clock ops w + download_timeout) (resource @ '':'' @ src))
                  (\<lambda>w. w) (new_spool, [])) (ko_close ops))) (\<lambda>(sp, err).
              io_seq (io_lift (check_tar_stderr resource src err))
                (io_bind (io_lift (spool_finish (resource @ '':'' @ src) sp)) (\<lambda>bytes.
                   api (ko_extract ops bytes dst_path)))) (w, s)))))"

section \<open>Uploads\<close>

definition running_step ::
    "k8s_config \<Rightarrow> 'w k8s_ops \<Rightarrow> string \<Rightarrow> rat \<Rightarrow> unit \<Rightarrow> ('w \<times> k8s_state, unit + unit) io" where
  "running_step c ops name deadline u =
     io_bind (namespace c ops) (\<lambda>ns.
     io_bind (api (ko_pod_status ops ns name)) (\<lambda>st.
       if is_terminal (ps_phase st)
       then io_raise (Exn KStartupError (''Cannot upload to pod '' @ name @ '': terminal phase '' @ str_phase (ps_phase st)))
       else case find (\<lambda>k. cs_terminated k \<noteq> None \<or> (ps_phase st = Some ''Running'' \<and> cs_running k))
              (filter (\<lambda>k. cs_name k = name) (ps_containers st)) of
           Some k \<Rightarrow> if cs_terminated k \<noteq> None
             then io_raise (Exn KStartupError (''Cannot upload to pod '' @ name @ '': container terminated''))
             else io_ret (Inr ())
         | None \<Rightarrow> (\<lambda>(w, s). if deadline \<le> ko_clock ops w
             then (Inl (Exn KTimeoutError (''Timed out waiting to upload to pod '' @ name)), (w, s))
             else (Inr (Inl ()), (w, s)))))"

definition wait_for_running_container ::
    "nat \<Rightarrow> k8s_config \<Rightarrow> 'w k8s_ops \<Rightarrow> string \<Rightarrow> rat \<Rightarrow> ('w \<times> k8s_state, unit) io" where
  "wait_for_running_container fuel c ops name deadline =
     poll_until fuel (running_step c ops name deadline) (sleeping ops) ()"

definition upload_chunk_size :: nat where
  "upload_chunk_size = 16 * 1024"

function chunks_of :: "nat \<Rightarrow> 'a list \<Rightarrow> 'a list list" where
  "chunks_of n xs = (if xs = [] \<or> n = 0 then [] else take n xs # chunks_of n (drop n xs))"
  by pat_completeness auto
termination
  by (relation "measure (\<lambda>(n, xs). length xs)") auto

declare chunks_of.simps [simp del]

definition append_command :: "string \<Rightarrow> string \<Rightarrow> string \<Rightarrow> string list" where
  "append_command redirect chunk remote =
     [''sh'', ''-c'', ''printf '' @ in_quotes ''%s'' @ '' '' @ in_quotes ''$1'' @ '' '' @ redirect
        @ '' '' @ in_quotes ''$2'', ''sh'', chunk, remote]"

definition extract_command :: "string \<Rightarrow> string list" where
  "extract_command remote =
     [''sh'', ''-c'', ''base64 -d '' @ in_quotes ''$1'' @ '' | tar xf - -C /; status=$?; rm -f -- '' @ in_quotes ''$1''
        @ ''; exit '' @ in_quotes ''$status'', ''sh'', remote]"

definition remove_command :: "string \<Rightarrow> string list" where
  "remove_command remote = [''rm'', ''-f'', ''--'', remote]"

definition append_commands :: "nat \<Rightarrow> string \<Rightarrow> string \<Rightarrow> string list list" where
  "append_commands len payload remote =
     map (\<lambda>(i, chunk). append_command (if i = 0 then ''>'' else ''>>'') chunk remote)
       (enumerate 0 (chunks_of len payload))"

definition k8s_upload ::
    "nat \<Rightarrow> k8s_config \<Rightarrow> 'w k8s_ops \<Rightarrow> string \<Rightarrow> string \<Rightarrow> string \<Rightarrow> ('w \<times> k8s_state, unit) io" where
  "k8s_upload fuel c ops name src_path dst_path =
     (let resource = resource_name c name; action = ''upload to '' @ resource @ '':'' @ dst_path
      in (\<lambda>(w, s). let deadline = ko_clock ops w + signal_timeout in
        io_seq (wait_for_running_container fuel c ops resource deadline)
        (io_bind (api (ko_archive ops src_path dst_path)) (\<lambda>bytes.
         io_bind (api (ko_uuid ops)) (\<lambda>uuid.
           let remote = ''/tmp/coinjoin-emulator-upload-'' @ uuid @ ''.b64'';
               exec = exec_checked fuel c ops resource action deadline
           in io_catch
                (io_seq (io_for exec (append_commands upload_chunk_size (b64encode bytes) remote))
                  (exec (extract_command remote)))
                is_exception
                (\<lambda>e. io_seq (io_catch (exec (remove_command remote)) is_exception (\<lambda>_. io_ret ())) (io_raise e)))))
        (w, s)))"

section \<open>State and cleanup\<close>

definition condition_detail :: "pod_condition \<Rightarrow> string list" where
  "condition_detail k =
     (if pc_type k = ''PodScheduled'' \<and> pc_status k = ''False''
      then [''unschedulable: '' @ pc_reason k @ '': '' @ pc_message k] else [])"

definition container_detail :: "container_status \<Rightarrow> string list" where
  "container_detail k =
     (case cs_waiting k of
        Some (reason, message) \<Rightarrow> [''container waiting: '' @ reason @ '': '' @ message]
      | None \<Rightarrow> (case cs_terminated k of
          Some (reason, code) \<Rightarrow> [''container terminated: '' @ reason @ '' (exit code '' @ str_int code @ '')'']
        | None \<Rightarrow> []))"

definition format_pod_status :: "pod_status \<Rightarrow> string option" where
  "format_pod_status st =
     (case ps_phase st of
        None \<Rightarrow> None
      | Some phase \<Rightarrow> Some (join_with ''; ''
          ([''pod phase '' @ phase] @ filter (\<lambda>x. x \<noteq> []) [ps_reason st, ps_message st]
           @ concat (map condition_detail (ps_conditions st)) @ concat (map container_detail (ps_containers st)))))"

definition k8s_container_state ::
    "k8s_config \<Rightarrow> 'w k8s_ops \<Rightarrow> string \<Rightarrow> ('w \<times> k8s_state, string option) io" where
  "k8s_container_state c ops name =
     io_catch (io_bind (namespace c ops) (\<lambda>ns.
        io_bind (api (ko_pod_status ops ns (resource_name c name))) (\<lambda>st. io_ret (format_pod_status st))))
       is_exception (\<lambda>_. io_ret None)"

text \<open>An API error of one deletion is reported and the next resource is taken.\<close>

definition delete_listed :: "(string \<Rightarrow> ('w, unit) io) \<Rightarrow> string list \<Rightarrow> ('w, unit) io" where
  "delete_listed delete names =
     io_for (\<lambda>name. io_catch (delete name) is_api (\<lambda>_. io_ret ())) names"

definition k8s_cleanup :: "k8s_config \<Rightarrow> 'w k8s_ops \<Rightarrow> ('w, unit) io" where
  "k8s_cleanup c ops =
     (let ns = kc_namespace c; managed = cleanup_selector c
      in io_bind (io_catch (io_bind (ko_list_pods ops ns managed) (\<lambda>ps. io_ret (Some ps))) is_api (\<lambda>_. io_ret None))
        (\<lambda>found. case found of
             None \<Rightarrow> io_ret ()
           | Some pods \<Rightarrow>
               io_seq (delete_listed (ko_delete_pod ops ns) pods)
                 (io_bind (ko_list_services ops ns managed) (\<lambda>services.
                   io_seq (delete_listed (ko_delete_service ops ns) services)
                     (if \<not> kc_reuse_namespace c
                      then io_catch (ko_delete_namespace ops ns) is_api (\<lambda>_. io_ret ())
                      else io_ret ())))))"

section \<open>Runs that share a namespace\<close>

lemma resource_name_length:
  "length (resource_name c name) \<le> max_resource_name_length \<or> resource_name c name = name"
  by (auto simp: resource_name_def max_resource_name_length_def run_suffix_length_def)

definition shares_namespace :: "k8s_config \<Rightarrow> bool" where
  "shares_namespace c \<longleftrightarrow> kc_reuse_namespace c \<and> kc_run_id c \<noteq> []
     \<and> run_suffix_length \<le> length (kc_sha256_hex c (kc_run_id c))"

definition run_suffix :: "k8s_config \<Rightarrow> string" where
  "run_suffix c = take run_suffix_length (kc_sha256_hex c (kc_run_id c))"

text \<open>
  Claim C34. In a shared namespace every resource name fits the limit of Kubernetes, runs whose hashed
  run identifiers differ never use one name, and within a run names of up to 46 characters stay apart.
\<close>

theorem runs_share_no_resource_name:
  assumes "shares_namespace c" "shares_namespace c'"
  shows "length (resource_name c n) \<le> max_resource_name_length
    \<and> (run_suffix c \<noteq> run_suffix c' \<longrightarrow> resource_name c n \<noteq> resource_name c' n')
    \<and> (length n \<le> 46 \<longrightarrow> length n' \<le> 46 \<longrightarrow> resource_name c n = resource_name c n' \<longrightarrow> n = n')"
proof -
  have name: "resource_name c n = take 46 n @ ''-'' @ run_suffix c" for n
    using assms(1) by (auto simp: shares_namespace_def resource_name_def run_suffix_def max_resource_name_length_def run_suffix_length_def)
  have name': "resource_name c' n = take 46 n @ ''-'' @ run_suffix c'" for n
    using assms(2) by (auto simp: shares_namespace_def resource_name_def run_suffix_def max_resource_name_length_def run_suffix_length_def)
  have len: "length (run_suffix c) = 16" "length (run_suffix c') = 16"
    using assms by (auto simp: shares_namespace_def run_suffix_def run_suffix_length_def)
  have "run_suffix c = run_suffix c'" if "resource_name c n = resource_name c' n'"
  proof -
    have "(take 46 n @ ''-'') @ run_suffix c = (take 46 n' @ ''-'') @ run_suffix c'"
      using that by (simp add: name name')
    then show ?thesis using len by (subst (asm) append_eq_append_conv) auto
  qed
  moreover have "length (resource_name c n) \<le> max_resource_name_length"
    using len by (simp add: name max_resource_name_length_def)
  moreover have "n = n'" if "length n \<le> 46" "length n' \<le> 46" "resource_name c n = resource_name c n'"
    using that by (simp add: name)
  ultimately show ?thesis by blast
qed

text \<open>Two labelled resources of one run collide when their names agree in the first 46 characters.\<close>

lemma long_names_collide:
  "shares_namespace c \<Longrightarrow> take 46 n = take 46 n' \<Longrightarrow> resource_name c n = resource_name c n'"
  by (auto simp: shares_namespace_def resource_name_def max_resource_name_length_def run_suffix_length_def)

definition labels_match :: "(string \<times> string) list \<Rightarrow> (string \<times> string) list \<Rightarrow> bool" where
  "labels_match selector labels = list_all (\<lambda>(k, v). map_of labels k = Some v) selector"

text \<open>A service selects the pod of its own name and run and no other.\<close>

theorem service_selects_own_pod:
  "labels_match (service_selector c n) (resource_labels c' n') \<longleftrightarrow>
     n = n' \<and> (kc_run_id c = [] \<or> kc_run_id c' = kc_run_id c)"
  by (auto simp: labels_match_def service_selector_def resource_labels_def managed_by_label_def k8s_run_id_label_def)

text \<open>The resources the cleanup of a run asks for.\<close>

definition owned_by :: "k8s_config \<Rightarrow> (string \<times> string) list \<Rightarrow> bool" where
  "owned_by c labels = labels_match
     ((managed_by_label, managed_by_value) # (if kc_run_id c \<noteq> [] then [(k8s_run_id_label, kc_run_id c)] else [])) labels"

lemma owned_labels: "owned_by c (resource_labels c' n) \<longleftrightarrow> kc_run_id c = [] \<or> kc_run_id c' = kc_run_id c"
  by (auto simp: owned_by_def labels_match_def resource_labels_def managed_by_label_def k8s_run_id_label_def)

datatype k8s_kind = PodKind | ServiceKind

text \<open>
  How the API reads a label selector: requirements joined by commas, each a key and a value at its
  first equals sign, all of which the labels must meet.
\<close>

definition selector_terms :: "string \<Rightarrow> (string \<times> string) list" where
  "selector_terms s = map (\<lambda>t. (takeWhile (\<lambda>ch. ch \<noteq> CHR ''='') t, tl (dropWhile (\<lambda>ch. ch \<noteq> CHR ''='') t)))
     (split_on (CHR '','') s)"

definition selects :: "string \<Rightarrow> (string \<times> string) list \<Rightarrow> bool" where
  "selects s labels = labels_match (selector_terms s) labels"

lemma split_on_two: "c \<notin> set a \<Longrightarrow> c \<notin> set b \<Longrightarrow> split_on c (a @ c # b) = [a, b]"
  by (induction a) (auto simp: split_on_id)

lemma selector_terms_cleanup:
  assumes "CHR '','' \<notin> set (kc_run_id c)"
  shows "selector_terms (cleanup_selector c) =
    (managed_by_label, managed_by_value) # (if kc_run_id c \<noteq> [] then [(k8s_run_id_label, kc_run_id c)] else [])"
proof -
  have "CHR '','' \<notin> set (managed_by_label @ ''='' @ managed_by_value)"
    "CHR '','' \<notin> set (k8s_run_id_label @ ''='' @ kc_run_id c)"
    using assms by (simp_all add: managed_by_label_def managed_by_value_def k8s_run_id_label_def)
  then have "split_on (CHR '','') (cleanup_selector c) = (managed_by_label @ ''='' @ managed_by_value)
      # (if kc_run_id c \<noteq> [] then [k8s_run_id_label @ ''='' @ kc_run_id c] else [])"
    using split_on_two [of "CHR '',''" "managed_by_label @ ''='' @ managed_by_value"
        "k8s_run_id_label @ ''='' @ kc_run_id c"]
    by (simp add: cleanup_selector_def split_on_id)
  then show ?thesis
    by (simp add: selector_terms_def managed_by_label_def managed_by_value_def k8s_run_id_label_def)
qed

lemma cleanup_selects_owned:
  "CHR '','' \<notin> set (kc_run_id c) \<Longrightarrow> selects (cleanup_selector c) labels = owned_by c labels"
  by (simp add: selects_def selector_terms_cleanup owned_by_def)

text \<open>
  What the API promises about the resources of a namespace, by kind, name and labels: names are
  unique, listing by any selector changes nothing and answers the names of the resources whose
  labels it selects, and a deletion removes nothing but the named resource, whether it succeeds or
  not.
\<close>

definition cluster_ok ::
    "string \<Rightarrow> 'w k8s_ops \<Rightarrow> ('w \<Rightarrow> k8s_kind \<Rightarrow> string \<Rightarrow> (string \<times> string) list \<Rightarrow> bool) \<Rightarrow> bool" where
  "cluster_ok ns ops has \<longleftrightarrow>
     (\<forall>w k n l l'. has w k n l \<longrightarrow> has w k n l' \<longrightarrow> l = l')
     \<and> (\<forall>s w k n l. (has (snd (ko_list_pods ops ns s w)) k n l = has w k n l)
                  \<and> (has (snd (ko_list_services ops ns s w)) k n l = has w k n l))
     \<and> (\<forall>s w names. fst (ko_list_pods ops ns s w) = Inr names \<longrightarrow>
            set names = {n. \<exists>l. has w PodKind n l \<and> selects s l})
     \<and> (\<forall>s w names. fst (ko_list_services ops ns s w) = Inr names \<longrightarrow>
            set names = {n. \<exists>l. has w ServiceKind n l \<and> selects s l})
     \<and> (\<forall>w m k n l. (k, n) \<noteq> (PodKind, m) \<longrightarrow> has w k n l \<longrightarrow> has (snd (ko_delete_pod ops ns m w)) k n l)
     \<and> (\<forall>w m k n l. (k, n) \<noteq> (ServiceKind, m) \<longrightarrow> has w k n l \<longrightarrow> has (snd (ko_delete_service ops ns m w)) k n l)"

lemma delete_listed_keeps:
  assumes "\<And>w m. m \<in> set names \<Longrightarrow> P w \<Longrightarrow> P (snd (delete m w))"
  shows "P w \<Longrightarrow> P (snd (delete_listed delete names w))"
  using assms
proof (induction names arbitrary: w)
  case (Cons m names)
  obtain r v where r: "delete m w = (r, v)" by fastforce
  have v: "P v" using Cons.prems(2) [of m w] Cons.prems(1) r by simp
  have "P (snd (delete_listed delete names v))" using v Cons.prems(2) by (intro Cons.IH) auto
  then show ?case using r v by (cases r) (auto simp: delete_listed_def io_simps)
qed (simp add: delete_listed_def io_ret_def)

text \<open>
  Claim C33. In a shared namespace the cleanup removes no pod and no service that does not carry the
  labels of its own run, however its API calls fail: its selector, as the API reads it, selects
  exactly the managed resources with the run's identifier, which no other run has. (Run identifiers
  have no comma, which \<open>run_id_has_no_comma\<close> shows of those \<open>manager.py\<close> accepts.)
\<close>

theorem cleanup_spares_other_runs:
  assumes ok: "cluster_ok (kc_namespace c) ops has" and shared: "kc_reuse_namespace c"
    and id: "CHR '','' \<notin> set (kc_run_id c)"
    and other: "has w k n l" "\<not> owned_by c l"
  shows "has (snd (k8s_cleanup c ops w)) k n l"
proof -
  note ok' = ok [unfolded cluster_ok_def]
  have listed: "\<exists>l. has v PodKind m l \<and> owned_by c l"
    if "fst (ko_list_pods ops (kc_namespace c) (cleanup_selector c) v) = Inr names" "m \<in> set names" for v m names
    using ok' [THEN conjunct2, THEN conjunct2, THEN conjunct1, rule_format, OF that(1)] that(2)
      cleanup_selects_owned [OF id] by auto
  have listed': "\<exists>l. has v ServiceKind m l \<and> owned_by c l"
    if "fst (ko_list_services ops (kc_namespace c) (cleanup_selector c) v) = Inr names" "m \<in> set names" for v m names
    using ok' [THEN conjunct2, THEN conjunct2, THEN conjunct2, THEN conjunct1, rule_format, OF that(1)] that(2)
      cleanup_selects_owned [OF id] by auto
  obtain r w1 where lp: "ko_list_pods ops (kc_namespace c) (cleanup_selector c) w = (r, w1)" by fastforce
  have h1: "has w1 k n l" using ok' other(1) lp by (metis snd_conv)
  show ?thesis
  proof (cases r)
    case (Inl e)
    then show ?thesis using lp h1 by (auto simp: k8s_cleanup_def Let_def io_simps)
  next
    case (Inr pods)
    have pods: "(k, n) \<noteq> (PodKind, m)" if "m \<in> set pods" for m
      using listed [of w pods m] ok' other lp Inr that by (metis Pair_inject fst_conv)
    obtain d w2 where dp: "delete_listed (ko_delete_pod ops (kc_namespace c)) pods w1 = (d, w2)" by fastforce
    have h2: "has w2 k n l"
      using delete_listed_keeps [of pods "\<lambda>w. has w k n l" "ko_delete_pod ops (kc_namespace c)" w1] pods ok' h1 dp
      by (metis snd_conv)
    obtain q w3 where ls: "ko_list_services ops (kc_namespace c) (cleanup_selector c) w2 = (q, w3)" by fastforce
    have h3: "has w3 k n l" using ok' h2 ls by (metis snd_conv)
    have "has (snd (delete_listed (ko_delete_service ops (kc_namespace c)) services w3)) k n l" if "q = Inr services" for services
    proof -
      have "(k, n) \<noteq> (ServiceKind, m)" if "m \<in> set services" for m
        using listed' [of w2 services m] ok' other(2) h2 ls \<open>q = Inr services\<close> that by (metis Pair_inject fst_conv)
      then show ?thesis
        using delete_listed_keeps [of services "\<lambda>w. has w k n l" "ko_delete_service ops (kc_namespace c)" w3] ok' h3
        by metis
    qed
    then show ?thesis
      using lp Inr dp ls h2 h3 shared
      by (auto simp: k8s_cleanup_def Let_def io_simps split: sum.splits prod.splits)
  qed
qed

section \<open>An example\<close>

text \<open>A cluster that holds its resources by kind and name, and forgets everything else it is told.\<close>

type_synonym listed_cluster = "((k8s_kind \<times> string) \<times> (string \<times> string) list) list"

definition remove_resource :: "k8s_kind \<Rightarrow> string \<Rightarrow> (listed_cluster, unit) io" where
  "remove_resource k n = (\<lambda>w. (if (k, n) \<in> fst ` set w then Inr () else Inl (Exn (KApi 404) n), AList.delete (k, n) w))"

definition listed_ops :: "listed_cluster k8s_ops" where
  "listed_ops = \<lparr>ko_create_namespace = (\<lambda>ns. io_ret ()), ko_delete_namespace = (\<lambda>ns. io_ret ()),
     ko_namespace_phase = (\<lambda>ns. io_ret ''Active''), ko_backoff = (\<lambda>m. m),
     ko_read_secret_file = (\<lambda>p. io_ret []), ko_create_secret = (\<lambda>ns x. io_ret ()),
     ko_replace_secret = (\<lambda>ns x. io_ret ()), ko_create_pod = (\<lambda>ns m. io_ret ()),
     ko_pod_status = (\<lambda>ns n. io_ret \<lparr>ps_ip = ''10.0.0.1'', ps_node = ''n'', ps_phase = Some ''Running'',
        ps_reason = [], ps_message = [], ps_conditions = [], ps_containers = []\<rparr>),
     ko_create_service = (\<lambda>ns m. io_ret \<lparr>si_cluster_ip = [], si_ports = []\<rparr>),
     ko_read_pod = (\<lambda>ns n w. (if (PodKind, n) \<in> fst ` set w then Inr () else Inl (Exn (KApi 404) n), w)),
     ko_read_service = (\<lambda>ns n w. (if (ServiceKind, n) \<in> fst ` set w then Inr () else Inl (Exn (KApi 404) n), w)),
     ko_delete_pod = (\<lambda>ns. remove_resource PodKind), ko_delete_service = (\<lambda>ns. remove_resource ServiceKind),
     ko_list_pods = (\<lambda>ns sel w. (Inr [n. ((k, n), l) \<leftarrow> w, k = PodKind, map_of w (k, n) = Some l, selects sel l], w)),
     ko_list_services = (\<lambda>ns sel w. (Inr [n. ((k, n), l) \<leftarrow> w, k = ServiceKind, map_of w (k, n) = Some l, selects sel l], w)),
     ko_exec = (\<lambda>ns n cmd. io_ret ()), ko_is_open = io_ret False, ko_update = io_ret ([], []),
     ko_returncode = io_ret None, ko_close = io_ret (), ko_extract = (\<lambda>b p. io_ret ()),
     ko_archive = (\<lambda>a b. io_ret []), ko_uuid = io_ret [], ko_clock = (\<lambda>w. 0), ko_sleep = (\<lambda>d w. w)\<rparr>"

definition listed_has :: "listed_cluster \<Rightarrow> k8s_kind \<Rightarrow> string \<Rightarrow> (string \<times> string) list \<Rightarrow> bool" where
  "listed_has w k n l = (map_of w (k, n) = Some l)"

lemma listed_names:
  "n \<in> set [n. ((k, n), l) \<leftarrow> w, k = k', map_of w (k, n) = Some l, selects sel l] \<longleftrightarrow>
     (\<exists>l. map_of w (k', n) = Some l \<and> selects sel l)"
proof
  assume "\<exists>l. map_of w (k', n) = Some l \<and> selects sel l"
  then obtain l where l: "map_of w (k', n) = Some l" "selects sel l" by blast
  then have "((k', n), l) \<in> set w" by (blast dest: map_of_SomeD)
  then show "n \<in> set [n. ((k, n), l) \<leftarrow> w, k = k', map_of w (k, n) = Some l, selects sel l]"
    using l by force
qed (auto split: if_splits)

lemma listed_cluster_ok: "cluster_ok ns listed_ops listed_has"
proof -
  have "set names = {n. \<exists>l. listed_has w PodKind n l \<and> selects s l}"
    if "fst (ko_list_pods listed_ops ns s w) = Inr names" for s w names
    using that listed_names [where w = w and k' = PodKind and sel = s] by (auto simp: listed_ops_def listed_has_def simp del: set_concat)
  moreover have "set names = {n. \<exists>l. listed_has w ServiceKind n l \<and> selects s l}"
    if "fst (ko_list_services listed_ops ns s w) = Inr names" for s w names
    using that listed_names [where w = w and k' = ServiceKind and sel = s] by (auto simp: listed_ops_def listed_has_def simp del: set_concat)
  ultimately show ?thesis
    unfolding cluster_ok_def
    by (auto simp: listed_has_def)
      (auto simp: listed_ops_def remove_resource_def delete_conv' split: if_splits)
qed

definition example_k8s :: "string \<Rightarrow> k8s_config" where
  "example_k8s run_id = \<lparr>kc_namespace = ''coinjoin'', kc_reuse_namespace = True, kc_pull_secret = [], kc_in_cluster = False,
     kc_run_id = run_id, kc_owner_name = [], kc_owner_uid = [], kc_owner_namespace = [],
     kc_pull_policy = ''Always'', kc_sha256_hex = (\<lambda>s. concat (replicate 16 s))\<rparr>"

text \<open>The cleanup of one of two runs that share the namespace.\<close>

definition two_runs :: listed_cluster where
  "two_runs = [((PodKind, ''btc-a''), resource_labels (example_k8s ''a'') ''btc''),
     ((ServiceKind, ''btc-a''), resource_labels (example_k8s ''a'') ''btc''),
     ((PodKind, ''btc-b''), resource_labels (example_k8s ''b'') ''btc'')]"

theorem cleanup_spares_other_runs_witness:
  "map fst (snd (k8s_cleanup (example_k8s ''a'') listed_ops two_runs)) = [(PodKind, ''btc-b'')]
   \<and> listed_has (snd (k8s_cleanup (example_k8s ''a'') listed_ops two_runs))
       PodKind ''btc-b'' (resource_labels (example_k8s ''b'') ''btc'')"
proof
  show "map fst (snd (k8s_cleanup (example_k8s ''a'') listed_ops two_runs)) = [(PodKind, ''btc-b'')]"
    by code_simp
  show "listed_has (snd (k8s_cleanup (example_k8s ''a'') listed_ops two_runs))
       PodKind ''btc-b'' (resource_labels (example_k8s ''b'') ''btc'')"
    by (rule cleanup_spares_other_runs [OF listed_cluster_ok])
      (simp_all add: example_k8s_def listed_has_def two_runs_def owned_labels)
qed

theorem runs_share_no_resource_name_witness:
  "resource_name (example_k8s ''a'') ''btc-node'' \<noteq> resource_name (example_k8s ''b'') ''btc-node''"
proof -
  have "shares_namespace (example_k8s ''a'')" "shares_namespace (example_k8s ''b'')"
    "run_suffix (example_k8s ''a'') \<noteq> run_suffix (example_k8s ''b'')" by code_simp+
  then show ?thesis using runs_share_no_resource_name by blast
qed

section \<open>Deletion and waiting\<close>

lemma delete_missing_pod:
  assumes "ks_ready s" and "ko_delete_pod x (kc_namespace c) name w = (Inl (Exn (KApi 404) m), w')"
  shows "delete_resource fuel c x name (w, s) = wait_until_gone fuel c x name (w', s)"
  using assms by (simp add: delete_resource_def io_simps namespace_def api_def)

text \<open>
  A pod that is already gone makes the deletion of its service be skipped: whatever deleting the
  service would have done, the run is the same, and the wait may last its whole two minutes.
\<close>

theorem missing_pod_keeps_service:
  assumes ready: "ks_ready s" and gone: "ko_delete_pod ops (kc_namespace c) name w = (Inl (Exn (KApi 404) m), w')"
  shows "delete_resource fuel c (ops\<lparr>ko_delete_service := f\<rparr>) name (w, s) = delete_resource fuel c ops name (w, s)"
proof -
  let ?x = "ops\<lparr>ko_delete_service := f\<rparr>"
  have ns: "namespace c ?x = namespace c ops"
    by (simp add: namespace_def create_namespace_def wait_for_active_def create_image_pull_secret_def fun_eq_iff cong: if_cong)
  have "wait_until_gone fuel c ?x name = wait_until_gone fuel c ops name"
    by (simp add: wait_until_gone_def gone_step_def [abs_def] ns sleeping_def cong: if_cong)
  then show ?thesis
    using delete_missing_pod [OF ready, of ?x c name w m w' fuel] delete_missing_pod [OF ready gone] gone by simp
qed

text \<open>
  API calls return, a call never turns the clock back, and a pause of a second moves it on by one.
\<close>

definition k8s_clock :: "'w k8s_ops \<Rightarrow> 'w \<times> k8s_state \<Rightarrow> rat" where
  "k8s_clock ops = (\<lambda>(w, s). ko_clock ops w)"

definition api_returns :: "k8s_config \<Rightarrow> 'w k8s_ops \<Rightarrow> bool" where
  "api_returns c ops \<longleftrightarrow>
     (\<forall>ns n. timely (ko_clock ops) (ko_pod_status ops ns n) \<and> timely (ko_clock ops) (ko_read_pod ops ns n)
        \<and> timely (ko_clock ops) (ko_read_service ops ns n) \<and> timely (ko_clock ops) (ko_delete_pod ops ns n)
        \<and> timely (ko_clock ops) (ko_delete_service ops ns n))
     \<and> (\<forall>ns x. timely (ko_clock ops) (ko_create_secret ops ns x) \<and> timely (ko_clock ops) (ko_replace_secret ops ns x))
     \<and> (\<forall>p. timely (ko_clock ops) (ko_read_secret_file ops p))
     \<and> (\<forall>ns. timely (ko_clock ops) (ko_create_namespace ops ns))
     \<and> timely (ko_clock ops) (ko_backoff ops (wait_for_active c ops))
     \<and> (\<forall>w. ko_clock ops w + 1 \<le> ko_clock ops (ko_sleep ops 1 w))"

lemma timely_api: "timely (ko_clock ops) m \<Longrightarrow> timely (k8s_clock ops) (api m)"
  by (rule timelyI) (auto simp: api_def k8s_clock_def dest: timelyD split: prod.splits)

lemma timely_namespace:
  assumes "api_returns c ops" shows "timely (k8s_clock ops) (namespace c ops)"
proof (rule timelyI, clarify)
  fix w s r w' s'
  assume run: "namespace c ops (w, s) = (r, w', s')"
  have secret: "timely (ko_clock ops) (create_image_pull_secret c ops)"
    using assms unfolding create_image_pull_secret_def api_returns_def
    by (intro timely_intros) (auto intro!: timely_intros simp: not_diverged_exception elim: is_api.elims)
  let ?m = "io_seq (if \<not> kc_reuse_namespace c
      then io_seq (api (create_namespace c ops)) (if kc_pull_secret c \<noteq> [] then api (create_image_pull_secret c ops) else io_ret ())
      else io_ret ()) (\<lambda>(w', s'). (Inr (kc_namespace c), (w', s'\<lparr>ks_ready := True\<rparr>)))"
  have "timely (ko_clock ops) (create_namespace c ops)"
    using assms unfolding create_namespace_def api_returns_def by (intro timely_intros) auto
  moreover have "timely (k8s_clock ops) (\<lambda>(w', s'). (Inr (kc_namespace c), (w', s'\<lparr>ks_ready := True\<rparr>)))"
    by (rule timelyI) (auto simp: k8s_clock_def)
  ultimately have m: "timely (k8s_clock ops) ?m"
    using secret by (intro timely_intros timely_api)
  show "\<not> diverged r \<and> k8s_clock ops (w, s) \<le> k8s_clock ops (w', s')"
    using run timelyD [OF m] by (cases "ks_ready s") (auto simp: namespace_def)
qed

text \<open>\<open>n + 1\<close> turns of one second each are enough for both waits.\<close>

lemma sleeping_clock: "api_returns c ops \<Longrightarrow> k8s_clock ops v + 1 \<le> k8s_clock ops (sleeping ops v)"
  by (cases v) (simp add: api_returns_def k8s_clock_def sleeping_def)

lemma timely_deadline:
  "timely (k8s_clock ops) (\<lambda>(w, s). if deadline \<le> ko_clock ops w then (Inl (Exn KTimeoutError m), (w, s)) else (Inr x, (w, s)))"
  by (rule timelyI) (auto simp: k8s_clock_def split: if_splits)

theorem pod_ip_wait_returns:
  assumes ops: "api_returns c ops" and n: "pod_ip_timeout \<le> of_nat n"
  shows "\<not> diverged (fst (wait_for_pod_ip (Suc n) c ops name (w, s)))"
proof -
  let ?deadline = "ko_clock ops w + pod_ip_timeout"
  have pod: "timely (k8s_clock ops) (api (ko_pod_status ops ns name))" for ns
    using ops by (intro timely_api) (simp add: api_returns_def)
  have step: "timely (k8s_clock ops) (pod_ip_step c ops name ?deadline u)" for u
    unfolding pod_ip_step_def by (intro timely_intros timely_namespace [OF ops] pod timely_deadline) simp
  have give_up: "k8s_clock ops v' < ?deadline" if "pod_ip_step c ops name ?deadline u v = (Inr (Inl u'), v')" for u v u' v'
    using that
    by (auto simp: pod_ip_step_def io_bind_Inr_iff io_ret_Inr_iff io_raise_def k8s_clock_def split: if_splits)
  obtain r v' where run: "poll_until (Suc n) (pod_ip_step c ops name ?deadline) (sleeping ops) () (w, s) = (r, v')"
    by (metis surj_pair)
  have "?deadline \<le> k8s_clock ops (w, s) + 1 * of_nat n" using n by (simp add: k8s_clock_def)
  then have "\<not> diverged r"
    using poll_until_returns [of "k8s_clock ops", OF step give_up sleeping_clock [OF ops] _ _ run] by simp
  then show ?thesis using run by (simp add: wait_for_pod_ip_def)
qed

theorem stop_returns:
  assumes ops: "api_returns c ops" and n: "stop_wait_timeout \<le> of_nat n"
  shows "\<not> diverged (fst (k8s_stop (Suc n) c ops name (w, s)))"
proof -
  let ?r = "resource_name c name"
  have exists_timely: "timely (k8s_clock ops) (resource_exists m)" if "timely (k8s_clock ops) m" for m
    unfolding resource_exists_def using that by (intro timely_intros) simp
  have step: "timely (k8s_clock ops) (gone_step c ops ?r u)" for u
    unfolding gone_step_def using ops
    by (intro timely_intros exists_timely timely_namespace timely_api) (simp_all add: api_returns_def)
  have gone: "\<not> diverged (fst (wait_until_gone (Suc n) c ops ?r (v, t)))" for v t
  proof -
    let ?go = "\<lambda>(w', s'). ko_clock ops w' < ko_clock ops v + stop_wait_timeout"
    obtain r v' where run: "poll_while (Suc n) ?go (gone_step c ops ?r) (sleeping ops) (\<lambda>_. io_ret ()) () (v, t) = (r, v')"
      by (metis surj_pair)
    have lim: "ko_clock ops v + stop_wait_timeout \<le> k8s_clock ops (v, t) + 1 * of_nat n" using n by (simp add: k8s_clock_def)
    have below: "?go x \<Longrightarrow> k8s_clock ops x < ko_clock ops v + stop_wait_timeout" for x
      by (cases x) (simp add: k8s_clock_def)
    have "\<not> diverged r \<and> k8s_clock ops (v, t) \<le> k8s_clock ops v'"
      by (rule poll_while_returns [where clock = "k8s_clock ops" and d = 1 and limit = "ko_clock ops v + stop_wait_timeout",
          OF step timely_ret sleeping_clock [OF ops] below lim _ run]) simp_all
    then show ?thesis using run by (simp add: wait_until_gone_def)
  qed
  have del: "timely (k8s_clock ops) (io_catch
         (io_seq (io_bind (namespace c ops) (\<lambda>ns. api (ko_delete_pod ops ns ?r)))
                 (io_bind (namespace c ops) (\<lambda>ns. api (ko_delete_service ops ns ?r))))
         is_exception (\<lambda>_. io_ret ()))"
    using ops by (intro timely_intros timely_namespace timely_api) (simp_all add: api_returns_def)
  obtain q v t where q: "io_catch
         (io_seq (io_bind (namespace c ops) (\<lambda>ns. api (ko_delete_pod ops ns ?r)))
                 (io_bind (namespace c ops) (\<lambda>ns. api (ko_delete_service ops ns ?r))))
         is_exception (\<lambda>_. io_ret ()) (w, s) = (q, (v, t))" by (metis prod_cases3)
  show ?thesis
    using timelyD [OF del q] gone [of v t] unfolding k8s_stop_def delete_resource_def io_seq_def [of "io_catch _ _ _"]
      io_bind_def [of "io_catch _ _ _"] q by (cases q) auto
qed

section \<open>Uploads reach the pod whole\<close>

lemma chunks_concat: "0 < n \<Longrightarrow> concat (chunks_of n xs) = xs"
  by (induction n xs rule: chunks_of.induct) (subst chunks_of.simps, auto)

lemma chunks_bounded: "ch \<in> set (chunks_of n xs) \<Longrightarrow> length ch \<le> n"
  by (induction n xs rule: chunks_of.induct) (subst (asm) (2) chunks_of.simps, auto split: if_splits)

text \<open>What the shell does to the staged file: the first append truncates it, the others extend it.\<close>

definition stage :: "string list \<Rightarrow> string option \<Rightarrow> string option" where
  "stage command staged =
     (let script = command ! 2; chunk = command ! 4
      in if command = append_command ''>'' chunk (command ! 5) then Some chunk
         else if command = append_command ''>>'' chunk (command ! 5)
         then Some ((case staged of None \<Rightarrow> [] | Some x \<Rightarrow> x) @ chunk)
         else staged)"

lemma stage_append:
  "stage (append_command ''>'' ch remote) st = Some ch"
  "stage (append_command ''>>'' ch remote) (Some x) = Some (x @ ch)"
  by (simp_all add: stage_def append_command_def)

lemma stage_rest:
  "fold stage (map (\<lambda>(i, ch). append_command (if i = 0 then ''>'' else ''>>'') ch remote) (enumerate (Suc k) cs)) (Some x)
     = Some (x @ concat cs)"
  by (induction cs arbitrary: k x) (simp_all add: stage_append)

theorem upload_stages_whole_archive:
  assumes "bytes \<noteq> []" "\<forall>b\<in>set bytes. b < 256"
  shows "\<exists>text. fold stage (append_commands upload_chunk_size (b64encode bytes) remote) None = Some text
    \<and> b64decode text = Some bytes"
proof -
  let ?cs = "chunks_of upload_chunk_size (b64encode bytes)"
  have "b64encode bytes \<noteq> []" using assms(1) by (simp add: encode_empty)
  then obtain ch cs where cs: "?cs = ch # cs"
    by (cases ?cs) (subst (asm) chunks_of.simps, auto simp: upload_chunk_size_def)
  have "fold stage (append_commands upload_chunk_size (b64encode bytes) remote) None = Some (concat ?cs)"
    unfolding append_commands_def cs by (simp add: stage_append stage_rest del: fold_map)
  then show ?thesis
    using decode_encode [OF assms(2)] chunks_concat [of upload_chunk_size "b64encode bytes"]
    by (simp add: upload_chunk_size_def)
qed

end
