(* ===== verification/Docker.thy ===== *)
theory Docker
  imports Kept
begin

text \<open>
  The container drivers for one machine, \<open>manager/driver/docker.py\<close> and \<open>manager/driver/podman.py\<close>, and
  what \<open>manager/driver/__init__.py\<close> gives them: the labels of a run, the check of reserved ports, the
  owner of uploaded files. The two container libraries and the tar format are the operations of
  \<open>container_api\<close>.
\<close>

section \<open>Labels and ports\<close>

definition managed_label :: string where
  "managed_label = ''coinjoin-emulator.managed''"

definition namespace_label :: string where
  "namespace_label = ''coinjoin-emulator.namespace''"

definition run_id_label :: string where
  "run_id_label = ''coinjoin-emulator.run-id''"

definition managed_labels :: "string \<Rightarrow> string option \<Rightarrow> (string \<times> string) list" where
  "managed_labels namespace rid =
     [(managed_label, ''true''), (namespace_label, namespace)]
     @ (case rid of Some r \<Rightarrow> if r \<noteq> [] then [(run_id_label, r)] else [] | None \<Rightarrow> [])"

definition managed_label_filters :: "string \<Rightarrow> string option \<Rightarrow> string list" where
  "managed_label_filters namespace rid = map (\<lambda>(k, v). k @ ''='' @ v) (managed_labels namespace rid)"

text \<open>Ranges such as \<open>1000,2000-3000\<close>: None is the ValueError of a part that is no number.\<close>

definition parse_range :: "string \<Rightarrow> (int \<times> int) option" where
  "parse_range item =
     (let low = takeWhile (\<lambda>ch. ch \<noteq> CHR ''-'') item; high = drop (length low + 1) item
      in case (parse_int low, parse_int (if high \<noteq> [] then high else low)) of
           (Some l, Some h) \<Rightarrow> Some (l, h) | _ \<Rightarrow> None)"

fun parse_ranges :: "string list \<Rightarrow> (int \<times> int) list option" where
  "parse_ranges [] = Some []"
| "parse_ranges (item # items) =
     (if item = [] then parse_ranges items
      else case (parse_range item, parse_ranges items) of (Some r, Some rs) \<Rightarrow> Some (r # rs) | _ \<Rightarrow> None)"

definition parse_port_ranges :: "string \<Rightarrow> (int \<times> int) list option" where
  "parse_port_ranges text = parse_ranges (split_on (CHR '','') (filter (\<lambda>ch. \<not> is_space ch) text))"

definition service_ports :: "int \<times> int" where
  "service_ports = (37127, 37260)"

text \<open>The warning is due: a local daemon, readable ranges, and none of them holds the service ports.\<close>

definition ports_unreserved :: "string option \<Rightarrow> string option \<Rightarrow> bool" where
  "ports_unreserved daemon_host reserved =
     ((case daemon_host of
        Some h \<Rightarrow> h = [] \<or> starts_with ''unix://'' h
      | None \<Rightarrow> True)
      \<and> (case reserved of
          None \<Rightarrow> False
        | Some text \<Rightarrow> (case parse_port_ranges text of
            None \<Rightarrow> False
          | Some rs \<Rightarrow> \<not> list_ex (\<lambda>(l, h). l \<le> fst service_ports \<and> snd service_ports \<le> h) rs)))"

section \<open>The container library\<close>

record container_run =
  cn_name :: string
  cn_image :: string
  cn_network :: string
  cn_ports :: "(int \<times> int) list"
  cn_env :: "(string \<times> string) list"
  cn_volumes :: "(string \<times> string) list"
  cn_command :: "string list option"
  cn_labels :: "(string \<times> string) list"
  cn_sysctls :: "(string \<times> string) list"

text \<open>
  Operations on a container by its name raise \<open>KApi 404\<close> when there is none. \<open>ca_archive\<close> gives the
  pieces of a tar stream, \<open>ca_extract\<close> unpacks one into a local directory and \<open>ca_member\<close> reads one of
  its files.
\<close>

record 'w container_api =
  ca_get :: "string \<Rightarrow> ('w, unit) io"
  ca_status :: "string \<Rightarrow> ('w, string) io"
  ca_labels :: "string \<Rightarrow> ('w, json) io"
  ca_user :: "string \<Rightarrow> ('w, string) io"
  ca_exec :: "string \<Rightarrow> string list \<Rightarrow> string \<Rightarrow> ('w, int \<times> string) io"
  ca_pause :: "string \<Rightarrow> ('w, unit) io"
  ca_unpause :: "string \<Rightarrow> ('w, unit) io"
  ca_stop :: "string \<Rightarrow> ('w, unit) io"
  ca_remove :: "string \<Rightarrow> ('w, unit) io"
  ca_run :: "container_run \<Rightarrow> ('w, unit) io"
  ca_addresses :: "string \<Rightarrow> ('w, string list) io"
  ca_archive :: "string \<Rightarrow> string \<Rightarrow> ('w, string list) io"
  ca_extract :: "string \<Rightarrow> string \<Rightarrow> ('w, unit) io"
  ca_member :: "string \<Rightarrow> string \<Rightarrow> exn + string"
  ca_tar :: "(int \<times> int) option \<Rightarrow> string \<Rightarrow> string \<Rightarrow> ('w, string) io"
  ca_put_archive :: "string \<Rightarrow> string \<Rightarrow> string \<Rightarrow> ('w, bool) io"
  ca_listed :: "string list \<Rightarrow> ('w, string list) io"
  ca_networks :: "string \<Rightarrow> ('w, string list) io"
  ca_network_get :: "string \<Rightarrow> ('w, unit) io"
  ca_network_create :: "string \<Rightarrow> ('w, unit) io"
  ca_network_remove :: "string \<Rightarrow> ('w, unit) io"
  ca_image_get :: "string \<Rightarrow> ('w, unit) io"

definition is_not_found :: "exn \<Rightarrow> bool" where
  "is_not_found e = (exn_class e = KApi 404)"

fun is_api_error :: "exn \<Rightarrow> bool" where
  "is_api_error (Exn (KApi n) _) = True"
| "is_api_error _ = False"

text \<open>A tar that cannot be read is a TarError, which counts as an \<open>OSError\<close> here.\<close>

definition is_os_or_tar :: "exn \<Rightarrow> bool" where
  "is_os_or_tar e = (exn_class e \<in> {KOSError, KFileNotFound, KTimeoutError, KConnection})"

definition has_image :: "'w container_api \<Rightarrow> string \<Rightarrow> ('w, bool) io" where
  "has_image api name = io_catch (io_seq (ca_image_get api name) (io_ret True)) is_not_found (\<lambda>_. io_ret False)"

text \<open>\<open>{RESERVED_PORTS_SYSCTL: RESERVED_PORT_RANGE}\<close>\<close>

definition reserved_sysctl :: "(string \<times> string) list" where
  "reserved_sysctl = [(''net.ipv4.ip_local_reserved_ports'', ''37127-37260'')]"

section \<open>The owner of uploaded files\<close>

definition container_id :: "'w container_api \<Rightarrow> string \<Rightarrow> string \<Rightarrow> string \<Rightarrow> ('w, int option) io" where
  "container_id api name user flag =
     io_bind (ca_exec api name [''id'', flag] user) (\<lambda>(code, out).
       if code = 0
       then io_lift (case parse_int (strip out) of None \<Rightarrow> Inl (Exn KValueError out) | Some n \<Rightarrow> Inr (Some n))
       else io_ret None)"

text \<open>Reading the configured user is outside the \<open>try\<close>.\<close>

definition container_user_ids :: "'w container_api \<Rightarrow> string \<Rightarrow> ('w, (int \<times> int) option) io" where
  "container_user_ids api name =
     io_bind (ca_user api name) (\<lambda>user.
       io_catch
         (io_bind (container_id api name user ''-u'') (\<lambda>u. io_bind (container_id api name user ''-g'') (\<lambda>g.
            io_ret (case (u, g) of (Some a, Some b) \<Rightarrow> Some (a, b) | _ \<Rightarrow> None))))
         is_exception (\<lambda>_. io_ret None))"

definition upload_archive :: "'w container_api \<Rightarrow> string \<Rightarrow> string \<Rightarrow> string \<Rightarrow> ('w, string) io" where
  "upload_archive api name src_path dst_path =
     io_bind (container_user_ids api name) (\<lambda>owner.
       ca_tar api owner src_path (last (split_on (CHR ''/'') dst_path)))"

definition dirname :: "string \<Rightarrow> string" where
  "dirname p =
     (let tail = rev (takeWhile (\<lambda>ch. ch \<noteq> CHR ''/'') (rev p));
          head = take (length p - length tail) p;
          bare = rev (dropWhile (\<lambda>ch. ch = CHR ''/'') (rev head))
      in if bare = [] then head else bare)"

section \<open>Docker\<close>

record driver_config =
  dc_namespace :: string
  dc_run_id :: "string option"

text \<open>The network is made when it is first used; \<open>network\<close> is then its name.\<close>

definition docker_run ::
    "driver_config \<Rightarrow> 'w container_api \<Rightarrow> string \<Rightarrow> string \<Rightarrow> string \<Rightarrow> (string \<times> string) list \<Rightarrow> (int \<times> int) list
       \<Rightarrow> (string \<times> string) list \<Rightarrow> string list option \<Rightarrow> ('w, string \<times> (int \<times> int) list) io" where
  "docker_run c api network name image_name env ports volumes command =
     io_seq (ca_run api \<lparr>cn_name = name, cn_image = image_name, cn_network = network, cn_ports = ports, cn_env = env,
       cn_volumes = volumes, cn_command = command, cn_labels = managed_labels (dc_namespace c) (dc_run_id c),
       cn_sysctls = reserved_sysctl\<rparr>) (io_ret (name, ports))"

definition docker_container_state :: "'w container_api \<Rightarrow> string \<Rightarrow> ('w, string option) io" where
  "docker_container_state api name =
     io_catch (io_catch (io_bind (ca_status api name) (\<lambda>s. io_ret (Some s))) is_not_found (\<lambda>_. io_ret (Some ''gone'')))
       is_api_error (\<lambda>_. io_ret None)"

definition docker_stop :: "'w container_api \<Rightarrow> string \<Rightarrow> ('w, unit) io" where
  "docker_stop api name =
     io_catch (io_seq (ca_get api name) (io_seq (ca_stop api name) (ca_remove api name))) is_not_found (\<lambda>_. io_ret ())"

definition stop_many :: "(string \<Rightarrow> ('w, unit) io) \<Rightarrow> string list \<Rightarrow> ('w, unit) io" where
  "stop_many stop names = io_pool stop names"

text \<open>
  A running container is paused while its archive is read, and resumed on every path; a container that
  is not running, one that is already paused included, is left alone.
\<close>

definition docker_read :: "'w container_api \<Rightarrow> string \<Rightarrow> string \<Rightarrow> string \<Rightarrow> ('w, unit) io" where
  "docker_read api name src_path dst_path =
     io_bind (ca_archive api name src_path) (\<lambda>pieces. ca_extract api (concat pieces) dst_path)"

definition or_failed :: "string \<Rightarrow> ('w, 'a) io \<Rightarrow> ('w, 'a) io" where
  "or_failed text m = io_catch m (\<lambda>e. is_api_error e \<or> is_os_or_tar e)
     (\<lambda>e. io_raise (Exn KRuntimeError (text @ exn_msg e)))"

definition pause_if_running :: "'w container_api \<Rightarrow> string \<Rightarrow> ('w, bool) io" where
  "pause_if_running api name =
     io_bind (ca_status api name) (\<lambda>status.
       if status = ''running'' then io_seq (ca_pause api name) (io_ret True) else io_ret False)"

definition docker_download :: "'w container_api \<Rightarrow> string \<Rightarrow> string \<Rightarrow> string \<Rightarrow> ('w, unit) io" where
  "docker_download api name src_path dst_path =
     (let text = ''Failed to download '' @ name @ '':'' @ src_path @ '' to '' @ dst_path @ '': '';
          body = or_failed text (docker_read api name src_path dst_path)
      in io_bind (or_failed text (pause_if_running api name)) (\<lambda>paused.
           if paused then io_finally body (ca_unpause api name) else body))"

definition freeze_with :: "string \<Rightarrow> (string \<Rightarrow> ('w, unit) io) \<Rightarrow> string \<Rightarrow> ('w, unit) io" where
  "freeze_with verb act name =
     io_catch (act name) is_api_error
       (\<lambda>e. io_raise (Exn KRuntimeError (''Failed to '' @ verb @ '' '' @ name @ '': '' @ exn_msg e)))"

definition driver_pause :: "'w container_api \<Rightarrow> string \<Rightarrow> ('w, unit) io" where
  "driver_pause api = freeze_with ''pause'' (ca_pause api)"

definition driver_unpause :: "'w container_api \<Rightarrow> string \<Rightarrow> ('w, unit) io" where
  "driver_unpause api = freeze_with ''unpause'' (ca_unpause api)"

definition driver_peek :: "'w container_api \<Rightarrow> string \<Rightarrow> string \<Rightarrow> ('w, string) io" where
  "driver_peek api name path =
     io_bind (ca_archive api name path) (\<lambda>pieces.
       io_lift (ca_member api (concat pieces) (last (split_on (CHR ''/'') path))))"

definition docker_upload :: "'w container_api \<Rightarrow> string \<Rightarrow> string \<Rightarrow> string \<Rightarrow> ('w, unit) io" where
  "docker_upload api name src_path dst_path =
     io_seq (ca_get api name)
       (io_bind (upload_archive api name src_path dst_path) (\<lambda>bytes.
          io_seq (ca_put_archive api name (dirname dst_path) bytes) (io_ret ())))"

definition docker_cleanup :: "driver_config \<Rightarrow> 'w container_api \<Rightarrow> ('w, unit) io" where
  "docker_cleanup c api =
     io_bind (ca_listed api (managed_label_filters (dc_namespace c) (dc_run_id c))) (\<lambda>names.
     io_seq (stop_many (docker_stop api) names)
       (io_bind (ca_networks api (dc_namespace c)) (io_for (ca_network_remove api))))"

text \<open>Memory in megabytes, its limit and the share in percent; None when the statistics lack one.\<close>

definition memory_usage :: "int option \<Rightarrow> int option \<Rightarrow> (rat \<times> rat \<times> rat) option" where
  "memory_usage used limit =
     (case (used, limit) of
        (Some u, Some l) \<Rightarrow>
          if u = 0 \<or> l = 0 then None
          else Some (of_int u / 1048576, of_int l / 1048576, of_int u / of_int l * 100)
      | _ \<Rightarrow> None)"

section \<open>Podman\<close>

definition podman_network :: "driver_config \<Rightarrow> 'w container_api \<Rightarrow> ('w, string) io" where
  "podman_network c api =
     io_seq (io_catch (ca_network_get api (dc_namespace c)) is_not_found (\<lambda>_. ca_network_create api (dc_namespace c)))
       (io_ret (dc_namespace c))"

definition owned :: "driver_config \<Rightarrow> json \<Rightarrow> bool" where
  "owned c labels =
     (case labels of
        JDict d \<Rightarrow> list_all (\<lambda>(k, v). dget d k = JStr v) (managed_labels (dc_namespace c) (dc_run_id c))
      | _ \<Rightarrow> False)"

definition remove_container :: "driver_config \<Rightarrow> 'w container_api \<Rightarrow> string \<Rightarrow> ('w, unit) io" where
  "remove_container c api name = (\<lambda>w. case ca_get api name w of
     (Inl e, w') \<Rightarrow> if is_not_found e then (Inr (), w') else (Inl e, w')
   | (Inr _, w') \<Rightarrow> io_bind (ca_labels api name) (\<lambda>labels.
       if owned c labels then ca_remove api name
       else io_raise (Exn KRuntimeError (''Refusing to replace container '' @ name))) w')"

definition podman_run ::
    "driver_config \<Rightarrow> 'w container_api \<Rightarrow> string \<Rightarrow> string \<Rightarrow> (string \<times> string) list \<Rightarrow> (int \<times> int) list
       \<Rightarrow> (string \<times> string) list \<Rightarrow> string list option \<Rightarrow> ('w, string \<times> (int \<times> int) list) io" where
  "podman_run c api name image_name env ports volumes command =
     io_seq (remove_container c api name)
    (io_bind (podman_network c api) (\<lambda>network.
     io_seq (ca_run api \<lparr>cn_name = name, cn_image = image_name, cn_network = network, cn_ports = ports, cn_env = env,
       cn_volumes = volumes, cn_command = command, cn_labels = managed_labels (dc_namespace c) (dc_run_id c),
       cn_sysctls = reserved_sysctl\<rparr>)
    (io_bind (ca_addresses api name) (\<lambda>ips.
       case ips of
         ip # _ \<Rightarrow> if ip \<noteq> [] then io_ret (ip, ports)
           else io_raise (Exn KRuntimeError (''Podman container '' @ name @ '' has no network address''))
       | [] \<Rightarrow> io_raise (Exn KRuntimeError (''Podman container '' @ name @ '' has no network address''))))))"

definition podman_download :: "'w container_api \<Rightarrow> string \<Rightarrow> string \<Rightarrow> string \<Rightarrow> ('w, unit) io" where
  "podman_download api name src_path dst_path =
     io_catch (docker_read api name src_path dst_path) (\<lambda>e. is_api_error e \<or> is_os_or_tar e)
       (\<lambda>e. io_raise (Exn KRuntimeError (''Failed to copy '' @ name @ '':'' @ src_path @ '' to '' @ dst_path @ '': '' @ exn_msg e)))"

definition podman_upload :: "'w container_api \<Rightarrow> string \<Rightarrow> string \<Rightarrow> string \<Rightarrow> ('w, unit) io" where
  "podman_upload api name src_path dst_path =
     io_seq (ca_get api name)
       (io_bind (upload_archive api name src_path dst_path) (\<lambda>bytes.
        io_bind (ca_put_archive api name (dirname dst_path) bytes) (\<lambda>ok.
          if ok then io_ret ()
          else io_raise (Exn KRuntimeError (''Failed to copy '' @ src_path @ '' to '' @ name @ '':'' @ dst_path)))))"

definition podman_cleanup :: "driver_config \<Rightarrow> 'w container_api \<Rightarrow> ('w, unit) io" where
  "podman_cleanup c api =
     io_bind (ca_listed api (managed_label_filters (dc_namespace c) (dc_run_id c))) (\<lambda>names.
     io_seq (stop_many (docker_stop api) names)
       (io_catch (io_seq (ca_network_get api (dc_namespace c)) (ca_network_remove api (dc_namespace c)))
          is_not_found (\<lambda>_. io_ret ())))"

section \<open>A download leaves containers as frozen as they were\<close>

text \<open>
  What is asked of the daemon: pausing and resuming change the state of that container only, and only
  when they succeed; reading does not; a paused container is not reported as running.
\<close>

definition pause_laws :: "'w container_api \<Rightarrow> ('w \<Rightarrow> string \<Rightarrow> bool) \<Rightarrow> bool" where
  "pause_laws api frozen =
     ((\<forall>n w r w'. ca_pause api n w = (r, w') \<longrightarrow> frozen w' = (if r = Inr () then (frozen w)(n := True) else frozen w))
      \<and> (\<forall>n w r w'. ca_unpause api n w = (r, w') \<longrightarrow> frozen w' = (if r = Inr () then (frozen w)(n := False) else frozen w))
      \<and> (\<forall>n w r w'. ca_status api n w = (r, w') \<longrightarrow> frozen w' = frozen w \<and> (r = Inr ''running'' \<longrightarrow> \<not> frozen w n))
      \<and> (\<forall>n p w r w'. ca_archive api n p w = (r, w') \<longrightarrow> frozen w' = frozen w)
      \<and> (\<forall>b p w r w'. ca_extract api b p w = (r, w') \<longrightarrow> frozen w' = frozen w))"

lemma pause_lawsD:
  assumes "pause_laws api frozen"
  shows "ca_pause api n w = (r, w') \<Longrightarrow> frozen w' = (if r = Inr () then (frozen w)(n := True) else frozen w)"
    "ca_unpause api n w = (r, w') \<Longrightarrow> frozen w' = (if r = Inr () then (frozen w)(n := False) else frozen w)"
    "ca_status api n w = (q, w') \<Longrightarrow> frozen w' = frozen w"
    "ca_status api n w = (Inr ''running'', w') \<Longrightarrow> \<not> frozen w n"
    "ca_archive api n p w = (s, w') \<Longrightarrow> frozen w' = frozen w"
    "ca_extract api b p w = (t, w') \<Longrightarrow> frozen w' = frozen w"
  using assms unfolding pause_laws_def by metis+

lemma docker_read_frozen:
  assumes "pause_laws api frozen" "docker_read api n src dst w = (r, w')"
  shows "frozen w' = frozen w"
proof -
  obtain q w1 where q: "ca_archive api n src w = (q, w1)" by fastforce
  then show ?thesis
    using assms(2) pause_lawsD(5)[OF assms(1) q] pause_lawsD(6)[OF assms(1)]
    by (cases q) (auto simp: docker_read_def io_bind_def)
qed

lemma or_failed_world:
  "or_failed text m w = (r, w') \<Longrightarrow> \<exists>q. m w = (q, w') \<and> (\<forall>x. r = Inr x \<longleftrightarrow> q = Inr x)"
  by (auto simp: or_failed_def io_catch_def io_raise_def split: prod.splits sum.splits if_splits)

lemma pause_if_running_frozen:
  assumes "pause_laws api frozen" "pause_if_running api n w = (q, w')"
  shows "frozen w' = (if q = Inr True then (frozen w)(n := True) else frozen w) \<and> (q = Inr True \<longrightarrow> \<not> frozen w n)"
proof -
  obtain s w1 where s: "ca_status api n w = (s, w1)" by fastforce
  note f1 = pause_lawsD(3)[OF assms(1) s]
  show ?thesis
  proof (cases "s = Inr ''running''")
    case True
    obtain r w2 where r: "ca_pause api n w1 = (r, w2)" by fastforce
    then show ?thesis
      using assms(2) s True f1 pause_lawsD(1)[OF assms(1) r] pause_lawsD(4)[OF assms(1)] 
      by (cases r) (auto simp: pause_if_running_def io_bind_def io_seq_def io_ret_def)
  next
    case False
    then show ?thesis
      using assms(2) s f1 by (cases s) (auto simp: pause_if_running_def io_bind_def io_ret_def)
  qed
qed

text \<open>
  However a download ends, every container is as frozen afterwards as it was before; the only exception
  is a daemon that refuses to resume the container the download paused.
\<close>

theorem docker_download_restores_pause:
  assumes laws: "pause_laws api frozen"
    and run: "docker_download api n src dst w = (r, w')"
  shows "frozen w' = frozen w \<or> (\<exists>v e. ca_unpause api n v = (Inl e, w'))"
proof -
  let ?text = "''Failed to download '' @ n @ '':'' @ src @ '' to '' @ dst @ '': ''"
  obtain q w1 where q: "or_failed ?text (pause_if_running api n) w = (q, w1)" by fastforce
  obtain p where p: "pause_if_running api n w = (p, w1)" "\<And>x. q = Inr x \<longleftrightarrow> p = Inr x"
    using or_failed_world[OF q] by blast
  note f1 = pause_if_running_frozen[OF laws p(1)]
  obtain s w2 where s: "or_failed ?text (docker_read api n src dst) w1 = (s, w2)" by fastforce
  have f2: "frozen w2 = frozen w1"
    using or_failed_world[OF s] docker_read_frozen[OF laws] by blast
  consider (raised) e where "q = Inl e" | (idle) "q = Inr False" | (paused) "q = Inr True"
    by (metis (full_types) sum.exhaust)
  then show ?thesis
  proof cases
    case raised
    have "w' = w1" using run q raised by (simp add: docker_download_def io_bind_def Let_def)
    moreover have "p \<noteq> Inr True" using p(2)[of True] raised by simp
    ultimately show ?thesis using f1 by simp
  next
    case idle
    have "w' = w2" using run q s idle by (simp add: docker_download_def io_bind_def Let_def)
    moreover have "p \<noteq> Inr True" using p(2)[of True] idle by simp
    ultimately show ?thesis using f1 f2 by simp
  next
    case paused
    obtain t w3 where t: "ca_unpause api n w2 = (t, w3)" by fastforce
    have w3: "w' = w3"
      using run q s t paused by (cases t) (auto simp: docker_download_def io_bind_def io_finally_def Let_def)
    show ?thesis
    proof (cases t)
      case (Inl e) then show ?thesis using t w3 by blast
    next
      case (Inr u)
      then show ?thesis
        using pause_lawsD(2)[OF laws t] f1 f2 p(2)[of True] paused w3 by (auto simp: fun_upd_idem)
    qed
  qed
qed

section \<open>Whose container it is\<close>

definition label_dict :: "(string \<times> string) list \<Rightarrow> json" where
  "label_dict ls = JDict (map (\<lambda>(k, v). (k, JStr v)) ls)"

text \<open>
  Claim C40. A driver takes a container with the labels of a run for its own exactly when the namespaces
  agree and the driver either works without a run identifier or has the run's: neither another
  namespace nor another run ever owns it.
\<close>

theorem ownership_is_by_namespace_and_run:
  "owned c (label_dict (managed_labels namespace rid)) \<longleftrightarrow>
     dc_namespace c = namespace \<and> (dc_run_id c \<in> {None, Some []} \<or> dc_run_id c = rid)"
  by (auto simp: owned_def label_dict_def managed_labels_def managed_label_def namespace_label_def run_id_label_def
      split: option.splits if_splits)

text \<open>
  A container of that name which is not the run's own makes the start fail before anything is removed.
\<close>

theorem podman_replaces_only_its_own:
  assumes "ca_get api name w = (Inr (), w1)" "ca_labels api name w1 = (Inr labels, w2)" "\<not> owned c labels"
  shows "podman_run c api name img env ports volumes command w
    = (Inl (Exn KRuntimeError (''Refusing to replace container '' @ name)), w2)"
  using assms by (simp add: podman_run_def remove_container_def io_bind_def io_seq_def io_raise_def)

end
