(* ===== verification/ResourceUsage.thy ===== *)
theory ResourceUsage
  imports Kubernetes Docker
begin

text \<open>
  The memory the engine samples during a run: \<open>get_pod_resource_usage\<close> of \<open>manager/driver/kubernetes.py\<close>
  and \<open>manager/driver/docker.py\<close>, and \<open>check_client_resources\<close> of
  \<open>manager/engine/joinmarket_engine.py\<close>. A sample is megabytes used, the limit, and the share in percent.
\<close>

section \<open>Kubernetes\<close>

text \<open>\<open>s.split()\<close> and \<open>s.replace(old, new)\<close>\<close>

function blank_split :: "string \<Rightarrow> string list" where
  "blank_split s =
     (let t = dropWhile is_space s
      in if t = [] then []
         else takeWhile (\<lambda>ch. \<not> is_space ch) t # blank_split (dropWhile (\<lambda>ch. \<not> is_space ch) t))"
  by pat_completeness auto

lemma length_dropWhile_word: "dropWhile P s \<noteq> [] \<Longrightarrow> length (dropWhile (\<lambda>ch. \<not> P ch) (dropWhile P s)) < length s"
proof -
  assume ne: "dropWhile P s \<noteq> []"
  then obtain ch t where t: "dropWhile P s = ch # t" "\<not> P ch"
    using hd_dropWhile[OF ne] by (metis list.collapse)
  have "length (dropWhile (\<lambda>ch. \<not> P ch) t) \<le> length t" by (rule length_dropWhile_le)
  moreover have "length (ch # t) \<le> length s" using length_dropWhile_le[of P s] t(1) by simp
  ultimately show ?thesis using t by simp
qed

termination blank_split
  by (relation "measure length") (auto simp: length_dropWhile_word)

declare blank_split.simps [simp del]

fun replace_all :: "nat \<Rightarrow> string \<Rightarrow> string \<Rightarrow> string \<Rightarrow> string" where
  "replace_all skip old new [] = []"
| "replace_all (Suc skip) old new (ch # s) = replace_all skip old new s"
| "replace_all 0 old new (ch # s) =
     (if starts_with old (ch # s) then new @ replace_all (length old - 1) old new s
      else ch # replace_all 0 old new s)"

text \<open>The first line with a value decides; None when no line has one.\<close>

fun memory_kb :: "string list \<Rightarrow> exn + int option" where
  "memory_kb [] = Inr None"
| "memory_kb (l # ls) =
     (if starts_with ''VmRSS:'' l
      then (case blank_split l of
              a # b # _ \<Rightarrow> (case parse_int b of None \<Rightarrow> Inl (Exn KValueError b) | Some n \<Rightarrow> Inr (Some n))
            | _ \<Rightarrow> memory_kb ls)
      else memory_kb ls)"

definition memory_limit_mb :: "string \<Rightarrow> exn + int" where
  "memory_limit_mb s =
     (let t = replace_all 0 ''Gi'' ''000'' (replace_all 0 ''Mi'' [] s)
      in case parse_int t of None \<Rightarrow> Inl (Exn KValueError t) | Some n \<Rightarrow> Inr n)"

definition pod_sample :: "int \<Rightarrow> int \<Rightarrow> rat \<times> rat \<times> rat" where
  "pod_sample kb limit =
     (let mb = of_int kb / 1024 in (mb, of_int limit, if 0 < limit then mb / of_int limit * 100 else 0))"

text \<open>
  \<open>read_limit\<close> is the memory limit in the pod's specification, \<open>0Mi\<close> when it has none. Every failure is
  an unknown usage.
\<close>

definition k8s_resource_usage ::
    "nat \<Rightarrow> k8s_config \<Rightarrow> 'w k8s_ops \<Rightarrow> (string \<Rightarrow> string \<Rightarrow> ('w, string) io) \<Rightarrow> string
       \<Rightarrow> ('w \<times> k8s_state, (rat \<times> rat \<times> rat) option) io" where
  "k8s_resource_usage fuel c ops read_limit name =
     (let resource = resource_name c name
      in io_catch
        (io_seq (exec_stream c ops resource [''cat'', ''/proc/self/status''] ''read /proc/self/status'')
        (io_bind (api (poll_until fuel (peek_step ops) (\<lambda>w. w) [])) (\<lambda>out.
         io_seq (api (ko_close ops))
        (io_bind (io_lift (memory_kb (split_on (CHR 0x0A) out))) (\<lambda>kb. case kb of
            None \<Rightarrow> io_ret None
          | Some k \<Rightarrow>
              io_bind (namespace c ops) (\<lambda>ns.
              io_bind (api (read_limit resource ns)) (\<lambda>limit.
              io_bind (io_lift (memory_limit_mb limit)) (\<lambda>mb. io_ret (Some (pod_sample k mb))))))))))
        is_exception (\<lambda>_. io_ret None))"

section \<open>Docker\<close>

text \<open>\<open>stats\<close> is the usage and the limit of the container library's statistics, where it has them.\<close>

definition docker_resource_usage ::
    "(string \<Rightarrow> ('w, int option \<times> int option) io) \<Rightarrow> string \<Rightarrow> ('w, (rat \<times> rat \<times> rat) option) io" where
  "docker_resource_usage stats name =
     io_catch (io_bind (stats name) (\<lambda>(used, limit). io_ret (memory_usage used limit)))
       (\<lambda>e. is_api_error e \<or> is_os_or_tar e) (\<lambda>_. io_ret None)"

section \<open>The engine's check\<close>

datatype usage_note = HighUsage string | ElevatedUsage string

definition usage_note_of :: "string \<Rightarrow> (rat \<times> rat \<times> rat) option \<Rightarrow> usage_note list" where
  "usage_note_of name sample =
     (case sample of
        None \<Rightarrow> []
      | Some (mb, limit, percent) \<Rightarrow>
          if 80 < percent then [HighUsage name] else if 60 < percent then [ElevatedUsage name] else [])"

text \<open>
  \<open>pick\<close> is \<open>random.sample\<close>: so many of the clients, all different. The result is the notes printed
  and the number of high ones.
\<close>

definition check_client_resources ::
    "(nat \<Rightarrow> string list \<Rightarrow> string list) \<Rightarrow> (string \<Rightarrow> ('w, (rat \<times> rat \<times> rat) option) io) \<Rightarrow> string list
       \<Rightarrow> ('w, usage_note list \<times> nat) io" where
  "check_client_resources pick usage clients =
     (let sample = (if clients = [] then [] else pick (min 5 (length clients)) clients)
      in io_bind (io_traverse (\<lambda>name. io_bind (usage name) (\<lambda>s. io_ret (usage_note_of name s))) sample) (\<lambda>notes.
         io_ret (concat notes, length (filter (\<lambda>n. case n of HighUsage _ \<Rightarrow> True | _ \<Rightarrow> False) (concat notes)))))"

section \<open>What the samples say\<close>

text \<open>A pod's sample is above eighty percent exactly when the memory read is above four fifths of the limit.\<close>

theorem high_usage_iff:
  assumes "0 < limit"
  shows "usage_note_of name (Some (pod_sample kb limit)) = [HighUsage name] \<longleftrightarrow> 4 * 1024 * limit < 5 * kb"
proof -
  have "80 < (of_int kb / 1024 / of_int limit * 100 :: rat) \<longleftrightarrow> of_int (4 * 1024 * limit) < (of_int (5 * kb) :: rat)"
    using assms by (simp add: field_simps)
  then show ?thesis
    using assms by (simp add: usage_note_of_def pod_sample_def Let_def del: of_int_mult)
qed

text \<open>A limit in gibibytes is read as so many thousand megabytes.\<close>

lemma gibibytes_are_thousands: "memory_limit_mb ''2Gi'' = Inr 2000" "memory_limit_mb ''64Mi'' = Inr 64"
  by code_simp+

text \<open>The usage never raises: a run is not disturbed by sampling it.\<close>

theorem sampling_never_raises:
  assumes "k8s_resource_usage fuel c ops read_limit name w = (Inl e, w')"
  shows "\<not> is_exception e"
  using assms by (auto simp: k8s_resource_usage_def Let_def io_catch_def io_ret_def split: prod.splits sum.splits if_splits)

end
