(* ===== verification/Openshift.thy ===== *)
theory Openshift
  imports Kubernetes
begin

text \<open>
  The OpenShift driver, \<open>manager/driver/openshift.py\<close>: the Kubernetes driver with a service account and a
  user for every pod, a service per pod and a route to it. \<open>oc\<close> is an operation of its own; its failures
  are only reported.
\<close>

section \<open>Pods\<close>

record 'w oc_ops =
  oc_create_account :: "string \<Rightarrow> string \<Rightarrow> ('w, unit) io"
  oc_run :: "string list \<Rightarrow> ('w, int \<times> string) io"

text \<open>A resource keeps its plain name, so no run suffix and no host aliases.\<close>

definition plain_names :: "k8s_config \<Rightarrow> k8s_config" where
  "plain_names c = c\<lparr>kc_run_id := [], kc_in_cluster := False\<rparr>"

definition oc_lenient :: "'w oc_ops \<Rightarrow> string list \<Rightarrow> ('w \<times> k8s_state, unit) io" where
  "oc_lenient ocs cmd = io_catch (io_seq (api (oc_run ocs cmd)) (io_ret ())) is_exception (\<lambda>_. io_ret ())"

definition ensure_service_account ::
    "k8s_config \<Rightarrow> 'w k8s_ops \<Rightarrow> 'w oc_ops \<Rightarrow> string \<Rightarrow> ('w \<times> k8s_state, unit) io" where
  "ensure_service_account c ops ocs account =
     io_bind (namespace c ops) (\<lambda>ns.
     io_seq (io_catch (api (oc_create_account ocs ns account)) is_api
               (\<lambda>e. if api_status e \<noteq> 409 then io_raise e else io_ret ()))
       (oc_lenient ocs [''oc'', ''adm'', ''policy'', ''add-scc-to-user'', ''anyuid'', ''-z'', account, ''-n'', ns]))"

definition os_security_context :: "int \<Rightarrow> int \<Rightarrow> json" where
  "os_security_context user gid =
     JDict [(''runAsUser'', JInt user), (''runAsGroup'', JInt gid), (''runAsNonRoot'', JBool True)]"

text \<open>The security context of the pod is replaced as a whole, the reserved ports in it included.\<close>

definition os_pod_spec :: "string \<Rightarrow> int \<Rightarrow> int \<Rightarrow> dict \<Rightarrow> dict" where
  "os_pod_spec account user gid spec =
     dset (dset spec ''serviceAccountName'' (JStr account)) ''securityContext'' (os_security_context user gid)"

definition os_build_pod_manifest ::
    "k8s_config \<Rightarrow> string \<Rightarrow> int \<Rightarrow> int \<Rightarrow> pod_request \<Rightarrow> exn + dict" where
  "os_build_pod_manifest c account user gid r =
     ebind (build_pod_manifest (plain_names c) [] (r\<lparr>pr_user := None, pr_group := Some gid\<rparr>)) (\<lambda>m.
       case dget m ''spec'' of
         JDict spec \<Rightarrow> Inr (dset m ''spec'' (JDict (os_pod_spec account user gid spec)))
       | _ \<Rightarrow> Inl (Exn KTypeError ''spec''))"

text \<open>\<open>run_as_user or 1000\<close> and \<open>run_as_group or run_as_user\<close>: zero counts as not given.\<close>

definition or_default :: "int option \<Rightarrow> int \<Rightarrow> int" where
  "or_default x d = (case x of Some n \<Rightarrow> if n \<noteq> 0 then n else d | None \<Rightarrow> d)"

definition run_identity :: "int option \<Rightarrow> int option \<Rightarrow> int \<times> int" where
  "run_identity user gid = (let u = or_default user 1000 in (u, or_default gid u))"

section \<open>Starting\<close>

definition os_wait_step :: "string \<Rightarrow> string \<Rightarrow> 'w k8s_ops \<Rightarrow> ('w, string option) io" where
  "os_wait_step ns name ops =
     io_bind (ko_pod_status ops ns name) (\<lambda>st.
       io_ret (if ps_phase st = Some ''Running'' \<and> ps_ip st \<noteq> [] then Some (ps_ip st) else None))"

text \<open>Sixty looks, one second apart.\<close>

fun os_wait :: "nat \<Rightarrow> string \<Rightarrow> string \<Rightarrow> 'w k8s_ops \<Rightarrow> ('w, string) io" where
  "os_wait 0 ns name ops = io_raise (Exn KTimeoutError (''Pod '' @ name @ '' did not become ready in time.''))"
| "os_wait (Suc n) ns name ops =
     io_bind (os_wait_step ns name ops) (\<lambda>ip. case ip of
         Some a \<Rightarrow> io_ret a
       | None \<Rightarrow> (\<lambda>w. os_wait n ns name ops (ko_sleep ops 1 w)))"

definition os_service_manifest :: "string \<Rightarrow> int list \<Rightarrow> json" where
  "os_service_manifest name ports =
     JDict [(''apiVersion'', JStr ''v1''), (''kind'', JStr ''Service''), (''metadata'', JDict [(''name'', JStr name)]),
       (''spec'', JDict [(''type'', JStr ''NodePort''), (''selector'', JDict [(''app'', JStr name)]),
         (''ports'', JList (map (\<lambda>p. JDict [(''name'', JStr (name @ ''-'' @ str_int p)), (''protocol'', JStr ''TCP''),
            (''port'', JInt p), (''targetPort'', JInt p)]) ports))])]"

definition route_command :: "string \<Rightarrow> string \<Rightarrow> int list \<Rightarrow> string list" where
  "route_command ns name ports =
     [''oc'', ''create'', ''route'', ''passthrough'', name, ''--service='' @ name,
      ''--port='' @ str_int (case ports of p # _ \<Rightarrow> p | [] \<Rightarrow> 80), ''-n'', ns, ''--insecure-policy=Redirect'']"

definition checked_oc :: "'w oc_ops \<Rightarrow> string list \<Rightarrow> ('w \<times> k8s_state, string) io" where
  "checked_oc ocs cmd =
     io_bind (api (oc_run ocs cmd)) (\<lambda>(code, out). if code \<noteq> 0 then io_raise (Exn KProcess out) else io_ret out)"

definition create_route :: "'w oc_ops \<Rightarrow> string \<Rightarrow> string \<Rightarrow> int list \<Rightarrow> ('w \<times> k8s_state, string) io" where
  "create_route ocs ns name ports =
     io_catch
       (io_seq (checked_oc ocs (route_command ns name ports))
         (io_bind (checked_oc ocs [''oc'', ''get'', ''route'', name, ''-n'', ns, ''-o'', ''jsonpath={.spec.host}''])
           (\<lambda>out. io_ret (strip out))))
       is_exception (\<lambda>_. io_ret [])"

definition create_and_wait_for_pod ::
    "k8s_config \<Rightarrow> 'w k8s_ops \<Rightarrow> 'w oc_ops \<Rightarrow> dict \<Rightarrow> string \<Rightarrow> int list \<Rightarrow> bool
       \<Rightarrow> ('w \<times> k8s_state, container_endpoint) io" where
  "create_and_wait_for_pod c ops ocs manifest name ports skip_ip =
     io_bind (namespace c ops) (\<lambda>ns.
     io_seq (api (ko_create_pod ops ns manifest))
       (if skip_ip then io_ret ([], [], [])
        else io_bind (api (os_wait 60 ns name ops)) (\<lambda>ip.
             io_bind (api (ko_create_service ops ns (os_service_manifest name ports))) (\<lambda>service.
             io_bind (create_route ocs ns name ports) (\<lambda>route. io_ret (ip, si_ports service, route))))))"

definition os_run ::
    "k8s_config \<Rightarrow> 'w k8s_ops \<Rightarrow> 'w oc_ops \<Rightarrow> string \<Rightarrow> pod_request \<Rightarrow> bool \<Rightarrow> ('w \<times> k8s_state, container_endpoint) io" where
  "os_run c ops ocs account r skip_ip =
     (case run_identity (pr_user r) (pr_group r) of (user, gid) \<Rightarrow>
       io_seq (ensure_service_account c ops ocs account)
         (io_bind (io_lift (os_build_pod_manifest c account user gid r)) (\<lambda>manifest.
            create_and_wait_for_pod c ops ocs manifest (pr_name r)
              (map fst (case pr_ports r of None \<Rightarrow> [] | Some ps \<Rightarrow> ps)) skip_ip)))"

section \<open>The user of a pod\<close>

text \<open>No pod is asked to run as root, whatever the caller passes; a group of its own is kept.\<close>

theorem openshift_pod_is_not_root:
  "fst (run_identity user gid) \<noteq> 0 \<and> snd (run_identity user gid) \<noteq> 0
   \<and> dget (os_pod_spec account (fst (run_identity user gid)) (snd (run_identity user gid)) spec) ''securityContext''
     = JDict [(''runAsUser'', JInt (fst (run_identity user gid))), (''runAsGroup'', JInt (snd (run_identity user gid))),
              (''runAsNonRoot'', JBool True)]"
  by (auto simp: run_identity_def or_default_def os_pod_spec_def os_security_context_def Let_def split: option.splits)

text \<open>The services this driver creates carry no label, so the cleanup of a reused namespace cannot select them.\<close>

lemma openshift_service_has_no_labels:
  "os_service_manifest name ports = JDict m \<Longrightarrow> dget m ''metadata'' = JDict [(''name'', JStr name)]"
  by (auto simp: os_service_manifest_def)

end
