(* ===== verification/LocalProxy.thy ===== *)
theory LocalProxy
  imports Kept Shell
begin

text \<open>
  The local side of a run inside the cluster, \<open>manager/kubernetes_local_proxy.py\<close>: commands sent to the
  orchestrator pod, the state of simulations and scenario runners there, and the deployment of the
  orchestrator. \<open>kubectl\<close> is the operation \<open>po_run\<close>; the shell scripts the code sends are functions of
  what the pod holds.
\<close>

section \<open>Commands\<close>

record proxy_config =
  px_namespace :: string
  px_pod :: string
  px_context :: string
  px_simulation :: string

record process =
  pc_code :: int
  pc_out :: string
  pc_err :: string

text \<open>
  What the pod keeps of a simulation or a runner: the process identifier file, whether that process
  runs, and the exit status file.
\<close>

record sim_view =
  sv_pid :: "string option"
  sv_alive :: bool
  sv_exit :: "string option"

record 'w proxy_ops =
  po_run :: "string list \<Rightarrow> string option \<Rightarrow> ('w, process) io"
  po_simulation :: "string \<Rightarrow> ('w, sim_view option) io"
  po_runner :: "string \<Rightarrow> ('w, sim_view option) io"
  po_signal :: "string \<Rightarrow> string \<Rightarrow> ('w, unit) io"
  po_runner_status :: "('w, json option) io"
  po_uuid :: "('w, string) io"
  po_json :: "string \<Rightarrow> json option"
  po_backoff :: "('w, unit) io \<Rightarrow> ('w, unit) io"
  po_sleep :: "rat \<Rightarrow> 'w \<Rightarrow> 'w"

definition kubectl_base :: "proxy_config \<Rightarrow> string list" where
  "kubectl_base c = ''kubectl'' # (if px_context c \<noteq> [] then [''--context'', px_context c] else [])"

definition exec_prefix :: "proxy_config \<Rightarrow> string list" where
  "exec_prefix c = kubectl_base c @ [''exec'', ''-n'', px_namespace c, px_pod c, ''--'']"

text \<open>\<open>subprocess.run(..., check=True)\<close>\<close>

definition run_checked :: "'w proxy_ops \<Rightarrow> string list \<Rightarrow> string option \<Rightarrow> ('w, process) io" where
  "run_checked ops cmd input =
     io_bind (po_run ops cmd input) (\<lambda>p. if pc_code p \<noteq> 0 then io_raise (Exn KProcess (pc_err p)) else io_ret p)"

text \<open>Empty input counts as no input.\<close>

definition kubectl_exec :: "proxy_config \<Rightarrow> 'w proxy_ops \<Rightarrow> string list \<Rightarrow> string \<Rightarrow> ('w, string) io" where
  "kubectl_exec c ops cmd input =
     io_bind (run_checked ops (exec_prefix c @ cmd) (if input \<noteq> [] then Some input else None))
       (\<lambda>p. io_ret (pc_out p))"

definition check_connection :: "proxy_config \<Rightarrow> 'w proxy_ops \<Rightarrow> ('w, unit) io" where
  "check_connection c ops =
     io_catch
       (io_bind (kubectl_exec c ops [''echo'', ''connection_test''] []) (\<lambda>out.
          if contains ''connection_test'' out then io_ret ()
          else io_raise (Exn KException ''Unexpected response from orchestrator'')))
       is_exception
       (\<lambda>e. io_raise (Exn KException (''Failed to connect to orchestrator: '' @ exn_msg e)))"

definition test_connection :: "proxy_config \<Rightarrow> 'w proxy_ops \<Rightarrow> ('w, unit) io" where
  "test_connection c ops = po_backoff ops (check_connection c ops)"

definition orchestrator_cmd :: "proxy_config \<Rightarrow> 'w proxy_ops \<Rightarrow> string list \<Rightarrow> string \<Rightarrow> ('w, string) io" where
  "orchestrator_cmd c ops manager_args input =
     kubectl_exec c ops ([''python'', ''manager.py'', ''--driver'', ''kubernetes'', ''--in-cluster'',
       ''--namespace'', px_namespace c, ''--reuse-namespace''] @ manager_args) input"

definition simulation_command :: "proxy_config \<Rightarrow> string \<Rightarrow> string \<Rightarrow> string \<Rightarrow> string list" where
  "simulation_command c scenario_path engine image_prefix =
     [''python'', ''manager.py'', ''--driver'', ''kubernetes'', ''--in-cluster'', ''--engine'', engine, ''run'',
      ''--namespace'', px_namespace c, ''--reuse-namespace'', ''--image-prefix'', image_prefix,
      ''--scenario'', scenario_path]"

definition runner_command :: "proxy_config \<Rightarrow> string \<Rightarrow> string \<Rightarrow> string \<Rightarrow> int \<Rightarrow> string list" where
  "runner_command c scenario_dir engine image_prefix cleanup_wait =
     [''python'', ''scenario_runner.py'', ''--scenario_dir'', scenario_dir, ''--namespace'', px_namespace c,
      ''--image-prefix'', image_prefix, ''--cleanup-wait'', str_int cleanup_wait, ''--engine'', engine,
      ''--in-cluster'']"

section \<open>What became of a simulation\<close>

definition status_dict :: "string \<Rightarrow> dict \<Rightarrow> json" where
  "status_dict status rest = JDict ((''status'', JStr status) # rest)"

text \<open>An exit code as the script pastes it into its JSON text: only a plain number can be read back.\<close>

definition json_number :: "string \<Rightarrow> int option" where
  "json_number s = (case parse_int s of None \<Rightarrow> None | Some n \<Rightarrow> if str_int n = s then Some n else None)"

text \<open>The status script; None stands for output that is no JSON.\<close>

definition simulation_status :: "string \<Rightarrow> sim_view option \<Rightarrow> json option" where
  "simulation_status sim view =
     (let sid = (''simulation_id'', JStr sim)
      in case view of
           None \<Rightarrow> Some (status_dict ''not_found'' [sid])
         | Some v \<Rightarrow> (case sv_pid v of
             None \<Rightarrow> Some (status_dict ''error'' [(''message'', JStr ''No PID file found''), sid])
           | Some pid \<Rightarrow>
               if sv_alive v then Some (status_dict ''running'' [(''pid'', JStr pid), sid])
               else (case sv_exit v of
                   None \<Rightarrow> Some (status_dict ''terminated'' [sid])
                 | Some code \<Rightarrow>
                     if code = ''0'' then Some (status_dict ''completed'' [(''exit_code'', JInt 0), sid])
                     else map_option (\<lambda>n. status_dict ''failed'' [(''exit_code'', JInt n), sid]) (json_number code))))"

definition error_status :: "exn \<Rightarrow> dict \<Rightarrow> json" where
  "error_status e rest = status_dict ''error'' ((''message'', JStr (exn_msg e)) # rest)"

fun is_process :: "exn \<Rightarrow> bool" where
  "is_process (Exn KProcess _) = True"
| "is_process _ = False"

text \<open>A \<open>JSONDecodeError\<close> is a ValueError.\<close>

fun is_value_error :: "exn \<Rightarrow> bool" where
  "is_value_error (Exn KValueError _) = True"
| "is_value_error _ = False"

definition loads :: "json option \<Rightarrow> exn + json" where
  "loads j = (case j of None \<Rightarrow> Inl (Exn KValueError ''Expecting value'') | Some x \<Rightarrow> Inr x)"

definition or_own :: "proxy_config \<Rightarrow> string \<Rightarrow> string" where
  "or_own c sim = (if sim \<noteq> [] then sim else px_simulation c)"

definition get_status :: "proxy_config \<Rightarrow> 'w proxy_ops \<Rightarrow> string \<Rightarrow> ('w, json) io" where
  "get_status c ops simulation_id =
     (let sim = or_own c simulation_id
      in io_catch (io_bind (po_simulation ops sim) (\<lambda>v. io_lift (loads (simulation_status sim v))))
           (\<lambda>e. is_process e \<or> is_value_error e)
           (\<lambda>e. io_ret (error_status e [(''simulation_id'', JStr sim)])))"

text \<open>The wrapper around the manager: when it ends, its exit code is written and the process is gone.\<close>

definition wrapper_ends :: "nat \<Rightarrow> sim_view \<Rightarrow> sim_view" where
  "wrapper_ends code v = v\<lparr>sv_alive := False, sv_exit := Some (str_nat code)\<rparr>"

definition wrapper_started :: "string \<Rightarrow> sim_view" where
  "wrapper_started pid = \<lparr>sv_pid = Some pid, sv_alive = True, sv_exit = None\<rparr>"

text \<open>The stop is only sent; the answer does not tell whether there was anything to stop.\<close>

definition stop_simulation :: "proxy_config \<Rightarrow> 'w proxy_ops \<Rightarrow> string \<Rightarrow> ('w, json) io" where
  "stop_simulation c ops simulation_id =
     (let sim = or_own c simulation_id
      in io_bind (po_simulation ops sim) (\<lambda>view.
         io_seq (case view of
                   Some v \<Rightarrow> (case sv_pid v of
                       Some pid \<Rightarrow> if sv_alive v then po_signal ops ''TERM'' pid else io_ret ()
                     | None \<Rightarrow> io_ret ())
                 | None \<Rightarrow> io_ret ())
           (io_ret (status_dict ''stopped'' [(''simulation_id'', JStr sim)]))))"

section \<open>Scenario runners\<close>

definition no_runner :: json where
  "no_runner = status_dict ''error'' [(''message'', JStr ''No runner ID provided'')]"

definition runner_status :: "string \<Rightarrow> json option \<Rightarrow> sim_view option \<Rightarrow> json" where
  "runner_status rid current view =
     (let ident = (''runner_id'', JStr rid)
      in case view of
           None \<Rightarrow> status_dict ''not_found'' [ident]
         | Some v \<Rightarrow> (case sv_pid v of
             None \<Rightarrow> status_dict ''error'' [(''message'', JStr ''No PID file''), ident]
           | Some pid \<Rightarrow>
               if sv_alive v
               then status_dict ''running'' [(''pid'', JStr pid), ident,
                      (''current_status'', case current of None \<Rightarrow> JDict [] | Some j \<Rightarrow> j)]
               else status_dict ''completed'' [ident]))"

definition get_runner_status :: "'w proxy_ops \<Rightarrow> string \<Rightarrow> ('w, json) io" where
  "get_runner_status ops rid =
     (if rid = [] then io_ret no_runner
      else io_catch
        (io_bind (po_runner ops rid) (\<lambda>v. io_bind (po_runner_status ops) (\<lambda>current.
           io_ret (runner_status rid current v))))
        is_exception (\<lambda>e. io_ret (error_status e [(''runner_id'', JStr rid)])))"

definition signal_runner :: "'w proxy_ops \<Rightarrow> string \<Rightarrow> string \<Rightarrow> string \<Rightarrow> ('w, json) io" where
  "signal_runner ops signal answer rid =
     (if rid = [] then io_ret no_runner
      else io_catch
        (io_bind (po_runner ops rid) (\<lambda>view.
           case view of
             None \<Rightarrow> io_ret (status_dict ''not_found'' [])
           | Some v \<Rightarrow> (case sv_pid v of
               None \<Rightarrow> io_ret (status_dict ''not_found'' [])
             | Some pid \<Rightarrow>
                 if sv_alive v
                 then io_seq (po_signal ops signal pid) (io_ret (status_dict answer [(''pid'', JStr pid)]))
                 else io_ret (status_dict ''not_running'' []))))
        is_exception (\<lambda>e. io_ret (error_status e [])))"

definition stop_scenario_runner :: "'w proxy_ops \<Rightarrow> string \<Rightarrow> ('w, json) io" where
  "stop_scenario_runner ops rid = signal_runner ops ''TERM'' ''stop_signal_sent'' rid"

definition skip_scenario_runner :: "'w proxy_ops \<Rightarrow> string \<Rightarrow> ('w, json) io" where
  "skip_scenario_runner ops rid = signal_runner ops ''USR1'' ''skip_signal_sent'' rid"

section \<open>The orchestrator's pod\<close>

text \<open>\<open>s.split("/", 1)\<close> of a string that has one.\<close>

definition split_slash :: "string \<Rightarrow> string \<times> string" where
  "split_slash s = (takeWhile (\<lambda>ch. ch \<noteq> CHR ''/'') s, drop 1 (dropWhile (\<lambda>ch. ch \<noteq> CHR ''/'') s))"

definition label_selector :: "dict \<Rightarrow> string" where
  "label_selector d = join_with '','' (map (\<lambda>(k, v). k @ ''='' @ (case v of JStr s \<Rightarrow> s | _ \<Rightarrow> [])) d)"

definition workload_kinds :: "string list" where
  "workload_kinds = [''deployment'', ''deploy'', ''statefulset'', ''sts'']"

text \<open>
  The two queries run inside one \<open>try\<close>, whose handler names \<open>json.JSONDecodeError\<close>. The function's own
  import of \<open>json\<close> makes that a local name, which has no value yet when the first query fails: the
  handler then raises an UnboundLocalError of its own.
\<close>

definition resolve_pod_name :: "proxy_config \<Rightarrow> 'w proxy_ops \<Rightarrow> ('w, string) io" where
  "resolve_pod_name c ops =
     (let failed = (\<lambda>e. io_raise (Exn KException (''Failed to resolve pod name for '' @ px_pod c @ '': '' @ exn_msg e)))
      in if CHR ''/'' \<notin> set (px_pod c) then io_ret (px_pod c)
         else (case split_slash (px_pod c) of (kind, name) \<Rightarrow>
           if kind \<in> set workload_kinds
           then io_bind
             (io_catch (run_checked ops (kubectl_base c @ [''get'', kind, name, ''-n'', px_namespace c, ''-o'',
                 ''jsonpath={.spec.selector.matchLabels}'']) None)
                (\<lambda>e. exn_class e \<noteq> KDiverged)
                (\<lambda>e. io_raise (Exn KNameError ''cannot access local variable json'')))
             (\<lambda>p. io_catch
                (io_bind (io_lift (loads (po_json ops (strip (pc_out p))))) (\<lambda>labels.
                   case labels of
                     JDict d \<Rightarrow>
                       io_bind (run_checked ops (kubectl_base c @ [''get'', ''pods'', ''-n'', px_namespace c, ''-l'',
                           label_selector d, ''-o'', ''jsonpath={.items[0].metadata.name}'']) None) (\<lambda>q.
                         if strip (pc_out q) = []
                         then io_raise (Exn KException (''No running pod found for '' @ px_pod c))
                         else io_ret (strip (pc_out q)))
                   | _ \<Rightarrow> io_raise (Exn KAttributeError ''items'')))
                (\<lambda>e. is_process e \<or> is_value_error e) failed)
           else io_ret name))"

text \<open>\<open>_get_orchestrator_pod_name\<close>\<close>

definition orchestrator_pod_name :: "proxy_config \<Rightarrow> 'w proxy_ops \<Rightarrow> ('w, string) io" where
  "orchestrator_pod_name c ops =
     (if contains ''deployment/'' (px_pod c)
      then io_bind (run_checked ops (kubectl_base c @ [''get'', ''pods'', ''-n'', px_namespace c, ''-l'',
             ''app='' @ split_on (CHR ''/'') (px_pod c) ! 1, ''-o'', ''jsonpath={.items[0].metadata.name}'']) None)
             (\<lambda>p. io_ret (strip (pc_out p)))
      else io_ret (px_pod c))"

section \<open>What the answers tell\<close>

text \<open>
  Once the wrapped manager ended, the status of its simulation is completed exactly for the
  exit code zero and otherwise failed with that very code.
\<close>

theorem status_tells_exit_code:
  "simulation_status sim (Some (wrapper_ends code (wrapper_started pid))) = Some
     (if code = 0 then status_dict ''completed'' [(''exit_code'', JInt 0), (''simulation_id'', JStr sim)]
      else status_dict ''failed'' [(''exit_code'', JInt (int code)), (''simulation_id'', JStr sim)])"
  by (auto simp: simulation_status_def wrapper_ends_def wrapper_started_def str_nat_zero json_number_def
      parse_int_str_nat str_int_def Let_def)

lemma running_until_it_ends:
  "simulation_status sim (Some (wrapper_started pid))
     = Some (status_dict ''running'' [(''pid'', JStr pid), (''simulation_id'', JStr sim)])"
  by (simp add: simulation_status_def wrapper_started_def Let_def)

text \<open>The answer of a stop is the same for a simulation that runs, has ended or never existed.\<close>

theorem stop_answer_is_constant:
  assumes "stop_simulation c ops sim w = (Inr j, w')"
  shows "j = status_dict ''stopped'' [(''simulation_id'', JStr (or_own c sim))]"
  using assms by (auto simp: stop_simulation_def io_seq_def io_bind_Inr_iff io_ret_Inr_iff Let_def)

text \<open>A failing first query never becomes the exception the caller is promised.\<close>

theorem unresolved_pod_is_a_name_error:
  assumes "CHR ''/'' \<in> set (px_pod c)" "fst (split_slash (px_pod c)) \<in> set workload_kinds"
    "\<And>cmd. po_run ops cmd None w = (Inr p, w')" "pc_code p \<noteq> 0"
  shows "\<exists>m. resolve_pod_name c ops w = (Inl (Exn KNameError m), w')"
  using assms by (cases "split_slash (px_pod c)") (simp add: resolve_pod_name_def run_checked_def io_simps Let_def)

end
