(* ===== verification/ProxyDownload.thy ===== *)
theory ProxyDownload
  imports LocalProxy
begin

text \<open>
  Downloads of the local proxy (\<open>manager/kubernetes_local_proxy.py\<close>): large files are split in the pod,
  copied part by part and put together again. The world is the one of the proxy's commands and the
  local files, by path.
\<close>

section \<open>Local files\<close>

type_synonym local_files = "(string \<times> string) list"

definition remote :: "('w, 'a) io \<Rightarrow> ('w \<times> local_files, 'a) io" where
  "remote m = (\<lambda>(w, fs). case m w of (r, w') \<Rightarrow> (r, (w', fs)))"

definition file_exists :: "string \<Rightarrow> local_files \<Rightarrow> bool" where
  "file_exists p fs = (map_of fs p \<noteq> None)"

definition put_file :: "string \<Rightarrow> string \<Rightarrow> ('w \<times> local_files, unit) io" where
  "put_file p b = (\<lambda>(w, fs). (Inr (), (w, AList.update p b fs)))"

definition get_file :: "string \<Rightarrow> ('w \<times> local_files, string) io" where
  "get_file p = (\<lambda>(w, fs). (case map_of fs p of None \<Rightarrow> Inl (Exn KFileNotFound p) | Some b \<Rightarrow> Inr b, (w, fs)))"

definition remove_file :: "string \<Rightarrow> ('w \<times> local_files, unit) io" where
  "remove_file p = (\<lambda>(w, fs). if file_exists p fs then (Inr (), (w, AList.delete p fs))
     else (Inl (Exn KFileNotFound p), (w, fs)))"

definition remove_if_there :: "string \<Rightarrow> ('w \<times> local_files, unit) io" where
  "remove_if_there p = (\<lambda>(w, fs). if file_exists p fs then remove_file p (w, fs) else (Inr (), (w, fs)))"

section \<open>Copying a file\<close>

definition max_download_retries :: nat where
  "max_download_retries = 3"

definition retry_backoff_base :: rat where
  "retry_backoff_base = 2"

text \<open>
  \<open>kubectl cp\<close> of a remote path: its exit code, and what it left at the local path, if anything.
\<close>

type_synonym 'w copy_op = "string \<Rightarrow> string \<Rightarrow> ('w, int \<times> string option) io"

definition copy_once ::
    "'w copy_op \<Rightarrow> string \<Rightarrow> string \<Rightarrow> string \<Rightarrow> ('w \<times> local_files, bool) io" where
  "copy_once cp pod remote_path local_path =
     io_bind (remote (cp (pod @ '':'' @ remote_path) local_path)) (\<lambda>(code, written).
       io_seq (case written of None \<Rightarrow> io_ret () | Some b \<Rightarrow> put_file local_path b) (io_ret (code = 0)))"

text \<open>\<open>for attempt in range(max_retries)\<close>, with \<open>left\<close> attempts to go.\<close>

fun copy_attempts ::
    "'w proxy_ops \<Rightarrow> 'w copy_op \<Rightarrow> string \<Rightarrow> string \<Rightarrow> string \<Rightarrow> nat \<Rightarrow> nat \<Rightarrow> ('w \<times> local_files, bool) io" where
  "copy_attempts ops cp pod remote_path local_path attempt 0 = io_ret False"
| "copy_attempts ops cp pod remote_path local_path attempt (Suc left) =
     io_bind (copy_once cp pod remote_path local_path) (\<lambda>ok.
       if ok then io_ret True
       else if left = 0 then io_ret False
       else (\<lambda>(w, fs). copy_attempts ops cp pod remote_path local_path (Suc attempt) left
              (po_sleep ops (retry_backoff_base ^ attempt) w, fs)))"

definition download_file_with_retry ::
    "proxy_config \<Rightarrow> 'w proxy_ops \<Rightarrow> 'w copy_op \<Rightarrow> string \<Rightarrow> string \<Rightarrow> ('w \<times> local_files, bool) io" where
  "download_file_with_retry c ops cp remote_path local_path =
     io_bind (io_catch (io_bind (remote (resolve_pod_name c ops)) (\<lambda>p. io_ret (Some p))) is_exception (\<lambda>_. io_ret None))
       (\<lambda>pod. case pod of
          None \<Rightarrow> io_ret False
        | Some p \<Rightarrow> copy_attempts ops cp p remote_path local_path 0 max_download_retries)"

section \<open>Large files\<close>

definition chunk_size_mb :: int where
  "chunk_size_mb = 10"

definition large_file_threshold_mb :: int where
  "large_file_threshold_mb = 20"

definition size_command :: "string \<Rightarrow> string" where
  "size_command f = ''stat -c%s '' @ f @ '' 2>/dev/null || echo 0''"

definition sh_command :: "proxy_config \<Rightarrow> string \<Rightarrow> string list" where
  "sh_command c script = exec_prefix c @ [''sh'', ''-c'', script]"

definition get_remote_file_size :: "proxy_config \<Rightarrow> 'w proxy_ops \<Rightarrow> string \<Rightarrow> ('w, int) io" where
  "get_remote_file_size c ops f =
     io_catch
       (io_bind (run_checked ops (sh_command c (size_command f)) None) (\<lambda>p.
        io_bind (io_lift (case parse_int (strip (pc_out p)) of
                   None \<Rightarrow> Inl (Exn KValueError (pc_out p)) | Some n \<Rightarrow> Inr n)) (\<lambda>n.
          if n = 0 then io_raise (Exn KFileNotFound (''Remote file not found or is empty: '' @ f)) else io_ret n)))
       (\<lambda>e. is_process e \<or> is_value_error e)
       (\<lambda>e. io_raise (Exn KException (''Failed to check file size for '' @ f @ '': '' @ exn_msg e)))"

text \<open>The lines of the split script that name a part and its size.\<close>

fun parse_parts :: "string \<Rightarrow> string list \<Rightarrow> exn + (string \<times> int) list" where
  "parse_parts prefix [] = Inr []"
| "parse_parts prefix (l # ls) =
     (if starts_with prefix l
      then (case split_on (CHR '':'') l of
              [f, len] \<Rightarrow> (case parse_int len of
                  None \<Rightarrow> Inl (Exn KValueError len)
                | Some n \<Rightarrow> ebind (parse_parts prefix ls) (\<lambda>ps. Inr ((f, n) # ps)))
            | _ \<Rightarrow> parse_parts prefix ls)
      else parse_parts prefix ls)"

definition split_script :: "string \<Rightarrow> string" where
  "split_script f = join_with [CHR 0x0A]
     ['''',
      ''        cd /tmp'',
      ''        split -b '' @ str_int chunk_size_mb @ ''M '' @ f @ '' '' @ f @ ''.part'',
      ''        echo '' @ in_quotes ''SPLIT_FILES:'',
      ''        ls -1 '' @ f @ ''.part* | while read f; do'',
      ''            size=$(stat -c%s '' @ in_quotes ''$f'' @ '')'',
      ''            echo '' @ in_quotes ''$f:$size'',
      ''        done'',
      ''        '']"

definition split_remote_file :: "proxy_config \<Rightarrow> 'w proxy_ops \<Rightarrow> string \<Rightarrow> ('w, (string \<times> int) list) io" where
  "split_remote_file c ops f =
     io_bind (po_run ops (sh_command c (split_script f)) None) (\<lambda>p.
       if pc_code p \<noteq> 0 then io_raise (Exn KException (''Failed to split file: '' @ pc_err p))
       else io_bind (io_lift (parse_parts (f @ ''.part'') (split_on (CHR 0x0A) (pc_out p)))) (\<lambda>parts.
         if parts = [] then io_raise (Exn KException ''No split files found after splitting operation'')
         else io_ret parts))"

text \<open>\<open>chr(97 + i)\<close> as the bytes of a file name.\<close>

definition utf8 :: "nat \<Rightarrow> string" where
  "utf8 n = (if n < 128 then [char_of n] else [char_of (192 + n div 64), char_of (128 + n mod 64)])"

definition local_part :: "string \<Rightarrow> nat \<Rightarrow> string" where
  "local_part f i = f @ ''.part'' @ utf8 (97 + i)"

text \<open>The loop over the parts: None when a part could not be copied and its precursors were removed.\<close>

fun download_parts ::
    "proxy_config \<Rightarrow> 'w proxy_ops \<Rightarrow> 'w copy_op \<Rightarrow> string \<Rightarrow> nat \<Rightarrow> string list \<Rightarrow> string list
     \<Rightarrow> ('w \<times> local_files, string list option) io" where
  "download_parts c ops cp f i got [] = io_ret (Some got)"
| "download_parts c ops cp f i got (part # parts) =
     (let got' = got @ [local_part f i]
      in io_bind (download_file_with_retry c ops cp part (local_part f i)) (\<lambda>ok.
         if ok then download_parts c ops cp f (Suc i) got' parts
         else io_seq (io_for remove_if_there got') (io_ret None)))"

definition cleanup_remote_files :: "proxy_config \<Rightarrow> 'w proxy_ops \<Rightarrow> string \<Rightarrow> ('w, unit) io" where
  "cleanup_remote_files c ops pattern =
     io_seq (po_run ops (sh_command c (''rm -f '' @ pattern)) None) (io_ret ())"

fun append_chunks :: "string \<Rightarrow> string list \<Rightarrow> ('w \<times> local_files, unit) io" where
  "append_chunks out [] = io_ret ()"
| "append_chunks out (p # ps) =
     io_bind (get_file p) (\<lambda>b. io_bind (get_file out) (\<lambda>a.
     io_seq (put_file out (a @ b)) (io_seq (remove_file p) (append_chunks out ps))))"

definition reassemble_chunks :: "string list \<Rightarrow> string \<Rightarrow> ('w \<times> local_files, unit) io" where
  "reassemble_chunks parts out =
     io_catch (io_seq (put_file out []) (append_chunks out parts)) is_exception
       (\<lambda>e. io_seq (remove_if_there out) (io_raise (Exn KException (''Failed to reassemble chunks: '' @ exn_msg e))))"

definition download_large_file_chunked ::
    "proxy_config \<Rightarrow> 'w proxy_ops \<Rightarrow> 'w copy_op \<Rightarrow> string \<Rightarrow> string \<Rightarrow> ('w \<times> local_files, bool) io" where
  "download_large_file_chunked c ops cp remote_file local_file =
     io_bind (io_catch (io_bind (remote (split_remote_file c ops remote_file)) (\<lambda>ps. io_ret (Some ps)))
                is_exception (\<lambda>_. io_ret None)) (\<lambda>split. case split of
          None \<Rightarrow> io_ret False
        | Some parts \<Rightarrow>
            io_bind (io_finally (download_parts c ops cp local_file 0 [] (map fst parts))
                      (remote (cleanup_remote_files c ops (remote_file @ ''.part*'')))) (\<lambda>got. case got of
                 None \<Rightarrow> io_ret False
               | Some paths \<Rightarrow> io_catch (io_seq (reassemble_chunks paths local_file) (io_ret True))
                   is_exception (\<lambda>_. io_ret False)))"

text \<open>The local size is only compared for a warning.\<close>

definition download_large_file ::
    "proxy_config \<Rightarrow> 'w proxy_ops \<Rightarrow> 'w copy_op \<Rightarrow> string \<Rightarrow> string \<Rightarrow> ('w \<times> local_files, bool) io" where
  "download_large_file c ops cp remote_file local_file =
     io_bind (io_catch (io_bind (remote (get_remote_file_size c ops remote_file)) (\<lambda>n. io_ret (Some n)))
                is_exception (\<lambda>_. io_ret None)) (\<lambda>size. case size of
          None \<Rightarrow> io_ret False
        | Some n \<Rightarrow>
            if large_file_threshold_mb * 1024 * 1024 < n
            then download_large_file_chunked c ops cp remote_file local_file
            else download_file_with_retry c ops cp remote_file local_file)"

definition runner_log :: "string \<Rightarrow> string" where
  "runner_log rid = ''/tmp/scenario-runners/'' @ rid @ ''/output.log''"

definition download_runner_logs ::
    "proxy_config \<Rightarrow> 'w proxy_ops \<Rightarrow> 'w copy_op \<Rightarrow> string \<Rightarrow> string \<Rightarrow> ('w \<times> local_files, bool) io" where
  "download_runner_logs c ops cp rid destination =
     (if rid = [] then io_ret False
      else let local_file = path_join destination (''runner_'' @ rid @ ''_output.log'')
        in io_catch (download_large_file c ops cp (runner_log rid) local_file) is_exception
             (\<lambda>_. io_seq (remove_if_there local_file) (io_ret False)))"

section \<open>A download brings the file\<close>

text \<open>
  What is asked of \<open>kubectl cp\<close>: when it ends with code 0 it wrote the content of the remote file. The
  name of a remote file has no colon, which separates it from the pod.
\<close>

definition copies :: "'w copy_op \<Rightarrow> (string \<Rightarrow> string) \<Rightarrow> bool" where
  "copies cp content =
     (\<forall>pod path dst w written w'. CHR '':'' \<notin> set path
        \<longrightarrow> cp (pod @ '':'' @ path) dst w = (Inr (0, written), w') \<longrightarrow> written = Some (content path))"

lemma copiesD:
  "copies cp content \<Longrightarrow> CHR '':'' \<notin> set path \<Longrightarrow> cp (pod @ '':'' @ path) dst w = (Inr (0, written), w')
    \<Longrightarrow> written = Some (content path)"
  unfolding copies_def by blast

text \<open>The files a run leaves: the file \<open>p\<close> may have changed, all others are as before.\<close>

definition only_touches :: "string set \<Rightarrow> local_files \<Rightarrow> local_files \<Rightarrow> bool" where
  "only_touches ps fs fs' = (\<forall>q. q \<notin> ps \<longrightarrow> map_of fs' q = map_of fs q)"

lemma only_touches_refl [simp]: "only_touches ps fs fs"
  by (simp add: only_touches_def)

lemma only_touches_trans: "only_touches ps f g \<Longrightarrow> only_touches ps g h \<Longrightarrow> only_touches ps f h"
  by (simp add: only_touches_def)

lemma only_touches_mono: "only_touches ps f g \<Longrightarrow> ps \<subseteq> qs \<Longrightarrow> only_touches qs f g"
  by (auto simp: only_touches_def)

lemma only_touches_update [simp]: "p \<in> ps \<Longrightarrow> only_touches ps fs (AList.update p b fs)"
  by (auto simp: only_touches_def update_conv')

lemma copy_once_spec:
  assumes "copies cp content" "CHR '':'' \<notin> set path"
    "copy_once cp pod path dst (w, fs) = (Inr ok, (w', fs'))"
  shows "only_touches {dst} fs fs' \<and> (ok \<longrightarrow> map_of fs' dst = Some (content path))"
proof -
  obtain code written w1 where run: "cp (pod @ '':'' @ path) dst w = (Inr (code, written), w1)"
    using assms(3) by (auto simp: copy_once_def remote_def io_bind_Inr_iff split: prod.splits)
  have "code = 0 \<Longrightarrow> written = Some (content path)"
    using copiesD[OF assms(1,2)] run by blast
  then show ?thesis
    using assms(3) run
    by (cases written) (auto simp: copy_once_def remote_def io_simps put_file_def update_conv')
qed

lemma copy_attempts_spec:
  assumes "copies cp content" "CHR '':'' \<notin> set path"
    "copy_attempts ops cp pod path dst k left (w, fs) = (Inr ok, (w', fs'))"
  shows "only_touches {dst} fs fs' \<and> (ok \<longrightarrow> map_of fs' dst = Some (content path))"
  using assms(3)
proof (induction left arbitrary: k w fs)
  case (Suc left)
  obtain ok1 w1 fs1 where one: "copy_once cp pod path dst (w, fs) = (Inr ok1, (w1, fs1))"
    and rest: "(if ok1 then io_ret True else if left = 0 then io_ret False
        else (\<lambda>(w, fs). copy_attempts ops cp pod path dst (Suc k) left
              (po_sleep ops (retry_backoff_base ^ k) w, fs))) (w1, fs1) = (Inr ok, (w', fs'))"
    using Suc.prems by (auto simp: io_bind_Inr_iff)
  note first = copy_once_spec[OF assms(1,2) one]
  show ?case
  proof (cases "ok1 \<or> left = 0")
    case True then show ?thesis using first rest by (auto simp: io_ret_Inr_iff split: if_splits)
  next
    case False
    then have "copy_attempts ops cp pod path dst (Suc k) left (po_sleep ops (retry_backoff_base ^ k) w1, fs1)
        = (Inr ok, (w', fs'))"
      using rest by simp
    from Suc.IH[OF this] first show ?thesis using only_touches_trans by blast
  qed
qed (simp add: io_ret_Inr_iff)

lemma remote_local: "remote m (w, fs) = (r, (w', fs')) \<Longrightarrow> fs' = fs"
  by (auto simp: remote_def split: prod.splits)

lemma download_file_spec:
  assumes "copies cp content" "CHR '':'' \<notin> set path"
    "download_file_with_retry c ops cp path dst (w, fs) = (Inr ok, (w', fs'))"
  shows "only_touches {dst} fs fs' \<and> (ok \<longrightarrow> map_of fs' dst = Some (content path))"
proof -
  obtain pod w1 fs1 where
    pod: "io_catch (io_bind (remote (resolve_pod_name c ops)) (\<lambda>p. io_ret (Some p))) is_exception
            (\<lambda>_. io_ret None) (w, fs) = (Inr pod, (w1, fs1))"
    and rest: "(case pod of None \<Rightarrow> io_ret False
        | Some p \<Rightarrow> copy_attempts ops cp p path dst 0 max_download_retries) (w1, fs1) = (Inr ok, (w', fs'))"
    using assms(3) by (auto simp: download_file_with_retry_def io_bind_Inr_iff)
  have "fs1 = fs"
    using pod by (auto simp: io_simps remote_def split: prod.splits sum.splits if_splits)
  then show ?thesis
    using rest copy_attempts_spec[OF assms(1,2)] by (cases pod) (auto simp: io_ret_Inr_iff)
qed

text \<open>The local parts have different names, as long as two bytes are enough for the suffix.\<close>

definition max_parts :: nat where
  "max_parts = 1951"

lemma utf8_inj:
  assumes "m < 2048" "n < 2048" "utf8 m = utf8 n"
  shows "m = n"
proof -
  have small: "of_char (char_of k :: char) = k" if "k < 256" for k :: nat
    using that by (simp add: of_char_of)
  show ?thesis
  proof (cases "m < 128 \<longleftrightarrow> n < 128")
    case True
    show ?thesis
    proof (cases "m < 128")
      case True
      then show ?thesis using \<open>m < 128 \<longleftrightarrow> n < 128\<close> assms(3) small[of m] small[of n]
        by (simp add: utf8_def)
    next
      case False
      then have "char_of (192 + m div 64) = (char_of (192 + n div 64) :: char)"
          "char_of (128 + m mod 64) = (char_of (128 + n mod 64) :: char)"
        using \<open>m < 128 \<longleftrightarrow> n < 128\<close> assms(3) by (auto simp: utf8_def)
      then have "192 + m div 64 = 192 + n div 64" "128 + m mod 64 = 128 + n mod 64"
        using small[of "192 + m div 64"] small[of "192 + n div 64"] small[of "128 + m mod 64"]
          small[of "128 + n mod 64"] assms(1,2) by (auto simp: less_mult_imp_div_less)
      then show ?thesis by (metis add_left_cancel div_mod_decomp)
    qed
  next
    case False
    then show ?thesis using assms(3) by (auto simp: utf8_def split: if_splits)
  qed
qed

lemma local_part_inj: "i < max_parts \<Longrightarrow> j < max_parts \<Longrightarrow> local_part f i = local_part f j \<longleftrightarrow> i = j"
  using utf8_inj[of "97 + i" "97 + j"] by (auto simp: local_part_def max_parts_def)

lemma local_part_neq [simp]: "local_part f i \<noteq> f" "f \<noteq> local_part f i"
  by (auto simp: local_part_def)

lemma parse_parts_no_colon:
  "parse_parts prefix ls = Inr ps \<Longrightarrow> p \<in> set ps \<Longrightarrow> CHR '':'' \<notin> set (fst p)"
proof (induction ls arbitrary: ps)
  case (Cons l ls)
  have no: "\<forall>y\<in>set (split_on (CHR '':'') l). CHR '':'' \<notin> set y" by (rule split_on_no_sep)
  from Cons.prems(1) consider "parse_parts prefix ls = Inr ps"
    | f len n qs where "split_on (CHR '':'') l = [f, len]" "parse_parts prefix ls = Inr qs" "ps = (f, n) # qs"
    by (auto simp: ebind_Inr_iff split: if_splits list.splits option.splits)
  then show ?case
  proof cases
    case 1 then show ?thesis using Cons.IH Cons.prems(2) by blast
  next
    case 2 then show ?thesis using Cons.IH[OF 2(2)] Cons.prems(2) no by auto
  qed
qed simp

lemma split_remote_file_no_colon:
  "split_remote_file c ops f w = (Inr ps, w') \<Longrightarrow> p \<in> set ps \<Longrightarrow> CHR '':'' \<notin> set (fst p)"
  by (auto simp: split_remote_file_def io_simps io_lift_def split: prod.splits sum.splits if_splits
      dest: parse_parts_no_colon)

lemma download_parts_spec:
  assumes "copies cp content" "\<And>p. p \<in> set parts \<Longrightarrow> CHR '':'' \<notin> set p" "i + length parts \<le> max_parts"
    "download_parts c ops cp f i got parts (w, fs) = (Inr (Some got'), (w', fs'))"
  shows "got' = got @ map (local_part f) [i..<i + length parts]
    \<and> list_all2 (\<lambda>k p. map_of fs' (local_part f k) = Some (content p)) [i..<i + length parts] parts
    \<and> only_touches (local_part f ` {i..<i + length parts}) fs fs'"
  using assms(2-4)
proof (induction parts arbitrary: i got w fs)
  case (Cons part parts)
  obtain ok w1 fs1 where one: "download_file_with_retry c ops cp part (local_part f i) (w, fs) = (Inr ok, (w1, fs1))"
    and rest: "(if ok then download_parts c ops cp f (Suc i) (got @ [local_part f i]) parts
        else io_seq (io_for remove_if_there (got @ [local_part f i])) (io_ret None)) (w1, fs1)
        = (Inr (Some got'), (w', fs'))"
    using Cons.prems(3) by (auto simp: io_bind_Inr_iff Let_def)
  have ok: ok
    using rest by (auto simp: io_seq_def io_bind_Inr_iff io_ret_Inr_iff split: if_splits)
  have here: "only_touches {local_part f i} fs fs1" "map_of fs1 (local_part f i) = Some (content part)"
    using download_file_spec[OF assms(1) _ one] Cons.prems(1) ok by auto
  have all: "got' = (got @ [local_part f i]) @ map (local_part f) [Suc i..<Suc i + length parts]"
    "list_all2 (\<lambda>k p. map_of fs' (local_part f k) = Some (content p)) [Suc i..<Suc i + length parts] parts"
    "only_touches (local_part f ` {Suc i..<Suc i + length parts}) fs1 fs'"
    using Cons.IH[of "Suc i" "got @ [local_part f i]" w1 fs1] Cons.prems(1,2) rest ok by auto
  have "local_part f i \<notin> local_part f ` {Suc i..<Suc i + length parts}"
    using local_part_inj[of i _ f] Cons.prems(2) by (auto simp: image_iff)
  then have "map_of fs' (local_part f i) = Some (content part)"
    using all(3) here(2) by (simp add: only_touches_def)
  moreover have "only_touches (local_part f ` {i..<i + length (part # parts)}) fs fs'"
    by (rule only_touches_trans[OF only_touches_mono[OF here(1)] only_touches_mono[OF all(3)]]) auto
  ultimately show ?case
    using all(1,2) by (simp add: upt_conv_Cons del: upt_Suc)
qed (simp add: io_ret_Inr_iff)

lemma append_chunks_spec:
  assumes "distinct ps" "out \<notin> set ps" "list_all2 (\<lambda>p b. map_of fs p = Some b) ps bs" "map_of fs out = Some a"
  shows "\<exists>fs'. append_chunks out ps (w, fs) = (Inr (), (w, fs')) \<and> map_of fs' out = Some (a @ concat bs)
    \<and> (\<forall>p\<in>set ps. map_of fs' p = None) \<and> only_touches (insert out (set ps)) fs fs'"
  using assms
proof (induction ps arbitrary: fs bs a)
  case (Cons p ps)
  obtain b bs' where bs: "bs = b # bs'" "map_of fs p = Some b"
      "list_all2 (\<lambda>p b. map_of fs p = Some b) ps bs'"
    using Cons.prems(3) by (auto simp: list_all2_Cons1)
  let ?fs = "AList.delete p (AList.update out (a @ b) fs)"
  have "list_all2 (\<lambda>p b. map_of ?fs p = Some b) ps bs'"
    using bs(3) Cons.prems(1,2)
    by (auto simp: list_all2_conv_all_nth delete_conv' update_conv' in_set_conv_nth)
  moreover have "map_of ?fs out = Some (a @ b)"
    using Cons.prems(2) by (auto simp: delete_conv' update_conv')
  ultimately obtain fs' where ih: "append_chunks out ps (w, ?fs) = (Inr (), (w, fs'))"
      "map_of fs' out = Some ((a @ b) @ concat bs')" "\<forall>p\<in>set ps. map_of fs' p = None"
      "only_touches (insert out (set ps)) ?fs fs'"
    using Cons.IH[of ?fs bs' "a @ b"] Cons.prems(1,2) by auto
  have "append_chunks out (p # ps) (w, fs) = append_chunks out ps (w, ?fs)"
    using bs(2) Cons.prems(2,4)
    by (simp add: io_simps get_file_def put_file_def remove_file_def file_exists_def update_conv')
  moreover have "map_of fs' p = None"
    using ih(4) Cons.prems(1,2) by (auto simp: only_touches_def delete_conv')
  moreover have "only_touches (insert out (set (p # ps))) fs fs'"
    using ih(4) by (auto simp: only_touches_def delete_conv' update_conv')
  ultimately show ?case using ih bs(1) by auto
qed (auto simp: io_ret_def)

lemma reassemble_spec:
  assumes "distinct ps" "out \<notin> set ps" "list_all2 (\<lambda>p b. map_of fs p = Some b) ps bs"
  shows "\<exists>fs'. reassemble_chunks ps out (w, fs) = (Inr (), (w, fs')) \<and> map_of fs' out = Some (concat bs)
    \<and> (\<forall>p\<in>set ps. map_of fs' p = None) \<and> only_touches (insert out (set ps)) fs fs'"
proof -
  let ?fs = "AList.update out [] fs"
  have "list_all2 (\<lambda>p b. map_of ?fs p = Some b) ps bs"
    using assms(2,3) by (auto simp: list_all2_conv_all_nth update_conv' in_set_conv_nth)
  moreover have "map_of ?fs out = Some []" by (simp add: update_conv')
  ultimately obtain fs' where "append_chunks out ps (w, ?fs) = (Inr (), (w, fs'))"
      "map_of fs' out = Some (concat bs)" "\<forall>p\<in>set ps. map_of fs' p = None"
      "only_touches (insert out (set ps)) ?fs fs'"
    using append_chunks_spec[OF assms(1,2), of ?fs bs "[]" w] by auto
  then show ?thesis
    by (intro exI[of _ fs']) (auto simp: reassemble_chunks_def io_simps put_file_def
        intro: only_touches_trans[OF only_touches_update])
qed

lemma list_all2_map_parts:
  "list_all2 (\<lambda>k p. m (f k) = Some (g p)) ks ps \<Longrightarrow> list_all2 (\<lambda>q b. m q = Some b) (map f ks) (map g ps)"
  for m :: "'a \<Rightarrow> 'b option"
  by (simp add: list_all2_map1 list_all2_map2)

text \<open>
  Claim C37. A chunked download that reports success left at the local path the contents of all the
  parts of the remote file, in their order; no local part is left over, and no other local file
  changed. This holds for up to \<^const>\<open>max_parts\<close> parts, that is 19.5 gigabytes.
\<close>

theorem chunked_download_assembles_parts:
  assumes cp: "copies cp content"
    and split: "split_remote_file c ops remote_file w = (Inr parts, w1)" "length parts \<le> max_parts"
    and run: "download_large_file_chunked c ops cp remote_file local_file (w, fs) = (Inr True, (w', fs'))"
  shows "map_of fs' p =
    (if p = local_file then Some (concat (map (\<lambda>q. content (fst q)) parts))
     else if p \<in> local_part local_file ` {0..<length parts} then None
     else map_of fs p)"
proof -
  let ?names = "map (local_part local_file) [0..<length parts]"
  obtain got w2 fs2 where down:
      "download_parts c ops cp local_file 0 [] (map fst parts) (w1, fs) = (Inr (Some got), (w2, fs2))"
    and asm: "\<exists>w3. reassemble_chunks got local_file (w3, fs2) = (Inr (), (w', fs'))"
    using run split(1)
    by (auto simp: download_large_file_chunked_def io_simps io_finally_def remote_def
        split: prod.splits sum.splits option.splits if_splits)
  obtain w3 where asm: "reassemble_chunks got local_file (w3, fs2) = (Inr (), (w', fs'))" using asm by blast
  have no_colon: "\<And>p. p \<in> set (map fst parts) \<Longrightarrow> CHR '':'' \<notin> set p"
    using split_remote_file_no_colon[OF split(1)] by auto
  have parts: "got = ?names"
      "list_all2 (\<lambda>k p. map_of fs2 (local_part local_file k) = Some (content p)) [0..<length parts] (map fst parts)"
      "only_touches (local_part local_file ` {0..<length parts}) fs fs2"
    using download_parts_spec[OF cp no_colon _ down] split(2) by auto
  have "distinct ?names"
    using local_part_inj split(2) by (auto simp: distinct_map inj_on_def)
  moreover have "local_file \<notin> set ?names" by auto
  moreover note contents = list_all2_map_parts[where m = "map_of fs2" and f = "local_part local_file" and g = content, OF parts(2)]
  ultimately obtain fs3 where re: "reassemble_chunks ?names local_file (w3, fs2) = (Inr (), (w3, fs3))"
      "map_of fs3 local_file = Some (concat (map content (map fst parts)))" "\<forall>p\<in>set ?names. map_of fs3 p = None"
      "only_touches (insert local_file (set ?names)) fs2 fs3"
    using reassemble_spec[of ?names local_file fs2 "map content (map fst parts)" w3] by blast
  have "fs' = fs3"
    using asm re(1) parts(1) by simp
  then show ?thesis
    using re(2-4) parts(3) by (auto simp: only_touches_def comp_def)
qed

text \<open>A pod whose file is split in two, and a copy that fails once before it works.\<close>

definition two_parts_ops :: "nat proxy_ops" where
  "two_parts_ops =
     \<lparr>po_run = (\<lambda>cmd input w. (Inr \<lparr>pc_code = 0,
         pc_out = join_with [CHR 0x0A] [''SPLIT_FILES:'', ''log.partaa:2'', ''log.partab:1'', []], pc_err = []\<rparr>, Suc w)),
      po_simulation = (\<lambda>_ w. (Inr None, w)), po_runner = (\<lambda>_ w. (Inr None, w)), po_signal = (\<lambda>_ _ w. (Inr (), w)),
      po_runner_status = (\<lambda>w. (Inr None, w)), po_uuid = (\<lambda>w. (Inr ''0a1b2c3d'', w)), po_json = (\<lambda>_. None), po_backoff = (\<lambda>m. m), po_sleep = (\<lambda>_ w. Suc w)\<rparr>"

definition two_parts_cfg :: proxy_config where
  "two_parts_cfg = \<lparr>px_namespace = ''ns'', px_pod = ''pod'', px_context = [], px_simulation = []\<rparr>"

definition two_parts_content :: "string \<Rightarrow> string" where
  "two_parts_content p = (if last p = CHR ''a'' then ''ab'' else ''c'')"

definition flaky_copy :: "nat copy_op" where
  "flaky_copy src dst w = (if w = 1 then (Inr (1, None), w)
     else (Inr (0, Some (two_parts_content (rev (takeWhile (\<lambda>ch. ch \<noteq> CHR '':'') (rev src))))), w))"

lemma flaky_copies: "copies flaky_copy two_parts_content"
proof -
  have "rev (takeWhile (\<lambda>ch. ch \<noteq> CHR '':'') (rev (pod @ '':'' @ path))) = path" if "CHR '':'' \<notin> set path" for pod path :: string
  proof -
    have "takeWhile (\<lambda>ch. ch \<noteq> CHR '':'') (rev path @ CHR '':'' # rev pod) = rev path"
      using that takeWhile_append2[of "rev path" "\<lambda>ch. ch \<noteq> CHR '':''" "CHR '':'' # rev pod"] by force
    then show ?thesis by simp
  qed
  then show ?thesis by (auto simp: copies_def flaky_copy_def)
qed

theorem chunked_download_assembles_parts_witness:
  "map_of (snd (snd (download_large_file_chunked two_parts_cfg two_parts_ops flaky_copy ''log'' ''out'' (0, [(''x'', ''z'')])))) ''out''
     = Some ''abc''"
  using chunked_download_assembles_parts[OF flaky_copies, of two_parts_cfg two_parts_ops "''log''" 0
      "[(''log.partaa'', 2), (''log.partab'', 1)]" 1 "''out''" "[(''x'', ''z'')]"
      "fst (snd (download_large_file_chunked two_parts_cfg two_parts_ops flaky_copy ''log'' ''out'' (0, [(''x'', ''z'')])))"
      "snd (snd (download_large_file_chunked two_parts_cfg two_parts_ops flaky_copy ''log'' ''out'' (0, [(''x'', ''z'')])))" "''out''"]
  by code_simp

end
