(* ===== verification/ProxyRun.thy ===== *)
theory ProxyRun
  imports ProxyDownload JmWallet
begin

text \<open>
  Starting simulations and scenario runners in the orchestrator pod, deploying it, and fetching the
  logs of runs (\<open>manager/kubernetes_local_proxy.py\<close>). The shell scripts are the very texts the code
  sends.
\<close>

section \<open>Starting\<close>

text \<open>The members of a JSON object the scripts write, and the text around a shell expansion in it.\<close>

definition member :: "string \<Rightarrow> string \<Rightarrow> string" where
  "member k v = in_quotes k @ '': '' @ in_quotes v"

definition utc_now :: string where
  "utc_now = in_ticks ''$(date -u +%Y-%m-%dT%H:%M:%SZ)''"

definition completion_wrapper :: "string list \<Rightarrow> string" where
  "completion_wrapper cmd = shlex_quote (shlex_join cmd @ ''; code=$?; echo '' @ in_quotes ''$code'' @ '' > ''
     @ in_quotes ''$1/exit_status'' @ ''; exit '' @ in_quotes ''$code'')"

definition start_simulation_script :: "proxy_config \<Rightarrow> string \<Rightarrow> string \<Rightarrow> string \<Rightarrow> string" where
  "start_simulation_script c scenario_path engine image_prefix = join_with newline
     [[],
      ''                SIM_DIR=/tmp/simulations/'' @ px_simulation c,
      ''                mkdir -p $SIM_DIR'',
      ''                nohup sh -c '' @ completion_wrapper (simulation_command c scenario_path engine image_prefix)
        @ ''                     sh '' @ in_quotes ''$SIM_DIR'' @ '' > '' @ in_quotes ''$SIM_DIR/output.log'' @ '' 2>&1 &'',
      ''                echo $! > $SIM_DIR/pid'',
      ''                echo '' @ in_ticks (''{'' @ member ''status'' ''running'' @ '', '' @ member ''pid'' (in_ticks ''$!'')
        @ '', '' @ member ''start_time'' utc_now @ '', '' @ member ''scenario'' scenario_path @ ''}'')
        @ '' > $SIM_DIR/status.json'',
      ''            '']"

definition start_simulation ::
    "proxy_config \<Rightarrow> 'w proxy_ops \<Rightarrow> string \<Rightarrow> string \<Rightarrow> string \<Rightarrow> ('w, string) io" where
  "start_simulation c ops scenario_path engine image_prefix =
     io_seq (run_checked ops (sh_command c (start_simulation_script c scenario_path engine image_prefix)) None)
       (io_ret (px_simulation c))"

definition start_runner_script :: "proxy_config \<Rightarrow> string \<Rightarrow> string \<Rightarrow> string \<Rightarrow> string \<Rightarrow> int \<Rightarrow> string" where
  "start_runner_script c rid scenario_dir engine image_prefix cleanup_wait = join_with newline
     [[],
      ''            RUNNER_DIR=/tmp/scenario-runners/'' @ rid,
      ''            mkdir -p $RUNNER_DIR'',
      [],
      ''            # Start the runner in background'',
      ''            nohup '' @ join_with '' '' (runner_command c scenario_dir engine image_prefix cleanup_wait)
        @ '' > $RUNNER_DIR/output.log 2>&1 &'',
      ''            RUNNER_PID=$!'',
      [],
      ''            # Save runner metadata'',
      ''            echo $RUNNER_PID > $RUNNER_DIR/pid'',
      ''            echo '' @ in_ticks (''{'' @ member ''status'' ''running'' @ '', '' @ member ''runner_id'' rid @ '', ''
        @ member ''scenario_dir'' scenario_dir @ '', '' @ member ''start_time'' utc_now @ ''}'')
        @ '' > $RUNNER_DIR/status.json'',
      [],
      ''            echo '' @ in_quotes ''Started scenario runner with PID: $RUNNER_PID'',
      ''            '']"

definition start_scenario_runner ::
    "proxy_config \<Rightarrow> 'w proxy_ops \<Rightarrow> string \<Rightarrow> string \<Rightarrow> string \<Rightarrow> int \<Rightarrow> ('w, string) io" where
  "start_scenario_runner c ops scenario_dir engine image_prefix cleanup_wait =
     io_bind (po_uuid ops) (\<lambda>rid.
       io_seq (run_checked ops (sh_command c (start_runner_script c rid scenario_dir engine image_prefix cleanup_wait)) None)
         (io_ret rid))"

text \<open>The logs are printed; Ctrl+C ends following them.\<close>

definition tail_file :: "proxy_config \<Rightarrow> 'w proxy_ops \<Rightarrow> string \<Rightarrow> int \<Rightarrow> bool \<Rightarrow> ('w, unit) io" where
  "tail_file c ops path lines follow =
     (if follow
      then io_catch (io_seq (run_checked ops (exec_prefix c @ [''tail'', ''-f'', path]) None) (io_ret ()))
             (\<lambda>e. exn_class e = KKeyboardInterrupt) (\<lambda>_. io_ret ())
      else io_seq (po_run ops (exec_prefix c @ [''tail'', ''-'' @ str_int lines, path]) None) (io_ret ()))"

definition tail_logs :: "proxy_config \<Rightarrow> 'w proxy_ops \<Rightarrow> int \<Rightarrow> bool \<Rightarrow> string \<Rightarrow> ('w, unit) io" where
  "tail_logs c ops lines follow simulation_id =
     tail_file c ops (''/tmp/simulations/'' @ or_own c simulation_id @ ''/output.log'') lines follow"

definition tail_runner_logs :: "proxy_config \<Rightarrow> 'w proxy_ops \<Rightarrow> int \<Rightarrow> bool \<Rightarrow> string \<Rightarrow> ('w, unit) io" where
  "tail_runner_logs c ops lines follow rid =
     (if rid = [] then io_ret () else tail_file c ops (runner_log rid) lines follow)"

section \<open>Deploying the orchestrator\<close>

fun set_key :: "json \<Rightarrow> string \<Rightarrow> json \<Rightarrow> json" where
  "set_key (JDict d) k v = JDict (dset d k v)"
| "set_key j k v = j"

text \<open>The container named manager gets the image; its image before is returned with the containers.\<close>

fun override_manager :: "string \<Rightarrow> json list \<Rightarrow> exn + (json \<times> json list) option" where
  "override_manager img [] = Inr None"
| "override_manager img (ct # cts) =
     ebind (item ct ''name'') (\<lambda>name.
       if name = JStr ''manager''
       then ebind (item ct ''image'') (\<lambda>old. Inr (Some (old, set_key ct ''image'' (JStr img) # cts)))
       else ebind (override_manager img cts) (\<lambda>found.
         Inr (map_option (\<lambda>(old, cts'). (old, ct # cts')) found)))"

fun override_init :: "string \<Rightarrow> json \<Rightarrow> json \<Rightarrow> exn + json" where
  "override_init img old (JDict d) = Inr (if dget d ''image'' = old then JDict (dset d ''image'' (JStr img)) else JDict d)"
| "override_init img old _ = Inl (Exn KAttributeError ''get'')"

fun elements :: "json \<Rightarrow> exn + json list" where
  "elements j = (case py_iter j of None \<Rightarrow> Inl (Exn KTypeError ''not iterable'') | Some xs \<Rightarrow> Inr xs)"

fun init_containers :: "json \<Rightarrow> exn + json list" where
  "init_containers (JDict d) = elements (dget_default d ''initContainers'' (JList []))"
| "init_containers _ = Inl (Exn KAttributeError ''get'')"

definition override_pod :: "string \<Rightarrow> string \<Rightarrow> json \<Rightarrow> exn + json" where
  "override_pod path img pod =
     ebind (item pod ''containers'') (\<lambda>containers.
     ebind (elements containers) (\<lambda>cts.
     ebind (override_manager img cts) (\<lambda>found. case found of
         None \<Rightarrow> Inl (Exn KRuntimeError (''Container manager not found in '' @ path))
       | Some (old, cts') \<Rightarrow>
           ebind (init_containers pod) (\<lambda>inits.
           ebind (traverse (override_init img old) inits) (\<lambda>inits'.
             let pod' = set_key pod ''containers'' (JList cts')
             in Inr (if inits = [] then pod' else set_key pod' ''initContainers'' (JList inits')))))))"

definition override_deployment :: "string \<Rightarrow> string \<Rightarrow> json \<Rightarrow> exn + json" where
  "override_deployment path img doc =
     ebind (item doc ''spec'') (\<lambda>spec.
     ebind (item spec ''template'') (\<lambda>template.
     ebind (item template ''spec'') (\<lambda>pod.
     ebind (override_pod path img pod) (\<lambda>pod'.
       Inr (set_key doc ''spec'' (set_key spec ''template'' (set_key template ''spec'' pod')))))))"

text \<open>The manifest directory: which files it has, how they parse, and how a document is written.\<close>

record manifest_ops =
  mo_exists :: "string \<Rightarrow> bool"
  mo_load :: "string \<Rightarrow> exn + json"
  mo_dump :: "json \<Rightarrow> string"

definition manifest_dir :: string where
  "manifest_dir = ''./containers/emulator-manager''"

definition manifest_files :: "string list" where
  "manifest_files = [''role.yaml'', ''rolebinding.yaml'', ''serviceaccount.yaml'', ''pvc.yaml'', ''deployment.yaml'']"

definition apply_manifest ::
    "proxy_config \<Rightarrow> manifest_ops \<Rightarrow> 'w proxy_ops \<Rightarrow> string \<Rightarrow> string \<Rightarrow> ('w, unit) io" where
  "apply_manifest c mops ops image_prefix manifest =
     (let path = path_join manifest_dir manifest
      in if \<not> mo_exists mops path then io_ret ()
         else if manifest = ''deployment.yaml'' \<and> image_prefix \<noteq> []
         then io_bind (io_lift (ebind (mo_load mops path) (override_deployment path (image_prefix @ ''emulator-manager''))))
                (\<lambda>doc. io_seq (run_checked ops (kubectl_base c @ [''apply'', ''-f'', ''-'', ''-n'', px_namespace c])
                                (Some (mo_dump mops doc))) (io_ret ()))
         else io_seq (run_checked ops (kubectl_base c @ [''apply'', ''-f'', path, ''-n'', px_namespace c]) None) (io_ret ()))"

definition ready_command :: "proxy_config \<Rightarrow> string list" where
  "ready_command c = kubectl_base c
     @ (if starts_with ''deployment/'' (px_pod c) then [''rollout'', ''status'', px_pod c, ''--timeout=300s'']
        else [''wait'', ''--for=condition=Ready'', ''pod/'' @ px_pod c, ''--timeout=300s''])
     @ [''-n'', px_namespace c]"

definition deploy_manager ::
    "proxy_config \<Rightarrow> manifest_ops \<Rightarrow> 'w proxy_ops \<Rightarrow> string \<Rightarrow> bool \<Rightarrow> ('w, bool) io" where
  "deploy_manager c mops ops image_prefix wait_ready =
     io_seq (if mo_exists mops (path_join manifest_dir ''deployment.yaml'')
             then io_for (apply_manifest c mops ops image_prefix) manifest_files else io_ret ())
       (if wait_ready then io_bind (po_run ops (ready_command c) None) (\<lambda>p. io_ret (pc_code p = 0))
        else io_ret True)"

text \<open>The constructor: an own simulation identifier, the deployment if asked for, and the connection.\<close>

definition proxy_init ::
    "manifest_ops \<Rightarrow> 'w proxy_ops \<Rightarrow> string \<Rightarrow> string \<Rightarrow> string \<Rightarrow> bool \<Rightarrow> string \<Rightarrow> ('w, proxy_config) io" where
  "proxy_init mops ops namespace pod kubectl_context auto_deploy image_prefix =
     io_bind (po_uuid ops) (\<lambda>sim.
       let c = \<lparr>px_namespace = namespace, px_pod = (if pod \<noteq> [] then pod else ''deployment/emulation-manager''),
                px_context = kubectl_context, px_simulation = sim\<rparr>
       in io_seq (if auto_deploy
                  then io_bind (deploy_manager c mops ops image_prefix True) (\<lambda>ok.
                    if ok then io_ret () else io_raise (Exn KRuntimeError ''Could not deploy the orchestrator''))
                  else io_ret ())
            (io_seq (test_connection c ops) (io_ret c)))"

section \<open>Fetching the logs of runs\<close>

definition log_count :: "int option \<Rightarrow> int" where
  "log_count last_n = (case last_n of None \<Rightarrow> 1 | Some n \<Rightarrow> if n = 0 then 1 else n)"

definition find_logs_script :: "int \<Rightarrow> string" where
  "find_logs_script n = join_with newline
     [[],
      ''            LOGS_DIRS=$(find /app/logs -mindepth 1 -maxdepth 1 -type d | grep -E ''
        @ in_quotes ''[0-9]{4}-[0-9]{2}-[0-9]{2}'' @ '' | sort -r | head -'' @ str_int n @ '')'',
      ''            if [ -z '' @ in_quotes ''$LOGS_DIRS'' @ '' ]; then'',
      ''                echo '' @ in_quotes ''ERROR: No simulation logs found'',
      ''                exit 1'',
      ''            fi'',
      ''            echo '' @ in_quotes ''LOGS_DIRS:$LOGS_DIRS'',
      ''            '']"

definition logs_marker :: string where
  "logs_marker = ''LOGS_DIRS:''"

text \<open>The lines of its output: the first directory follows the marker, the others have a line each.\<close>

fun parse_log_dirs :: "bool \<Rightarrow> string list \<Rightarrow> string list" where
  "parse_log_dirs found [] = []"
| "parse_log_dirs found (l # ls) =
     (if starts_with logs_marker l
      then (let d = strip (drop (length logs_marker) l)
            in (if d \<noteq> [] then [d] else []) @ parse_log_dirs True ls)
      else if found \<and> strip l \<noteq> [] \<and> starts_with ''/app/logs'' l then strip l # parse_log_dirs found ls
      else parse_log_dirs found ls)"

definition without_slash :: "string \<Rightarrow> string" where
  "without_slash = dropWhile (\<lambda>ch. ch = CHR ''/'')"

definition tar_script :: "string \<Rightarrow> string list \<Rightarrow> string" where
  "tar_script tar_name dirs = join_with newline
     [[],
      ''            TAR_FILE='' @ in_quotes tar_name,
      ''            # Create archive while being tolerant to files changing during read'',
      ''            # --warning=no-file-changed avoids non-zero exit when files are updated during archiving'',
      ''            # --ignore-failed-read skips files that disappear mid-archive'',
      ''            tar --warning=no-file-changed --ignore-failed-read -czf '' @ in_quotes ''$TAR_FILE'' @ '' -C ''
        @ in_quotes ''/'' @ '' '' @ join_with '' '' (map (\<lambda>d. in_quotes (without_slash d)) dirs),
      ''            if [ -f '' @ in_quotes ''$TAR_FILE'' @ '' ]; then'',
      ''                SIZE=$(ls -lh '' @ in_quotes ''$TAR_FILE'' @ '' | awk '' @ in_ticks ''{print $5}'' @ '')'',
      ''                echo '' @ in_quotes ''Created archive: $TAR_FILE ($SIZE)'',
      ''            else'',
      ''                echo '' @ in_quotes ''ERROR: Failed to create archive'',
      ''                exit 1'',
      ''            fi'',
      ''            '']"

definition find_log_dirs :: "proxy_config \<Rightarrow> 'w proxy_ops \<Rightarrow> int option \<Rightarrow> ('w, string list) io" where
  "find_log_dirs c ops last_n =
     io_bind (po_run ops (sh_command c (find_logs_script (log_count last_n))) None) (\<lambda>p.
       io_ret (if pc_code p \<noteq> 0 then [] else parse_log_dirs False (split_on (CHR 0x0A) (pc_out p))))"

definition download_logs ::
    "proxy_config \<Rightarrow> 'w proxy_ops \<Rightarrow> 'w copy_op \<Rightarrow> string \<Rightarrow> bool \<Rightarrow> int option \<Rightarrow> ('w \<times> local_files, bool) io" where
  "download_logs c ops cp destination all_logs last_n =
     io_bind (if all_logs then io_ret [''/app/logs''] else remote (find_log_dirs c ops last_n)) (\<lambda>dirs.
       if dirs = [] then io_ret False
       else let name = (if all_logs then ''logs-all.tar.gz'' else ''logs-latest.tar.gz'');
              tar_name = ''/tmp/'' @ name; local_tar = ''/tmp/local-'' @ name
         in io_bind (remote (po_run ops (sh_command c (tar_script tar_name dirs)) None)) (\<lambda>p.
            if pc_code p \<noteq> 0 then io_ret False
            else io_bind (download_large_file c ops cp tar_name local_tar) (\<lambda>ok.
              if \<not> ok then io_ret False
              else io_bind (remote (po_run ops [''tar'', ''-xzf'', local_tar, ''-C'', destination] None)) (\<lambda>q.
                if pc_code q \<noteq> 0 then io_ret False
                else io_seq (remove_file local_tar)
                       (io_seq (remote (po_run ops (exec_prefix c @ [''rm'', ''-f'', tar_name]) None)) (io_ret True))))))"

section \<open>What reaches the other side\<close>

definition record_exit :: string where
  "record_exit = ''; code=$?; echo '' @ in_quotes ''$code'' @ '' > '' @ in_quotes ''$1/exit_status''
     @ ''; exit '' @ in_quotes ''$code''"

text \<open>
  Claim C38. Whatever the scenario path, the engine and the image prefix are, blanks, quotes and empty
  texts included: the shell in the pod hands \<open>sh -c\<close> one word, the command followed by the recording
  of its exit code, and that command splits into exactly the arguments of the manager.
\<close>

theorem simulation_arguments_survive_the_shell:
  "sh_words (completion_wrapper (simulation_command c scenario_path engine image_prefix))
     = Some [shlex_join (simulation_command c scenario_path engine image_prefix) @ record_exit]
   \<and> sh_words (shlex_join (simulation_command c scenario_path engine image_prefix))
     = Some (simulation_command c scenario_path engine image_prefix)"
  by (simp add: completion_wrapper_def record_exit_def words_quoted words_joined)

text \<open>
  The runner's command is joined without quoting: with the empty image prefix, which is the default of
  the batch command line, the value of the option is lost and the next option takes its place.
\<close>

theorem runner_loses_empty_prefix:
  assumes "list_all sh_safe dir" "list_all sh_safe (px_namespace c)" "list_all sh_safe engine"
    "list_all sh_safe (str_int n)" "dir \<noteq> []" "px_namespace c \<noteq> []" "engine \<noteq> []" "str_int n \<noteq> []"
  shows "sh_words (join_with '' '' (runner_command c dir engine [] n)) = Some
    [''python'', ''scenario_runner.py'', ''--scenario_dir'', dir, ''--namespace'', px_namespace c,
     ''--image-prefix'', ''--cleanup-wait'', str_int n, ''--engine'', engine, ''--in-cluster'']"
proof -
  have "list_all (list_all sh_safe) (runner_command c dir engine [] n)"
    using assms by (simp add: runner_command_def sh_safe_def)
  from words_of_plain_join[OF this] show ?thesis
    using assms by (simp add: runner_command_def)
qed

lemma split_on_append: "ch \<notin> set a \<Longrightarrow> split_on ch (a @ ch # b) = a # split_on ch b"
  by (induction a) auto

lemma split_on_join: "\<forall>x\<in>set xs. ch \<notin> set x \<Longrightarrow> xs \<noteq> [] \<Longrightarrow> split_on ch (join_with [ch] xs) = xs"
  by (induction xs rule: induct_list012) (auto simp: split_on_id split_on_append)

text \<open>A directory as \<open>find\<close> lists it below the logs, with nothing for \<open>strip\<close> to cut.\<close>

definition log_dir :: "string \<Rightarrow> bool" where
  "log_dir d = (starts_with ''/app/logs'' d \<and> strip d = d \<and> CHR 0x0A \<notin> set d)"

lemma log_dir_facts:
  assumes "log_dir d"
  shows "d \<noteq> []" "\<not> starts_with logs_marker d" "strip d = d" "CHR 0x0A \<notin> set d" "starts_with ''/app/logs'' d"
  using assms by (auto simp: log_dir_def logs_marker_def starts_with_iff)

lemma parse_following_dirs: "\<forall>d\<in>set ds. log_dir d \<Longrightarrow> parse_log_dirs True (ds @ [[]]) = ds"
  by (induction ds) (simp_all add: log_dir_facts, simp add: logs_marker_def)

lemma join_with_Cons: "join_with [ch] (x # xs) = x @ (if xs = [] then [] else ch # join_with [ch] xs)"
  by (cases xs) auto

text \<open>
  The directories the search for logs prints, one per line after the marker, are the ones that
  are archived: all of them, in the order printed.
\<close>

theorem printed_log_dirs_are_read_back:
  assumes "\<forall>d\<in>set ds. log_dir d"
  shows "parse_log_dirs False (split_on (CHR 0x0A) (logs_marker @ join_with newline ds @ newline)) = ds"
proof (cases ds)
  case Nil then show ?thesis by (simp add: logs_marker_def newline_def strip_def)
next
  case (Cons d rest)
  have nl: "CHR 0x0A \<notin> set (logs_marker @ d)"
    using assms Cons log_dir_facts(4) by (auto simp: logs_marker_def)
  have "split_on (CHR 0x0A) (logs_marker @ join_with newline ds @ newline) = (logs_marker @ d) # rest @ [[]]"
  proof -
    have "logs_marker @ join_with newline ds @ newline = join_with [CHR 0x0A] ((logs_marker @ d) # rest @ [[]])"
      using Cons by (induction rest arbitrary: d ds) (auto simp: newline_def join_with_Cons)
    moreover have "\<forall>x\<in>set ((logs_marker @ d) # rest @ [[]]). CHR 0x0A \<notin> set x"
      using assms Cons nl log_dir_facts(4) by auto
    ultimately show ?thesis using split_on_join[of "(logs_marker @ d) # rest @ [[]]"] by simp
  qed
  moreover have "strip d = d" "d \<noteq> []" using assms Cons log_dir_facts(1,3) by auto
  moreover have "parse_log_dirs True (rest @ [[]]) = rest"
    using assms Cons by (intro parse_following_dirs) auto
  ultimately show ?thesis using Cons by (simp add: starts_with_iff)
qed

theorem printed_log_dirs_are_read_back_witness:
  "parse_log_dirs False (split_on (CHR 0x0A) (logs_marker @ join_with newline [''/app/logs/2026-01-02_a'', ''/app/logs/2026-01-01_b''] @ newline))
     = [''/app/logs/2026-01-02_a'', ''/app/logs/2026-01-01_b'']"
  by (rule printed_log_dirs_are_read_back) code_simp

section \<open>What the override of the image changes\<close>

lemma override_manager_spec:
  "override_manager img cts = Inr (Some (old, cts')) \<Longrightarrow>
     \<exists>k<length cts. item (cts ! k) ''name'' = Inr (JStr ''manager'') \<and> item (cts ! k) ''image'' = Inr old
       \<and> (\<forall>j<k. item (cts ! j) ''name'' \<noteq> Inr (JStr ''manager''))
       \<and> cts' = cts[k := set_key (cts ! k) ''image'' (JStr img)]"
proof (induction cts arbitrary: cts')
  case (Cons ct cts)
  obtain name where name: "item ct ''name'' = Inr name"
    using Cons.prems by (auto simp: ebind_Inr_iff)
  show ?case
  proof (cases "name = JStr ''manager''")
    case True
    then show ?thesis using Cons.prems name by (intro exI[of _ 0]) (auto simp: ebind_Inr_iff)
  next
    case False
    then obtain cts2 where rest: "override_manager img cts = Inr (Some (old, cts2))" "cts' = ct # cts2"
      using Cons.prems name by (auto simp: ebind_Inr_iff)
    obtain k where "k < length cts" "item (cts ! k) ''name'' = Inr (JStr ''manager'')" "item (cts ! k) ''image'' = Inr old"
        "\<forall>j<k. item (cts ! j) ''name'' \<noteq> Inr (JStr ''manager'')" "cts2 = cts[k := set_key (cts ! k) ''image'' (JStr img)]"
      using Cons.IH[OF rest(1)] by blast
    then show ?thesis
      using rest(2) name False by (intro exI[of _ "Suc k"]) (auto simp: less_Suc_eq_0_disj)
  qed
qed simp

lemma override_manager_length: "override_manager img cts = Inr (Some (old, cts')) \<Longrightarrow> length cts' = length cts"
  using override_manager_spec by fastforce

definition image_of :: "json \<Rightarrow> json" where
  "image_of ct = (case ct of JDict d \<Rightarrow> dget d ''image'' | _ \<Rightarrow> JNull)"

lemma override_init_spec:
  "override_init img old ct = Inr ct' \<Longrightarrow> ct' = (if image_of ct = old then set_key ct ''image'' (JStr img) else ct)"
  by (cases ct) (auto simp: image_of_def)

lemma override_inits_spec:
  "traverse (override_init img old) inits = Inr inits' \<Longrightarrow>
     inits' = map (\<lambda>ct. if image_of ct = old then set_key ct ''image'' (JStr img) else ct) inits"
  by (induction inits arbitrary: inits') (auto simp: ebind_Inr_iff dest: override_init_spec)

text \<open>
  The deployed pod: the first container named manager runs the given image, and so does every init
  container that ran the manager's image before; no other container and no other key changes.
\<close>

theorem override_follows_the_manager_image:
  assumes "override_pod path img (JDict d) = Inr pod'" "dget d ''containers'' = JList cts"
    and "dget_default d ''initContainers'' (JList []) = JList inits"
  shows "\<exists>k<length cts. \<exists>d'. pod' = JDict d' \<and> item (cts ! k) ''name'' = Inr (JStr ''manager'')
    \<and> dget d' ''containers'' = JList (cts[k := set_key (cts ! k) ''image'' (JStr img)])
    \<and> (inits \<noteq> [] \<longrightarrow> dget d' ''initContainers'' = JList (map (\<lambda>ct.
          if Inr (image_of ct) = item (cts ! k) ''image'' then set_key ct ''image'' (JStr img) else ct) inits))
    \<and> (\<forall>key. key \<noteq> ''containers'' \<and> key \<noteq> ''initContainers'' \<longrightarrow> dget d' key = dget d key)"
proof -
  obtain old cts' inits' where run: "override_manager img cts = Inr (Some (old, cts'))"
      "traverse (override_init img old) inits = Inr inits'"
      "pod' = (let pod' = set_key (JDict d) ''containers'' (JList cts')
        in if inits = [] then pod' else set_key pod' ''initContainers'' (JList inits'))"
    using assms by (auto simp: override_pod_def ebind_Inr_iff Let_def dget_def split: option.splits)
  obtain k where "k < length cts" "item (cts ! k) ''name'' = Inr (JStr ''manager'')" "item (cts ! k) ''image'' = Inr old"
      "cts' = cts[k := set_key (cts ! k) ''image'' (JStr img)]"
    using override_manager_spec[OF run(1)] by blast
  then show ?thesis
    using run(3) override_inits_spec[OF run(2)] by (intro exI[of _ k]) (auto simp: Let_def)
qed

end
