(* ===== verification/RemoteCli.thy ===== *)
theory RemoteCli
  imports ProxyRun
begin

text \<open>
  The command lines that drive a remote run: \<open>manager/manager_remote.py\<close> for one simulation,
  \<open>manager/manager_remote_batch.py\<close> for a batch, and \<open>manager/remote_cli.py\<close>, which routes to both and
  remembers the active run of a namespace in a file. A command answers whether it succeeded; what it
  prints is left out.
\<close>

section \<open>One simulation\<close>

record remote_args =
  ra_namespace :: string
  ra_context :: string
  ra_image_prefix :: string
  ra_scenario :: string
  ra_scenario_dir :: string
  ra_engine :: string
  ra_cleanup_wait :: int
  ra_id :: string
  ra_batch :: bool
  ra_sim_id :: string
  ra_runner_id :: string
  ra_lines :: int
  ra_follow :: bool
  ra_download :: bool
  ra_destination :: string
  ra_all_logs :: bool
  ra_last_n :: "int option"

type_synonym 'w command = "remote_args \<Rightarrow> ('w \<times> local_files, bool) io"

text \<open>What the commands work with: the manifests, \<open>kubectl\<close>, and its copy operation.\<close>

record 'w cli_env =
  ce_manifests :: manifest_ops
  ce_ops :: "'w proxy_ops"
  ce_copy :: "'w copy_op"

definition simulation_file :: "string \<Rightarrow> string" where
  "simulation_file namespace = ''.simulation-'' @ namespace"

definition safely :: "('w, bool) io \<Rightarrow> ('w, bool) io" where
  "safely m = io_catch m is_exception (\<lambda>_. io_ret False)"

definition open_proxy :: "'w cli_env \<Rightarrow> remote_args \<Rightarrow> bool \<Rightarrow> string \<Rightarrow> ('w \<times> local_files, proxy_config) io" where
  "open_proxy env ra auto_deploy image_prefix =
     remote (proxy_init (ce_manifests env) (ce_ops env) (ra_namespace ra) [] (ra_context ra) auto_deploy image_prefix)"

definition remote_deploy :: "'w cli_env \<Rightarrow> 'w command" where
  "remote_deploy env ra = safely (io_seq (open_proxy env ra True (ra_image_prefix ra)) (io_ret True))"

definition run_simulation :: "'w cli_env \<Rightarrow> 'w command" where
  "run_simulation env ra = safely
     (io_bind (open_proxy env ra False []) (\<lambda>c.
      io_bind (remote (start_simulation c (ce_ops env) (ra_scenario ra) (ra_engine ra) (ra_image_prefix ra))) (\<lambda>sid.
        io_seq (put_file (simulation_file (ra_namespace ra)) sid) (io_ret True))))"

text \<open>The identifier a file keeps; None when there is no such file.\<close>

definition saved_id :: "string \<Rightarrow> ('w \<times> local_files, string option) io" where
  "saved_id path = (\<lambda>(w, fs). (Inr (map_option strip (map_of fs path)), (w, fs)))"

definition given_or_saved :: "string \<Rightarrow> string \<Rightarrow> ('w \<times> local_files, string option) io" where
  "given_or_saved ident path = (if ident \<noteq> [] then io_ret (Some ident) else saved_id path)"

definition stop_remote :: "'w cli_env \<Rightarrow> 'w command" where
  "stop_remote env ra = safely
     (io_bind (open_proxy env ra False []) (\<lambda>c.
      io_bind (given_or_saved (ra_sim_id ra) (simulation_file (ra_namespace ra))) (\<lambda>sid. case sid of
          None \<Rightarrow> io_ret False
        | Some s \<Rightarrow> io_seq (remote (stop_simulation c (ce_ops env) s)) (io_ret True))))"

definition status_remote :: "'w cli_env \<Rightarrow> 'w command" where
  "status_remote env ra = safely
     (io_bind (open_proxy env ra False []) (\<lambda>c.
      io_bind (given_or_saved (ra_sim_id ra) (simulation_file (ra_namespace ra))) (\<lambda>sid. case sid of
          None \<Rightarrow> io_ret True
        | Some s \<Rightarrow> if s = [] then io_ret True
            else io_bind (remote (get_status c (ce_ops env) s)) (\<lambda>status.
                 io_seq (io_lift (item status ''status'')) (io_ret True)))))"

text \<open>Ctrl+C is a normal end of looking at logs.\<close>

definition until_interrupted :: "('w, bool) io \<Rightarrow> ('w, bool) io" where
  "until_interrupted m = io_catch m (\<lambda>e. exn_class e = KKeyboardInterrupt) (\<lambda>_. io_ret True)"

definition get_logs :: "'w cli_env \<Rightarrow> 'w command" where
  "get_logs env ra = safely (until_interrupted
     (io_bind (open_proxy env ra False []) (\<lambda>c.
      io_bind (given_or_saved (ra_sim_id ra) (simulation_file (ra_namespace ra))) (\<lambda>sid. case sid of
          None \<Rightarrow> io_ret False
        | Some s \<Rightarrow> io_seq (remote (tail_logs c (ce_ops env) (ra_lines ra) (ra_follow ra) s)) (io_ret True)))))"

definition download_logs_remote :: "'w cli_env \<Rightarrow> 'w command" where
  "download_logs_remote env ra = safely
     (io_bind (open_proxy env ra False []) (\<lambda>c.
        download_logs c (ce_ops env) (ce_copy env) (ra_destination ra) (ra_all_logs ra) (ra_last_n ra)))"

section \<open>A batch of scenarios\<close>

definition runner_file :: "string \<Rightarrow> string" where
  "runner_file namespace = ''.runner-'' @ namespace"

definition run_scenario_batch :: "'w cli_env \<Rightarrow> 'w command" where
  "run_scenario_batch env ra = safely
     (io_bind (open_proxy env ra False []) (\<lambda>c.
      io_bind (remote (start_scenario_runner c (ce_ops env) (ra_scenario_dir ra) (ra_engine ra)
                 (ra_image_prefix ra) (ra_cleanup_wait ra))) (\<lambda>rid.
        io_seq (put_file (runner_file (ra_namespace ra)) rid) (io_ret True))))"

text \<open>Printing the progress reads \<open>status\<close> and, when there is one, takes the current status for a dictionary.\<close>

definition show_runner_status :: "json \<Rightarrow> exn + bool" where
  "show_runner_status status =
     ebind (item status ''status'') (\<lambda>_.
       case status of
         JDict d \<Rightarrow> (case dget d ''current_status'' of
             JDict _ \<Rightarrow> Inr True
           | current \<Rightarrow> if truthy current then Inl (Exn KAttributeError ''get'') else Inr True)
       | _ \<Rightarrow> Inr True)"

text \<open>The frame of the four commands about a runner.\<close>

definition with_runner ::
    "'w cli_env \<Rightarrow> remote_args \<Rightarrow> (proxy_config \<Rightarrow> string \<Rightarrow> ('w \<times> local_files, bool) io) \<Rightarrow> ('w \<times> local_files, bool) io" where
  "with_runner env ra act =
     io_bind (open_proxy env ra False []) (\<lambda>c.
     io_bind (given_or_saved (ra_runner_id ra) (runner_file (ra_namespace ra))) (\<lambda>rid. case rid of
         None \<Rightarrow> io_ret False
       | Some r \<Rightarrow> act c r))"

definition batch_status :: "'w cli_env \<Rightarrow> 'w command" where
  "batch_status env ra = safely (with_runner env ra (\<lambda>c rid.
     io_bind (remote (get_runner_status (ce_ops env) rid)) (\<lambda>status. io_lift (show_runner_status status))))"

definition batch_logs :: "'w cli_env \<Rightarrow> 'w command" where
  "batch_logs env ra = safely (until_interrupted (with_runner env ra (\<lambda>c rid.
     if ra_download ra then download_runner_logs c (ce_ops env) (ce_copy env) rid (ra_destination ra)
     else io_seq (remote (tail_runner_logs c (ce_ops env) (ra_lines ra) (ra_follow ra) rid)) (io_ret True))))"

definition batch_stop :: "'w cli_env \<Rightarrow> 'w command" where
  "batch_stop env ra = safely (with_runner env ra (\<lambda>c rid.
     io_bind (remote (stop_scenario_runner (ce_ops env) rid)) (\<lambda>answer.
       io_seq (io_lift (item answer ''status'')) (io_ret True))))"

definition batch_skip :: "'w cli_env \<Rightarrow> 'w command" where
  "batch_skip env ra = safely (with_runner env ra (\<lambda>c rid.
     io_bind (remote (skip_scenario_runner (ce_ops env) rid)) (\<lambda>answer.
       io_seq (io_lift (item answer ''status'')) (io_ret True))))"

section \<open>One front door\<close>

definition state_path :: "string \<Rightarrow> string" where
  "state_path namespace = ''.run-'' @ namespace"

definition save_run :: "string \<Rightarrow> string \<Rightarrow> string \<Rightarrow> ('w \<times> local_files, unit) io" where
  "save_run namespace kind run_id = put_file (state_path namespace) (kind @ '' '' @ run_id @ newline)"

text \<open>\<open>s.partition(" ")\<close> without the separator.\<close>

definition partition_space :: "string \<Rightarrow> string \<times> string" where
  "partition_space s = (takeWhile (\<lambda>ch. ch \<noteq> CHR '' '') s, drop 1 (dropWhile (\<lambda>ch. ch \<noteq> CHR '' '') s))"

definition legacy_run :: "local_files \<Rightarrow> string \<Rightarrow> string \<Rightarrow> (string \<times> string) option" where
  "legacy_run fs path kind = (case map_of fs path of
     None \<Rightarrow> None
   | Some s \<Rightarrow> if strip s \<noteq> [] then Some (kind, strip s) else None)"

definition load_run :: "string \<Rightarrow> local_files \<Rightarrow> (string \<times> string) option" where
  "load_run namespace fs =
     (let legacy = (case legacy_run fs (runner_file namespace) ''batch'' of
                      Some r \<Rightarrow> Some r | None \<Rightarrow> legacy_run fs (simulation_file namespace) ''single'')
      in case map_of fs (state_path namespace) of
           None \<Rightarrow> legacy
         | Some s \<Rightarrow> (case partition_space (strip s) of (kind, run_id) \<Rightarrow>
             if kind \<noteq> [] \<and> run_id \<noteq> [] then Some (kind, run_id) else legacy))"

definition resolve :: "remote_args \<Rightarrow> local_files \<Rightarrow> (string \<times> string) option" where
  "resolve ra fs =
     (if ra_id ra \<noteq> [] then Some (if ra_batch ra then ''batch'' else ''single'', ra_id ra)
      else load_run (ra_namespace ra) fs)"

definition cmd_run :: "'w cli_env \<Rightarrow> 'w command" where
  "cmd_run env ra =
     (if (ra_scenario ra \<noteq> []) = (ra_scenario_dir ra \<noteq> []) then io_ret False
      else if ra_scenario_dir ra \<noteq> []
      then io_bind (run_scenario_batch env ra) (\<lambda>ok.
             if ok then io_bind (saved_id (runner_file (ra_namespace ra))) (\<lambda>rid. case rid of
                 Some r \<Rightarrow> if r \<noteq> [] then io_seq (save_run (ra_namespace ra) ''batch'' r) (io_ret ok) else io_ret ok
               | None \<Rightarrow> io_ret ok)
             else io_ret ok)
      else io_bind (run_simulation env ra) (\<lambda>ok.
             if ok then io_bind (saved_id (simulation_file (ra_namespace ra))) (\<lambda>sid. case sid of
                 Some s \<Rightarrow> io_seq (save_run (ra_namespace ra) ''single'' s) (io_ret ok)
               | None \<Rightarrow> io_ret ok)
             else io_ret ok))"

text \<open>The verbs about the active run; no command when there is none.\<close>

definition routed ::
    "remote_args \<Rightarrow> 'w command \<Rightarrow> 'w command \<Rightarrow> ('w \<times> local_files, bool) io" where
  "routed ra batch single = (\<lambda>(w, fs). case resolve ra fs of
       None \<Rightarrow> (Inr False, (w, fs))
     | Some (kind, run_id) \<Rightarrow>
         if run_id = [] then (Inr False, (w, fs))
         else if kind = ''batch'' then batch (ra\<lparr>ra_runner_id := run_id\<rparr>) (w, fs)
         else single (ra\<lparr>ra_sim_id := run_id\<rparr>) (w, fs))"

definition cmd_status :: "'w cli_env \<Rightarrow> 'w command" where
  "cmd_status env ra = routed ra (batch_status env) (status_remote env)"

definition cmd_logs :: "'w cli_env \<Rightarrow> 'w command" where
  "cmd_logs env ra = routed ra (batch_logs env) (\<lambda>ra'. if ra_download ra' then io_ret False else get_logs env ra')"

definition cmd_stop :: "'w cli_env \<Rightarrow> 'w command" where
  "cmd_stop env ra = routed ra (batch_stop env) (stop_remote env)"

definition cmd_skip :: "'w cli_env \<Rightarrow> 'w command" where
  "cmd_skip env ra = routed ra (batch_skip env) (\<lambda>_. io_ret False)"

datatype remote_verb = VDeploy | VRun | VStatus | VLogs | VStop | VSkip | VDownloadLogs

fun remote_command :: "'w cli_env \<Rightarrow> remote_verb \<Rightarrow> 'w command" where
  "remote_command env VDeploy = remote_deploy env"
| "remote_command env VRun = cmd_run env"
| "remote_command env VStatus = cmd_status env"
| "remote_command env VLogs = cmd_logs env"
| "remote_command env VStop = cmd_stop env"
| "remote_command env VSkip = (\<lambda>ra. cmd_skip env (ra\<lparr>ra_batch := True\<rparr>))"
| "remote_command env VDownloadLogs = download_logs_remote env"

text \<open>
  The verbs of the two older command lines; a verb one of them does not have is rejected when the
  arguments are read.
\<close>

fun single_command :: "'w cli_env \<Rightarrow> remote_verb \<Rightarrow> 'w command" where
  "single_command env VDeploy = remote_deploy env"
| "single_command env VRun = run_simulation env"
| "single_command env VStatus = status_remote env"
| "single_command env VStop = stop_remote env"
| "single_command env VLogs = get_logs env"
| "single_command env VDownloadLogs = download_logs_remote env"
| "single_command env VSkip = (\<lambda>_. io_ret False)"

fun batch_command :: "'w cli_env \<Rightarrow> remote_verb \<Rightarrow> 'w command" where
  "batch_command env VDeploy = remote_deploy env"
| "batch_command env VRun = run_scenario_batch env"
| "batch_command env VStatus = batch_status env"
| "batch_command env VLogs = batch_logs env"
| "batch_command env VStop = batch_stop env"
| "batch_command env VSkip = batch_skip env"
| "batch_command env VDownloadLogs = download_logs_remote env"

text \<open>The exit code; without a verb the help is printed.\<close>

definition remote_main ::
    "(remote_verb \<Rightarrow> 'w command) \<Rightarrow> remote_verb option \<Rightarrow> remote_args \<Rightarrow> ('w \<times> local_files, int) io" where
  "remote_main commands verb ra = (case verb of
     None \<Rightarrow> io_ret 1
   | Some v \<Rightarrow> io_bind (commands v ra) (\<lambda>ok. io_ret (if ok then 0 else 1)))"

section \<open>The run that was started is the active one\<close>

definition uuid_like :: "string \<Rightarrow> bool" where
  "uuid_like u = (u \<noteq> [] \<and> (\<forall>ch\<in>set u. \<not> is_space ch))"

lemma is_space_blank: "is_space (CHR '' '')" "is_space (CHR 0x0A)"
  by code_simp+

lemma drop_spaces_id: "s \<noteq> [] \<Longrightarrow> \<not> is_space (hd s) \<Longrightarrow> dropWhile is_space s = s"
  by (cases s) auto

lemma strip_id:
  assumes "s \<noteq> []" "\<not> is_space (hd s)" "\<not> is_space (last s)"
  shows "strip s = s"
  using assms drop_spaces_id[of s] drop_spaces_id[of "rev s"] by (simp add: strip_def hd_rev)

lemma strip_newline: "s \<noteq> [] \<Longrightarrow> \<not> is_space (hd s) \<Longrightarrow> strip (s @ newline) = strip s"
  by (cases s) (simp_all add: strip_def newline_def is_space_blank)

lemma uuid_strip: "uuid_like u \<Longrightarrow> strip u = u"
  by (intro strip_id) (auto simp: uuid_like_def)

lemma partition_saved:
  assumes "uuid_like u" "kind = ''batch'' \<or> kind = ''single''"
  shows "partition_space (strip (kind @ '' '' @ u @ newline)) = (kind, u)"
proof -
  have "strip (kind @ '' '' @ u @ newline) = kind @ '' '' @ u"
    using assms strip_newline[of "kind @ '' '' @ u"] strip_id[of "kind @ '' '' @ u"]
    by (auto simp: uuid_like_def is_space_def)
  then show ?thesis using assms(2) by (auto simp: partition_space_def)
qed

lemma load_saved_run:
  assumes "uuid_like u" "kind = ''batch'' \<or> kind = ''single''"
  shows "load_run namespace (AList.update (state_path namespace) (kind @ '' '' @ u @ newline) fs) = Some (kind, u)"
  using partition_saved[OF assms] assms by (auto simp: load_run_def update_conv' uuid_like_def Let_def)

lemma safely_True: "safely m w = (Inr True, w') \<Longrightarrow> m w = (Inr True, w')"
  by (auto simp: safely_def io_simps split: prod.splits sum.splits if_splits)

lemma remote_Inr: "remote m (w, fs) = (Inr x, (w', fs')) \<longleftrightarrow> m w = (Inr x, w') \<and> fs' = fs"
  by (auto simp: remote_def split: prod.splits)

lemma run_checked_Inr: "run_checked ops cmd inp w = (Inr p, w') \<longleftrightarrow> po_run ops cmd inp w = (Inr p, w') \<and> pc_code p = 0"
  by (auto simp: run_checked_def io_bind_Inr_iff io_ret_def io_raise_def split: if_splits)

lemma proxy_init_simulation:
  "proxy_init mops ops ns pod ctx auto_deploy prefix w = (Inr c, w') \<Longrightarrow> \<exists>w0 w1. po_uuid ops w0 = (Inr (px_simulation c), w1)"
  unfolding proxy_init_def by (simp add: io_bind_Inr_iff io_seq_def io_ret_Inr_iff Let_def) (elim exE conjE, simp, blast)

definition ran_well :: "'w proxy_ops \<Rightarrow> string list \<Rightarrow> bool" where
  "ran_well ops cmd = (\<exists>w p w'. po_run ops cmd None w = (Inr p, w') \<and> pc_code p = 0)"

lemma run_simulation_spec:
  assumes "run_simulation env ra (w, fs) = (Inr True, (w', fs'))"
  shows "\<exists>c w0 w1. po_uuid (ce_ops env) w0 = (Inr (px_simulation c), w1)
    \<and> ran_well (ce_ops env) (sh_command c (start_simulation_script c (ra_scenario ra) (ra_engine ra) (ra_image_prefix ra)))
    \<and> fs' = AList.update (simulation_file (ra_namespace ra)) (px_simulation c) fs"
  using safely_True[OF assms[unfolded run_simulation_def]]
  by (fastforce simp: io_bind_Inr_iff io_seq_def io_ret_Inr_iff open_proxy_def remote_Inr start_simulation_def
      run_checked_Inr put_file_def ran_well_def dest: proxy_init_simulation)

lemma run_batch_spec:
  assumes "run_scenario_batch env ra (w, fs) = (Inr True, (w', fs'))"
  shows "\<exists>c u w0 w1. po_uuid (ce_ops env) w0 = (Inr u, w1)
    \<and> ran_well (ce_ops env) (sh_command c (start_runner_script c u (ra_scenario_dir ra) (ra_engine ra)
        (ra_image_prefix ra) (ra_cleanup_wait ra)))
    \<and> fs' = AList.update (runner_file (ra_namespace ra)) u fs"
  using safely_True[OF assms[unfolded run_scenario_batch_def]]
  by (fastforce simp: io_bind_Inr_iff io_seq_def io_ret_Inr_iff open_proxy_def remote_Inr start_scenario_runner_def
      run_checked_Inr put_file_def ran_well_def)

text \<open>
  Claim C36. A run command that succeeded leaves as the active run of the namespace the very run it
  started, of the kind that was asked for: the script that starts that identifier ran in the pod and
  ended with code zero, and the verbs without an identifier resolve to it, whatever files earlier runs
  left.
\<close>

theorem active_run_is_the_one_started:
  assumes uuids: "\<And>w u w'. po_uuid (ce_ops env) w = (Inr u, w') \<Longrightarrow> uuid_like u"
    and run: "cmd_run env ra (w, fs) = (Inr True, (w', fs'))" and "ra_id ra = []"
  shows "\<exists>c u. resolve ra fs' = Some (if ra_scenario_dir ra \<noteq> [] then ''batch'' else ''single'', u)
    \<and> ran_well (ce_ops env) (sh_command c
        (if ra_scenario_dir ra \<noteq> []
         then start_runner_script c u (ra_scenario_dir ra) (ra_engine ra) (ra_image_prefix ra) (ra_cleanup_wait ra)
         else start_simulation_script (c\<lparr>px_simulation := u\<rparr>) (ra_scenario ra) (ra_engine ra) (ra_image_prefix ra)))"
proof (cases "ra_scenario_dir ra = []")
  case True
  obtain w1 fs1 where first: "run_simulation env ra (w, fs) = (Inr True, (w1, fs1))"
    using run True by (auto simp: cmd_run_def io_bind_Inr_iff io_ret_Inr_iff split: if_splits)
  obtain c w2 w3 where c: "po_uuid (ce_ops env) w2 = (Inr (px_simulation c), w3)"
      "ran_well (ce_ops env) (sh_command c (start_simulation_script c (ra_scenario ra) (ra_engine ra) (ra_image_prefix ra)))"
      "fs1 = AList.update (simulation_file (ra_namespace ra)) (px_simulation c) fs"
    using run_simulation_spec[OF first] by blast
  have u: "uuid_like (px_simulation c)" using uuids c(1) by blast
  have "fs' = AList.update (state_path (ra_namespace ra)) (''single'' @ '' '' @ px_simulation c @ newline) fs1"
    using run True first c(3) uuid_strip[OF u]
    by (auto simp: cmd_run_def io_bind_def io_seq_def saved_id_def save_run_def put_file_def update_conv' io_ret_def split: if_splits)
  then have "resolve ra fs' = Some (''single'', px_simulation c)"
    using load_saved_run[OF u, of "''single''"] \<open>ra_id ra = []\<close> by (simp add: resolve_def)
  moreover have "c\<lparr>px_simulation := px_simulation c\<rparr> = c" by simp
  ultimately show ?thesis using c(2) True by (intro exI[of _ c] exI[of _ "px_simulation c"]) simp
next
  case False
  obtain w1 fs1 where first: "run_scenario_batch env ra (w, fs) = (Inr True, (w1, fs1))"
    using run False by (auto simp: cmd_run_def io_bind_Inr_iff io_ret_Inr_iff split: if_splits)
  obtain c u w2 w3 where c: "po_uuid (ce_ops env) w2 = (Inr u, w3)"
      "ran_well (ce_ops env) (sh_command c (start_runner_script c u (ra_scenario_dir ra) (ra_engine ra)
        (ra_image_prefix ra) (ra_cleanup_wait ra)))"
      "fs1 = AList.update (runner_file (ra_namespace ra)) u fs"
    using run_batch_spec[OF first] by blast
  have u: "uuid_like u" using uuids c(1) by blast
  have "fs' = AList.update (state_path (ra_namespace ra)) (''batch'' @ '' '' @ u @ newline) fs1"
    using run False first c(3) uuid_strip[OF u] u
    by (auto simp: cmd_run_def io_bind_def io_seq_def saved_id_def save_run_def put_file_def update_conv' io_ret_def
        uuid_like_def split: if_splits)
  then have "resolve ra fs' = Some (''batch'', u)"
    using load_saved_run[OF u, of "''batch''"] \<open>ra_id ra = []\<close> by (simp add: resolve_def)
  then show ?thesis using c(2) False by auto
qed

text \<open>A single run is never skipped: nothing is sent to the cluster.\<close>

theorem skip_leaves_single_runs_alone:
  assumes "resolve ra fs = Some (''single'', u)"
  shows "cmd_skip env ra (w, fs) = (Inr False, (w, fs))"
  using assms by (simp add: cmd_skip_def routed_def io_ret_def)

text \<open>A batch started where an older single run is still noted.\<close>

definition answering_env :: "nat cli_env" where
  "answering_env = \<lparr>ce_manifests = \<lparr>mo_exists = (\<lambda>_. False), mo_load = (\<lambda>_. Inr JNull), mo_dump = (\<lambda>_. [])\<rparr>,
     ce_ops = two_parts_ops\<lparr>po_run := (\<lambda>cmd inp w. (Inr \<lparr>pc_code = 0, pc_out = ''connection_test'', pc_err = []\<rparr>, Suc w))\<rparr>,
     ce_copy = flaky_copy\<rparr>"

definition batch_args :: remote_args where
  "batch_args = \<lparr>ra_namespace = ''ns'', ra_context = [], ra_image_prefix = ''me/'', ra_scenario = [],
     ra_scenario_dir = ''/app/batch'', ra_engine = ''wasabi'', ra_cleanup_wait = 90, ra_id = [], ra_batch = False,
     ra_sim_id = [], ra_runner_id = [], ra_lines = 50, ra_follow = False, ra_download = False,
     ra_destination = ''./logs'', ra_all_logs = False, ra_last_n = None\<rparr>"

theorem active_run_is_the_one_started_witness:
  "\<exists>c u. resolve batch_args [(''.run-ns'', ''batch 0a1b2c3d'' @ newline), (''.runner-ns'', ''0a1b2c3d'')] = Some (''batch'', u)
    \<and> ran_well (ce_ops answering_env) (sh_command c (start_runner_script c u ''/app/batch'' ''wasabi'' ''me/'' 90))"
proof -
  have run: "cmd_run answering_env batch_args (0, [(''.run-ns'', ''single 99999999'' @ newline)])
      = (Inr True, (2, [(''.run-ns'', ''batch 0a1b2c3d'' @ newline), (''.runner-ns'', ''0a1b2c3d'')]))"
    by code_simp
  have uuid: "uuid_like ''0a1b2c3d''" by code_simp
  have "uuid_like u" if "po_uuid (ce_ops answering_env) w = (Inr u, w')" for w u w'
    using that uuid by (auto simp: answering_env_def two_parts_ops_def)
  from active_run_is_the_one_started[OF this run] show ?thesis
    by (simp add: batch_args_def)
qed

end
