(* ===== verification/EngineRun.thy ===== *)
theory EngineRun
  imports EngineBase Kept
begin

text \<open>
  A whole run of an engine, \<open>EngineBase.run\<close> in \<open>manager/engine/engine_base.py\<close>: loading the scenario,
  starting the Bitcoin node, the order in which infrastructure, clients and funding come, and stopping
  the clients and reporting the containers afterwards. What an engine adds through its hooks is an
  argument.
\<close>

section \<open>The scenario\<close>

datatype load_error = UnreadableScenario exn | InvalidScenario config_error

text \<open>
  A file is read by \<open>run\<close> with a scenario argument, any other command keeps the engine's own scenario.
  The result is the scenario and the versions the run needs.
\<close>

definition scenario_versions :: "scenario_config \<Rightarrow> json list" where
  "scenario_versions s =
     remdups (sc_default_version s # filter (\<lambda>v. v \<noteq> JNull) (sc_distributor_version s # map w_version (sc_wallets s)))"

definition load_scenario ::
    "(string \<Rightarrow> exn + json) \<Rightarrow> string \<Rightarrow> string \<Rightarrow> string \<Rightarrow> scenario_config
       \<Rightarrow> load_error + scenario_config \<times> json list" where
  "load_scenario read command path engine own =
     ebind (if command = ''run'' \<and> path \<noteq> []
            then (case read path of
                    Inl e \<Rightarrow> Inl (UnreadableScenario e)
                  | Inr j \<Rightarrow> (case from_json_config j of Inl e \<Rightarrow> Inl (InvalidScenario e) | Inr s \<Rightarrow> Inr s))
            else Inr own)
       (\<lambda>s. case validate_for_engine s engine of
          Inl e \<Rightarrow> Inl (InvalidScenario e)
        | Inr _ \<Rightarrow> Inr (s, scenario_versions s))"

section \<open>The Bitcoin node\<close>

record node_args =
  na_folder :: string
  na_extra :: "string list"

record node_request =
  nr_image :: string
  nr_ports :: "(int \<times> int) list"
  nr_cpu :: rat
  nr_memory :: int
  nr_service_account :: string
  nr_env :: "(string \<times> string) list"
  nr_volume :: "(string \<times> string \<times> string) option"
  nr_command :: "string list option"
  nr_user :: "int option"
  nr_group :: "int option"

definition storage_identity :: "(string \<Rightarrow> string) \<Rightarrow> node_args \<Rightarrow> int option \<times> int option" where
  "storage_identity getenv args =
     (if na_folder args = [] then (None, None)
      else case positive_int_env (getenv ''KUBERNETES_STORAGE_UID'') of
             None \<Rightarrow> (None, None)
           | Some u \<Rightarrow> (Some u, positive_int_env (getenv ''KUBERNETES_STORAGE_GID'')))"

text \<open>\<open>getenv\<close> is \<open>os.environ.get\<close> with the empty text for a variable that is not set.\<close>

definition btc_node_request :: "(string \<Rightarrow> string) \<Rightarrow> (string \<Rightarrow> string) \<Rightarrow> image_args \<Rightarrow> node_args \<Rightarrow> node_request" where
  "btc_node_request getenv abspath images args =
     \<lparr>nr_image = image_ref images ''btc-node'', nr_ports = [(18443, 18443), (18444, 18444)], nr_cpu = 2,
      nr_memory = 2048, nr_service_account = ''btc-node'',
      nr_env = (let n = getenv ''COINJOIN_BTC_NODE_INITIAL_BLOCK_COUNT''
                in if n \<noteq> [] then [(''COINJOIN_INITIAL_BLOCK_COUNT'', n)] else []),
      nr_volume = (if na_folder args \<noteq> [] then Some (abspath (na_folder args), ''/home/bitcoin/data'', ''rw'') else None),
      nr_command = (if na_extra args \<noteq> [] then Some (''./run.sh'' # na_extra args) else None),
      nr_user = fst (storage_identity getenv args),
      nr_group = snd (storage_identity getenv args)\<rparr>"

definition start_btc_node ::
    "(node_request \<Rightarrow> ('w, container_endpoint) io) \<Rightarrow> (string \<Rightarrow> int \<Rightarrow> string \<Rightarrow> ('w, unit) io) \<Rightarrow> endpoint_args
       \<Rightarrow> node_request \<Rightarrow> ('w, unit) io" where
  "start_btc_node run wait_ready args req =
     io_bind (run req) (\<lambda>(ip, ports, route).
       io_bind (io_lift (service_endpoint args ip 18443 ports route False)) (\<lambda>(host, port).
         wait_ready host port ip))"

section \<open>The run\<close>






section \<open>Afterwards\<close>

text \<open>Every client is asked to stop; the answer is how many did.\<close>

definition stop_single_client :: "('c \<Rightarrow> ('w, unit) io) \<Rightarrow> 'c \<Rightarrow> ('w, bool) io" where
  "stop_single_client stop c = io_catch (io_seq (stop c) (io_ret True)) is_exception (\<lambda>_. io_ret False)"

definition stop_coinjoins :: "('c \<Rightarrow> ('w, unit) io) \<Rightarrow> 'c list \<Rightarrow> ('w, nat) io" where
  "stop_coinjoins stop clients =
     io_bind (io_traverse (stop_single_client stop) clients) (\<lambda>rs. io_ret (length (filter (\<lambda>b. b) rs)))"

definition state_line :: "(string \<Rightarrow> ('w, string) io) \<Rightarrow> string \<Rightarrow> ('w, string) io" where
  "state_line container_state name =
     io_bind (io_catch (container_state name) is_exception (\<lambda>e. io_ret (''unknown ('' @ exn_msg e @ '')'')))
       (\<lambda>s. io_ret (''- '' @ name @ '': '' @ (if s \<noteq> [] then s else ''unknown'')))"

definition report_infrastructure_state :: "(string \<Rightarrow> ('w, string) io) \<Rightarrow> string list \<Rightarrow> ('w, string list) io" where
  "report_infrastructure_state container_state names = io_traverse (state_line container_state) names"

section \<open>The node never runs as root on request\<close>

lemma positive_int_env_positive: "positive_int_env raw = Some n \<Longrightarrow> 0 < n"
  by (auto simp: positive_int_env_def Let_def split: if_splits)

theorem node_identity_is_not_root:
  "nr_user (btc_node_request getenv abspath images args) \<noteq> Some 0
   \<and> nr_group (btc_node_request getenv abspath images args) \<noteq> Some 0
   \<and> (nr_user (btc_node_request getenv abspath images args) = None
      \<longrightarrow> nr_group (btc_node_request getenv abspath images args) = None)"
  by (auto simp: btc_node_request_def storage_identity_def split: option.splits dest!: positive_int_env_positive)

section \<open>Funding comes before mixing\<close>


















section \<open>What the first payments leave and pay\<close>


text \<open>The values of the funds whose delays are over at the start of a run.\<close>

definition start_funds :: "fund list \<Rightarrow> json list" where
  "start_funds fs = List.map_filter (\<lambda>f. case fund_plan f of
       Inr (v, b, r) \<Rightarrow> if b \<le> 0 \<and> r \<le> 0 then Some v else None | Inl e \<Rightarrow> None) fs"

lemma start_funds_simps [simp]:
  "start_funds [] = []"
  "start_funds (f # fs) = (case fund_plan f of Inr (v, b, r) \<Rightarrow> (if b \<le> 0 \<and> r \<le> 0 then [v] else []) | Inl e \<Rightarrow> []) @ start_funds fs"
  by (auto simp: start_funds_def map_filter_def split: sum.splits prod.splits)




section \<open>Funding comes before mixing\<close>








section \<open>Stopping reaches every client\<close>

text \<open>A client that cannot be stopped keeps no other from being stopped, and the answer counts the ones that were.\<close>

theorem every_client_is_stopped:
  assumes "\<And>c w e w'. stop c w = (Inl e, w') \<Longrightarrow> is_exception e"
  shows "\<exists>n w'. stop_coinjoins stop clients w = (Inr n, w') \<and> n \<le> length clients"
proof -
  have "\<exists>rs w'. io_traverse (stop_single_client stop) clients w = (Inr rs, w') \<and> length rs = length clients" for w
  proof (induction clients arbitrary: w)
    case (Cons c cs)
    obtain q v where q: "stop c w = (q, v)" by fastforce
    then obtain b w1 where "stop_single_client stop c w = (Inr b, w1)"
      using assms[of c w] by (cases q) (auto simp: stop_single_client_def io_simps)
    then show ?case using Cons.IH[of w1] by (auto simp: io_bind_def io_ret_def)
  qed (simp add: io_ret_def)
  from this[of w] obtain rs w' where rs: "io_traverse (stop_single_client stop) clients w = (Inr rs, w')" "length rs = length clients"
    by blast
  then show ?thesis
    using length_filter_le[of "\<lambda>b. b" rs] by (auto simp: stop_coinjoins_def io_bind_def io_ret_def)
qed

end
