(* ===== verification/Spec2Isabelle.thy ===== *)
theory Spec2Isabelle
  imports Postmix JmPostmix JmUpdate EngineBase BtcNode JmProtocol RunStore RunManager ScenarioRunner WasabiEngine GenScen ResourceUsage Openshift RemoteCli EngineRun
begin

text \<open>
  Verification development of the CoinJoin emulator (the Python program under \<open>src/manager.py\<close>,
  \<open>src/scenario_runner.py\<close> and \<open>src/manager/\<close>). The emulator starts a regtest Bitcoin node and the
  services and wallets of a CoinJoin protocol in containers, funds the wallets, lets them mix under a
  scenario, and stores what happened together with evidence of which rounds are real.

  \<^bold>\<open>The program and its parts\<close>

  A run begins in \<open>manager.py\<close>: a container driver (Docker, Podman, Kubernetes, OpenShift) and an engine
  (Wasabi or JoinMarket) are chosen, a scenario file is parsed and validated, and the engine's \<open>run\<close> goes
  through images, node, services, distributor, clients, invoices and its own loop. The loop watches the
  block height, pays invoices and postmix spends that are due, and updates the clients, which talk HTTP
  to their wallets. Whatever happens, the cleanup stops the clients, stores logs and data and removes the
  containers, and the exit code and marker files tell a controller the outcome. \<open>scenario_runner.py\<close> runs a
  directory of scenarios one after the other; \<open>manager/commands/\<close> generates scenario files; the local proxy
  and its command lines drive an emulator that itself runs inside a cluster.

  \<^bold>\<open>Theories\<close>

  \<^item> \<open>Prelude\<close>: JSON values, dictionaries, exceptions as values, the effect type \<open>io\<close> with its combinators
    (\<open>try\<close>, \<open>finally\<close>, loops, thread pools, polling), strings and numbers as text. \<open>Kept\<close>: relations between
    states that every combinator keeps, as the locale \<open>kept_relation\<close>, which the components interpret for
    what their calls leave alone.
  \<^item> \<open>Config\<close>: \<open>engine/configuration.py\<close>. The records are the dataclasses; the locale \<open>json_codec\<close> (what is
    parsed is well-formed, what is written parses back) is interpreted for spends, funds, wallets and
    scenarios.
  \<^item> \<open>EngineBase\<close>, \<open>EngineRun\<close>, \<open>RunStore\<close>: \<open>engine/engine_base.py\<close> and \<open>engine/base/manifest.py\<close>. Images,
    endpoints, starting and retrying clients, funding, invoices; the order of a whole run; the manifest of
    producer labels and the archive of a run.
  \<^item> \<open>RunManager\<close>, \<open>ScenarioRunner\<close>: \<open>manager.py\<close> and \<open>scenario_runner.py\<close>. Exit codes, cleanup, markers, the
    choice of the driver; the batch loop with its signals and retries.
  \<^item> \<open>BtcNode\<close>: \<open>btc_node.py\<close>, \<open>bitcoin_readiness.py\<close>, \<open>btc_datadir_snapshot.py\<close>. RPC, the readiness waits,
    the copy of a frozen data directory.
  \<^item> \<open>RoundEvents\<close>: \<open>engine/joinmarket/\<close> without its wallets. Event records, views of blocks, the matching of
    attempts with transactions, the status reconciliation, the evidence.
  \<^item> \<open>JmClient\<close>, \<open>JmRpc\<close>, \<open>JmWallet\<close>, \<open>JmUpdate\<close>: \<open>wasabi_clients/joinmarket_clients/\<close>. The client's state and
    decisions, the synchronous and asynchronous transport with token renewal, the endpoints, the handlers of
    makers, takers, tumblers and the order book. The locales \<open>jm_transport\<close> and \<open>jm_clients\<close> state what the
    handlers rely on and are interpreted for both transports.
  \<^item> \<open>JmEngine\<close>, \<open>JmProtocol\<close>: \<open>engine/joinmarket_engine.py\<close>, and an abstract machine of rounds that every run
    of the engine refines. \<open>JmPostmix\<close>, \<open>Postmix\<close>, \<open>Coins\<close>: \<open>engine/joinmarket/postmix.py\<close>,
    \<open>engine/postmix_spends.py\<close> and the coin selections of both wallets, which share the locale
    \<open>coin_selector\<close>.
  \<^item> \<open>WasabiClient\<close>, \<open>WasabiRounds\<close>, \<open>WasabiEngine\<close>: \<open>wasabi_clients/wasabi_client_*.py\<close>, \<open>wasabi_backend*.py\<close>,
    \<open>wasabi_coordinator.py\<close>, \<open>wasabi_backend_factory.py\<close> and \<open>engine/wasabi_engine.py\<close>.
  \<^item> \<open>Draws\<close>, \<open>Floats\<close>, \<open>GenScenJm\<close>, \<open>GenScenClass\<close>, \<open>GenScen\<close>: the scenario generators in \<open>commands/\<close>.
  \<^item> \<open>Base64\<close>, \<open>Shell\<close>, \<open>Kubernetes\<close>, \<open>Openshift\<close>, \<open>Docker\<close>, \<open>ResourceUsage\<close>: the drivers in \<open>driver/\<close>.
  \<^item> \<open>LocalProxy\<close>, \<open>ProxyDownload\<close>, \<open>ProxyRun\<close>, \<open>RemoteCli\<close>: \<open>kubernetes_local_proxy.py\<close>,
    \<open>manager_remote.py\<close>, \<open>manager_remote_batch.py\<close>, \<open>remote_cli.py\<close>.

  \<^bold>\<open>How code corresponds to definitions\<close>

  A definition has the name of its function where Isabelle allows it and takes the object's attributes as a
  record or as state. A method that changes \<open>self\<close> works on the pair of world and object
  (\<open>client_io\<close>, \<open>engine_io\<close>). Everything outside the repository is an argument: the HTTP libraries, the
  container and Kubernetes libraries, \<open>kubectl\<close> and \<open>oc\<close>, numpy, the hash and key derivation, the decoding of
  answers, the file system and the clock are operations of a record such as \<open>engine_ops\<close>, \<open>k8s_ops\<close>,
  \<open>container_api\<close> or \<open>proxy_ops\<close>, on an arbitrary world. A theorem that needs more of them than their types
  says so in a hypothesis, and its witness shows an instance.

  What is printed is left out, except where it is the result. A \<open>float\<close> is the rational number it stands
  for; the rounding of its operations is modelled in \<open>Floats\<close> for the products and quotients that the
  generators cut off to a count of wallets, rounds or coins, and left out elsewhere (a sum in satoshis may
  differ by one).
  Random choices are explicit: a stream of raw draws in \<open>Draws\<close>, else a function argument with the law that
  it permutes. Tasks of a thread pool, and of \<open>asyncio.gather\<close>, run one after the other.

  \<^bold>\<open>Loops\<close>

  Loops over data are recursion on the data. Loops that wait take fuel, and running out of fuel is the
  exception \<open>KDiverged\<close>, which no handler catches: a theorem that a call returns says that it is not
  diverged. The bounds are those of the code: 16 turns and 61 turns for the two retry loops of the
  JoinMarket client and 17 requests for its session, recursion depth two for the renewal of tokens,
  two turns a second plus one for readiness, ten polls a second for the waits of the Wasabi wallets, 300 polls
  for the settlement of a payment, 1801 looks for the address of a pod and 121 for its end, 60 for a pod of
  OpenShift, three starts of a coordinator, three copies of a file. The engines' own loops end when their
  limit is reached, which depends on the wallets, and take fuel as an argument.

  \<^bold>\<open>What the lemmas show\<close>

  The protocol of rounds: a whole run of the JoinMarket engine refines the abstract machine, no client has
  two pending attempts, the round counter is the number of confirmed rounds, interrupted scans can be
  repeated, the status of an event is decided as documented for any blocks. Money: invoices leave the
  schedule exactly when paid, all the initial ones before mixing begins, spends are never sent twice, frozen
  coins are released unless the daemon refuses, coin selections are exact and fail only for lack of coins. Waiting: calls return, quiet
  tips and settled wallets are what they say. Leaving: the exit code is zero exactly when every step
  succeeded, logs are stored on every path, batches have one entry per scenario, cleanups touch only what is
  their own. Texts: scenarios, transfers, shell commands and state files are read back as they were
  written. Several theorems record where the code departs from what it means to do; they stand beside the
  definitions they are about.

  \<^bold>\<open>Not modelled\<close>

  The declarations of the argument parsers, the redirection of the console into a file
  (\<open>run_log.py\<close>, \<open>process_output.py\<close>), the copying of the order book snapshots and the closing of HTTP
  clients at the end of a run, building and pulling images and reading container logs (single calls of a
  library), protocol classes and constants, the images, patches and shell scripts under \<open>containers/\<close> and
  \<open>scenarios/\<close>, the type stubs, and the tests. Concurrency inside a thread pool is not modelled beyond the
  sequence of its tasks.
\<close>

end
